(* ===== verification/Prelude.thy ===== *)
theory Prelude
  imports Main
begin

text \<open>
  Shared vocabulary of the development: identifiers and times, the exceptions the services
  throw, the result type of a handler, and the two facts about tables every component uses
  (a row is looked up by a predicate, and saving a loaded entity overwrites the row with its
  primary key). The \<open>repository\<close> locale states what a component relies on when it loads and
  saves rows of one table; every table of the store interprets it in the theory Store.
\<close>

named_theorems frame \<open>which parts of the state an operation leaves alone\<close>
named_theorems handler_defs \<open>definitions of handlers, unfolded branch by branch\<close>

section \<open>Identifiers, times, exceptions\<close>

text \<open>
  Primary keys are uuids; only their identity matters, so a natural number stands for one.
  A time is the value of \<open>Date.getTime()\<close>: milliseconds, possibly negative.
\<close>

type_synonym uuid = nat
type_synonym time = int

text \<open>
  The exceptions of the services. \<open>UniqueViolation\<close> is the driver error Postgres raises when an
  insert breaks a unique index; \<open>PlainError\<close> is a bare \<open>Error\<close>. The fixed part of a message is
  kept, interpolated values are dropped.
\<close>

datatype app_error =
    BadRequestException string
  | ConflictException string
  | NotFoundException string
  | ForbiddenException string
  | UnauthorizedException string
  | UniqueViolation
  | PlainError string

type_synonym 'a result = "app_error + 'a"

fun isUniqueViolation :: "app_error \<Rightarrow> bool" where
  "isUniqueViolation UniqueViolation = True"
| "isUniqueViolation _ = False"

fun isConflictException :: "app_error \<Rightarrow> bool" where
  "isConflictException (ConflictException m) = True"
| "isConflictException _ = False"

definition is_error :: "'a result \<Rightarrow> bool" where
  "is_error r \<longleftrightarrow> (case r of Inl e \<Rightarrow> True | Inr x \<Rightarrow> False)"

lemma is_error_simps [simp]: "is_error (Inl e)" "\<not> is_error (Inr x)"
  by (simp_all add: is_error_def)

lemma not_is_error_iff: "\<not> is_error r \<longleftrightarrow> (\<exists>x. r = Inr x)"
  by (cases r) simp_all

section \<open>Tables as lists of rows in insertion order\<close>

definition put_row :: "('r \<Rightarrow> uuid) \<Rightarrow> 'r \<Rightarrow> 'r list \<Rightarrow> 'r list" where
  "put_row k r t = map (\<lambda>x. if k x = k r then r else x) t"

definition by_id :: "('r \<Rightarrow> uuid) \<Rightarrow> uuid \<Rightarrow> 'r list \<Rightarrow> 'r option" where
  "by_id k i t = find (\<lambda>x. k x = i) t"

lemma find_SomeD: "find P t = Some r \<Longrightarrow> r \<in> set t \<and> P r"
  by (induction t) (auto split: if_splits)

lemma find_NoneD: "find P t = None \<Longrightarrow> r \<in> set t \<Longrightarrow> \<not> P r"
  by (induction t) (auto split: if_splits)

lemma find_append:
  "find P (xs @ ys) = (case find P xs of Some x \<Rightarrow> Some x | None \<Rightarrow> find P ys)"
  by (induction xs) auto

lemma by_id_SomeD: "by_id k i t = Some r \<Longrightarrow> r \<in> set t \<and> k r = i"
  unfolding by_id_def by (drule find_SomeD) simp

lemma by_id_None_iff: "by_id k i t = None \<longleftrightarrow> i \<notin> k ` set t"
  unfolding by_id_def by (induction t) auto

lemma by_id_put_row_same:
  "by_id k i t = Some r \<Longrightarrow> k r' = i \<Longrightarrow> by_id k i (put_row k r' t) = Some r'"
  unfolding by_id_def put_row_def by (induction t) (auto split: if_splits)

lemma by_id_put_row_other:
  "k r' \<noteq> i \<Longrightarrow> by_id k i (put_row k r' t) = by_id k i t"
  unfolding by_id_def put_row_def by (induction t) auto

lemma keys_put_row: "map k (put_row k r t) = map k t"
  unfolding put_row_def by (induction t) auto

lemma length_put_row [simp]: "length (put_row k r t) = length t"
  by (simp add: put_row_def)

lemma put_row_absent: "k r \<notin> k ` set t \<Longrightarrow> put_row k r t = t"
  unfolding put_row_def by (induction t) auto

lemma put_row_put_row: "k r = k r' \<Longrightarrow> put_row k r (put_row k r' t) = put_row k r t"
  unfolding put_row_def by (induction t) auto

lemma set_put_rowD: "x \<in> set (put_row k r t) \<Longrightarrow> x = r \<or> (x \<in> set t \<and> k x \<noteq> k r)"
  unfolding put_row_def by (induction t) (auto split: if_splits)

lemma by_id_unique:
  "distinct (map k t) \<Longrightarrow> r \<in> set t \<Longrightarrow> by_id k (k r) t = Some r"
  unfolding by_id_def by (induction t) (auto simp: rev_image_eqI)

lemma by_id_append:
  "by_id k i (t @ u) = (case by_id k i t of Some r \<Rightarrow> Some r | None \<Rightarrow> by_id k i u)"
  unfolding by_id_def by (induction t) auto

lemma filter_put_row_unmatched:
  "(\<And>x. x \<in> set t \<Longrightarrow> k x = k r \<Longrightarrow> P x = P r) \<Longrightarrow>
   map k (filter P (put_row k r t)) = map k (filter P t)"
  unfolding put_row_def by (induction t) auto

section \<open>The interface of a table\<close>

text \<open>
  What a service relies on when it loads a row by its id, changes the entity and saves it:
  the saved entity, in the form the columns store it, is what the next lookup of that id
  returns, every other id is untouched, and the set of primary keys does not change.
\<close>

locale repository =
  fixes key :: "'r \<Rightarrow> uuid"
    and rows :: "'d \<Rightarrow> 'r list"
    and save :: "'r \<Rightarrow> 'd \<Rightarrow> 'd"
    and stored :: "'r \<Rightarrow> 'r"
  assumes rows_save: "rows (save r d) = put_row key (stored r) (rows d)"
    and key_stored: "key (stored r) = key r"
begin

lemma lookup_saved:
  "by_id key i (rows d) = Some r \<Longrightarrow> key r' = i \<Longrightarrow>
   by_id key i (rows (save r' d)) = Some (stored r')"
  by (simp add: rows_save key_stored by_id_put_row_same)

lemma lookup_other:
  "key r' \<noteq> i \<Longrightarrow> by_id key i (rows (save r' d)) = by_id key i (rows d)"
  by (simp add: rows_save key_stored by_id_put_row_other)

lemma keys_saved: "map key (rows (save r d)) = map key (rows d)"
  by (simp add: rows_save keys_put_row)

lemma save_twice: "key r = key r' \<Longrightarrow> rows (save r (save r' d)) = rows (save r d)"
  by (simp add: rows_save key_stored put_row_put_row)

lemma distinct_saved: "distinct (map key (rows d)) \<Longrightarrow> distinct (map key (rows (save r d)))"
  by (simp add: keys_saved)

lemma in_savedD:
  "x \<in> set (rows (save r d)) \<Longrightarrow> x = stored r \<or> (x \<in> set (rows d) \<and> key x \<noteq> key r)"
  by (drule set_put_rowD [of x key "stored r" "rows d", folded rows_save]) (simp add: key_stored)

end

section \<open>The interface of a status machine\<close>

text \<open>
  The status policies list, for every status, the statuses it may move to. What the handlers
  rely on is that a move is always forward: no status is ever visited twice, and a status with
  no successor is final.
\<close>

locale status_machine =
  fixes successors :: "'s \<Rightarrow> 's list"
    and rank :: "'s \<Rightarrow> nat"
  assumes forward: "t \<in> set (successors s) \<Longrightarrow> rank s < rank t"
begin

lemma path_forward: "(\<lambda>s t. t \<in> set (successors s))\<^sup>+\<^sup>+ s t \<Longrightarrow> rank s < rank t"
  by (induction rule: tranclp_induct) (auto dest: forward)

lemma never_revisited: "\<not> (\<lambda>s t. t \<in> set (successors s))\<^sup>+\<^sup>+ s s"
  by (auto dest: path_forward)

lemma final_stays:
  "(\<lambda>s t. t \<in> set (successors s))\<^sup>*\<^sup>* s t \<Longrightarrow> successors s = [] \<Longrightarrow> t = s"
  by (induction rule: converse_rtranclp_induct) auto

lemma no_self_move: "s \<notin> set (successors s)"
  by (auto dest: forward)

end

section \<open>Sequencing computations that may throw\<close>

definition rbind :: "'a result \<Rightarrow> ('a \<Rightarrow> 'b result) \<Rightarrow> 'b result" where
  "rbind r f = (case r of Inl e \<Rightarrow> Inl e | Inr x \<Rightarrow> f x)"

fun rmap :: "('a \<Rightarrow> 'b result) \<Rightarrow> 'a list \<Rightarrow> 'b list result" where
  "rmap f [] = Inr []"
| "rmap f (x # xs) = rbind (f x) (\<lambda>y. rbind (rmap f xs) (\<lambda>ys. Inr (y # ys)))"

lemma rbind_simps [simp]: "rbind (Inl e) f = Inl e" "rbind (Inr x) f = f x"
  by (simp_all add: rbind_def)

lemma rbind_Inr_iff: "rbind r f = Inr y \<longleftrightarrow> (\<exists>x. r = Inr x \<and> f x = Inr y)"
  by (cases r) auto

lemma rmap_Inr: "(\<And>x. x \<in> set xs \<Longrightarrow> f x = Inr (g x)) \<Longrightarrow> rmap f xs = Inr (map g xs)"
  by (induction xs) auto

lemma rmap_cong: "xs = ys \<Longrightarrow> (\<And>x. x \<in> set ys \<Longrightarrow> f x = g x) \<Longrightarrow> rmap f xs = rmap g ys"
proof (induction xs arbitrary: ys)
  case (Cons x xs)
  then show ?case by (cases ys) auto
qed simp

section \<open>Sums over lists of integers\<close>

lemma sum_list_nonneg_int: "(\<And>x. x \<in> set xs \<Longrightarrow> 0 \<le> x) \<Longrightarrow> 0 \<le> sum_list (xs :: int list)"
  by (induction xs) auto

lemma sum_list_map_diff_int:
  "sum_list (map (\<lambda>x. f x - g x) xs) = sum_list (map f xs) - (sum_list (map g xs) :: int)"
  by (induction xs) auto

end
