(* ===== verification/Money.thy ===== *)
theory Money
  imports Prelude "HOL-Library.Signed_Division"
begin

text \<open>
  Integer-cent arithmetic of \<open>common/utils/money.ts\<close>: the conversion between the decimal strings
  of the \<open>numeric(12,2)\<close> columns and bigint cents, sums, percentages and ratios with round half
  up. JavaScript's bigint is unbounded, so \<open>int\<close>; its division truncates towards zero, so
  \<open>sdiv\<close> and \<open>smod\<close>. Strings are lists of code units below 256.
\<close>

section \<open>Strings\<close>

definition code :: "char \<Rightarrow> nat" where
  "code c = of_char c"

definition is_ws :: "char \<Rightarrow> bool" where
  "is_ws c \<longleftrightarrow> (9 \<le> code c \<and> code c \<le> 13) \<or> code c = 32 \<or> code c = 160"

definition is_digit :: "char \<Rightarrow> bool" where
  "is_digit c \<longleftrightarrow> 48 \<le> code c \<and> code c \<le> 57"

definition js_trim :: "string \<Rightarrow> string" where
  "js_trim s = rev (dropWhile is_ws (rev (dropWhile is_ws s)))"

fun split_on :: "char \<Rightarrow> string \<Rightarrow> string list" where
  "split_on c [] = [[]]"
| "split_on c (x # xs) =
     (if x = c then [] # split_on c xs
      else (case split_on c xs of [] \<Rightarrow> [[x]] | w # ws \<Rightarrow> (x # w) # ws))"

definition padEnd :: "nat \<Rightarrow> char \<Rightarrow> string \<Rightarrow> string" where
  "padEnd n c s = s @ replicate (n - length s) c"

definition padStart :: "nat \<Rightarrow> char \<Rightarrow> string \<Rightarrow> string" where
  "padStart n c s = replicate (n - length s) c @ s"

text \<open>\<open>BigInt(s)\<close> on a string of decimal digits, and \<open>toString\<close> of a non-negative bigint.\<close>

definition digit_val :: "char \<Rightarrow> int" where
  "digit_val c = int (code c) - 48"

definition digits_val :: "string \<Rightarrow> int" where
  "digits_val s = foldl (\<lambda>acc c. acc * 10 + digit_val c) 0 s"

definition digit_char :: "nat \<Rightarrow> char" where
  "digit_char n = char_of (48 + n)"

fun show_nat :: "nat \<Rightarrow> string" where
  "show_nat n = (if n < 10 then [digit_char n] else show_nat (n div 10) @ [digit_char (n mod 10)])"

declare show_nat.simps [simp del]

section \<open>Parsing and formatting\<close>

definition parseMoneyToCents :: "string \<Rightarrow> int result" where
  "parseMoneyToCents value =
     (let trimmed = js_trim value;
          negative = (case trimmed of [] \<Rightarrow> False | c # _ \<Rightarrow> c = CHR ''-'');
          unsigned = (if negative then tl trimmed else trimmed);
          parts = split_on (CHR ''.'') unsigned;
          wholePart = (case parts of [] \<Rightarrow> [] | w # _ \<Rightarrow> w);
          fractionPart = (case parts of w # f # _ \<Rightarrow> f | _ \<Rightarrow> [])
      in if length fractionPart > 2
         then Inl (PlainError ''Money value has more than 2 decimal places'')
         else if \<not> list_all is_digit wholePart \<or> \<not> list_all is_digit fractionPart
         then Inl (PlainError ''Money value is not a valid decimal number'')
         else let paddedFraction = padEnd 2 (CHR ''0'') fractionPart;
                  cents = digits_val wholePart * 100 + digits_val paddedFraction
              in Inr (if negative then - cents else cents))"

definition formatCentsToMoney :: "int \<Rightarrow> string" where
  "formatCentsToMoney cents =
     (let negative = cents < 0;
          a = (if negative then - cents else cents);
          whole = a sdiv 100;
          fraction = a smod 100
      in (if negative then ''-'' else []) @ show_nat (nat whole) @ ''.'' @
         padStart 2 (CHR ''0'') (show_nat (nat fraction)))"

section \<open>Arithmetic on cents\<close>

definition sumCents :: "int list \<Rightarrow> int" where
  "sumCents values = foldl (+) 0 values"

definition multiplyCentsByQuantity :: "int \<Rightarrow> int \<Rightarrow> int" where
  "multiplyCentsByQuantity unitPriceCents quantity = unitPriceCents * quantity"

definition roundHalfUpDivide :: "int \<Rightarrow> int \<Rightarrow> int" where
  "roundHalfUpDivide numerator denominator =
     (let quotient = numerator sdiv denominator;
          remainder = numerator smod denominator
      in if remainder * 2 \<ge> denominator then quotient + 1 else quotient)"

definition applyPercent :: "int \<Rightarrow> string \<Rightarrow> int result" where
  "applyPercent cents percent =
     (case parseMoneyToCents percent of
        Inl e \<Rightarrow> Inl e
      | Inr percentHundredths \<Rightarrow> Inr (roundHalfUpDivide (cents * percentHundredths) 10000))"

definition applyRatio :: "int \<Rightarrow> int \<Rightarrow> int \<Rightarrow> int" where
  "applyRatio amountCents numeratorCents denominatorCents =
     (if denominatorCents = 0 then 0
      else roundHalfUpDivide (amountCents * numeratorCents) denominatorCents)"

section \<open>Digits and decimal rendering\<close>

lemma code_digit_char: "n < 10 \<Longrightarrow> code (digit_char n) = 48 + n"
  by (simp add: code_def digit_char_def)

lemma digit_val_digit_char [simp]: "n < 10 \<Longrightarrow> digit_val (digit_char n) = int n"
  by (simp add: digit_val_def code_digit_char)

lemma is_digit_digit_char [simp]: "n < 10 \<Longrightarrow> is_digit (digit_char n)"
  by (simp add: is_digit_def code_digit_char)

lemma digit_not_ws: "is_digit c \<Longrightarrow> \<not> is_ws c"
  by (auto simp: is_digit_def is_ws_def)

lemma digit_not_dot: "is_digit c \<Longrightarrow> c \<noteq> CHR ''.''"
  by (auto simp: is_digit_def code_def)

lemma digit_not_minus: "is_digit c \<Longrightarrow> c \<noteq> CHR ''-''"
  by (auto simp: is_digit_def code_def)

lemmas digit_simps = digit_not_ws digit_not_dot digit_not_minus

lemma zero_digit [simp]: "is_digit (CHR ''0'')" "digit_val (CHR ''0'') = 0"
  by (simp_all add: is_digit_def digit_val_def code_def)

lemma digits_val_Nil [simp]: "digits_val [] = 0"
  by (simp add: digits_val_def)

lemma digits_val_snoc [simp]: "digits_val (s @ [c]) = digits_val s * 10 + digit_val c"
  by (simp add: digits_val_def)

lemma digits_val_single [simp]: "digits_val [c] = digit_val c"
  by (simp add: digits_val_def)

lemma digit_val_nonneg: "is_digit c \<Longrightarrow> 0 \<le> digit_val c \<and> digit_val c \<le> 9"
  by (simp add: is_digit_def digit_val_def)

lemma digits_val_nonneg: "list_all is_digit s \<Longrightarrow> 0 \<le> digits_val s"
  by (induction s rule: rev_induct) (auto dest: digit_val_nonneg)

lemma show_nat_small: "n < 10 \<Longrightarrow> show_nat n = [digit_char n]"
  by (subst show_nat.simps) simp

lemma show_nat_two: "10 \<le> n \<Longrightarrow> n < 100 \<Longrightarrow> show_nat n = [digit_char (n div 10), digit_char (n mod 10)]"
  by (subst show_nat.simps) (simp add: show_nat_small)

lemma show_nat_digits: "list_all is_digit (show_nat n)"
proof (induction n rule: show_nat.induct)
  case (1 n)
  then show ?case by (subst show_nat.simps) auto
qed

lemma show_nat_nonempty: "show_nat n \<noteq> []"
  by (subst show_nat.simps) simp

lemma digits_val_show_nat [simp]: "digits_val (show_nat n) = int n"
proof (induction n rule: show_nat.induct)
  case (1 n)
  then show ?case
    by (subst show_nat.simps) (simp add: zmod_int zdiv_int)
qed

lemma show_nat_inject: "show_nat m = show_nat n \<Longrightarrow> m = n"
  by (metis digits_val_show_nat of_nat_eq_iff)

lemma padStart_two:
  assumes "n < 100"
  shows "length (padStart 2 (CHR ''0'') (show_nat n)) = 2"
    and "list_all is_digit (padStart 2 (CHR ''0'') (show_nat n))"
    and "digits_val (padStart 2 (CHR ''0'') (show_nat n)) = int n"
proof -
  have "length (padStart 2 (CHR ''0'') (show_nat n)) = 2
      \<and> list_all is_digit (padStart 2 (CHR ''0'') (show_nat n))
      \<and> digits_val (padStart 2 (CHR ''0'') (show_nat n)) = int n"
  proof (cases "n < 10")
    case True
    then show ?thesis by (simp add: padStart_def show_nat_small digits_val_def numeral_2_eq_2)
  next
    case False
    with assms have "show_nat n = [digit_char (n div 10), digit_char (n mod 10)]"
      by (simp add: show_nat_two)
    with assms show ?thesis by (simp add: padStart_def digits_val_def zmod_int zdiv_int)
  qed
  then show "length (padStart 2 (CHR ''0'') (show_nat n)) = 2"
    and "list_all is_digit (padStart 2 (CHR ''0'') (show_nat n))"
    and "digits_val (padStart 2 (CHR ''0'') (show_nat n)) = int n" by auto
qed

section \<open>Trimming and splitting\<close>

lemma dropWhile_id: "(s = [] \<or> \<not> P (hd s)) \<Longrightarrow> dropWhile P s = s"
  by (cases s) auto

lemma js_trim_id: "s \<noteq> [] \<Longrightarrow> \<not> is_ws (hd s) \<Longrightarrow> \<not> is_ws (last s) \<Longrightarrow> js_trim s = s"
  unfolding js_trim_def by (simp add: dropWhile_id hd_rev)

lemma split_on_none: "c \<notin> set s \<Longrightarrow> split_on c s = [s]"
  by (induction s) auto

lemma split_on_append: "c \<notin> set s \<Longrightarrow> split_on c (s @ c # t) = s # split_on c t"
  by (induction s) auto

lemma digits_no_dot: "list_all is_digit s \<Longrightarrow> CHR ''.'' \<notin> set s"
  by (induction s) (auto dest: digit_not_dot)

section \<open>The decimal form of an amount\<close>

text \<open>
  What the parser does with the strings the application handles: an optional minus sign, digits,
  and at most two digits after one point.
\<close>

lemma js_trim_decimal:
  assumes "list_all is_digit w" "list_all is_digit f" "w \<noteq> []" "f \<noteq> []"
  shows "js_trim (w @ ''.'' @ f) = w @ ''.'' @ f"
    and "js_trim (''-'' @ w @ ''.'' @ f) = ''-'' @ w @ ''.'' @ f"
proof -
  have "is_digit (hd w)" "is_digit (last f)"
    using assms by (auto simp: list_all_iff)
  moreover have "\<not> is_ws (CHR ''-'')" by (simp add: is_ws_def code_def)
  ultimately show "js_trim (w @ ''.'' @ f) = w @ ''.'' @ f"
    and "js_trim (''-'' @ w @ ''.'' @ f) = ''-'' @ w @ ''.'' @ f"
    using assms by (auto intro!: js_trim_id simp: digit_not_ws)
qed

lemma parse_decimal:
  assumes "list_all is_digit w" "list_all is_digit f" "w \<noteq> []" "f \<noteq> []" "length f \<le> 2"
  shows "parseMoneyToCents (w @ ''.'' @ f)
           = Inr (digits_val w * 100 + digits_val (padEnd 2 (CHR ''0'') f))"
proof -
  have sp: "split_on (CHR ''.'') (w @ ''.'' @ f) = [w, f]"
    using assms by (simp add: split_on_append split_on_none digits_no_dot)
  have hd: "\<not> (case w @ ''.'' @ f of [] \<Rightarrow> False | c # _ \<Rightarrow> c = CHR ''-'')"
    using assms by (cases w) (auto dest: digit_not_minus)
  show ?thesis
    using assms sp hd js_trim_decimal(1)[OF assms(1-4)]
    by (simp add: parseMoneyToCents_def Let_def)
qed

lemma parse_negative_decimal:
  assumes "list_all is_digit w" "list_all is_digit f" "w \<noteq> []" "f \<noteq> []" "length f \<le> 2"
  shows "parseMoneyToCents (''-'' @ w @ ''.'' @ f)
           = Inr (- (digits_val w * 100 + digits_val (padEnd 2 (CHR ''0'') f)))"
proof -
  have sp: "split_on (CHR ''.'') (w @ ''.'' @ f) = [w, f]"
    using assms by (simp add: split_on_append split_on_none digits_no_dot)
  show ?thesis
    using assms sp js_trim_decimal(2)[OF assms(1-4)]
    by (simp add: parseMoneyToCents_def Let_def)
qed

lemma parse_whole:
  assumes "list_all is_digit w" "w \<noteq> []"
  shows "parseMoneyToCents w = Inr (digits_val w * 100)"
proof -
  have ends: "is_digit (hd w)" "is_digit (last w)"
    using assms by (auto simp: list_all_iff)
  then have tr: "js_trim w = w"
    using assms by (auto intro!: js_trim_id simp: digit_not_ws)
  have hd: "\<not> (case w of [] \<Rightarrow> False | c # _ \<Rightarrow> c = CHR ''-'')"
    using assms by (cases w) (auto dest: digit_not_minus)
  have "split_on (CHR ''.'') w = [w]"
    using assms by (simp add: split_on_none digits_no_dot)
  with tr hd assms show ?thesis
    by (simp add: parseMoneyToCents_def Let_def padEnd_def digits_val_def numeral_2_eq_2)
qed

lemma sdiv_nonneg: "0 \<le> (n::int) \<Longrightarrow> 0 < d \<Longrightarrow> n sdiv d = n div d"
  by (cases "n = 0") (simp_all add: signed_divide_int_def)

lemma smod_nonneg: "0 \<le> (n::int) \<Longrightarrow> 0 < d \<Longrightarrow> n smod d = n mod d"
  by (cases "n = 0") (simp_all add: signed_modulo_int_def)

lemma parse_format [simp]: "parseMoneyToCents (formatCentsToMoney c) = Inr c"
proof -
  define a where "a = (if c < 0 then - c else c)"
  define w where "w = show_nat (nat (a sdiv 100))"
  define f where "f = padStart 2 (CHR ''0'') (show_nat (nat (a smod 100)))"
  have a0: "0 \<le> a" by (simp add: a_def)
  have m: "a smod 100 = a mod 100" "a sdiv 100 = a div 100" "0 \<le> a div 100"
    using a0 by (simp_all add: smod_nonneg sdiv_nonneg)
  have small: "nat (a smod 100) < 100" by (simp add: m nat_less_iff)
  note f = padStart_two [OF small, folded f_def]
  have ok: "list_all is_digit w" "list_all is_digit f" "w \<noteq> []" "f \<noteq> []" "length f \<le> 2"
    using f by (auto simp: w_def show_nat_digits show_nat_nonempty)
  have val: "digits_val w * 100 + digits_val (padEnd 2 (CHR ''0'') f) = a"
    using a0 f by (simp add: w_def padEnd_def m)
  show ?thesis
  proof (cases "c < 0")
    case True
    then have "formatCentsToMoney c = ''-'' @ w @ ''.'' @ f"
      by (simp add: formatCentsToMoney_def Let_def w_def f_def a_def)
    with True show ?thesis
      using parse_negative_decimal [OF ok] val by (simp add: a_def)
  next
    case False
    then have "formatCentsToMoney c = w @ ''.'' @ f"
      by (simp add: formatCentsToMoney_def Let_def w_def f_def a_def)
    with False show ?thesis
      using parse_decimal [OF ok] val by (simp add: a_def)
  qed
qed

lemma format_inject: "formatCentsToMoney a = formatCentsToMoney b \<Longrightarrow> a = b"
  by (metis parse_format sum.inject(2))

section \<open>Sums and rounding\<close>

lemma sumCents_sum_list [simp]: "sumCents xs = sum_list xs"
proof -
  have "foldl (+) a xs = a + sum_list xs" for a :: int
    by (induction xs arbitrary: a) (auto simp: add.assoc)
  then show ?thesis by (simp add: sumCents_def)
qed

lemma roundHalfUp_div:
  assumes "0 \<le> n" "0 < d"
  shows "roundHalfUpDivide n d = (2 * n + d) div (2 * d)"
proof -
  let ?q = "n div d" and ?r = "n mod d"
  have n: "n = d * ?q + ?r" by simp
  have r: "0 \<le> ?r" "?r < d" using assms by auto
  have res: "roundHalfUpDivide n d = (if ?r * 2 \<ge> d then ?q + 1 else ?q)"
    using assms by (simp add: roundHalfUpDivide_def sdiv_nonneg smod_nonneg)
  show ?thesis
  proof (cases "?r * 2 \<ge> d")
    case True
    have "2 * n + d = (2 * ?r - d) + (2 * d) * (?q + 1)"
      using n unfolding distrib_left by linarith
    moreover have "(2 * ?r - d) div (2 * d) = 0"
      using True r by (intro div_pos_pos_trivial) auto
    moreover have "((2 * ?r - d) + (2 * d) * (?q + 1)) div (2 * d) = (?q + 1) + (2 * ?r - d) div (2 * d)"
      using assms by (intro div_mult_self2) auto
    ultimately have "(2 * n + d) div (2 * d) = ?q + 1"
      by (simp only: add_0_right)
    with True res show ?thesis by simp
  next
    case False
    have "2 * n + d = (2 * ?r + d) + (2 * d) * ?q"
      using n by linarith
    moreover have "(2 * ?r + d) div (2 * d) = 0"
      using False r assms by (intro div_pos_pos_trivial) auto
    moreover have "((2 * ?r + d) + (2 * d) * ?q) div (2 * d) = ?q + (2 * ?r + d) div (2 * d)"
      using assms by (intro div_mult_self2) auto
    ultimately have "(2 * n + d) div (2 * d) = ?q"
      by (simp only: add_0_right)
    with False res show ?thesis by simp
  qed
qed

lemma roundHalfUp_nonneg: "0 \<le> n \<Longrightarrow> 0 < d \<Longrightarrow> 0 \<le> roundHalfUpDivide n d"
  by (simp add: roundHalfUp_div div_int_pos_iff)

lemma roundHalfUp_le:
  assumes "0 \<le> n" "0 < d" "n \<le> m * d"
  shows "roundHalfUpDivide n d \<le> m"
proof -
  have "(2 * n + d) div (2 * d) \<le> (m * (2 * d) + d) div (2 * d)"
    using assms by (intro zdiv_mono1) (auto simp: algebra_simps)
  also have "\<dots> = m + d div (2 * d)" using assms by simp
  also have "d div (2 * d) = 0" using assms by (intro div_pos_pos_trivial) auto
  finally show ?thesis using assms by (simp add: roundHalfUp_div)
qed

lemma roundHalfUp_bounds:
  assumes "0 \<le> n" "0 < d"
  shows "2 * d * roundHalfUpDivide n d \<le> 2 * n + d"
    and "2 * n + d < 2 * d * roundHalfUpDivide n d + 2 * d"
proof -
  define k where "k = roundHalfUpDivide n d"
  define m where "m = (2 * n + d) mod (2 * d)"
  have "2 * n + d = 2 * d * k + m"
    unfolding k_def m_def roundHalfUp_div [OF assms] by (rule mult_div_mod_eq [symmetric])
  moreover have "0 \<le> m" "m < 2 * d" using assms by (auto simp: m_def)
  ultimately show "2 * d * roundHalfUpDivide n d \<le> 2 * n + d"
    and "2 * n + d < 2 * d * roundHalfUpDivide n d + 2 * d"
    by (auto simp: k_def)
qed

section \<open>The cents of a stored amount\<close>

definition cents :: "string \<Rightarrow> int" where
  "cents s = (case parseMoneyToCents s of Inl e \<Rightarrow> 0 | Inr c \<Rightarrow> c)"

definition is_money :: "string \<Rightarrow> bool" where
  "is_money s \<longleftrightarrow> (\<exists>c. parseMoneyToCents s = Inr c)"

lemma is_money_code [code]: "is_money s \<longleftrightarrow> (case parseMoneyToCents s of Inr c \<Rightarrow> True | Inl e \<Rightarrow> False)"
  by (auto simp: is_money_def split: sum.splits)

lemma is_money_cents: "is_money s \<Longrightarrow> parseMoneyToCents s = Inr (cents s)"
  by (auto simp: is_money_def cents_def)

lemma cents_parse: "parseMoneyToCents s = Inr c \<Longrightarrow> cents s = c"
  by (simp add: cents_def)

lemma cents_format [simp]: "cents (formatCentsToMoney c) = c"
  by (simp add: cents_def)

lemma is_money_format [simp]: "is_money (formatCentsToMoney c)"
  by (simp add: is_money_def)

lemma parse_zero [simp]: "parseMoneyToCents ''0.00'' = Inr 0"
  by code_simp

lemma zero_money [simp]: "cents ''0.00'' = 0" "is_money ''0.00''"
  unfolding cents_def is_money_def by (simp_all only: parse_zero sum.case sum.inject simp_thms)

lemma rmap_money:
  "(\<And>x. x \<in> set xs \<Longrightarrow> is_money (f x)) \<Longrightarrow>
   rmap (\<lambda>x. parseMoneyToCents (f x)) xs = Inr (map (\<lambda>x. cents (f x)) xs)"
  by (rule rmap_Inr) (simp add: is_money_cents)

section \<open>Commission\<close>

text \<open>
  A commission of a non-negative amount at a rate between 0 and 100 percent lies between zero
  and the amount, and is the exact product rounded to the nearest cent, halves upwards.
\<close>

lemma applyPercent_rounds:
  assumes rate: "parseMoneyToCents percent = Inr p" and nn: "0 \<le> amount" "0 \<le> p"
  shows "\<exists>k. applyPercent amount percent = Inr k \<and> 0 \<le> k \<and>
           2 * 10000 * k \<le> 2 * (amount * p) + 10000 \<and> 2 * (amount * p) + 10000 < 2 * 10000 * k + 2 * 10000"
  using roundHalfUp_bounds [of "amount * p" 10000] roundHalfUp_nonneg [of "amount * p" 10000] nn
  by (simp add: applyPercent_def rate)

lemma applyPercent_le:
  assumes rate: "parseMoneyToCents percent = Inr p" and nn: "0 \<le> amount" "0 \<le> p" "p \<le> 10000"
  shows "\<exists>k. applyPercent amount percent = Inr k \<and> 0 \<le> k \<and> k \<le> amount"
proof -
  have "amount * p \<le> amount * 10000" using nn by (intro mult_left_mono) auto
  then show ?thesis
    using roundHalfUp_le [of "amount * p" 10000 amount] roundHalfUp_nonneg [of "amount * p" 10000] nn
    by (simp add: applyPercent_def rate)
qed

lemma applyRatio_bounds:
  assumes "0 \<le> amount" "0 \<le> num" "num \<le> den"
  shows "0 \<le> applyRatio amount num den \<and> applyRatio amount num den \<le> amount"
proof (cases "den = 0")
  case False
  with assms have d: "0 < den" by linarith
  have "amount * num \<le> amount * den" using assms by (intro mult_left_mono) auto
  then show ?thesis
    using assms d roundHalfUp_le [of "amount * num" den amount] roundHalfUp_nonneg [of "amount * num" den]
    by (simp add: applyRatio_def)
qed (use assms in \<open>simp add: applyRatio_def\<close>)

text \<open>
  Formatting an amount of cents and parsing the text gives the amount back, for every
  integer, negative ones included; so two amounts never share a decimal text.
\<close>
theorem money_roundtrip: "parseMoneyToCents (formatCentsToMoney c) = Inr c"
  by (rule parse_format)

text \<open>
  Percentages of an amount of cents: at a rate between 0 and 100 percent the result is an
  amount between zero and the whole, within half a cent of the exact product, and the half cent
  itself is rounded up (so 10 percent of 5 cents is 1 cent).
\<close>
theorem applyPercent_half_up:
  assumes "parseMoneyToCents percent = Inr p" and "0 \<le> amount" and "0 \<le> p" and "p \<le> 10000"
  shows "\<exists>k. applyPercent amount percent = Inr k \<and> 0 \<le> k \<and> k \<le> amount \<and>
           2 * (amount * p) - 10000 < 20000 * k \<and> 20000 * k \<le> 2 * (amount * p) + 10000"
  using applyPercent_rounds [OF assms(1-3)] applyPercent_le [OF assms] by auto

theorem applyPercent_half_up_witness:
  "\<exists>k. applyPercent 5 ''10.00'' = Inr k \<and> 0 \<le> k \<and> k \<le> 5 \<and>
       2 * (5 * 1000) - 10000 < 20000 * k \<and> 20000 * k \<le> 2 * (5 * 1000) + 10000"
proof -
  have "parseMoneyToCents ''10.00'' = Inr 1000" by code_simp
  then show ?thesis by (rule applyPercent_half_up) simp_all
qed

end
