(* ===== verification/Store.thy ===== *)
theory Store
  imports Money
begin

text \<open>
  The persistent state of the application: one record per TypeORM entity, one list of rows per
  table (in insertion order, so in \<open>createdAt\<close> order), and the state a request handler works
  on. Relations are followed by looking the foreign key up. Columns of type \<open>numeric(12,2)\<close> hold
  the decimal text Postgres returns for them; turning a written string into that text is the
  database's work, so it is a field of the environment.
\<close>

section \<open>Enumerations\<close>

datatype UserRole = CUSTOMER | SELLER | ADMIN

datatype ProductType = FIXED_PRICE | AUCTION

datatype AuctionStatus =
    SCHEDULED | ACTIVE | ENDED | UNSOLD | EXPIRED | AWAITING_PAYMENT | COMPLETED | CANCELLED

datatype OrderStatus =
    NEW | PROCESSING | PARTIALLY_SHIPPED | SHIPPED | PARTIALLY_COMPLETED | COMPLETED
  | PARTIALLY_CANCELLED | CANCELLED

datatype SellerOrderStatus =
    AWAITING_FULFILLMENT | PROCESSING | SHIPPED | DELIVERED | CANCELLED | REFUNDED

datatype CheckoutIdempotencyStatus = PROCESSING | COMPLETED

datatype RefundStatus = PROCESSING | COMPLETED

datatype LedgerEntryType =
    SALE_CREDIT | COMMISSION_DEBIT | REFUND_DEBIT | PAYOUT_DEBIT | ADJUSTMENT
  | SELLER_EARNING_REVERSAL | PLATFORM_COMMISSION_REVERSAL

datatype DisputeStatus = OPEN | UNDER_REVIEW | RESOLVED_CUSTOMER | RESOLVED_SELLER | CLOSED

datatype OutboxStatus = PENDING | PUBLISHED | FAILED

datatype SellerApplicationStatus = PENDING | APPROVED | REJECTED

datatype DeadLetterStatus = PENDING | REPLAYING | REPLAYED | REPLAY_FAILED

datatype AuctionJobType = FINALIZE | EXPIRE_PURCHASE_WINDOW

datatype AuthProvider = LOCAL | GOOGLE

section \<open>Entities\<close>

record User =
  us_id :: uuid
  us_email :: string
  us_passwordHash :: "string option"
  us_firstName :: string
  us_lastName :: string
  us_role :: UserRole
  us_isEmailVerified :: bool
  us_isActive :: bool

record RefreshToken =
  rt_id :: uuid
  rt_userId :: uuid
  rt_tokenHash :: string
  rt_expiresAt :: time
  rt_revokedAt :: "time option"
  rt_userAgent :: "string option"
  rt_ipAddress :: "string option"

record AuthIdentity =
  ai_id :: uuid
  ai_userId :: uuid
  ai_provider :: AuthProvider
  ai_providerUserId :: string

record SellerProfile =
  sp_id :: uuid
  sp_userId :: uuid
  sp_storeName :: string
  sp_storeSlug :: string
  sp_description :: "string option"
  sp_logoUrl :: "string option"
  sp_commissionRatePercent :: string
  sp_isActive :: bool

record SellerApplication =
  sa_id :: uuid
  sa_userId :: uuid
  sa_requestedStoreName :: string
  sa_businessDescription :: string
  sa_status :: SellerApplicationStatus
  sa_reviewedByUserId :: "uuid option"
  sa_reviewedAt :: "time option"
  sa_rejectionReason :: "string option"

record Category =
  ca_id :: uuid
  ca_name :: string
  ca_slug :: string
  ca_parentId :: "uuid option"
  ca_iconUrl :: "string option"
  ca_sortOrder :: int
  ca_isActive :: bool

record Product =
  pr_id :: uuid
  pr_sellerProfileId :: uuid
  pr_categoryId :: uuid
  pr_name :: string
  pr_slug :: string
  pr_description :: "string option"
  pr_type :: ProductType
  pr_price :: "string option"
  pr_stockQuantity :: int
  pr_imageUrls :: "string list"
  pr_isPublished :: bool
  pr_ratingAverage :: string
  pr_ratingCount :: int

record Auction =
  au_id :: uuid
  au_productId :: uuid
  au_startPrice :: string
  au_currentPrice :: string
  au_minBidIncrement :: string
  au_startsAt :: time
  au_endsAt :: time
  au_winnerId :: "uuid option"
  au_winningBidId :: "uuid option"
  au_purchaseWindowEndsAt :: "time option"
  au_finalizedAt :: "time option"
  au_status :: AuctionStatus

record Bid =
  bid_id :: uuid
  bid_auctionId :: uuid
  bid_bidderId :: uuid
  bid_amount :: string
  bid_idempotencyKey :: string
  bid_createdAt :: time

record Cart =
  cart_id :: uuid
  cart_userId :: uuid

record CartItem =
  ci_id :: uuid
  ci_cartId :: uuid
  ci_productId :: uuid
  ci_quantity :: int

record Order =
  ord_id :: uuid
  ord_buyerId :: uuid
  ord_totalAmount :: string
  ord_status :: OrderStatus
  ord_shippingAddressLine1 :: "string option"
  ord_shippingAddressLine2 :: "string option"
  ord_shippingCity :: "string option"
  ord_shippingPostalCode :: "string option"
  ord_shippingCountry :: "string option"
  ord_createdAt :: time

record SellerOrder =
  so_id :: uuid
  so_orderId :: uuid
  so_sellerProfileId :: uuid
  so_subtotal :: string
  so_commissionAmount :: string
  so_sellerNetAmount :: string
  so_status :: SellerOrderStatus
  so_createdAt :: time

record SellerOrderItem =
  soi_id :: uuid
  soi_sellerOrderId :: uuid
  soi_productId :: "uuid option"
  soi_productName :: string
  soi_unitPrice :: string
  soi_quantity :: int
  soi_lineTotal :: string

record CheckoutIdempotencyKey =
  ck_id :: uuid
  ck_customerId :: uuid
  ck_idempotencyKey :: string
  ck_status :: CheckoutIdempotencyStatus
  ck_orderId :: "uuid option"

record Refund =
  rf_id :: uuid
  rf_sellerOrderId :: uuid
  rf_sellerOrderItemId :: uuid
  rf_disputeId :: "uuid option"
  rf_quantity :: int
  rf_amount :: string
  rf_commissionAdjustment :: string
  rf_sellerAdjustment :: string
  rf_reason :: "string option"
  rf_status :: RefundStatus
  rf_idempotencyKey :: string
  rf_initiatedBy :: uuid
  rf_correlationId :: "uuid option"
  rf_createdAt :: time

record LedgerEntry =
  le_id :: uuid
  le_sellerProfileId :: uuid
  le_type :: LedgerEntryType
  le_amount :: string
  le_sellerOrderId :: "uuid option"
  le_refundId :: "uuid option"
  le_correlationId :: "uuid option"

record Dispute =
  dp_id :: uuid
  dp_sellerOrderId :: uuid
  dp_customerId :: uuid
  dp_sellerProfileId :: uuid
  dp_reason :: string
  dp_description :: string
  dp_status :: DisputeStatus
  dp_resolvedByUserId :: "uuid option"
  dp_adminResolution :: "string option"
  dp_sellerResponse :: "string option"
  dp_resolvedAt :: "time option"
  dp_createdAt :: time

record Review =
  rv_id :: uuid
  rv_productId :: uuid
  rv_customerId :: uuid
  rv_sellerOrderItemId :: uuid
  rv_rating :: int
  rv_comment :: "string option"
  rv_createdAt :: time

text \<open>The values a jsonb event payload carries.\<close>

datatype json =
    JId uuid | JIds "uuid list" | JStr string | JTime time | JInt int | JNull
  | JAuctionStatus AuctionStatus | JOrderStatus OrderStatus
  | JSellerOrderStatus SellerOrderStatus | JDisputeStatus DisputeStatus

record OutboxEvent =
  ob_id :: uuid
  ob_eventType :: string
  ob_aggregateType :: string
  ob_aggregateId :: uuid
  ob_payload :: "(string \<times> json) list"
  ob_correlationId :: uuid
  ob_publishedAt :: "time option"
  ob_status :: OutboxStatus
  ob_attempts :: int
  ob_lastError :: "string option"

record ProcessedEvent =
  pe_id :: uuid
  pe_consumerName :: string
  pe_outboxEventId :: uuid

text \<open>The ids the application gives its BullMQ jobs.\<close>

datatype job_id =
    FinalizeJobId uuid
  | ExpireJobId uuid
  | OutboxJobId uuid
  | ReplayJobId uuid time

record DeadLetterEvent =
  dl_id :: uuid
  dl_originalQueue :: string
  dl_jobId :: job_id
  dl_outboxEventId :: "uuid option"
  dl_eventType :: string
  dl_aggregateType :: "string option"
  dl_aggregateId :: "uuid option"
  dl_payload :: "(string \<times> json) list"
  dl_attemptsMade :: int
  dl_failureReason :: string
  dl_correlationId :: uuid
  dl_failedAt :: time
  dl_status :: DeadLetterStatus
  dl_replayedAt :: "time option"

section \<open>The database, the environment and the state of a handler\<close>

record database =
  next_id :: uuid
  users :: "User list"
  refresh_tokens :: "RefreshToken list"
  auth_identities :: "AuthIdentity list"
  seller_profiles :: "SellerProfile list"
  seller_applications :: "SellerApplication list"
  categories :: "Category list"
  products :: "Product list"
  auctions :: "Auction list"
  bids :: "Bid list"
  carts :: "Cart list"
  cart_items :: "CartItem list"
  orders :: "Order list"
  seller_orders :: "SellerOrder list"
  seller_order_items :: "SellerOrderItem list"
  checkout_keys :: "CheckoutIdempotencyKey list"
  refunds :: "Refund list"
  ledger_entries :: "LedgerEntry list"
  disputes :: "Dispute list"
  reviews :: "Review list"
  outbox_events :: "OutboxEvent list"
  processed_events :: "ProcessedEvent list"
  dead_letters :: "DeadLetterEvent list"

definition empty_db :: database where
  "empty_db = \<lparr>next_id = 0, users = [], refresh_tokens = [], auth_identities = [], seller_profiles = [],
     seller_applications = [], categories = [], products = [], auctions = [], bids = [], carts = [],
     cart_items = [], orders = [], seller_orders = [], seller_order_items = [],
     checkout_keys = [], refunds = [], ledger_entries = [], disputes = [], reviews = [],
     outbox_events = [], processed_events = [], dead_letters = []\<rparr>"

text \<open>
  Calls to services outside the process, in the order they are made: Redis commands of the
  catalogue cache, BullMQ commands, notifications and updates of the search index. The request
  handlers send them after their transaction has committed; the outbox relay sends its own inside
  its transaction, and a rollback does not take them back.
\<close>

datatype room =
    UserRoom uuid
  | SellerRoom uuid
  | OrderRoom uuid
  | AuctionRoom uuid
  | ProductRoom uuid

text \<open>
  The document of a product in the search index. A JavaScript number read from a decimal column is
  kept as the decimal text.
\<close>

record ProductSearchDocument =
  sd_id :: uuid
  sd_sellerId :: uuid
  sd_sellerName :: string
  sd_categoryId :: uuid
  sd_categoryName :: string
  sd_name :: string
  sd_slug :: string
  sd_description :: "string option"
  sd_price :: "string option"
  sd_stockQuantity :: int
  sd_available :: bool
  sd_productType :: ProductType
  sd_rating :: string
  sd_ratingCount :: int
  sd_imageUrls :: "string list"
  sd_auctionStatus :: "AuctionStatus option"
  sd_auctionCurrentPrice :: "string option"

datatype effect =
    RedisDelProduct uuid
  | RedisDelCategories
  | RedisIncrSearchVersion
  | QueueAddAuctionJob job_id AuctionJobType uuid time uuid
  | QueueRemoveJob job_id
  | QueueAddOutboxJob string OutboxEvent
  | QueueAddReplayJob string string "(string \<times> json) list" job_id
  | NotifyUser uuid string
  | EmitToRooms "room list" string "(string \<times> json) list" uuid uuid
  | SearchIndexDocument ProductSearchDocument
  | SearchDeleteDocument uuid

record sys =
  db :: database
  metrics :: "string \<Rightarrow> int"
  effects :: "effect list"

text \<open>
  What a handler reads from outside the process: the clock (one reading per handler), the text
  Postgres returns for a value written to a \<open>numeric(12,2)\<close> column, and configuration.
\<close>

record env =
  now :: time
  numeric2 :: "string \<Rightarrow> string"
  purchaseWindowMinutes :: int

text \<open>
  The documented behaviour of the column type that the properties rely on: a value that parses
  as an amount of cents comes back as its canonical two-decimal text.
\<close>

definition numeric_ok :: "env \<Rightarrow> bool" where
  "numeric_ok e \<longleftrightarrow> (\<forall>s c. parseMoneyToCents s = Inr c \<longrightarrow> numeric2 e s = formatCentsToMoney c)"

lemma numeric_ok_format [simp]:
  "numeric_ok e \<Longrightarrow> numeric2 e (formatCentsToMoney c) = formatCentsToMoney c"
  by (simp add: numeric_ok_def)

lemma numeric_ok_parse:
  "numeric_ok e \<Longrightarrow> parseMoneyToCents s = Inr c \<Longrightarrow> parseMoneyToCents (numeric2 e s) = Inr c"
  by (simp add: numeric_ok_def)

section \<open>Transactions, metrics, effects\<close>

text \<open>
  \<open>manager.transaction\<close>: when the callback throws, every row change is rolled back and the
  exception is rethrown; counters incremented inside the callback are not part of the database.
\<close>

definition transaction :: "(sys \<Rightarrow> 'a result \<times> sys) \<Rightarrow> sys \<Rightarrow> 'a result \<times> sys" where
  "transaction body s =
     (case body s of
        (Inl e, s') \<Rightarrow> (Inl e, s'\<lparr>db := db s\<rparr>)
      | (Inr x, s') \<Rightarrow> (Inr x, s'))"

definition increment :: "string \<Rightarrow> sys \<Rightarrow> sys" where
  "increment name s = s\<lparr>metrics := (metrics s)(name := metrics s name + 1)\<rparr>"

definition incrementBy :: "string \<Rightarrow> int \<Rightarrow> sys \<Rightarrow> sys" where
  "incrementBy name amount s = s\<lparr>metrics := (metrics s)(name := metrics s name + amount)\<rparr>"

definition emit :: "effect \<Rightarrow> sys \<Rightarrow> sys" where
  "emit x s = s\<lparr>effects := effects s @ [x]\<rparr>"

definition upd_db :: "(database \<Rightarrow> database) \<Rightarrow> sys \<Rightarrow> sys" where
  "upd_db f s = s\<lparr>db := f (db s)\<rparr>"

lemma transaction_Inl: "transaction body s = (Inl e, s') \<Longrightarrow> db s' = db s"
  by (auto simp: transaction_def split: prod.splits sum.splits)

lemma transaction_Inr: "transaction body s = (Inr x, s') \<longleftrightarrow> body s = (Inr x, s')"
  by (auto simp: transaction_def split: prod.splits sum.splits)

lemma db_increment [frame]: "db (increment n s) = db s"
  by (simp add: increment_def)

lemma db_incrementBy [frame]: "db (incrementBy n k s) = db s"
  by (simp add: incrementBy_def)

lemma db_emit [frame]: "db (emit x s) = db s"
  by (simp add: emit_def)

lemma effects_increment [frame]: "effects (increment n s) = effects s"
  by (simp add: increment_def)

lemma effects_incrementBy [frame]: "effects (incrementBy n k s) = effects s"
  by (simp add: incrementBy_def)

lemma effects_emit [frame]: "effects (emit x s) = effects s @ [x]"
  by (simp add: emit_def)

lemma db_upd_db [frame]: "db (upd_db f s) = f (db s)"
  by (simp add: upd_db_def)

lemma effects_upd_db [frame]: "effects (upd_db f s) = effects s"
  by (simp add: upd_db_def)

lemma metrics_upd_db [frame]: "metrics (upd_db f s) = metrics s"
  by (simp add: upd_db_def)

lemma metrics_emit [frame]: "metrics (emit x s) = metrics s"
  by (simp add: emit_def)

lemma metrics_increment [frame]:
  "metrics (increment n s) m = metrics s m + (if m = n then 1 else 0)"
  by (simp add: increment_def)

declare frame [simp]

section \<open>Saving loaded entities\<close>

definition stored_auction :: "env \<Rightarrow> Auction \<Rightarrow> Auction" where
  "stored_auction e a = a\<lparr>au_startPrice := numeric2 e (au_startPrice a),
     au_currentPrice := numeric2 e (au_currentPrice a),
     au_minBidIncrement := numeric2 e (au_minBidIncrement a)\<rparr>"

definition save_auction :: "env \<Rightarrow> Auction \<Rightarrow> database \<Rightarrow> database" where
  "save_auction e a d = d\<lparr>auctions := put_row au_id (stored_auction e a) (auctions d)\<rparr>"

definition save_seller_order :: "SellerOrder \<Rightarrow> database \<Rightarrow> database" where
  "save_seller_order so d = d\<lparr>seller_orders := put_row so_id so (seller_orders d)\<rparr>"

definition save_order :: "Order \<Rightarrow> database \<Rightarrow> database" where
  "save_order o' d = d\<lparr>orders := put_row ord_id o' (orders d)\<rparr>"

definition save_cart_item :: "CartItem \<Rightarrow> database \<Rightarrow> database" where
  "save_cart_item i d = d\<lparr>cart_items := put_row ci_id i (cart_items d)\<rparr>"

definition save_dispute :: "Dispute \<Rightarrow> database \<Rightarrow> database" where
  "save_dispute x d = d\<lparr>disputes := put_row dp_id x (disputes d)\<rparr>"

text \<open>
  An atomic \<open>UPDATE products SET "stockQuantity" = "stockQuantity" + :q WHERE id = :id\<close>, with an
  optional guard on the current stock; the first component is the number of affected rows.
\<close>

definition update_stock :: "uuid \<Rightarrow> (int \<Rightarrow> bool) \<Rightarrow> int \<Rightarrow> database \<Rightarrow> nat \<times> database" where
  "update_stock pid guard q d =
     (let hit = (\<lambda>p. pr_id p = pid \<and> guard (pr_stockQuantity p))
      in (length (filter hit (products d)),
          d\<lparr>products := map (\<lambda>p. if hit p then p\<lparr>pr_stockQuantity := pr_stockQuantity p + q\<rparr> else p)
                          (products d)\<rparr>))"

text \<open>Every table the services load and save by id keeps the contract of a repository.\<close>

interpretation auctions_repo: repository au_id auctions "save_auction e" "stored_auction e"
  by unfold_locales (simp_all add: save_auction_def stored_auction_def)

interpretation seller_orders_repo: repository so_id seller_orders save_seller_order "\<lambda>x. x"
  by unfold_locales (simp_all add: save_seller_order_def)

interpretation orders_repo: repository ord_id orders save_order "\<lambda>x. x"
  by unfold_locales (simp_all add: save_order_def)

interpretation cart_items_repo: repository ci_id cart_items save_cart_item "\<lambda>x. x"
  by unfold_locales (simp_all add: save_cart_item_def)

interpretation disputes_repo: repository dp_id disputes save_dispute "\<lambda>x. x"
  by unfold_locales (simp_all add: save_dispute_def)

section \<open>The outbox\<close>

text \<open>\<open>OutboxService.record\<close>: one PENDING row, written by the caller's transaction.\<close>

definition outbox_record ::
  "string \<Rightarrow> string \<Rightarrow> uuid \<Rightarrow> (string \<times> json) list \<Rightarrow> uuid \<Rightarrow> sys \<Rightarrow> sys" where
  "outbox_record eventType aggregateType aggregateId payload correlationId s =
     upd_db (\<lambda>d. d\<lparr>next_id := next_id d + 1,
       outbox_events := outbox_events d @
         [\<lparr>ob_id = next_id d, ob_eventType = eventType, ob_aggregateType = aggregateType,
           ob_aggregateId = aggregateId, ob_payload = payload, ob_correlationId = correlationId,
           ob_publishedAt = None, ob_status = OutboxStatus.PENDING, ob_attempts = 0,
           ob_lastError = None\<rparr>]\<rparr>) s"

lemma outbox_record_frame [simp]:
  "auctions (db (outbox_record t g i p c s)) = auctions (db s)"
  "bids (db (outbox_record t g i p c s)) = bids (db s)"
  "products (db (outbox_record t g i p c s)) = products (db s)"
  "orders (db (outbox_record t g i p c s)) = orders (db s)"
  "seller_orders (db (outbox_record t g i p c s)) = seller_orders (db s)"
  "seller_order_items (db (outbox_record t g i p c s)) = seller_order_items (db s)"
  "ledger_entries (db (outbox_record t g i p c s)) = ledger_entries (db s)"
  "refunds (db (outbox_record t g i p c s)) = refunds (db s)"
  "disputes (db (outbox_record t g i p c s)) = disputes (db s)"
  "checkout_keys (db (outbox_record t g i p c s)) = checkout_keys (db s)"
  "cart_items (db (outbox_record t g i p c s)) = cart_items (db s)"
  "carts (db (outbox_record t g i p c s)) = carts (db s)"
  "users (db (outbox_record t g i p c s)) = users (db s)"
  "seller_profiles (db (outbox_record t g i p c s)) = seller_profiles (db s)"
  "reviews (db (outbox_record t g i p c s)) = reviews (db s)"
  "seller_applications (db (outbox_record t g i p c s)) = seller_applications (db s)"
  "refresh_tokens (db (outbox_record t g i p c s)) = refresh_tokens (db s)"
  "auth_identities (db (outbox_record t g i p c s)) = auth_identities (db s)"
  "categories (db (outbox_record t g i p c s)) = categories (db s)"
  "dead_letters (db (outbox_record t g i p c s)) = dead_letters (db s)"
  "next_id (db (outbox_record t g i p c s)) = next_id (db s) + 1"
  "effects (outbox_record t g i p c s) = effects s"
  "metrics (outbox_record t g i p c s) = metrics s"
  by (simp_all add: outbox_record_def)

lemma save_auction_frame [simp]:
  "bids (save_auction e a d) = bids d" "products (save_auction e a d) = products d"
  "orders (save_auction e a d) = orders d" "seller_orders (save_auction e a d) = seller_orders d"
  "seller_profiles (save_auction e a d) = seller_profiles d"
  "next_id (save_auction e a d) = next_id d" "outbox_events (save_auction e a d) = outbox_events d"
  by (simp_all add: save_auction_def)

lemma is_money_numeric [simp]: "numeric_ok e \<Longrightarrow> is_money s \<Longrightarrow> is_money (numeric2 e s)"
  by (auto simp: is_money_def numeric_ok_def)

lemma cents_numeric [simp]: "numeric_ok e \<Longrightarrow> is_money s \<Longrightarrow> cents (numeric2 e s) = cents s"
  by (auto simp: is_money_def numeric_ok_def cents_parse)

section \<open>A concrete environment\<close>

text \<open>
  The column type on decimal text, and a clock: what the witnesses of the properties run on.
\<close>

definition decimal_column :: "string \<Rightarrow> string" where
  "decimal_column s = (case parseMoneyToCents s of Inr c \<Rightarrow> formatCentsToMoney c | Inl e \<Rightarrow> s)"

definition sample_env :: "time \<Rightarrow> env" where
  "sample_env t = \<lparr>now = t, numeric2 = decimal_column, purchaseWindowMinutes = 60\<rparr>"

lemma sample_numeric_ok [simp]: "numeric_ok (sample_env t)"
  by (simp add: numeric_ok_def sample_env_def decimal_column_def)

definition start_sys :: "database \<Rightarrow> sys" where
  "start_sys d = \<lparr>db = d, metrics = (\<lambda>n. 0), effects = []\<rparr>"

end
