(* ===== verification/Order_Domain.thy ===== *)
theory Order_Domain
  imports Store
begin

text \<open>
  The pure domain rules of \<open>modules/orders/domain\<close>: the seller-order status policy, the status of
  a parent order derived from its seller orders, and the financial summaries derived from the
  stored figures and the completed refunds.
\<close>

section \<open>Seller order status policy\<close>

fun FORWARD_TRANSITIONS :: "SellerOrderStatus \<Rightarrow> SellerOrderStatus list" where
  "FORWARD_TRANSITIONS SellerOrderStatus.AWAITING_FULFILLMENT = [SellerOrderStatus.PROCESSING]"
| "FORWARD_TRANSITIONS SellerOrderStatus.PROCESSING = [SellerOrderStatus.SHIPPED]"
| "FORWARD_TRANSITIONS SellerOrderStatus.SHIPPED = [SellerOrderStatus.DELIVERED]"
| "FORWARD_TRANSITIONS SellerOrderStatus.DELIVERED = []"
| "FORWARD_TRANSITIONS SellerOrderStatus.CANCELLED = []"
| "FORWARD_TRANSITIONS SellerOrderStatus.REFUNDED = []"

definition CANCELLABLE_FROM :: "SellerOrderStatus list" where
  "CANCELLABLE_FROM = [SellerOrderStatus.AWAITING_FULFILLMENT, SellerOrderStatus.PROCESSING]"

definition REFUNDABLE_FROM :: "SellerOrderStatus list" where
  "REFUNDABLE_FROM =
     [SellerOrderStatus.PROCESSING, SellerOrderStatus.SHIPPED, SellerOrderStatus.DELIVERED]"

definition assertValidStatusTransition ::
  "SellerOrderStatus \<Rightarrow> SellerOrderStatus \<Rightarrow> unit result" where
  "assertValidStatusTransition from to =
     (if to \<notin> set (FORWARD_TRANSITIONS from)
      then Inl (ConflictException ''Cannot transition seller order'') else Inr ())"

definition isCancellable :: "SellerOrderStatus \<Rightarrow> bool" where
  "isCancellable status \<longleftrightarrow> status \<in> set CANCELLABLE_FROM"

definition assertCancellable :: "SellerOrderStatus \<Rightarrow> unit result" where
  "assertCancellable status =
     (if \<not> isCancellable status
      then Inl (ConflictException ''A seller order in this status cannot be cancelled'')
      else Inr ())"

definition assertRefundable :: "SellerOrderStatus \<Rightarrow> unit result" where
  "assertRefundable status =
     (if status \<notin> set REFUNDABLE_FROM
      then Inl (ConflictException ''A seller order in this status is not eligible for a refund'')
      else Inr ())"

text \<open>
  Every move of a seller order: the forward transitions and, from the cancellable statuses, the
  cancellation. The rank is the progress rank, with CANCELLED last.
\<close>

definition seller_order_moves :: "SellerOrderStatus \<Rightarrow> SellerOrderStatus list" where
  "seller_order_moves s =
     FORWARD_TRANSITIONS s @ (if isCancellable s then [SellerOrderStatus.CANCELLED] else [])"

fun lifecycle_rank :: "SellerOrderStatus \<Rightarrow> nat" where
  "lifecycle_rank SellerOrderStatus.AWAITING_FULFILLMENT = 0"
| "lifecycle_rank SellerOrderStatus.PROCESSING = 1"
| "lifecycle_rank SellerOrderStatus.SHIPPED = 2"
| "lifecycle_rank SellerOrderStatus.DELIVERED = 3"
| "lifecycle_rank SellerOrderStatus.CANCELLED = 4"
| "lifecycle_rank SellerOrderStatus.REFUNDED = 4"

interpretation seller_order_machine: status_machine seller_order_moves lifecycle_rank
proof
  fix s t
  assume "t \<in> set (seller_order_moves s)"
  then show "lifecycle_rank s < lifecycle_rank t"
    by (cases s) (auto simp: seller_order_moves_def isCancellable_def CANCELLABLE_FROM_def)
qed

section \<open>Aggregate status of the parent order\<close>

definition PROGRESS_RANK :: "SellerOrderStatus \<Rightarrow> nat option" where
  "PROGRESS_RANK = [SellerOrderStatus.AWAITING_FULFILLMENT \<mapsto> 0, SellerOrderStatus.PROCESSING \<mapsto> 1,
     SellerOrderStatus.SHIPPED \<mapsto> 2, SellerOrderStatus.DELIVERED \<mapsto> 3]"

definition rankOf :: "SellerOrderStatus \<Rightarrow> nat" where
  "rankOf status = (case PROGRESS_RANK status of Some r \<Rightarrow> r | None \<Rightarrow> 3)"

definition deriveParentOrderStatus :: "SellerOrderStatus list \<Rightarrow> OrderStatus" where
  "deriveParentOrderStatus sellerOrderStatuses =
     (if length sellerOrderStatuses = 0 then OrderStatus.NEW
      else let cancelled = filter (\<lambda>s. s = SellerOrderStatus.CANCELLED) sellerOrderStatuses;
               active = filter (\<lambda>s. s \<noteq> SellerOrderStatus.CANCELLED) sellerOrderStatuses
           in if length active = 0 then OrderStatus.CANCELLED
              else if length cancelled > 0 then OrderStatus.PARTIALLY_CANCELLED
              else let ranks = map rankOf active;
                       mn = Min (set ranks);
                       mx = Max (set ranks)
                   in if mx = 3 then (if mn = 3 then OrderStatus.COMPLETED
                                      else OrderStatus.PARTIALLY_COMPLETED)
                      else if mx = 2 then (if mn = 2 then OrderStatus.SHIPPED
                                           else OrderStatus.PARTIALLY_SHIPPED)
                      else if mx = 1 then OrderStatus.PROCESSING
                      else OrderStatus.NEW)"

text \<open>
  The specification of the aggregate, as the comment above the function words it: cancellation
  first, then the spread of the remaining statuses.
\<close>

definition finished :: "SellerOrderStatus \<Rightarrow> bool" where
  "finished s \<longleftrightarrow> s = SellerOrderStatus.DELIVERED \<or> s = SellerOrderStatus.REFUNDED"

definition aggregate_spec :: "SellerOrderStatus list \<Rightarrow> OrderStatus" where
  "aggregate_spec xs =
     (if xs = [] then OrderStatus.NEW
      else if \<forall>s \<in> set xs. s = SellerOrderStatus.CANCELLED then OrderStatus.CANCELLED
      else if SellerOrderStatus.CANCELLED \<in> set xs then OrderStatus.PARTIALLY_CANCELLED
      else if \<forall>s \<in> set xs. finished s then OrderStatus.COMPLETED
      else if \<exists>s \<in> set xs. finished s then OrderStatus.PARTIALLY_COMPLETED
      else if \<forall>s \<in> set xs. s = SellerOrderStatus.SHIPPED then OrderStatus.SHIPPED
      else if SellerOrderStatus.SHIPPED \<in> set xs then OrderStatus.PARTIALLY_SHIPPED
      else if SellerOrderStatus.PROCESSING \<in> set xs then OrderStatus.PROCESSING
      else OrderStatus.NEW)"

lemma rankOf_simps [simp]:
  "rankOf SellerOrderStatus.AWAITING_FULFILLMENT = 0"
  "rankOf SellerOrderStatus.PROCESSING = 1"
  "rankOf SellerOrderStatus.SHIPPED = 2"
  "rankOf SellerOrderStatus.DELIVERED = 3"
  "rankOf SellerOrderStatus.CANCELLED = 3"
  "rankOf SellerOrderStatus.REFUNDED = 3"
  by (simp_all add: rankOf_def PROGRESS_RANK_def)

lemma rankOf_le: "rankOf s \<le> 3"
  by (cases s) simp_all

lemma rankOf_finished: "s \<noteq> SellerOrderStatus.CANCELLED \<Longrightarrow> rankOf s = 3 \<longleftrightarrow> finished s"
  by (cases s) (simp_all add: finished_def)

lemma rankOf_eq_2 [simp]: "rankOf s = 2 \<longleftrightarrow> s = SellerOrderStatus.SHIPPED"
  by (cases s) simp_all

lemma rankOf_eq_1 [simp]: "rankOf s = 1 \<longleftrightarrow> s = SellerOrderStatus.PROCESSING"
  by (cases s) simp_all

lemma Max_eq_bound:
  "xs \<noteq> [] \<Longrightarrow> \<forall>x \<in> set xs. x \<le> (b::nat) \<Longrightarrow> Max (set xs) = b \<longleftrightarrow> b \<in> set xs"
  by (metis List.finite_set Max_ge Max_in le_antisym set_empty)

lemma Min_eq_bound:
  "xs \<noteq> [] \<Longrightarrow> \<forall>x \<in> set xs. x \<le> (b::nat) \<Longrightarrow> Min (set xs) = b \<longleftrightarrow> (\<forall>x \<in> set xs. x = b)"
  by (metis List.finite_set Min_in Min_le le_antisym set_empty)

lemma ranks_of_active:
  assumes ne: "xs \<noteq> []" and active: "SellerOrderStatus.CANCELLED \<notin> set xs"
  shows "Max (set (map rankOf xs)) = 3 \<longleftrightarrow> (\<exists>s \<in> set xs. finished s)"
    and "Min (set (map rankOf xs)) = 3 \<longleftrightarrow> (\<forall>s \<in> set xs. finished s)"
    and "\<forall>s \<in> set xs. \<not> finished s \<Longrightarrow>
         Max (set (map rankOf xs)) = 2 \<longleftrightarrow> SellerOrderStatus.SHIPPED \<in> set xs"
    and "\<forall>s \<in> set xs. \<not> finished s \<Longrightarrow>
         Min (set (map rankOf xs)) = 2 \<longleftrightarrow> (\<forall>s \<in> set xs. s = SellerOrderStatus.SHIPPED)"
    and "\<forall>s \<in> set xs. \<not> finished s \<Longrightarrow> SellerOrderStatus.SHIPPED \<notin> set xs \<Longrightarrow>
         Max (set (map rankOf xs)) = 1 \<longleftrightarrow> SellerOrderStatus.PROCESSING \<in> set xs"
proof -
  let ?R = "map rankOf xs"
  have R: "?R \<noteq> []" using ne by simp
  have fin: "rankOf s = 3 \<longleftrightarrow> finished s" if "s \<in> set xs" for s
    using that active by (intro rankOf_finished) auto
  have b3: "\<forall>x \<in> set ?R. x \<le> 3" using rankOf_le by auto
  show "Max (set ?R) = 3 \<longleftrightarrow> (\<exists>s \<in> set xs. finished s)"
    using Max_eq_bound [OF R b3] fin by force
  show "Min (set ?R) = 3 \<longleftrightarrow> (\<forall>s \<in> set xs. finished s)"
    using Min_eq_bound [OF R b3] fin by auto
  assume nf: "\<forall>s \<in> set xs. \<not> finished s"
  have "rankOf s \<le> 2" if "s \<in> set xs" for s
    using fin [OF that] nf that rankOf_le [of s] by fastforce
  then have b2: "\<forall>x \<in> set ?R. x \<le> 2" by auto
  show "Max (set ?R) = 2 \<longleftrightarrow> SellerOrderStatus.SHIPPED \<in> set xs"
    using Max_eq_bound [OF R b2] by (metis (no_types, lifting) image_iff list.set_map rankOf_eq_2)
  show "Min (set ?R) = 2 \<longleftrightarrow> (\<forall>s \<in> set xs. s = SellerOrderStatus.SHIPPED)"
    using Min_eq_bound [OF R b2] by auto
  assume ns: "SellerOrderStatus.SHIPPED \<notin> set xs"
  have "rankOf s \<le> 1" if "s \<in> set xs" for s
  proof -
    have "\<not> finished s" "s \<noteq> SellerOrderStatus.SHIPPED" "s \<noteq> SellerOrderStatus.CANCELLED"
      using that ns nf active by auto
    then show ?thesis by (cases s) (simp_all add: finished_def)
  qed
  then have b1: "\<forall>x \<in> set ?R. x \<le> 1" by auto
  show "Max (set ?R) = 1 \<longleftrightarrow> SellerOrderStatus.PROCESSING \<in> set xs"
    using Max_eq_bound [OF R b1] by (metis (no_types, lifting) image_iff list.set_map rankOf_eq_1)
qed

lemma derive_cancelled:
  "SellerOrderStatus.CANCELLED \<in> set xs \<Longrightarrow> deriveParentOrderStatus xs = aggregate_spec xs"
  unfolding deriveParentOrderStatus_def aggregate_spec_def Let_def
  by (cases "\<forall>s \<in> set xs. s = SellerOrderStatus.CANCELLED")
     (auto simp: filter_empty_conv)

text \<open>
  The parent order's status is a function of which statuses occur among its seller orders,
  as its specification words it: all cancelled is CANCELLED, some cancelled is
  PARTIALLY_CANCELLED whatever the rest; otherwise all finished is COMPLETED, some finished
  PARTIALLY_COMPLETED, all shipped SHIPPED, some shipped PARTIALLY_SHIPPED, some in processing
  PROCESSING, else NEW. The min/max computation over progress ranks is equivalent to it.
\<close>
theorem derive_parent_spec: "deriveParentOrderStatus xs = aggregate_spec xs"
proof (cases "SellerOrderStatus.CANCELLED \<in> set xs \<or> xs = []")
  case True
  then show ?thesis
    by (auto simp: derive_cancelled) (simp add: deriveParentOrderStatus_def aggregate_spec_def)
next
  case False
  then have act: "filter (\<lambda>s. s \<noteq> SellerOrderStatus.CANCELLED) xs = xs"
    and canc: "filter (\<lambda>s. s = SellerOrderStatus.CANCELLED) xs = []" and ne: "xs \<noteq> []"
    and nc: "SellerOrderStatus.CANCELLED \<notin> set xs"
    by (auto simp: filter_id_conv filter_empty_conv)
  note R = ranks_of_active [OF ne nc]
  have some: "\<not> (\<forall>s \<in> set xs. s = SellerOrderStatus.CANCELLED)" using ne nc by (cases xs) auto
  show ?thesis
  proof (cases "\<exists>s \<in> set xs. finished s")
    case True
    then show ?thesis
      using ne nc some by (simp add: deriveParentOrderStatus_def aggregate_spec_def Let_def act canc R(1,2) del: set_map)
  next
    case nf: False
    then have n3: "Max (set (map rankOf xs)) \<noteq> 3" "\<not> (\<forall>s \<in> set xs. finished s)"
      using R(1) ne by (auto simp del: set_map simp: neq_Nil_conv)
    from nf have nf': "\<forall>s \<in> set xs. \<not> finished s" by blast
    show ?thesis
    proof (cases "SellerOrderStatus.SHIPPED \<in> set xs")
      case True
      then show ?thesis
        using ne nc some n3 nf' R(3,4) [OF nf']
        by (simp add: deriveParentOrderStatus_def aggregate_spec_def Let_def act canc del: set_map)
    next
      case False
      moreover from this ne have "\<not> (\<forall>s \<in> set xs. s = SellerOrderStatus.SHIPPED)" by (cases xs) auto
      ultimately show ?thesis
        using ne nc some n3 nf' R(3) [OF nf'] R(5) [OF nf' False]
        by (simp add: deriveParentOrderStatus_def aggregate_spec_def Let_def act canc del: set_map)
    qed
  qed
qed

section \<open>Financial summaries\<close>

record SellerOrderFinancialSummary =
  originalSubtotal :: string
  originalCommission :: string
  originalSellerNet :: string
  refundedAmount :: string
  commissionReversed :: string
  sellerNetReversed :: string
  effectiveSubtotal :: string
  effectiveCommission :: string
  effectiveSellerNet :: string

definition deriveSellerOrderFinancialSummary ::
  "SellerOrder \<Rightarrow> Refund list \<Rightarrow> SellerOrderFinancialSummary result" where
  "deriveSellerOrderFinancialSummary so completedRefunds =
     rbind (parseMoneyToCents (so_subtotal so)) (\<lambda>originalSubtotalCents.
     rbind (parseMoneyToCents (so_commissionAmount so)) (\<lambda>originalCommissionCents.
     rbind (parseMoneyToCents (so_sellerNetAmount so)) (\<lambda>originalSellerNetCents.
     if so_status so = SellerOrderStatus.CANCELLED
     then Inr \<lparr>originalSubtotal = so_subtotal so,
               originalCommission = so_commissionAmount so,
               originalSellerNet = so_sellerNetAmount so,
               refundedAmount = so_subtotal so,
               commissionReversed = so_commissionAmount so,
               sellerNetReversed = so_sellerNetAmount so,
               effectiveSubtotal = ''0.00'',
               effectiveCommission = ''0.00'',
               effectiveSellerNet = ''0.00''\<rparr>
     else
       rbind (rmap (\<lambda>r. parseMoneyToCents (rf_amount r)) completedRefunds) (\<lambda>amounts.
       rbind (rmap (\<lambda>r. parseMoneyToCents (rf_commissionAdjustment r)) completedRefunds) (\<lambda>commissions.
       rbind (rmap (\<lambda>r. parseMoneyToCents (rf_sellerAdjustment r)) completedRefunds) (\<lambda>nets.
       let refundedAmountCents = sumCents amounts;
           commissionReversedCents = sumCents commissions;
           sellerNetReversedCents = sumCents nets
       in Inr \<lparr>originalSubtotal = so_subtotal so,
               originalCommission = so_commissionAmount so,
               originalSellerNet = so_sellerNetAmount so,
               refundedAmount = formatCentsToMoney refundedAmountCents,
               commissionReversed = formatCentsToMoney commissionReversedCents,
               sellerNetReversed = formatCentsToMoney sellerNetReversedCents,
               effectiveSubtotal = formatCentsToMoney (originalSubtotalCents - refundedAmountCents),
               effectiveCommission = formatCentsToMoney (originalCommissionCents - commissionReversedCents),
               effectiveSellerNet = formatCentsToMoney (originalSellerNetCents - sellerNetReversedCents)\<rparr>))))))"

record OrderFinancialSummary =
  originalTotal :: string
  refundedTotal :: string
  effectiveTotal :: string

definition deriveOrderFinancialSummary ::
  "string \<Rightarrow> SellerOrderFinancialSummary list \<Rightarrow> OrderFinancialSummary result" where
  "deriveOrderFinancialSummary orderTotal sellerOrderSummaries =
     rbind (rmap (\<lambda>s. parseMoneyToCents (refundedAmount s)) sellerOrderSummaries) (\<lambda>refunded.
     let refundedTotalCents = sumCents refunded in
     rbind (parseMoneyToCents orderTotal) (\<lambda>originalTotalCents.
     Inr \<lparr>originalTotal = orderTotal,
          refundedTotal = formatCentsToMoney refundedTotalCents,
          effectiveTotal = formatCentsToMoney (originalTotalCents - refundedTotalCents)\<rparr>))"

text \<open>What it means that a stored split adds up.\<close>

definition so_balanced :: "SellerOrder \<Rightarrow> bool" where
  "so_balanced so \<longleftrightarrow>
     is_money (so_subtotal so) \<and> is_money (so_commissionAmount so) \<and> is_money (so_sellerNetAmount so) \<and>
     cents (so_subtotal so) = cents (so_commissionAmount so) + cents (so_sellerNetAmount so)"

definition refund_balanced :: "Refund \<Rightarrow> bool" where
  "refund_balanced r \<longleftrightarrow>
     is_money (rf_amount r) \<and> is_money (rf_commissionAdjustment r) \<and> is_money (rf_sellerAdjustment r) \<and>
     cents (rf_amount r) = cents (rf_commissionAdjustment r) + cents (rf_sellerAdjustment r)"

lemma sum_refund_split:
  "list_all refund_balanced rs \<Longrightarrow>
   sum_list (map (\<lambda>r. cents (rf_amount r)) rs)
     = sum_list (map (\<lambda>r. cents (rf_commissionAdjustment r)) rs)
       + sum_list (map (\<lambda>r. cents (rf_sellerAdjustment r)) rs)"
  by (induction rs) (auto simp: refund_balanced_def)

text \<open>
  A financial summary never loses a cent: if the stored split of a seller order and of every
  completed refund adds up, the summary exists, its effective subtotal is the effective
  commission plus the effective seller net, the refunded amount is what was reversed on the two
  sides, and the effective subtotal is the original one less the refunds; for a cancelled seller
  order everything is reversed.
\<close>
theorem summary_conserves:
  assumes so: "so_balanced so" and rs: "list_all refund_balanced rs"
  shows "\<exists>s. deriveSellerOrderFinancialSummary so rs = Inr s \<and>
           cents (effectiveSubtotal s) = cents (effectiveCommission s) + cents (effectiveSellerNet s) \<and>
           cents (refundedAmount s) = cents (commissionReversed s) + cents (sellerNetReversed s) \<and>
           cents (effectiveSubtotal s) = cents (so_subtotal so) - cents (refundedAmount s)"
proof -
  have m: "parseMoneyToCents (so_subtotal so) = Inr (cents (so_subtotal so))"
    "parseMoneyToCents (so_commissionAmount so) = Inr (cents (so_commissionAmount so))"
    "parseMoneyToCents (so_sellerNetAmount so) = Inr (cents (so_sellerNetAmount so))"
    using so by (auto simp: so_balanced_def is_money_cents)
  have r: "rmap (\<lambda>r. parseMoneyToCents (rf_amount r)) rs = Inr (map (\<lambda>r. cents (rf_amount r)) rs)"
    "rmap (\<lambda>r. parseMoneyToCents (rf_commissionAdjustment r)) rs
       = Inr (map (\<lambda>r. cents (rf_commissionAdjustment r)) rs)"
    "rmap (\<lambda>r. parseMoneyToCents (rf_sellerAdjustment r)) rs
       = Inr (map (\<lambda>r. cents (rf_sellerAdjustment r)) rs)"
    using rs by (auto intro!: rmap_money simp: list_all_iff refund_balanced_def)
  show ?thesis
  proof (cases "so_status so = SellerOrderStatus.CANCELLED")
    case True
    with so show ?thesis
      by (simp add: deriveSellerOrderFinancialSummary_def m so_balanced_def)
  next
    case False
    with so sum_refund_split [OF rs] show ?thesis
      by (simp add: deriveSellerOrderFinancialSummary_def m r so_balanced_def Let_def)
  qed
qed

definition sample_so :: SellerOrder where
  "sample_so = \<lparr>so_id = 1, so_orderId = 0, so_sellerProfileId = 1, so_subtotal = ''20.00'',
     so_commissionAmount = ''2.00'', so_sellerNetAmount = ''18.00'',
     so_status = SellerOrderStatus.SHIPPED, so_createdAt = 0\<rparr>"

definition sample_refund :: Refund where
  "sample_refund = \<lparr>rf_id = 5, rf_sellerOrderId = 1, rf_sellerOrderItemId = 3, rf_disputeId = None,
     rf_quantity = 1, rf_amount = ''5.00'', rf_commissionAdjustment = ''0.50'',
     rf_sellerAdjustment = ''4.50'', rf_reason = None, rf_status = RefundStatus.COMPLETED,
     rf_idempotencyKey = ''k'', rf_initiatedBy = 9, rf_correlationId = None, rf_createdAt = 0\<rparr>"

theorem summary_conserves_witness:
  "\<exists>s. deriveSellerOrderFinancialSummary sample_so [sample_refund] = Inr s \<and>
       cents (effectiveSubtotal s) = cents (effectiveCommission s) + cents (effectiveSellerNet s)"
proof -
  have "so_balanced sample_so" "list_all refund_balanced [sample_refund]" by code_simp+
  from summary_conserves [OF this] show ?thesis by blast
qed

end
