(* ===== verification/Auction_Domain.thy ===== *)
theory Auction_Domain
  imports Store
begin

text \<open>
  The pure rules of \<open>modules/bidding/domain\<close>: the auction status policy, the bidding window, the
  public and seller views of an auction and the anonymised bid history.
\<close>

section \<open>Status policy\<close>

fun AUCTION_TRANSITIONS :: "AuctionStatus \<Rightarrow> AuctionStatus list" where
  "AUCTION_TRANSITIONS AuctionStatus.SCHEDULED = [AuctionStatus.ACTIVE, AuctionStatus.CANCELLED]"
| "AUCTION_TRANSITIONS AuctionStatus.ACTIVE =
     [AuctionStatus.UNSOLD, AuctionStatus.AWAITING_PAYMENT, AuctionStatus.CANCELLED]"
| "AUCTION_TRANSITIONS AuctionStatus.AWAITING_PAYMENT = [AuctionStatus.COMPLETED, AuctionStatus.EXPIRED]"
| "AUCTION_TRANSITIONS AuctionStatus.ENDED = []"
| "AUCTION_TRANSITIONS AuctionStatus.UNSOLD = []"
| "AUCTION_TRANSITIONS AuctionStatus.EXPIRED = []"
| "AUCTION_TRANSITIONS AuctionStatus.COMPLETED = []"
| "AUCTION_TRANSITIONS AuctionStatus.CANCELLED = []"

definition AUCTION_CANCELLABLE_FROM :: "AuctionStatus list" where
  "AUCTION_CANCELLABLE_FROM = [AuctionStatus.SCHEDULED, AuctionStatus.ACTIVE]"

definition assertValidAuctionTransition :: "AuctionStatus \<Rightarrow> AuctionStatus \<Rightarrow> unit result" where
  "assertValidAuctionTransition from to =
     (if to \<notin> set (AUCTION_TRANSITIONS from)
      then Inl (ConflictException ''Cannot transition auction'') else Inr ())"

definition isAuctionCancellable :: "AuctionStatus \<Rightarrow> bool" where
  "isAuctionCancellable status \<longleftrightarrow> status \<in> set AUCTION_CANCELLABLE_FROM"

definition assertAuctionCancellable :: "AuctionStatus \<Rightarrow> unit result" where
  "assertAuctionCancellable status =
     (if \<not> isAuctionCancellable status
      then Inl (ConflictException ''An auction in this status cannot be cancelled'') else Inr ())"

definition isWithinBiddingWindow :: "time \<Rightarrow> time \<Rightarrow> time \<Rightarrow> bool" where
  "isWithinBiddingWindow startsAt endsAt t \<longleftrightarrow> t \<ge> startsAt \<and> t < endsAt"

fun auction_rank :: "AuctionStatus \<Rightarrow> nat" where
  "auction_rank AuctionStatus.SCHEDULED = 0"
| "auction_rank AuctionStatus.ACTIVE = 1"
| "auction_rank AuctionStatus.AWAITING_PAYMENT = 2"
| "auction_rank AuctionStatus.ENDED = 3"
| "auction_rank AuctionStatus.UNSOLD = 3"
| "auction_rank AuctionStatus.EXPIRED = 3"
| "auction_rank AuctionStatus.COMPLETED = 3"
| "auction_rank AuctionStatus.CANCELLED = 3"

interpretation auction_machine: status_machine AUCTION_TRANSITIONS auction_rank
proof
  fix s t
  assume "t \<in> set (AUCTION_TRANSITIONS s)"
  then show "auction_rank s < auction_rank t" by (cases s) auto
qed

section \<open>Views\<close>

record AuctionPublicView =
  av_id :: uuid
  av_productId :: uuid
  av_productName :: string
  av_productSlug :: string
  av_startPrice :: string
  av_currentPrice :: string
  av_minBidIncrement :: string
  av_minNextBid :: string
  av_startsAt :: time
  av_endsAt :: time
  av_status :: AuctionStatus
  av_bidCount :: nat
  av_purchaseWindowEndsAt :: "time option"

record AuctionSellerView = AuctionPublicView +
  av_isEditable :: bool
  av_winnerId :: "uuid option"

definition effective_status :: "env \<Rightarrow> Auction \<Rightarrow> AuctionStatus" where
  "effective_status e a =
     (if au_status a = AuctionStatus.SCHEDULED \<and> now e \<ge> au_startsAt a \<and> now e < au_endsAt a
      then AuctionStatus.ACTIVE else au_status a)"

definition min_next_bid_cents :: "Auction \<Rightarrow> bool \<Rightarrow> int result" where
  "min_next_bid_cents a hasBid =
     (if hasBid
      then rbind (parseMoneyToCents (au_currentPrice a)) (\<lambda>c.
           rbind (parseMoneyToCents (au_minBidIncrement a)) (\<lambda>i. Inr (sumCents [c, i])))
      else parseMoneyToCents (au_startPrice a))"

definition toPublicView :: "env \<Rightarrow> Auction \<Rightarrow> Product \<Rightarrow> nat \<Rightarrow> AuctionPublicView result" where
  "toPublicView e a p bidCount =
     rbind (min_next_bid_cents a (bidCount \<noteq> 0)) (\<lambda>minNextBidCents.
     Inr \<lparr>av_id = au_id a, av_productId = au_productId a, av_productName = pr_name p,
          av_productSlug = pr_slug p, av_startPrice = au_startPrice a,
          av_currentPrice = au_currentPrice a, av_minBidIncrement = au_minBidIncrement a,
          av_minNextBid = formatCentsToMoney minNextBidCents, av_startsAt = au_startsAt a,
          av_endsAt = au_endsAt a, av_status = effective_status e a, av_bidCount = bidCount,
          av_purchaseWindowEndsAt = au_purchaseWindowEndsAt a\<rparr>)"

definition toSellerView :: "env \<Rightarrow> Auction \<Rightarrow> Product \<Rightarrow> nat \<Rightarrow> bool \<Rightarrow> AuctionSellerView result" where
  "toSellerView e a p bidCount isEditable =
     rbind (toPublicView e a p bidCount) (\<lambda>v.
     Inr (AuctionPublicView.extend v \<lparr>av_isEditable = isEditable, av_winnerId = au_winnerId a\<rparr>))"

section \<open>Anonymised bid history\<close>

record BidHistoryItemView =
  bh_id :: uuid
  bh_amount :: string
  bh_createdAt :: time
  bh_bidderLabel :: string
  bh_isMine :: bool

definition bidder_label :: "nat \<Rightarrow> string" where
  "bidder_label n = ''Bidder '' @ show_nat n"

text \<open>The loop of \<open>bids.map\<close>; the first argument is the Map from bidders to labels.\<close>

fun anonymize_from ::
  "(uuid \<times> string) list \<Rightarrow> uuid option \<Rightarrow> Bid list \<Rightarrow> BidHistoryItemView list" where
  "anonymize_from labels currentUserId [] = []"
| "anonymize_from labels currentUserId (b # bs) =
     (let label = (case map_of labels (bid_bidderId b) of
                     Some l \<Rightarrow> l | None \<Rightarrow> bidder_label (length labels + 1));
          labels' = (case map_of labels (bid_bidderId b) of
                     Some l \<Rightarrow> labels | None \<Rightarrow> labels @ [(bid_bidderId b, label)])
      in \<lparr>bh_id = bid_id b, bh_amount = bid_amount b, bh_createdAt = bid_createdAt b,
          bh_bidderLabel = label, bh_isMine = (currentUserId = Some (bid_bidderId b))\<rparr>
         # anonymize_from labels' currentUserId bs)"

definition anonymizeBidHistory :: "Bid list \<Rightarrow> uuid option \<Rightarrow> BidHistoryItemView list" where
  "anonymizeBidHistory bs currentUserId = anonymize_from [] currentUserId bs"

text \<open>
  The labels a history assigns: the label of a bidder is its position in the order of first
  appearance.
\<close>

fun first_seen :: "uuid list \<Rightarrow> Bid list \<Rightarrow> uuid list" where
  "first_seen seen [] = seen"
| "first_seen seen (b # bs) =
     first_seen (if bid_bidderId b \<in> set seen then seen else seen @ [bid_bidderId b]) bs"

fun label_of :: "uuid list \<Rightarrow> uuid \<Rightarrow> nat" where
  "label_of [] u = 0"
| "label_of (v # vs) u = (if v = u then 1 else Suc (label_of vs u))"

section \<open>Labels are stable and identify bidders\<close>

definition labels_ok :: "(uuid \<times> string) list \<Rightarrow> bool" where
  "labels_ok L \<longleftrightarrow>
     (\<forall>u \<in> fst ` set L. map_of L u = Some (bidder_label (label_of (map fst L) u)))"

lemma label_of_append: "u \<in> set vs \<Longrightarrow> label_of (vs @ ws) u = label_of vs u"
  by (induction vs) auto

lemma label_of_new: "u \<notin> set vs \<Longrightarrow> label_of (vs @ [u]) u = length vs + 1"
  by (induction vs) auto

lemma label_of_pos: "u \<in> set vs \<Longrightarrow> 0 < label_of vs u"
  by (cases vs) auto

lemma label_of_inj: "u \<in> set vs \<Longrightarrow> w \<in> set vs \<Longrightarrow> label_of vs u = label_of vs w \<Longrightarrow> u = w"
proof (induction vs)
  case (Cons v vs)
  then show ?case
    using label_of_pos [of u vs] label_of_pos [of w vs] by (auto split: if_splits)
qed simp

lemma first_seen_extends: "\<exists>ws. first_seen seen bs = seen @ ws"
proof (induction bs arbitrary: seen)
  case (Cons b bs)
  from Cons [of "seen @ [bid_bidderId b]"] Cons [of seen] show ?case by auto
qed simp

lemma first_seen_all: "set (first_seen seen bs) = set seen \<union> bid_bidderId ` set bs"
  by (induction bs arbitrary: seen) auto

lemma labels_ok_snoc:
  assumes "labels_ok L" and "u \<notin> fst ` set L"
  shows "labels_ok (L @ [(u, bidder_label (length L + 1))])"
proof -
  have "map_of L u = None" using assms(2) by (simp add: map_of_eq_None_iff)
  then show ?thesis
    using assms label_of_new [of u "map fst L"]
    by (auto simp: labels_ok_def label_of_append map_add_def)
qed

lemma anonymize_labels:
  "labels_ok L \<Longrightarrow>
   map bh_bidderLabel (anonymize_from L cur bs)
     = map (\<lambda>b. bidder_label (label_of (first_seen (map fst L) bs) (bid_bidderId b))) bs"
proof (induction bs arbitrary: L)
  case (Cons b bs)
  let ?u = "bid_bidderId b"
  show ?case
  proof (cases "?u \<in> fst ` set L")
    case True
    then have m: "map_of L ?u = Some (bidder_label (label_of (map fst L) ?u))"
      using Cons.prems by (auto simp: labels_ok_def)
    obtain ws where ws: "first_seen (map fst L) bs = map fst L @ ws"
      using first_seen_extends by blast
    have "label_of (first_seen (map fst L) bs) ?u = label_of (map fst L) ?u"
      unfolding ws using True by (intro label_of_append) simp
    then show ?thesis using True m Cons.IH [OF Cons.prems] by (simp add: Let_def)
  next
    case False
    then have m: "map_of L ?u = None" by (simp add: map_of_eq_None_iff)
    let ?L = "L @ [(?u, bidder_label (length L + 1))]"
    have ok: "labels_ok ?L" using labels_ok_snoc [OF Cons.prems False] .
    obtain ws where ws: "first_seen (map fst ?L) bs = map fst ?L @ ws"
      using first_seen_extends by blast
    have "label_of (first_seen (map fst ?L) bs) ?u = label_of (map fst ?L) ?u"
      unfolding ws by (intro label_of_append) simp
    also have "\<dots> = length L + 1" using False label_of_new [of ?u "map fst L"] by simp
    finally show ?thesis using False m Cons.IH [OF ok] by (simp add: Let_def)
  qed
qed simp

lemma length_anonymize [simp]: "length (anonymize_from L cur bs) = length bs"
  by (induction bs arbitrary: L) (auto simp: Let_def)

lemma anonymize_isMine:
  "i < length bs \<Longrightarrow> bh_isMine (anonymize_from L cur bs ! i) = (cur = Some (bid_bidderId (bs ! i)))"
proof (induction bs arbitrary: L i)
  case (Cons b bs)
  then show ?case by (cases i) (auto simp: Let_def)
qed simp

lemma take_anonymize: "take (length bs) (anonymize_from L cur (bs @ cs)) = anonymize_from L cur bs"
  by (induction bs arbitrary: L) (auto simp: Let_def)

lemma bidder_label_inject [simp]: "bidder_label m = bidder_label n \<longleftrightarrow> m = n"
  by (auto simp: bidder_label_def dest: show_nat_inject)

text \<open>
  The anonymised history of an auction: in the history of any bids, two entries carry the same
  label exactly when the same user placed them, the caller's own bids and no others are marked,
  and labels are stable: later bids never relabel the entries already shown.
\<close>
theorem anonymize_identifies:
  "\<forall>i < length bs. \<forall>j < length bs.
     (bh_bidderLabel (anonymizeBidHistory bs cur ! i) = bh_bidderLabel (anonymizeBidHistory bs cur ! j)
        \<longleftrightarrow> bid_bidderId (bs ! i) = bid_bidderId (bs ! j)) \<and>
     bh_isMine (anonymizeBidHistory bs cur ! i) = (cur = Some (bid_bidderId (bs ! i))) \<and>
     take (length bs) (anonymizeBidHistory (bs @ cs) cur) = anonymizeBidHistory bs cur"
proof (intro allI impI conjI)
  fix i j assume i: "i < length bs" and j: "j < length bs"
  have lab: "bh_bidderLabel (anonymizeBidHistory bs cur ! k)
      = bidder_label (label_of (first_seen [] bs) (bid_bidderId (bs ! k)))" if "k < length bs" for k
    using arg_cong [OF anonymize_labels [of "[]" cur bs], of "\<lambda>xs. xs ! k"] that
    by (simp add: labels_ok_def anonymizeBidHistory_def)
  have mem: "bid_bidderId (bs ! k) \<in> set (first_seen [] bs)" if "k < length bs" for k
    using that by (auto simp: first_seen_all)
  show "bh_bidderLabel (anonymizeBidHistory bs cur ! i) = bh_bidderLabel (anonymizeBidHistory bs cur ! j)
        \<longleftrightarrow> bid_bidderId (bs ! i) = bid_bidderId (bs ! j)"
    using lab [OF i] lab [OF j] label_of_inj [OF mem [OF i] mem [OF j]] by auto
  show "bh_isMine (anonymizeBidHistory bs cur ! i) = (cur = Some (bid_bidderId (bs ! i)))"
    using i by (simp add: anonymizeBidHistory_def anonymize_isMine)
  show "take (length bs) (anonymizeBidHistory (bs @ cs) cur) = anonymizeBidHistory bs cur"
    by (simp add: anonymizeBidHistory_def take_anonymize)
qed

definition sample_history :: "Bid list" where
  "sample_history = map (\<lambda>(i, u). \<lparr>bid_id = i, bid_auctionId = 1, bid_bidderId = u, bid_amount = ''1.00'',
     bid_idempotencyKey = ''k'', bid_createdAt = int i\<rparr>) [(10, 7), (11, 8), (12, 7)]"

theorem anonymize_identifies_witness:
  "bh_bidderLabel (anonymizeBidHistory sample_history (Some 8) ! 0)
     = bh_bidderLabel (anonymizeBidHistory sample_history (Some 8) ! 2)"
proof -
  have "(0::nat) < length sample_history" "2 < length sample_history"
    "bid_bidderId (sample_history ! 0) = bid_bidderId (sample_history ! 2)" by code_simp+
  with anonymize_identifies [of sample_history "Some 8" "[]"] show ?thesis by blast
qed

end
