(* ===== verification/Bidding.thy ===== *)
theory Bidding
  imports Auction_Domain
begin

text \<open>
  Placing a bid (\<open>modules/bidding/bid-placement.service.ts\<close>) and the public reads of
  \<open>bidding.service.ts\<close>. A request runs one transaction that locks the auction row, so two
  requests on one auction are two transactions one after the other; the state between them is a
  database.
\<close>

section \<open>Idempotency keys\<close>

definition IDEMPOTENCY_KEY_MAX_LENGTH :: nat where
  "IDEMPOTENCY_KEY_MAX_LENGTH = 200"

definition requireIdempotencyKey :: "string option \<Rightarrow> string result" where
  "requireIdempotencyKey key =
     (case key of
        None \<Rightarrow> Inl (BadRequestException ''Idempotency-Key header is required'')
      | Some k \<Rightarrow>
          if length (js_trim k) = 0
          then Inl (BadRequestException ''Idempotency-Key header is required'')
          else if length k > IDEMPOTENCY_KEY_MAX_LENGTH
          then Inl (BadRequestException ''Idempotency-Key header is too long'')
          else Inr k)"

section \<open>The bid transaction\<close>

definition is_bid_claim :: "uuid \<Rightarrow> uuid \<Rightarrow> string \<Rightarrow> Bid \<Rightarrow> bool" where
  "is_bid_claim auctionId bidderId key b \<longleftrightarrow>
     bid_auctionId b = auctionId \<and> bid_bidderId b = bidderId \<and> bid_idempotencyKey b = key"

text \<open>
  Inserting a Bid row: the unique index on (auctionId, bidderId, idempotencyKey) rejects a second
  claim. The entity the caller goes on with carries the amount as it was given, the row the
  amount as the column stores it.
\<close>

definition insert_bid ::
  "env \<Rightarrow> uuid \<Rightarrow> uuid \<Rightarrow> string \<Rightarrow> string \<Rightarrow> database \<Rightarrow> (Bid \<times> database) result" where
  "insert_bid e auctionId bidderId amount key d =
     (if \<exists>b \<in> set (bids d). is_bid_claim auctionId bidderId key b then Inl UniqueViolation
      else let bid = \<lparr>bid_id = next_id d, bid_auctionId = auctionId, bid_bidderId = bidderId,
                      bid_amount = amount, bid_idempotencyKey = key, bid_createdAt = now e\<rparr>
           in Inr (bid, d\<lparr>next_id := next_id d + 1,
                          bids := bids d @ [bid\<lparr>bid_amount := numeric2 e amount\<rparr>]\<rparr>))"

record BidOutcome =
  bo_bid :: Bid
  bo_productId :: uuid

text \<open>Steps 6 to 8: the append-only bid row, the new leading price, the outbox events.\<close>

definition record_bid ::
  "env \<Rightarrow> Auction \<Rightarrow> bool \<Rightarrow> uuid \<Rightarrow> string \<Rightarrow> uuid \<Rightarrow> string \<Rightarrow> sys \<Rightarrow> BidOutcome result \<times> sys" where
  "record_bid e auction activatedNow bidderId idempotencyKey correlationId amount s =
     (case insert_bid e (au_id auction) bidderId amount idempotencyKey (db s) of
        Inl err \<Rightarrow> (Inl err, s)
      | Inr (bid, d1) \<Rightarrow>
          let s1 = s\<lparr>db := d1\<rparr>;
              auction' = auction\<lparr>au_currentPrice := amount, au_winnerId := Some bidderId,
                                 au_winningBidId := Some (bid_id bid)\<rparr>;
              s2 = upd_db (save_auction e auction') s1;
              s3 = (if activatedNow
                    then outbox_record ''AUCTION_STARTED'' ''Auction'' (au_id auction)
                           [(''auctionId'', JId (au_id auction)), (''productId'', JId (au_productId auction))]
                           correlationId s2
                    else s2);
              s4 = outbox_record ''BID_PLACED'' ''Auction'' (au_id auction)
                     [(''auctionId'', JId (au_id auction)), (''bidId'', JId (bid_id bid)),
                      (''bidderId'', JId bidderId), (''amount'', JStr amount)] correlationId s3;
              s5 = outbox_record ''PRODUCT_UPDATED'' ''Product'' (au_productId auction)
                     [(''productId'', JId (au_productId auction)), (''auctionId'', JId (au_id auction))]
                     correlationId s4
          in (Inr \<lparr>bo_bid = bid, bo_productId = au_productId auction\<rparr>, s5))"

definition runBidTransaction ::
  "env \<Rightarrow> uuid \<Rightarrow> uuid \<Rightarrow> string \<Rightarrow> uuid \<Rightarrow> string \<Rightarrow> sys \<Rightarrow> BidOutcome result \<times> sys" where
  "runBidTransaction e bidderId auctionId idempotencyKey correlationId amount s =
     (case by_id au_id auctionId (auctions (db s)) of
        None \<Rightarrow> (Inl (NotFoundException ''Auction not found''), s)
      | Some auction0 \<Rightarrow>
     (case find (is_bid_claim auctionId bidderId idempotencyKey) (bids (db s)) of
        Some replay \<Rightarrow>
          if bid_amount replay \<noteq> amount
          then (Inl (ConflictException ''This Idempotency-Key was already used for a different bid amount''), s)
          else (Inr \<lparr>bo_bid = replay, bo_productId = au_productId auction0\<rparr>, s)
      | None \<Rightarrow>
     (let activatedNow = (au_status auction0 = AuctionStatus.SCHEDULED \<and>
                          isWithinBiddingWindow (au_startsAt auction0) (au_endsAt auction0) (now e));
          auction = (if activatedNow then auction0\<lparr>au_status := AuctionStatus.ACTIVE\<rparr> else auction0)
      in if au_status auction \<noteq> AuctionStatus.ACTIVE \<or> now e < au_startsAt auction \<or> now e \<ge> au_endsAt auction
         then (Inl (ConflictException ''This auction is not currently open for bidding''), s)
         else
     (case by_id pr_id (au_productId auction) (products (db s)) of
        None \<Rightarrow> (Inl (NotFoundException ''Product not found''), s)
      | Some product \<Rightarrow>
     (case by_id sp_id (pr_sellerProfileId product) (seller_profiles (db s)) of
        None \<Rightarrow> (Inl (PlainError ''TypeError''), s)
      | Some sellerProfile \<Rightarrow>
         if sp_userId sellerProfile = bidderId
         then (Inl (ConflictException ''You cannot bid on your own auction''), s)
         else
     (case min_next_bid_cents auction (au_winnerId auction \<noteq> None) of
        Inl err \<Rightarrow> (Inl err, s)
      | Inr minNextBidCents \<Rightarrow>
     (case parseMoneyToCents amount of
        Inl err \<Rightarrow> (Inl err, s)
      | Inr amountCents \<Rightarrow>
         if amountCents < minNextBidCents
         then (Inl (ConflictException ''Bid is below the minimum''), s)
         else record_bid e auction activatedNow bidderId idempotencyKey correlationId amount s)))))))"

section \<open>The request handler\<close>

record BidAcceptedView =
  ba_bidId :: uuid
  ba_auctionId :: uuid
  ba_amount :: string
  ba_currentPrice :: string
  ba_minimumNextBid :: string
  ba_createdAt :: time

definition bid_toView :: "Bid \<Rightarrow> uuid \<Rightarrow> database \<Rightarrow> BidAcceptedView result" where
  "bid_toView bid auctionId d =
     (case by_id au_id auctionId (auctions d) of
        None \<Rightarrow> Inl (NotFoundException ''Auction not found'')
      | Some auction \<Rightarrow>
          rbind (min_next_bid_cents auction True) (\<lambda>next'.
          Inr \<lparr>ba_bidId = bid_id bid, ba_auctionId = bid_auctionId bid, ba_amount = bid_amount bid,
               ba_currentPrice = au_currentPrice auction,
               ba_minimumNextBid = formatCentsToMoney next', ba_createdAt = bid_createdAt bid\<rparr>))"

definition replayBid :: "uuid \<Rightarrow> uuid \<Rightarrow> string \<Rightarrow> database \<Rightarrow> Bid result" where
  "replayBid auctionId bidderId key d =
     (case find (is_bid_claim auctionId bidderId key) (bids d) of
        None \<Rightarrow> Inl (ConflictException ''A bid with this Idempotency-Key is already in progress'')
      | Some existing \<Rightarrow> Inr existing)"

definition placeBid ::
  "env \<Rightarrow> uuid \<Rightarrow> uuid \<Rightarrow> string option \<Rightarrow> uuid \<Rightarrow> string \<Rightarrow> sys \<Rightarrow> BidAcceptedView result \<times> sys" where
  "placeBid e bidderId auctionId key correlationId amount s =
     (case requireIdempotencyKey key of
        Inl err \<Rightarrow> (Inl err, s)
      | Inr idempotencyKey \<Rightarrow>
          let s0 = increment ''bid_attempts_total'' s in
          (case transaction (runBidTransaction e bidderId auctionId idempotencyKey correlationId amount) s0 of
             (Inr outcome, s1) \<Rightarrow>
               let s2 = emit (RedisDelProduct (bo_productId outcome)) s1;
                   s3 = emit RedisIncrSearchVersion s2;
                   s4 = increment ''bids_placed_total'' s3
               in (bid_toView (bo_bid outcome) auctionId (db s4), s4)
           | (Inl err, s1) \<Rightarrow>
               if isUniqueViolation err
               then let s2 = increment ''bid_idempotent_replays_total'' s1
                    in (rbind (replayBid auctionId bidderId idempotencyKey (db s2))
                          (\<lambda>replayed. bid_toView replayed auctionId (db s2)), s2)
               else if isConflictException err
               then (Inl err, increment ''bids_rejected_total'' (increment ''bid_conflicts_total'' s1))
               else (Inl err, s1)))"

section \<open>Public reads\<close>

definition BID_HISTORY_LIMIT :: nat where
  "BID_HISTORY_LIMIT = 100"

definition auction_bids :: "uuid \<Rightarrow> database \<Rightarrow> Bid list" where
  "auction_bids auctionId d = filter (\<lambda>b. bid_auctionId b = auctionId) (bids d)"

definition load_public_view :: "env \<Rightarrow> Auction \<Rightarrow> database \<Rightarrow> AuctionPublicView result" where
  "load_public_view e auction d =
     (case by_id pr_id (au_productId auction) (products d) of
        None \<Rightarrow> Inl (PlainError ''TypeError'')
      | Some product \<Rightarrow> toPublicView e auction product (length (auction_bids (au_id auction) d)))"

definition bidding_findById :: "env \<Rightarrow> uuid \<Rightarrow> database \<Rightarrow> AuctionPublicView result" where
  "bidding_findById e i d =
     (case by_id au_id i (auctions d) of
        None \<Rightarrow> Inl (NotFoundException ''Auction not found'')
      | Some auction \<Rightarrow> load_public_view e auction d)"

definition bidding_findByProductId :: "env \<Rightarrow> uuid \<Rightarrow> database \<Rightarrow> AuctionPublicView result" where
  "bidding_findByProductId e productId d =
     (case find (\<lambda>a. au_productId a = productId) (auctions d) of
        None \<Rightarrow> Inl (NotFoundException ''Auction for product not found'')
      | Some auction \<Rightarrow> load_public_view e auction d)"

record AuctionWinnerStateView =
  aw_isWinner :: bool
  aw_canCheckout :: bool
  aw_purchaseWindowEndsAt :: "time option"

definition winnerState :: "env \<Rightarrow> uuid \<Rightarrow> uuid \<Rightarrow> database \<Rightarrow> AuctionWinnerStateView result" where
  "winnerState e auctionId userId d =
     (case by_id au_id auctionId (auctions d) of
        None \<Rightarrow> Inl (NotFoundException ''Auction not found'')
      | Some auction \<Rightarrow>
          let isWinner = (au_winnerId auction = Some userId) in
          Inr \<lparr>aw_isWinner = isWinner,
               aw_canCheckout = (isWinner \<and> au_status auction = AuctionStatus.AWAITING_PAYMENT \<and>
                 (case au_purchaseWindowEndsAt auction of None \<Rightarrow> False | Some t \<Rightarrow> t > now e)),
               aw_purchaseWindowEndsAt = (if isWinner then au_purchaseWindowEndsAt auction else None)\<rparr>)"

text \<open>\<open>slice(-LIMIT).reverse()\<close>: the newest entries first, labels assigned over the whole history.\<close>

definition findBidHistory :: "uuid \<Rightarrow> uuid option \<Rightarrow> database \<Rightarrow> BidHistoryItemView list result" where
  "findBidHistory auctionId currentUserId d =
     (if by_id au_id auctionId (auctions d) = None
      then Inl (NotFoundException ''Auction not found'')
      else let anonymized = anonymizeBidHistory (auction_bids auctionId d) currentUserId
           in Inr (rev (drop (length anonymized - BID_HISTORY_LIMIT) anonymized)))"

section \<open>What the transaction does, branch by branch\<close>

definition open_auction :: "env \<Rightarrow> Auction \<Rightarrow> Auction" where
  "open_auction e a =
     (if au_status a = AuctionStatus.SCHEDULED \<and> isWithinBiddingWindow (au_startsAt a) (au_endsAt a) (now e)
      then a\<lparr>au_status := AuctionStatus.ACTIVE\<rparr> else a)"

lemma open_auction_frame [simp]:
  "au_id (open_auction e a) = au_id a" "au_productId (open_auction e a) = au_productId a"
  "au_startPrice (open_auction e a) = au_startPrice a"
  "au_currentPrice (open_auction e a) = au_currentPrice a"
  "au_minBidIncrement (open_auction e a) = au_minBidIncrement a"
  "au_startsAt (open_auction e a) = au_startsAt a" "au_endsAt (open_auction e a) = au_endsAt a"
  "au_winnerId (open_auction e a) = au_winnerId a"
  "au_winningBidId (open_auction e a) = au_winningBidId a"
  by (simp_all add: open_auction_def)

definition fresh_bid :: "env \<Rightarrow> Auction \<Rightarrow> uuid \<Rightarrow> string \<Rightarrow> string \<Rightarrow> database \<Rightarrow> Bid" where
  "fresh_bid e a bidderId key amount d =
     \<lparr>bid_id = next_id d, bid_auctionId = au_id a, bid_bidderId = bidderId,
      bid_amount = amount, bid_idempotencyKey = key, bid_createdAt = now e\<rparr>"

definition led_by :: "env \<Rightarrow> Auction \<Rightarrow> Bid \<Rightarrow> Auction" where
  "led_by e a b = (open_auction e a)\<lparr>au_currentPrice := bid_amount b,
     au_winnerId := Some (bid_bidderId b), au_winningBidId := Some (bid_id b)\<rparr>"

lemma record_bid_error:
  "record_bid e a act u key corr amount s = (Inl err, s') \<Longrightarrow> s' = s"
  by (auto simp: record_bid_def Let_def split: sum.splits)

lemma record_bid_ok:
  assumes "record_bid e (open_auction e a) act u key corr amount s = (Inr out, s')"
  defines "b \<equiv> fresh_bid e a u key amount (db s)"
  shows "out = \<lparr>bo_bid = b, bo_productId = au_productId a\<rparr>"
    and "bids (db s') = bids (db s) @ [b\<lparr>bid_amount := numeric2 e amount\<rparr>]"
    and "auctions (db s') = put_row au_id (stored_auction e (led_by e a b)) (auctions (db s))"
    and "products (db s') = products (db s)"
    and "seller_profiles (db s') = seller_profiles (db s)"
    and "next_id (db s) < next_id (db s')"
    and "effects s' = effects s"
    and "\<not> (\<exists>c \<in> set (bids (db s)). is_bid_claim (au_id a) u key c)"
  using assms
  by (auto simp: record_bid_def insert_bid_def Let_def fresh_bid_def led_by_def save_auction_def
        split: if_splits)

definition admits :: "env \<Rightarrow> Auction \<Rightarrow> uuid \<Rightarrow> string \<Rightarrow> database \<Rightarrow> bool" where
  "admits e a bidderId amount d \<longleftrightarrow>
     au_status (open_auction e a) = AuctionStatus.ACTIVE \<and> au_startsAt a \<le> now e \<and> now e < au_endsAt a \<and>
     (\<exists>p sp. by_id pr_id (au_productId a) (products d) = Some p \<and>
             by_id sp_id (pr_sellerProfileId p) (seller_profiles d) = Some sp \<and>
             sp_userId sp \<noteq> bidderId) \<and>
     (\<exists>m c. min_next_bid_cents a (au_winnerId a \<noteq> None) = Inr m \<and>
             parseMoneyToCents amount = Inr c \<and> m \<le> c)"

lemma min_next_open [simp]: "min_next_bid_cents (open_auction e a) h = min_next_bid_cents a h"
  by (simp add: min_next_bid_cents_def)


lemma runBid_refused:
  assumes "by_id au_id i (auctions (db s)) = Some a" "find (is_bid_claim i u key) (bids (db s)) = None"
    and "\<not> admits e a u amount (db s)"
  shows "\<exists>err. runBidTransaction e u i key corr amount s = (Inl err, s)"
  using assms unfolding runBidTransaction_def Let_def open_auction_def [symmetric]
  by (simp add: admits_def split: option.split sum.split) fastforce

lemma runBid_admitted:
  assumes "by_id au_id i (auctions (db s)) = Some a" "find (is_bid_claim i u key) (bids (db s)) = None"
    and "admits e a u amount (db s)"
  shows "\<exists>act. runBidTransaction e u i key corr amount s
           = record_bid e (open_auction e a) act u key corr amount s"
  using assms unfolding runBidTransaction_def Let_def open_auction_def [symmetric] admits_def
  by force

lemma runBid_cases:
  obtains (error) err where "runBidTransaction e u i key corr amount s = (Inl err, s)"
  | (replay) a r where "by_id au_id i (auctions (db s)) = Some a"
      "find (is_bid_claim i u key) (bids (db s)) = Some r" "bid_amount r = amount"
      "runBidTransaction e u i key corr amount s
         = (Inr \<lparr>bo_bid = r, bo_productId = au_productId a\<rparr>, s)"
  | (recorded) a act out s' where "by_id au_id i (auctions (db s)) = Some a"
      "find (is_bid_claim i u key) (bids (db s)) = None" "admits e a u amount (db s)"
      "runBidTransaction e u i key corr amount s = (Inr out, s')"
      "record_bid e (open_auction e a) act u key corr amount s = (Inr out, s')"
proof (cases "by_id au_id i (auctions (db s))")
  case None
  then show ?thesis using error by (simp add: runBidTransaction_def)
next
  case (Some a)
  show ?thesis
  proof (cases "find (is_bid_claim i u key) (bids (db s))")
    case (Some r)
    with \<open>by_id au_id i _ = _\<close> error replay show ?thesis
      by (cases "bid_amount r = amount") (simp_all add: runBidTransaction_def)
  next
    case None
    show ?thesis
    proof (cases "admits e a u amount (db s)")
      case False
      with Some None error show ?thesis using runBid_refused by blast
    next
      case True
      then obtain act where act: "runBidTransaction e u i key corr amount s
          = record_bid e (open_auction e a) act u key corr amount s"
        using runBid_admitted [OF Some None] by blast
      show ?thesis
      proof (cases "record_bid e (open_auction e a) act u key corr amount s")
        case (Pair r s')
        with act Some None True error recorded record_bid_error show ?thesis
          by (cases r) fastforce+
      qed
    qed
  qed
qed

section \<open>The invariant of the bidding tables\<close>

text \<open>
  What the rows of one auction say: without bids nobody leads and the price is the start price;
  with bids the leader, the winning bid and the current price are those of the last one, the
  first bid reaches the start price and each later one exceeds its predecessor by the increment.
\<close>

definition bid_chain :: "Auction \<Rightarrow> Bid list \<Rightarrow> bool" where
  "bid_chain a bs \<longleftrightarrow>
     (case bs of
        [] \<Rightarrow> au_winnerId a = None \<and> au_winningBidId a = None \<and>
              cents (au_currentPrice a) = cents (au_startPrice a)
      | b # _ \<Rightarrow>
          au_winnerId a = Some (bid_bidderId (last bs)) \<and>
          au_winningBidId a = Some (bid_id (last bs)) \<and>
          cents (au_currentPrice a) = cents (bid_amount (last bs)) \<and>
          cents (au_startPrice a) \<le> cents (bid_amount b) \<and>
          successively (\<lambda>x y. cents (bid_amount x) + cents (au_minBidIncrement a)
                                \<le> cents (bid_amount y)) bs)"

definition auction_ok :: "database \<Rightarrow> Auction \<Rightarrow> bool" where
  "auction_ok d a \<longleftrightarrow>
     is_money (au_startPrice a) \<and> is_money (au_currentPrice a) \<and> is_money (au_minBidIncrement a) \<and>
     0 < cents (au_minBidIncrement a) \<and> bid_chain a (auction_bids (au_id a) d)"

definition bidding_inv :: "database \<Rightarrow> bool" where
  "bidding_inv d \<longleftrightarrow>
     distinct (map au_id (auctions d)) \<and> distinct (map bid_id (bids d)) \<and>
     (\<forall>b \<in> set (bids d). is_money (bid_amount b) \<and> bid_id b < next_id d) \<and>
     distinct (map (\<lambda>b. (bid_auctionId b, bid_bidderId b, bid_idempotencyKey b)) (bids d)) \<and>
     (\<forall>a \<in> set (auctions d). auction_ok d a)"

lemma bid_chain_same:
  "au_winnerId a' = au_winnerId a \<Longrightarrow> au_winningBidId a' = au_winningBidId a \<Longrightarrow>
   cents (au_currentPrice a') = cents (au_currentPrice a) \<Longrightarrow>
   cents (au_startPrice a') = cents (au_startPrice a) \<Longrightarrow>
   cents (au_minBidIncrement a') = cents (au_minBidIncrement a) \<Longrightarrow>
   bid_chain a' bs = bid_chain a bs"
  by (simp add: bid_chain_def split: list.split)

lemma bid_chain_leader:
  "bid_chain a bs \<Longrightarrow> au_winnerId a = None \<longleftrightarrow> bs = []"
  by (auto simp: bid_chain_def split: list.splits)

lemma successively_snoc_cons:
  "successively P (x # xs @ [b]) \<longleftrightarrow> successively P (x # xs) \<and> P (last (x # xs)) b"
  using successively_append_iff [of P "x # xs" "[b]"] by simp

lemma bid_chain_snoc:
  assumes "bid_chain a bs"
    and "if bs = [] then cents (au_startPrice a) \<le> cents (bid_amount b)
         else cents (au_currentPrice a) + cents (au_minBidIncrement a) \<le> cents (bid_amount b)"
    and "au_winnerId a' = Some (bid_bidderId b)" "au_winningBidId a' = Some (bid_id b)"
    and "cents (au_currentPrice a') = cents (bid_amount b)"
    and "cents (au_startPrice a') = cents (au_startPrice a)"
    and "cents (au_minBidIncrement a') = cents (au_minBidIncrement a)"
  shows "bid_chain a' (bs @ [b])"
  using assms by (cases bs) (auto simp: bid_chain_def successively_snoc_cons)

text \<open>The minimum the service computes, in terms of the table of bids.\<close>

lemma min_next_cents:
  assumes "auction_ok d a"
  shows "min_next_bid_cents a h = Inr (if h then cents (au_currentPrice a) + cents (au_minBidIncrement a)
                                      else cents (au_startPrice a))"
  using assms by (simp add: auction_ok_def min_next_bid_cents_def is_money_cents)

lemma auction_bids_append:
  "bids d' = bids d @ [b] \<Longrightarrow>
   auction_bids i d' = auction_bids i d @ (if bid_auctionId b = i then [b] else [])"
  by (simp add: auction_bids_def)

lemma bidding_inv_auction: "bidding_inv d \<Longrightarrow> by_id au_id i (auctions d) = Some a \<Longrightarrow> auction_ok d a"
  by (auto simp: bidding_inv_def dest: by_id_SomeD)

lemma runBid_preserves:
  assumes inv: "bidding_inv (db s)" and num: "numeric_ok e"
    and a: "by_id au_id i (auctions (db s)) = Some a" and adm: "admits e a u amount (db s)"
    and rec: "record_bid e (open_auction e a) act u key corr amount s = (Inr out, s')"
  shows "bidding_inv (db s')"
proof -
  let ?b = "fresh_bid e a u key amount (db s)"
  let ?b' = "?b\<lparr>bid_amount := numeric2 e amount\<rparr>"
  let ?a = "stored_auction e (led_by e a ?b)"
  note ok = record_bid_ok [OF rec]
  have aok: "auction_ok (db s) a" using bidding_inv_auction [OF inv a] .
  have ain: "a \<in> set (auctions (db s))" using by_id_SomeD [OF a] by simp
  obtain m c where m: "min_next_bid_cents a (au_winnerId a \<noteq> None) = Inr m"
    and c: "parseMoneyToCents amount = Inr c" and le: "m \<le> c"
    using adm by (auto simp: admits_def)
  have money: "is_money amount" "cents amount = c" using c by (auto simp: is_money_def cents_parse)
  have chain: "bid_chain a (auction_bids (au_id a) (db s))" using aok by (simp add: auction_ok_def)
  have keys: "map au_id (auctions (db s')) = map au_id (auctions (db s))"
    using ok(3) keys_put_row [of au_id ?a] by simp
  have ida: "au_id ?a = au_id a" by (simp add: stored_auction_def led_by_def)
  have new: "auction_ok (db s') ?a"
  proof -
    have "bid_chain ?a (auction_bids (au_id a) (db s) @ [?b'])"
    proof (rule bid_chain_snoc [OF chain])
      show "if auction_bids (au_id a) (db s) = [] then cents (au_startPrice a) \<le> cents (bid_amount ?b')
            else cents (au_currentPrice a) + cents (au_minBidIncrement a) \<le> cents (bid_amount ?b')"
        using m le money num min_next_cents [OF aok, of "au_winnerId a \<noteq> None"] bid_chain_leader [OF chain]
        by auto
    qed (use aok num money in \<open>simp_all add: stored_auction_def led_by_def fresh_bid_def auction_ok_def\<close>)
    then show ?thesis
      using aok num money ida auction_bids_append [OF ok(2), of "au_id a"]
      by (simp add: auction_ok_def stored_auction_def led_by_def fresh_bid_def)
  qed
  have old: "auction_ok (db s') x" if "x \<in> set (auctions (db s))" "au_id x \<noteq> au_id a" for x
  proof -
    have "auction_bids (au_id x) (db s') = auction_bids (au_id x) (db s)"
      using that auction_bids_append [OF ok(2), of "au_id x"] by (simp add: fresh_bid_def)
    then show ?thesis using that inv by (auto simp: bidding_inv_def auction_ok_def)
  qed
  have all: "auction_ok (db s') x" if "x \<in> set (auctions (db s'))" for x
    using that set_put_rowD [of x au_id ?a "auctions (db s)"] ok(3) ida new old by auto
  have ids: "\<forall>b \<in> set (bids (db s')). is_money (bid_amount b) \<and> bid_id b < next_id (db s')"
    using inv num money ok(2,6) by (auto simp: bidding_inv_def fresh_bid_def)
  have dist: "distinct (map bid_id (bids (db s')))"
    using inv ok(2) by (auto simp: bidding_inv_def fresh_bid_def)
  have uniq: "distinct (map (\<lambda>b. (bid_auctionId b, bid_bidderId b, bid_idempotencyKey b)) (bids (db s')))"
    using inv ok(2,8) by (auto simp: bidding_inv_def fresh_bid_def is_bid_claim_def)
  show ?thesis using all ids dist uniq inv keys by (simp add: bidding_inv_def)
qed

lemma bid_toView_ok:
  assumes "bidding_inv d" "by_id au_id i (auctions d) = Some a"
  shows "bid_toView b i d = Inr \<lparr>ba_bidId = bid_id b, ba_auctionId = bid_auctionId b,
           ba_amount = bid_amount b, ba_currentPrice = au_currentPrice a,
           ba_minimumNextBid =
             formatCentsToMoney (cents (au_currentPrice a) + cents (au_minBidIncrement a)),
           ba_createdAt = bid_createdAt b\<rparr>"
  using assms min_next_cents [OF bidding_inv_auction [OF assms], of True]
  by (simp add: bid_toView_def)

text \<open>The three ways a request with a valid key can end.\<close>

definition attempt :: "sys \<Rightarrow> sys" where
  "attempt s = increment ''bid_attempts_total'' s"

definition settled :: "uuid \<Rightarrow> sys \<Rightarrow> sys" where
  "settled productId s = increment ''bids_placed_total''
     (emit RedisIncrSearchVersion (emit (RedisDelProduct productId) s))"

lemma attempt_frame [simp]: "db (attempt s) = db s" "effects (attempt s) = effects s"
  by (simp_all add: attempt_def)

lemma settled_frame [simp]:
  "db (settled p s) = db s"
  "effects (settled p s) = effects s @ [RedisDelProduct p, RedisIncrSearchVersion]"
  by (simp_all add: settled_def)

lemma placeBid_Inr:
  assumes "requireIdempotencyKey key = Inr k"
    and "runBidTransaction e u i k corr amount (attempt s) = (Inr out, s')"
  shows "placeBid e u i key corr amount s
           = (bid_toView (bo_bid out) i (db s'), settled (bo_productId out) s')"
  using assms by (simp add: placeBid_def transaction_def attempt_def settled_def Let_def)


lemma parse_error_not_unique: "parseMoneyToCents s = Inl err \<Longrightarrow> \<not> isUniqueViolation err"
  by (auto simp: parseMoneyToCents_def Let_def split: if_splits list.splits option.splits)

lemma min_next_error_not_unique: "min_next_bid_cents a h = Inl err \<Longrightarrow> \<not> isUniqueViolation err"
  by (auto simp: min_next_bid_cents_def rbind_def parse_error_not_unique split: if_splits sum.splits)

lemma record_bid_claims:
  assumes "\<not> (\<exists>c \<in> set (bids (db s)). is_bid_claim (au_id a) u k c)"
  shows "\<exists>out s'. record_bid e a act u k corr amount s = (Inr out, s')"
  using assms by (simp add: record_bid_def insert_bid_def Let_def)

lemma run_refused_not_unique:
  assumes "runBidTransaction e u i k corr amount s = (Inl err, s')"
  shows "\<not> isUniqueViolation err"
proof (cases "by_id au_id i (auctions (db s))")
  case (Some a)
  show ?thesis
  proof (cases "find (is_bid_claim i u k) (bids (db s))")
    case None
    have no: "\<not> (\<exists>c \<in> set (bids (db s)). is_bid_claim (au_id a) u k c)"
      using None by_id_SomeD [OF Some] find_NoneD [OF None] by auto
    show ?thesis
    proof (cases "admits e a u amount (db s)")
      case True
      then obtain act where "runBidTransaction e u i k corr amount s
          = record_bid e (open_auction e a) act u k corr amount s"
        using runBid_admitted [OF Some None] by blast
      then show ?thesis
        using assms record_bid_claims [of s "open_auction e a" u k e act corr amount] no by auto
    next
      case False
      with assms Some None show ?thesis
        unfolding runBidTransaction_def Let_def open_auction_def [symmetric]
        by (auto simp: admits_def parse_error_not_unique min_next_error_not_unique
              split: option.splits sum.splits if_splits)
    qed
  qed (use assms Some in \<open>auto simp: runBidTransaction_def split: if_splits\<close>)
qed (use assms in \<open>auto simp: runBidTransaction_def\<close>)

lemma placeBid_Inl:
  assumes "requireIdempotencyKey key = Inr k"
    and "runBidTransaction e u i k corr amount (attempt s) = (Inl err, s1)"
  shows "\<exists>s'. placeBid e u i key corr amount s = (Inl err, s') \<and> db s' = db s \<and>
              effects s' = effects s1"
  using assms run_refused_not_unique [OF assms(2)]
  by (simp add: placeBid_def transaction_def attempt_def [symmetric] Let_def)

lemma placeBid_bad_key:
  "requireIdempotencyKey key = Inl err \<Longrightarrow> placeBid e u i key corr amount s = (Inl err, s)"
  by (simp add: placeBid_def)

lemma placeBid_recorded:
  assumes inv: "bidding_inv (db s)" and num: "numeric_ok e" and k: "requireIdempotencyKey key = Inr k"
    and a: "by_id au_id i (auctions (db s)) = Some a" and adm: "admits e a u amount (db s)"
    and run: "runBidTransaction e u i k corr amount (attempt s) = (Inr out, s1)"
    and rec: "record_bid e (open_auction e a) act u k corr amount (attempt s) = (Inr out, s1)"
  obtains v where "placeBid e u i key corr amount s = (Inr v, settled (bo_productId out) s1)"
    "ba_bidId v = bid_id (bo_bid out)"
proof -
  have inv1: "bidding_inv (db s1)"
    using runBid_preserves [of "attempt s", OF _ num _ _ rec] inv a adm by simp
  note ok = record_bid_ok [OF rec]
  have ida: "au_id a = i" using by_id_SomeD [OF a] by simp
  let ?a = "stored_auction e (led_by e a (fresh_bid e a u k amount (db (attempt s))))"
  have "au_id ?a = i" using ida by (simp add: stored_auction_def led_by_def)
  then have "by_id au_id i (auctions (db s1)) = Some ?a"
    using by_id_put_row_same [OF a] ok(3) by simp
  from bid_toView_ok [OF inv1 this, of "bo_bid out"] placeBid_Inr [OF k run] that
  show ?thesis by simp
qed

text \<open>The outcomes of a request, for the properties below.\<close>

lemma placeBid_cases:
  assumes inv: "bidding_inv (db s)" and num: "numeric_ok e"
  obtains (refused) err s' where "placeBid e u i key corr amount s = (Inl err, s')"
      "db s' = db s" "effects s' = effects s"
  | (replayed) k a r v s' where "requireIdempotencyKey key = Inr k"
      "by_id au_id i (auctions (db s)) = Some a"
      "find (is_bid_claim i u k) (bids (db s)) = Some r" "bid_amount r = amount"
      "placeBid e u i key corr amount s = (Inr v, s')" "db s' = db s" "ba_bidId v = bid_id r"
      "effects s' = effects s @ [RedisDelProduct (au_productId a), RedisIncrSearchVersion]"
  | (recorded) k a act out v s' s1 where "requireIdempotencyKey key = Inr k"
      "by_id au_id i (auctions (db s)) = Some a"
      "find (is_bid_claim i u k) (bids (db s)) = None" "admits e a u amount (db s)"
      "record_bid e (open_auction e a) act u k corr amount (attempt s) = (Inr out, s1)"
      "placeBid e u i key corr amount s = (Inr v, s')" "db s' = db s1"
      "ba_bidId v = bid_id (bo_bid out)"
      "effects s' = effects s @ [RedisDelProduct (au_productId a), RedisIncrSearchVersion]"
proof (cases "requireIdempotencyKey key")
  case (Inl err)
  then show ?thesis using refused placeBid_bad_key by blast
next
  case k: (Inr k)
  show ?thesis
  proof (cases rule: runBid_cases [of e u i k corr amount "attempt s"])
    case (error err)
    then show ?thesis using refused placeBid_Inl [OF k error] by auto
  next
    case (replay a r)
    have a: "by_id au_id i (auctions (db s)) = Some a" using replay(1) by simp
    obtain v where v: "placeBid e u i key corr amount s = (Inr v, settled (au_productId a) (attempt s))"
        "ba_bidId v = bid_id r"
      using bid_toView_ok [OF inv a, of r] placeBid_Inr [OF k replay(4)] by simp
    show ?thesis by (rule replayed [OF k a _ replay(3) v(1) _ v(2)]) (use replay(2) in simp_all)
  next
    case (recorded a act out s1)
    from recorded placeBid_recorded [OF inv num k _ _ recorded(4,5)]
    obtain v where v: "placeBid e u i key corr amount s = (Inr v, settled (bo_productId out) s1)"
        "ba_bidId v = bid_id (bo_bid out)" by auto
    show ?thesis
      by (rule that(3) [OF k _ _ _ recorded(5) v(1) _ v(2)])
         (use record_bid_ok(1,7) [OF recorded(5)] recorded in simp_all)
  qed
qed

section \<open>Properties\<close>

definition sample_auction :: Auction where
  "sample_auction = \<lparr>au_id = 3, au_productId = 2, au_startPrice = ''10.00'', au_currentPrice = ''10.00'',
     au_minBidIncrement = ''1.00'', au_startsAt = 0, au_endsAt = 1000, au_winnerId = None,
     au_winningBidId = None, au_purchaseWindowEndsAt = None, au_finalizedAt = None,
     au_status = AuctionStatus.SCHEDULED\<rparr>"

definition sample_product :: Product where
  "sample_product = \<lparr>pr_id = 2, pr_sellerProfileId = 1, pr_categoryId = 0, pr_name = ''Lamp'',
     pr_slug = ''lamp'', pr_description = None, pr_type = ProductType.AUCTION, pr_price = None,
     pr_stockQuantity = 1, pr_imageUrls = [], pr_isPublished = True, pr_ratingAverage = ''0.00'',
     pr_ratingCount = 0\<rparr>"

definition sample_seller :: SellerProfile where
  "sample_seller = \<lparr>sp_id = 1, sp_userId = 7, sp_storeName = ''Lamps'', sp_storeSlug = ''lamps'',
     sp_description = None, sp_logoUrl = None, sp_commissionRatePercent = ''10.00'', sp_isActive = True\<rparr>"

definition sample_db :: database where
  "sample_db = empty_db\<lparr>next_id := 10, seller_profiles := [sample_seller],
     products := [sample_product], auctions := [sample_auction]\<rparr>"

lemma sample_bidding_inv [simp]: "bidding_inv sample_db"
  by code_simp

text \<open>
  C1: Bidding keeps its tables consistent: whatever the request, a bid transaction preserves that
  every auction is led by its last bid, that the first bid reaches the start price and every
  later one its predecessor plus the increment, and that no (auction, bidder, key) is claimed twice.
\<close>
theorem placeBid_preserves_inv:
  assumes "bidding_inv (db s)" and "numeric_ok e"
  shows "bidding_inv (db (snd (placeBid e u i key corr amount s)))"
  using assms
proof (cases rule: placeBid_cases [where u = u and i = i and key = key and corr = corr and amount = amount])
  case (recorded k a act out v s' s1)
  then show ?thesis using runBid_preserves [OF _ assms(2) _ _ recorded(5)] assms(1) by simp
qed (use assms in simp_all)

theorem placeBid_preserves_inv_witness:
  "bidding_inv (db (snd (placeBid (sample_env 5) 8 3 (Some ''k1'') 0 ''12.00'' (start_sys sample_db))))"
  by (rule placeBid_preserves_inv) (simp_all add: start_sys_def)

definition bid_acceptable :: "env \<Rightarrow> database \<Rightarrow> Auction \<Rightarrow> string \<Rightarrow> bool" where
  "bid_acceptable e d a amount \<longleftrightarrow>
     (au_status a = AuctionStatus.ACTIVE \<or> au_status a = AuctionStatus.SCHEDULED) \<and>
     au_startsAt a \<le> now e \<and> now e < au_endsAt a \<and> is_money amount \<and>
     (case auction_bids (au_id a) d of
        [] \<Rightarrow> cents (au_startPrice a) \<le> cents amount
      | b # bs \<Rightarrow> cents (bid_amount (last (b # bs))) + cents (au_minBidIncrement a) \<le> cents amount)"

lemma admits_iff:
  assumes "auction_ok d a" "by_id pr_id (au_productId a) (products d) = Some p"
    and "by_id sp_id (pr_sellerProfileId p) (seller_profiles d) = Some sp"
  shows "admits e a u amount d \<longleftrightarrow> bid_acceptable e d a amount \<and> sp_userId sp \<noteq> u"
proof -
  have price: "cents (au_currentPrice a) = cents (bid_amount (last bs))"
    if "auction_bids (au_id a) d = bs" "bs \<noteq> []" for bs
    using assms(1) that by (cases bs) (auto simp: auction_ok_def bid_chain_def)
  have lead: "au_winnerId a = None \<longleftrightarrow> auction_bids (au_id a) d = []"
    using assms(1) by (auto simp: auction_ok_def dest: bid_chain_leader)
  have money: "(\<exists>c. parseMoneyToCents amount = Inr c \<and> m \<le> c) \<longleftrightarrow> is_money amount \<and> m \<le> cents amount"
    for m by (auto simp: is_money_def cents_parse)
  have "(au_status (open_auction e a) = AuctionStatus.ACTIVE \<and> au_startsAt a \<le> now e \<and> now e < au_endsAt a)
    \<longleftrightarrow> (au_status a = AuctionStatus.ACTIVE \<or> au_status a = AuctionStatus.SCHEDULED) \<and>
        au_startsAt a \<le> now e \<and> now e < au_endsAt a"
    by (auto simp: open_auction_def isWithinBiddingWindow_def)
  then show ?thesis
    using assms(2,3) lead price min_next_cents [OF assms(1), of "au_winnerId a \<noteq> None"]
    unfolding admits_def bid_acceptable_def
    by (cases "auction_bids (au_id a) d") (auto simp: money)
qed

text \<open>
  C7: A request with a valid, unclaimed key on a consistent database is accepted exactly when the
  auction is open at that instant, the caller is not its seller, and the amount is money reaching
  the start price, or the last bid plus the increment when there is one.
\<close>
theorem placeBid_accepts_iff:
  assumes inv: "bidding_inv (db s)" and num: "numeric_ok e"
    and key: "requireIdempotencyKey key = Inr k"
    and a: "by_id au_id i (auctions (db s)) = Some a"
    and p: "by_id pr_id (au_productId a) (products (db s)) = Some p"
    and sp: "by_id sp_id (pr_sellerProfileId p) (seller_profiles (db s)) = Some sp"
    and fresh: "find (is_bid_claim i u k) (bids (db s)) = None"
  shows "(\<exists>v. fst (placeBid e u i key corr amount s) = Inr v)
           \<longleftrightarrow> bid_acceptable e (db s) a amount \<and> sp_userId sp \<noteq> u"
proof -
  note adm = admits_iff [OF bidding_inv_auction [OF inv a] p sp, of e u amount]
  show ?thesis
  proof (cases "admits e a u amount (db s)")
    case False
    then obtain err where "runBidTransaction e u i k corr amount (attempt s) = (Inl err, attempt s)"
      using runBid_refused [of i "attempt s" a u k e amount corr] a fresh by auto
    from placeBid_Inl [OF key this] False adm show ?thesis by auto
  next
    case True
    have "find (is_bid_claim (au_id a) u k) (bids (db s)) = None"
      using fresh by_id_SomeD [OF a] by simp
    then have "\<not> (\<exists>c \<in> set (bids (db (attempt s))). is_bid_claim (au_id (open_auction e a)) u k c)"
      by (auto dest: find_NoneD)
    from record_bid_claims [OF this] obtain act out s1
      where "runBidTransaction e u i k corr amount (attempt s) = (Inr out, s1)"
        "record_bid e (open_auction e a) act u k corr amount (attempt s) = (Inr out, s1)"
      using runBid_admitted [of i "attempt s" a u k e amount corr] a fresh True by fastforce
    from placeBid_recorded [OF inv num key a True this] True adm show ?thesis by (metis fst_conv)
  qed
qed

theorem placeBid_accepts_iff_witness:
  "(\<exists>v. fst (placeBid (sample_env 5) 8 3 (Some ''k1'') 0 ''12'' (start_sys sample_db)) = Inr v)
     \<longleftrightarrow> bid_acceptable (sample_env 5) sample_db sample_auction ''12'' \<and> sp_userId sample_seller \<noteq> 8"
proof -
  have k: "requireIdempotencyKey (Some ''k1'') = Inr ''k1''" by code_simp
  have a: "by_id au_id 3 (auctions (db (start_sys sample_db))) = Some sample_auction" by code_simp
  have p: "by_id pr_id (au_productId sample_auction) (products (db (start_sys sample_db))) = Some sample_product"
    by code_simp
  have sp: "by_id sp_id (pr_sellerProfileId sample_product) (seller_profiles (db (start_sys sample_db)))
      = Some sample_seller" by code_simp
  have f: "find (is_bid_claim 3 8 ''k1'') (bids (db (start_sys sample_db))) = None" by code_simp
  show ?thesis
    using placeBid_accepts_iff [OF _ _ k a p sp f, of "sample_env 5" 0 "''12''"] by (simp add: start_sys_def)
qed

lemma requireIdempotencyKey_Inr: "requireIdempotencyKey key = Inr k \<Longrightarrow> key = Some k"
  by (auto simp: requireIdempotencyKey_def split: option.splits if_splits)

text \<open>
  What an accepted bid does: exactly one bid row is appended, for this auction and bidder and
  with the offered number of cents; the auction becomes ACTIVE, led by that bid, at that price;
  no other auction changes; BID_PLACED and PRODUCT_UPDATED are the last outbox events; and the
  product cache entry and the search version are invalidated after the commit.
\<close>
theorem placeBid_effect:
  assumes inv: "bidding_inv (db s)" and num: "numeric_ok e"
    and fresh: "find (is_bid_claim i u k) (bids (db s)) = None"
    and run: "placeBid e u i (Some k) corr amount s = (Inr v, s')"
  shows "(\<exists>b. bids (db s') = bids (db s) @ [b] \<and> bid_id b = ba_bidId v \<and> bid_auctionId b = i \<and>
            bid_bidderId b = u \<and> bid_idempotencyKey b = k \<and> cents (bid_amount b) = cents amount \<and>
            (\<exists>a. by_id au_id i (auctions (db s')) = Some a \<and> au_status a = AuctionStatus.ACTIVE \<and>
                 au_winnerId a = Some u \<and> au_winningBidId a = Some (bid_id b) \<and>
                 cents (au_currentPrice a) = cents amount)) \<and>
         (\<forall>j. j \<noteq> i \<longrightarrow> by_id au_id j (auctions (db s')) = by_id au_id j (auctions (db s))) \<and>
         (\<exists>evs. outbox_events (db s') = outbox_events (db s) @ evs \<and>
            drop (length evs - 2) (map ob_eventType evs) = [''BID_PLACED'', ''PRODUCT_UPDATED'']) \<and>
         (\<exists>p. effects s' = effects s @ [RedisDelProduct p, RedisIncrSearchVersion])"
  using inv num
proof (cases rule: placeBid_cases [where u = u and i = i and key = "Some k" and corr = corr and amount = amount])
  case (recorded k' a act out v' s1 s2)
  then have k: "k' = k" and v: "v' = v" "s1 = s'"
    using requireIdempotencyKey_Inr [OF recorded(1)] run by auto
  note rec = recorded(5) [unfolded k]
  note ok = record_bid_ok [OF rec]
  let ?b = "fresh_bid e a u k amount (db (attempt s))"
  let ?a = "stored_auction e (led_by e a ?b)"
  have ida: "au_id a = i" using by_id_SomeD [OF recorded(2)] by simp
  then have ida': "au_id ?a = i" by (simp add: stored_auction_def led_by_def)
  have st: "au_status ?a = AuctionStatus.ACTIVE" "is_money amount"
    using recorded(4) by (auto simp: admits_def stored_auction_def led_by_def is_money_def)
  have "by_id au_id i (auctions (db s2)) = Some ?a"
    using by_id_put_row_same [OF recorded(2) ida'] ok(3) by simp
  moreover have "\<forall>j. j \<noteq> i \<longrightarrow> by_id au_id j (auctions (db s2)) = by_id au_id j (auctions (db s))"
    using by_id_put_row_other [of au_id ?a] ok(3) ida' by simp
  moreover have "\<exists>evs. outbox_events (db s2) = outbox_events (db s) @ evs \<and>
      drop (length evs - 2) (map ob_eventType evs) = [''BID_PLACED'', ''PRODUCT_UPDATED'']"
    using rec by (auto simp: record_bid_def insert_bid_def Let_def outbox_record_def split: if_splits)
  moreover have "cents (au_currentPrice ?a) = cents amount" "au_winnerId ?a = Some u"
    "au_winningBidId ?a = Some (bid_id ?b)"
    using num st by (simp_all add: stored_auction_def led_by_def fresh_bid_def)
  ultimately show ?thesis
    using recorded v ok(1,2) st ida num by (auto simp: fresh_bid_def)
qed (use run fresh in \<open>auto dest!: requireIdempotencyKey_Inr\<close>)

definition sample_bid :: "BidAcceptedView result \<times> sys" where
  "sample_bid = placeBid (sample_env 5) 8 3 (Some ''k1'') 0 ''12.00'' (start_sys sample_db)"

definition sample_bid_view :: BidAcceptedView where
  "sample_bid_view = \<lparr>ba_bidId = 10, ba_auctionId = 3, ba_amount = ''12.00'',
     ba_currentPrice = ''12.00'', ba_minimumNextBid = ''13.00'', ba_createdAt = 5\<rparr>"

lemma sample_bid_ok: "sample_bid = (Inr sample_bid_view, snd sample_bid)"
proof -
  have "fst sample_bid = Inr sample_bid_view" by code_simp
  then show ?thesis by (metis prod.collapse)
qed

theorem placeBid_effect_witness:
  "\<exists>b. bids (db (snd sample_bid)) = bids sample_db @ [b] \<and> bid_id b = 10 \<and>
       cents (bid_amount b) = cents ''12.00''"
proof -
  have f: "find (is_bid_claim 3 8 ''k1'') (bids (db (start_sys sample_db))) = None" by code_simp
  have inv: "bidding_inv (db (start_sys sample_db))" by (simp add: start_sys_def)
  show ?thesis
    using placeBid_effect [OF inv _ f sample_bid_ok [unfolded sample_bid_def]]
    unfolding sample_bid_def by (auto simp: start_sys_def sample_bid_view_def)
qed

text \<open>
  A refused request changes nothing: when the handler answers with an error, the database is
  what it was (the transaction rolled back) and nothing was sent to the cache.
\<close>
theorem placeBid_refused_unchanged:
  assumes "bidding_inv (db s)" and "numeric_ok e"
    and "placeBid e u i key corr amount s = (Inl err, s')"
  shows "db s' = db s \<and> effects s' = effects s"
  using assms(1,2)
proof (cases rule: placeBid_cases [where u = u and i = i and key = key and corr = corr and amount = amount])
  case (refused err s')
  then show ?thesis using assms(3) by simp
qed (use assms(3) in simp_all)

theorem placeBid_refused_unchanged_witness:
  "db (snd (placeBid (sample_env 5) 8 3 (Some ''k1'') 0 ''9.99'' (start_sys sample_db))) = sample_db"
proof -
  have "fst (placeBid (sample_env 5) 8 3 (Some ''k1'') 0 ''9.99'' (start_sys sample_db))
      = Inl (ConflictException ''Bid is below the minimum'')" by code_simp
  then have "placeBid (sample_env 5) 8 3 (Some ''k1'') 0 ''9.99'' (start_sys sample_db)
      = (Inl (ConflictException ''Bid is below the minimum''),
         snd (placeBid (sample_env 5) 8 3 (Some ''k1'') 0 ''9.99'' (start_sys sample_db)))"
    by (metis prod.collapse)
  from placeBid_refused_unchanged [OF _ _ this] show ?thesis by (simp add: start_sys_def)
qed

text \<open>
  A retry is a replay: once a bid was accepted under a key, the same request at any later time
  (even after other bidders' bids, or once the auction closed) answers with the same bid and
  writes nothing, provided the amount was sent in the form the column stores.
\<close>
theorem placeBid_retry:
  assumes inv: "bidding_inv (db s)" "numeric_ok e'"
    and b: "b \<in> set (bids (db s))" "bid_auctionId b = i" "bid_bidderId b = u" "bid_idempotencyKey b = k"
    and a: "by_id au_id i (auctions (db s)) = Some a"
    and key: "requireIdempotencyKey (Some k) = Inr k"
  shows "if bid_amount b = amount
         then \<exists>v s'. placeBid e' u i (Some k) corr amount s = (Inr v, s') \<and> ba_bidId v = bid_id b \<and> db s' = db s
         else \<exists>m s'. placeBid e' u i (Some k) corr amount s = (Inl (ConflictException m), s') \<and> db s' = db s"
proof -
  have claim: "is_bid_claim i u k b" using b by (simp add: is_bid_claim_def)
  obtain r where r: "find (is_bid_claim i u k) (bids (db s)) = Some r"
    using find_NoneD claim b(1) by (cases "find (is_bid_claim i u k) (bids (db s))") fastforce+
  have "inj_on (\<lambda>b. (bid_auctionId b, bid_bidderId b, bid_idempotencyKey b)) (set (bids (db s)))"
    using inv(1) by (simp add: bidding_inv_def distinct_map)
  then have rb: "r = b"
    using find_SomeD [OF r] b by (auto simp: is_bid_claim_def dest: inj_onD)
  show ?thesis
  proof (cases "bid_amount b = amount")
    case True
    then have "runBidTransaction e' u i k corr amount (attempt s)
        = (Inr \<lparr>bo_bid = b, bo_productId = au_productId a\<rparr>, attempt s)"
      using a r rb by (simp add: runBidTransaction_def)
    from placeBid_Inr [OF key this] bid_toView_ok [OF inv(1) a, of b] True show ?thesis by simp
  next
    case False
    then have "runBidTransaction e' u i k corr amount (attempt s) =
       (Inl (ConflictException ''This Idempotency-Key was already used for a different bid amount''), attempt s)"
      using a r rb by (simp add: runBidTransaction_def)
    from placeBid_Inl [OF key this] False show ?thesis by auto
  qed
qed

theorem placeBid_retry_witness:
  "\<exists>v s'. placeBid (sample_env 2000) 8 3 (Some ''k1'') 0 ''12.00'' (snd sample_bid) = (Inr v, s') \<and>
          ba_bidId v = 10 \<and> db s' = db (snd sample_bid)"
proof -
  let ?b = "\<lparr>bid_id = 10, bid_auctionId = 3, bid_bidderId = 8, bid_amount = ''12.00'',
             bid_idempotencyKey = ''k1'', bid_createdAt = 5\<rparr>"
  have inv: "bidding_inv (db (snd sample_bid))"
    unfolding sample_bid_def by code_simp
  have b: "?b \<in> set (bids (db (snd sample_bid)))" by code_simp
  have "by_id au_id 3 (auctions (db (snd sample_bid))) \<noteq> None" by code_simp
  then obtain a where a: "by_id au_id 3 (auctions (db (snd sample_bid))) = Some a" by blast
  have k: "requireIdempotencyKey (Some ''k1'') = Inr ''k1''" by code_simp
  show ?thesis
    using placeBid_retry [OF inv sample_numeric_ok [of 2000] b _ _ _ a k,
        where amount = "''12.00''" and corr = 0] by simp
qed

text \<open>The form an amount is sent in matters: the row holds ''12.00'', the request said ''12''.\<close>

lemma retry_of_short_amount:
  "let s = snd (placeBid (sample_env 5) 8 3 (Some ''k1'') 0 ''12'' (start_sys sample_db));
       r = fst (placeBid (sample_env 6) 8 3 (Some ''k1'') 0 ''12'' s)
   in r = Inl (ConflictException ''This Idempotency-Key was already used for a different bid amount'')"
  by code_simp
end
