(* ===== verification/Consumers.thy ===== *)
theory Consumers
  imports Store
begin

text \<open>
  What the queue consumers share. A consumer of the outbox checks the \<open>processed_events\<close> table
  before it acts and writes its row there afterwards, in a transaction of its own, so a job that
  BullMQ delivers again (its queues deliver at least once) is skipped. \<open>recordQueueJob\<close> of
  \<open>modules/metrics/queue-metrics.util.ts\<close> wraps every job; its duration histogram is not modelled.
\<close>

section \<open>The interface of a consumer\<close>

text \<open>
  The contract an at-least-once queue needs: an event that was handled once is skipped from then
  on, whatever is handled in between. Then any redelivery of it, at any later time, does nothing.
\<close>

locale dedup_consumer =
  fixes seen :: "'e \<Rightarrow> 's \<Rightarrow> bool"
    and handle :: "'e \<Rightarrow> 's \<Rightarrow> unit result \<times> 's"
  assumes skips: "seen x s \<Longrightarrow> handle x s = (Inr (), s)"
    and marks: "handle x s = (Inr (), s') \<Longrightarrow> seen x s'"
    and keeps: "seen y s \<Longrightarrow> seen y (snd (handle x s))"
begin

lemma keeps_fold: "seen y s \<Longrightarrow> seen y (fold (\<lambda>x s. snd (handle x s)) xs s)"
  by (induction xs arbitrary: s) (simp_all add: keeps)

lemma redelivery:
  "handle x s = (Inr (), s') \<Longrightarrow>
   handle x (fold (\<lambda>y s. snd (handle y s)) ys s') = (Inr (), fold (\<lambda>y s. snd (handle y s)) ys s')"
  using skips keeps_fold marks by blast

lemma at_once_twice: "handle x s = (Inr (), s') \<Longrightarrow> handle x s' = (Inr (), s')"
  using redelivery [of x s s' "[]"] by simp

end

section \<open>Queue metrics\<close>

definition recordQueueJob :: "(sys \<Rightarrow> 'a result \<times> sys) \<Rightarrow> sys \<Rightarrow> 'a result \<times> sys" where
  "recordQueueJob fn s =
     (case fn s of
        (Inr x, s1) \<Rightarrow> (Inr x, increment ''queue_jobs_processed_total'' s1)
      | (Inl err, s1) \<Rightarrow> (Inl err, increment ''queue_jobs_failed_total'' s1))"

lemma db_recordQueueJob: "db (snd (recordQueueJob f s)) = db (snd (f s))"
  by (cases "f s"; cases "fst (f s)") (auto simp: recordQueueJob_def)

lemma effects_recordQueueJob: "effects (snd (recordQueueJob f s)) = effects (snd (f s))"
  by (cases "f s"; cases "fst (f s)") (auto simp: recordQueueJob_def)

lemma fst_recordQueueJob: "fst (recordQueueJob f s) = fst (f s)"
  by (cases "f s"; cases "fst (f s)") (auto simp: recordQueueJob_def)

section \<open>The table of processed events\<close>

definition alreadyProcessed :: "string \<Rightarrow> uuid \<Rightarrow> database \<Rightarrow> bool" where
  "alreadyProcessed consumerName outboxEventId d \<longleftrightarrow>
     (\<exists>x \<in> set (processed_events d).
        pe_consumerName x = consumerName \<and> pe_outboxEventId x = outboxEventId)"

text \<open>A second row for the event breaks the unique index; the consumers swallow that error.\<close>

definition markProcessed :: "string \<Rightarrow> uuid \<Rightarrow> sys \<Rightarrow> sys" where
  "markProcessed consumerName outboxEventId s =
     (if alreadyProcessed consumerName outboxEventId (db s) then s
      else upd_db (\<lambda>d. d\<lparr>next_id := next_id d + 1,
             processed_events := processed_events d @
               [\<lparr>pe_id = next_id d, pe_consumerName = consumerName,
                 pe_outboxEventId = outboxEventId\<rparr>]\<rparr>) s)"

text \<open>The \<open>process\<close> method of an outbox consumer, around the \<open>dispatch\<close> of one event.\<close>

definition consume ::
  "string \<Rightarrow> uuid \<Rightarrow> (sys \<Rightarrow> unit result \<times> sys) \<Rightarrow> sys \<Rightarrow> unit result \<times> sys" where
  "consume consumerName outboxEventId dispatch s =
     (if alreadyProcessed consumerName outboxEventId (db s) then (Inr (), s)
      else recordQueueJob (\<lambda>s. case dispatch s of
             (Inl err, s1) \<Rightarrow> (Inl err, s1)
           | (Inr _, s1) \<Rightarrow> (Inr (), markProcessed consumerName outboxEventId s1)) s)"

lemma alreadyProcessed_mark:
  "alreadyProcessed c x (db (markProcessed c' y s)) \<longleftrightarrow>
     alreadyProcessed c x (db s) \<or> (c = c' \<and> x = y)"
  by (auto simp: markProcessed_def alreadyProcessed_def)

lemma alreadyProcessed_cong:
  "processed_events d' = processed_events d \<Longrightarrow> alreadyProcessed c x d' \<longleftrightarrow> alreadyProcessed c x d"
  by (simp add: alreadyProcessed_def)

lemma markProcessed_frame [simp]:
  "auctions (db (markProcessed c x s)) = auctions (db s)"
  "bids (db (markProcessed c x s)) = bids (db s)"
  "products (db (markProcessed c x s)) = products (db s)"
  "orders (db (markProcessed c x s)) = orders (db s)"
  "seller_orders (db (markProcessed c x s)) = seller_orders (db s)"
  "seller_order_items (db (markProcessed c x s)) = seller_order_items (db s)"
  "ledger_entries (db (markProcessed c x s)) = ledger_entries (db s)"
  "refunds (db (markProcessed c x s)) = refunds (db s)"
  "outbox_events (db (markProcessed c x s)) = outbox_events (db s)"
  "next_id (db s) \<le> next_id (db (markProcessed c x s))"
  "effects (markProcessed c x s) = effects s"
  by (simp_all add: markProcessed_def)

lemma consume_skips: "alreadyProcessed c x (db s) \<Longrightarrow> consume c x f s = (Inr (), s)"
  by (simp add: consume_def)

lemma consume_marks: "consume c x f s = (Inr (), s') \<Longrightarrow> alreadyProcessed c x (db s')"
  by (auto simp: consume_def recordQueueJob_def alreadyProcessed_mark split: if_splits prod.splits sum.splits)

lemma consume_keeps:
  assumes "processed_events (db (snd (f s))) = processed_events (db s)" and "alreadyProcessed c y (db s)"
  shows "alreadyProcessed c y (db (snd (consume c x f s)))"
proof -
  have "alreadyProcessed c y (db (snd (f s)))"
    using assms alreadyProcessed_cong by blast
  then show ?thesis
    using assms(2)
    by (cases "f s"; cases "fst (f s)")
       (auto simp: consume_def recordQueueJob_def alreadyProcessed_mark)
qed

lemma processed_outbox [simp]:
  "processed_events (db (outbox_record t g i p c s)) = processed_events (db s)"
  by (simp add: outbox_record_def)

end
