(* ===== verification/Auction_Lifecycle.thy ===== *)
theory Auction_Lifecycle
  imports Bidding Consumers
begin

text \<open>
  Every status change of an auction that is not a bid
  (\<open>modules/bidding/auction-lifecycle.service.ts\<close>), its BullMQ scheduling, the consumer of the
  delayed jobs (\<open>auction-finalization.processor.ts\<close>) and the periodic sweep
  (\<open>auction-reconciliation.service.ts\<close>). A queue command that fails is swallowed by the service,
  so the log of effects is the commands it tried.
\<close>

section \<open>Helpers of the service\<close>

definition invalidate_auction :: "uuid \<Rightarrow> sys \<Rightarrow> sys" where
  "invalidate_auction productId s = emit RedisIncrSearchVersion (emit (RedisDelProduct productId) s)"

definition recordProductProjectionEvent :: "Auction \<Rightarrow> uuid \<Rightarrow> sys \<Rightarrow> sys" where
  "recordProductProjectionEvent auction correlationId =
     outbox_record ''PRODUCT_UPDATED'' ''Product'' (au_productId auction)
       [(''productId'', JId (au_productId auction)), (''auctionId'', JId (au_id auction))] correlationId"

definition recordFinalizedEvent :: "Auction \<Rightarrow> uuid \<Rightarrow> sys \<Rightarrow> sys" where
  "recordFinalizedEvent auction correlationId =
     outbox_record ''AUCTION_FINALIZED'' ''Auction'' (au_id auction)
       [(''auctionId'', JId (au_id auction)), (''status'', JAuctionStatus (au_status auction))]
       correlationId"

definition record_auction_event :: "string \<Rightarrow> Auction \<Rightarrow> (string \<times> json) list \<Rightarrow> uuid \<Rightarrow> sys \<Rightarrow> sys" where
  "record_auction_event eventType auction rest correlationId =
     outbox_record eventType ''Auction'' (au_id auction)
       ((''auctionId'', JId (au_id auction)) # rest) correlationId"

section \<open>Scheduling\<close>

definition addDelayedJob ::
  "env \<Rightarrow> job_id \<Rightarrow> AuctionJobType \<Rightarrow> uuid \<Rightarrow> time \<Rightarrow> uuid \<Rightarrow> sys \<Rightarrow> sys" where
  "addDelayedJob e jobId type auctionId at correlationId =
     (let delay = max 0 (at - now e)
      in emit (QueueAddAuctionJob jobId type auctionId delay correlationId))"

definition removeScheduledJob :: "job_id \<Rightarrow> sys \<Rightarrow> sys" where
  "removeScheduledJob jobId = emit (QueueRemoveJob jobId)"

definition scheduleFinalization :: "env \<Rightarrow> uuid \<Rightarrow> time \<Rightarrow> uuid \<Rightarrow> sys \<Rightarrow> sys" where
  "scheduleFinalization e auctionId endsAt correlationId =
     addDelayedJob e (FinalizeJobId auctionId) FINALIZE auctionId endsAt correlationId"

definition rescheduleFinalization :: "env \<Rightarrow> uuid \<Rightarrow> time \<Rightarrow> uuid \<Rightarrow> sys \<Rightarrow> sys" where
  "rescheduleFinalization e auctionId endsAt correlationId s =
     scheduleFinalization e auctionId endsAt correlationId
       (removeScheduledJob (FinalizeJobId auctionId) s)"

definition cancelScheduledFinalization :: "uuid \<Rightarrow> sys \<Rightarrow> sys" where
  "cancelScheduledFinalization auctionId s =
     removeScheduledJob (ExpireJobId auctionId) (removeScheduledJob (FinalizeJobId auctionId) s)"

definition schedulePurchaseWindowExpiry :: "env \<Rightarrow> uuid \<Rightarrow> time \<Rightarrow> uuid \<Rightarrow> sys \<Rightarrow> sys" where
  "schedulePurchaseWindowExpiry e auctionId purchaseWindowEndsAt correlationId =
     addDelayedJob e (ExpireJobId auctionId) EXPIRE_PURCHASE_WINDOW auctionId
       purchaseWindowEndsAt correlationId"

section \<open>Activation\<close>

record FinalizeOutcome =
  fo_touched :: bool
  fo_productId :: "uuid option"
  fo_schedulePurchaseWindowExpiry :: "time option"

definition untouched :: "uuid option \<Rightarrow> FinalizeOutcome" where
  "untouched p = \<lparr>fo_touched = False, fo_productId = p, fo_schedulePurchaseWindowExpiry = None\<rparr>"

definition runActivateTransaction ::
  "env \<Rightarrow> uuid \<Rightarrow> uuid \<Rightarrow> sys \<Rightarrow> FinalizeOutcome result \<times> sys" where
  "runActivateTransaction e auctionId correlationId s =
     (case by_id au_id auctionId (auctions (db s)) of
        None \<Rightarrow> (Inr (untouched None), s)
      | Some auction \<Rightarrow>
          if au_status auction \<noteq> AuctionStatus.SCHEDULED \<or> now e < au_startsAt auction \<or>
             now e \<ge> au_endsAt auction
          then (Inr (untouched (Some (au_productId auction))), s)
          else
     (case assertValidAuctionTransition (au_status auction) AuctionStatus.ACTIVE of
        Inl err \<Rightarrow> (Inl err, s)
      | Inr _ \<Rightarrow>
          let auction' = auction\<lparr>au_status := AuctionStatus.ACTIVE\<rparr>;
              s1 = upd_db (save_auction e auction') s;
              s2 = record_auction_event ''AUCTION_STARTED'' auction'
                     [(''productId'', JId (au_productId auction'))] correlationId s1;
              s3 = recordProductProjectionEvent auction' correlationId s2
          in (Inr \<lparr>fo_touched = True, fo_productId = Some (au_productId auction'),
                  fo_schedulePurchaseWindowExpiry = None\<rparr>, s3)))"

text \<open>What the three handlers do once their transaction has committed.\<close>

definition invalidate_if_touched :: "FinalizeOutcome \<Rightarrow> sys \<Rightarrow> sys" where
  "invalidate_if_touched out s =
     (if fo_touched out
      then (case fo_productId out of None \<Rightarrow> s | Some p \<Rightarrow> invalidate_auction p s) else s)"

definition activateAuction :: "env \<Rightarrow> uuid \<Rightarrow> uuid \<Rightarrow> sys \<Rightarrow> unit result \<times> sys" where
  "activateAuction e auctionId correlationId s =
     (case transaction (runActivateTransaction e auctionId correlationId) s of
        (Inl err, s1) \<Rightarrow> (Inl err, s1)
      | (Inr outcome, s1) \<Rightarrow> (Inr (), invalidate_if_touched outcome s1))"

section \<open>Finalization\<close>

text \<open>\<open>ORDER BY amount DESC, "createdAt" ASC LIMIT 1\<close>; the column sorts numerically.\<close>

definition bid_precedes :: "Bid \<Rightarrow> Bid \<Rightarrow> bool" where
  "bid_precedes b c \<longleftrightarrow>
     cents (bid_amount c) < cents (bid_amount b) \<or>
     (cents (bid_amount b) = cents (bid_amount c) \<and> bid_createdAt b \<le> bid_createdAt c)"

fun winning_bid :: "Bid list \<Rightarrow> Bid option" where
  "winning_bid [] = None"
| "winning_bid (b # bs) =
     (case winning_bid bs of
        None \<Rightarrow> Some b
      | Some c \<Rightarrow> Some (if bid_precedes b c then b else c))"

definition finalize_unsold :: "env \<Rightarrow> Auction \<Rightarrow> uuid \<Rightarrow> sys \<Rightarrow> FinalizeOutcome result \<times> sys" where
  "finalize_unsold e auction correlationId s =
     (case assertValidAuctionTransition (au_status auction) AuctionStatus.UNSOLD of
        Inl err \<Rightarrow> (Inl err, s)
      | Inr _ \<Rightarrow>
          let auction' = auction\<lparr>au_status := AuctionStatus.UNSOLD, au_finalizedAt := Some (now e)\<rparr>;
              s1 = upd_db (save_auction e auction') s;
              s2 = record_auction_event ''AUCTION_UNSOLD'' auction'
                     [(''productId'', JId (au_productId auction'))] correlationId s1;
              s3 = recordProductProjectionEvent auction' correlationId s2;
              s4 = recordFinalizedEvent auction' correlationId s3;
              s5 = increment ''auctions_unsold_total'' s4
          in (Inr \<lparr>fo_touched = True, fo_productId = Some (au_productId auction'),
                  fo_schedulePurchaseWindowExpiry = None\<rparr>, s5))"

definition finalize_won :: "env \<Rightarrow> Auction \<Rightarrow> Bid \<Rightarrow> uuid \<Rightarrow> sys \<Rightarrow> FinalizeOutcome result \<times> sys" where
  "finalize_won e auction winningBid correlationId s =
     (let purchaseWindowEndsAt = now e + purchaseWindowMinutes e * 60000 in
      case assertValidAuctionTransition (au_status auction) AuctionStatus.AWAITING_PAYMENT of
        Inl err \<Rightarrow> (Inl err, s)
      | Inr _ \<Rightarrow>
          let auction' = auction\<lparr>au_winnerId := Some (bid_bidderId winningBid),
                 au_currentPrice := bid_amount winningBid,
                 au_purchaseWindowEndsAt := Some purchaseWindowEndsAt,
                 au_winningBidId := Some (bid_id winningBid),
                 au_finalizedAt := Some (now e),
                 au_status := AuctionStatus.AWAITING_PAYMENT\<rparr>;
              s1 = upd_db (save_auction e auction') s;
              s2 = record_auction_event ''AUCTION_WON'' auction'
                     [(''productId'', JId (au_productId auction')),
                      (''winnerId'', JId (bid_bidderId winningBid)),
                      (''winningAmount'', JStr (au_currentPrice auction'))] correlationId s1;
              s3 = recordProductProjectionEvent auction' correlationId s2;
              s4 = recordFinalizedEvent auction' correlationId s3;
              s5 = record_auction_event ''AUCTION_PURCHASE_WINDOW_OPENED'' auction'
                     [(''purchaseWindowEndsAt'', JTime purchaseWindowEndsAt)] correlationId s4;
              s6 = increment ''auctions_won_total'' s5
          in (Inr \<lparr>fo_touched = True, fo_productId = Some (au_productId auction'),
                  fo_schedulePurchaseWindowExpiry = Some purchaseWindowEndsAt\<rparr>, s6))"

definition runFinalizeTransaction ::
  "env \<Rightarrow> uuid \<Rightarrow> uuid \<Rightarrow> sys \<Rightarrow> FinalizeOutcome result \<times> sys" where
  "runFinalizeTransaction e auctionId correlationId s =
     (case by_id au_id auctionId (auctions (db s)) of
        None \<Rightarrow> (Inr (untouched None), s)
      | Some auction0 \<Rightarrow>
          if au_status auction0 \<noteq> AuctionStatus.ACTIVE \<and> au_status auction0 \<noteq> AuctionStatus.SCHEDULED
          then (Inr (untouched (Some (au_productId auction0))), s)
          else if now e < au_endsAt auction0
          then (Inr (untouched (Some (au_productId auction0))), s)
          else
     (case (if au_status auction0 = AuctionStatus.SCHEDULED
            then assertValidAuctionTransition (au_status auction0) AuctionStatus.ACTIVE else Inr ()) of
        Inl err \<Rightarrow> (Inl err, s)
      | Inr _ \<Rightarrow>
          let auction = (if au_status auction0 = AuctionStatus.SCHEDULED
                         then auction0\<lparr>au_status := AuctionStatus.ACTIVE\<rparr> else auction0)
          in (case winning_bid (auction_bids auctionId (db s)) of
                None \<Rightarrow> finalize_unsold e auction correlationId s
              | Some winningBid \<Rightarrow> finalize_won e auction winningBid correlationId s)))"

definition finalizeAuction :: "env \<Rightarrow> uuid \<Rightarrow> uuid \<Rightarrow> sys \<Rightarrow> unit result \<times> sys" where
  "finalizeAuction e auctionId correlationId s =
     (case transaction (runFinalizeTransaction e auctionId correlationId) s of
        (Inl err, s1) \<Rightarrow> (Inl err, s1)
      | (Inr outcome, s1) \<Rightarrow>
          let s2 = (case fo_schedulePurchaseWindowExpiry outcome of
                      None \<Rightarrow> s1
                    | Some t \<Rightarrow> schedulePurchaseWindowExpiry e auctionId t correlationId s1)
          in (Inr (), invalidate_if_touched outcome s2))"

section \<open>Expiry of the purchase window\<close>

definition runExpireTransaction ::
  "env \<Rightarrow> uuid \<Rightarrow> uuid \<Rightarrow> sys \<Rightarrow> FinalizeOutcome result \<times> sys" where
  "runExpireTransaction e auctionId correlationId s =
     (case by_id au_id auctionId (auctions (db s)) of
        None \<Rightarrow> (Inr (untouched None), s)
      | Some auction \<Rightarrow>
          if au_status auction \<noteq> AuctionStatus.AWAITING_PAYMENT
          then (Inr (untouched (Some (au_productId auction))), s)
          else if (case au_purchaseWindowEndsAt auction of None \<Rightarrow> True | Some t \<Rightarrow> now e < t)
          then (Inr (untouched (Some (au_productId auction))), s)
          else
     (case assertValidAuctionTransition (au_status auction) AuctionStatus.EXPIRED of
        Inl err \<Rightarrow> (Inl err, s)
      | Inr _ \<Rightarrow>
          let auction' = auction\<lparr>au_status := AuctionStatus.EXPIRED\<rparr>;
              s1 = upd_db (save_auction e auction') s;
              s2 = record_auction_event ''AUCTION_PURCHASE_WINDOW_EXPIRED'' auction'
                     [(''productId'', JId (au_productId auction')),
                      (''winnerId'', case au_winnerId auction' of None \<Rightarrow> JNull | Some w \<Rightarrow> JId w)]
                     correlationId s1;
              s3 = recordProductProjectionEvent auction' correlationId s2;
              s4 = increment ''auction_purchase_windows_expired_total'' s3
          in (Inr \<lparr>fo_touched = True, fo_productId = Some (au_productId auction'),
                  fo_schedulePurchaseWindowExpiry = None\<rparr>, s4)))"

definition expirePurchaseWindow :: "env \<Rightarrow> uuid \<Rightarrow> uuid \<Rightarrow> sys \<Rightarrow> unit result \<times> sys" where
  "expirePurchaseWindow e auctionId correlationId s =
     (case transaction (runExpireTransaction e auctionId correlationId) s of
        (Inl err, s1) \<Rightarrow> (Inl err, s1)
      | (Inr outcome, s1) \<Rightarrow> (Inr (), invalidate_if_touched outcome s1))"

section \<open>Cancellation\<close>

datatype AuctionLifecycleActor = SellerActor uuid | AdminActor

definition lockOwnedAuction :: "AuctionLifecycleActor \<Rightarrow> uuid \<Rightarrow> database \<Rightarrow> Auction result" where
  "lockOwnedAuction actor auctionId d =
     (case by_id au_id auctionId (auctions d) of
        None \<Rightarrow> Inl (NotFoundException ''Auction not found'')
      | Some auction \<Rightarrow>
          (case actor of
             AdminActor \<Rightarrow> Inr auction
           | SellerActor sellerProfileId \<Rightarrow>
               if \<exists>p \<in> set (products d). pr_id p = au_productId auction \<and>
                                        pr_sellerProfileId p = sellerProfileId
               then Inr auction else Inl (NotFoundException ''Auction not found'')))"

definition runCancelTransaction ::
  "env \<Rightarrow> AuctionLifecycleActor \<Rightarrow> uuid \<Rightarrow> uuid \<Rightarrow> sys \<Rightarrow> (Auction \<times> bool) result \<times> sys" where
  "runCancelTransaction e actor auctionId correlationId s =
     (case lockOwnedAuction actor auctionId (db s) of
        Inl err \<Rightarrow> (Inl err, s)
      | Inr auction \<Rightarrow>
          if au_status auction = AuctionStatus.CANCELLED then (Inr (auction, False), s)
          else
     (case assertAuctionCancellable (au_status auction) of
        Inl err \<Rightarrow> (Inl err, s)
      | Inr _ \<Rightarrow>
          let auction' = auction\<lparr>au_status := AuctionStatus.CANCELLED\<rparr>;
              s1 = upd_db (save_auction e auction') s;
              s2 = record_auction_event ''AUCTION_CANCELLED'' auction'
                     [(''productId'', JId (au_productId auction'))] correlationId s1;
              s3 = recordProductProjectionEvent auction' correlationId s2;
              s4 = increment ''auctions_cancelled_total'' s3
          in (Inr (auction', True), s4)))"

definition cancel_auction ::
  "env \<Rightarrow> AuctionLifecycleActor \<Rightarrow> uuid \<Rightarrow> uuid \<Rightarrow> sys \<Rightarrow> Auction result \<times> sys" where
  "cancel_auction e actor auctionId correlationId s =
     (case transaction (runCancelTransaction e actor auctionId correlationId) s of
        (Inl err, s1) \<Rightarrow> (Inl err, s1)
      | (Inr (auction, touched), s1) \<Rightarrow>
          let s2 = cancelScheduledFinalization auctionId s1;
              s3 = (if touched then invalidate_auction (au_productId auction) s2 else s2)
          in (Inr auction, s3))"

section \<open>The job consumer and the sweep\<close>

definition process_auction_job ::
  "env \<Rightarrow> AuctionJobType \<Rightarrow> uuid \<Rightarrow> uuid \<Rightarrow> sys \<Rightarrow> unit result \<times> sys" where
  "process_auction_job e type auctionId correlationId =
     recordQueueJob (case type of
        FINALIZE \<Rightarrow> finalizeAuction e auctionId correlationId
      | EXPIRE_PURCHASE_WINDOW \<Rightarrow> expirePurchaseWindow e auctionId correlationId)"

definition BATCH_SIZE :: nat where
  "BATCH_SIZE = 50"

text \<open>A loop over awaited calls stops at the first one that throws.\<close>

fun for_each :: "('a \<Rightarrow> sys \<Rightarrow> unit result \<times> sys) \<Rightarrow> 'a list \<Rightarrow> sys \<Rightarrow> unit result \<times> sys" where
  "for_each f [] s = (Inr (), s)"
| "for_each f (x # xs) s =
     (case f x s of (Inl err, s1) \<Rightarrow> (Inl err, s1) | (Inr _, s1) \<Rightarrow> for_each f xs s1)"

definition seq :: "(sys \<Rightarrow> unit result \<times> sys) \<Rightarrow> (sys \<Rightarrow> unit result \<times> sys) \<Rightarrow> sys \<Rightarrow> unit result \<times> sys" where
  "seq f g s = (case f s of (Inl err, s1) \<Rightarrow> (Inl err, s1) | (Inr _, s1) \<Rightarrow> g s1)"

definition reconcileStartedAuctions :: "env \<Rightarrow> (uuid \<Rightarrow> uuid) \<Rightarrow> sys \<Rightarrow> unit result \<times> sys" where
  "reconcileStartedAuctions e randomUUID s =
     (let started = take BATCH_SIZE (filter (\<lambda>a. au_status a = AuctionStatus.SCHEDULED \<and>
                      au_startsAt a \<le> now e \<and> au_endsAt a > now e) (auctions (db s)))
      in for_each (\<lambda>a. activateAuction e (au_id a) (randomUUID (au_id a))) started s)"

definition reconcileOverdueFinalizations :: "env \<Rightarrow> (uuid \<Rightarrow> uuid) \<Rightarrow> sys \<Rightarrow> unit result \<times> sys" where
  "reconcileOverdueFinalizations e randomUUID s =
     (let overdue = take BATCH_SIZE (filter (\<lambda>a. (au_status a = AuctionStatus.SCHEDULED \<or>
                      au_status a = AuctionStatus.ACTIVE) \<and> au_endsAt a \<le> now e) (auctions (db s)))
      in for_each (\<lambda>a. finalizeAuction e (au_id a) (randomUUID (au_id a))) overdue s)"

definition reconcileExpiredPurchaseWindows :: "env \<Rightarrow> (uuid \<Rightarrow> uuid) \<Rightarrow> sys \<Rightarrow> unit result \<times> sys" where
  "reconcileExpiredPurchaseWindows e randomUUID s =
     (let overdue = take BATCH_SIZE (filter (\<lambda>a. au_status a = AuctionStatus.AWAITING_PAYMENT \<and>
                      (case au_purchaseWindowEndsAt a of None \<Rightarrow> False | Some t \<Rightarrow> t \<le> now e))
                      (auctions (db s)))
      in for_each (\<lambda>a. expirePurchaseWindow e (au_id a) (randomUUID (au_id a))) overdue s)"

text \<open>\<open>reconcile\<close> logs and swallows an exception of the sweep.\<close>

definition reconcile :: "env \<Rightarrow> (uuid \<Rightarrow> uuid) \<Rightarrow> sys \<Rightarrow> sys" where
  "reconcile e randomUUID s =
     snd (seq (reconcileStartedAuctions e randomUUID)
           (seq (reconcileOverdueFinalizations e randomUUID)
                (reconcileExpiredPurchaseWindows e randomUUID)) s)"

section \<open>The bid that wins is the last one\<close>

lemma chain_last_exceeds:
  "successively (\<lambda>x y. cents (bid_amount x) + k \<le> cents (bid_amount y)) (b # bs) \<Longrightarrow> 0 < k \<Longrightarrow>
   bs \<noteq> [] \<Longrightarrow> cents (bid_amount b) < cents (bid_amount (last bs))"
proof (induction bs arbitrary: b)
  case (Cons c bs)
  then show ?case by (cases bs) fastforce+
qed simp

lemma winning_bid_chain:
  "successively (\<lambda>x y. cents (bid_amount x) + k \<le> cents (bid_amount y)) bs \<Longrightarrow> 0 < k \<Longrightarrow>
   winning_bid bs = (if bs = [] then None else Some (last bs))"
proof (induction bs)
  case (Cons b bs)
  show ?case
  proof (cases bs)
    case (Cons c cs)
    have "winning_bid bs = Some (last bs)"
      using Cons.IH Cons.prems Cons by simp
    moreover have "\<not> bid_precedes b (last bs)"
      using chain_last_exceeds [OF Cons.prems(1,2)] Cons by (simp add: bid_precedes_def)
    ultimately show ?thesis using Cons by simp
  qed simp
qed simp

lemma winning_bid_ok:
  assumes "auction_ok d a"
  shows "winning_bid (auction_bids (au_id a) d)
           = (if auction_bids (au_id a) d = [] then None else Some (last (auction_bids (au_id a) d)))"
  using assms
  by (intro winning_bid_chain [where k = "cents (au_minBidIncrement a)"])
     (auto simp: auction_ok_def bid_chain_def split: list.splits)

section \<open>What the transactions change\<close>

abbreviation auction_path :: "AuctionStatus \<Rightarrow> AuctionStatus \<Rightarrow> bool" where
  "auction_path \<equiv> (\<lambda>s t. t \<in> set (AUCTION_TRANSITIONS s))\<^sup>*\<^sup>*"

definition terms_kept :: "Auction \<Rightarrow> Auction \<Rightarrow> bool" where
  "terms_kept a a' \<longleftrightarrow>
     au_id a' = au_id a \<and> au_productId a' = au_productId a \<and> au_startPrice a' = au_startPrice a \<and>
     au_minBidIncrement a' = au_minBidIncrement a \<and> au_startsAt a' = au_startsAt a \<and>
     au_endsAt a' = au_endsAt a \<and> au_winnerId a' = au_winnerId a \<and>
     au_winningBidId a' = au_winningBidId a \<and> is_money (au_currentPrice a') \<and>
     cents (au_currentPrice a') = cents (au_currentPrice a) \<and>
     auction_path (au_status a) (au_status a')"

definition auction_move :: "env \<Rightarrow> uuid \<Rightarrow> database \<Rightarrow> database \<Rightarrow> bool" where
  "auction_move e i d d' \<longleftrightarrow>
     bids d' = bids d \<and> products d' = products d \<and> next_id d \<le> next_id d' \<and>
     (auctions d' = auctions d \<or>
      (\<exists>a a'. by_id au_id i (auctions d) = Some a \<and> terms_kept a a' \<and>
              auctions d' = put_row au_id (stored_auction e a') (auctions d)))"

lemma auction_move_refl [simp]: "auction_move e i d d"
  by (simp add: auction_move_def)

lemma stored_auction_frame [simp]:
  "au_id (stored_auction e a) = au_id a" "au_status (stored_auction e a) = au_status a"
  "au_winnerId (stored_auction e a) = au_winnerId a"
  "au_winningBidId (stored_auction e a) = au_winningBidId a"
  "au_endsAt (stored_auction e a) = au_endsAt a" "au_startsAt (stored_auction e a) = au_startsAt a"
  "au_productId (stored_auction e a) = au_productId a"
  "au_purchaseWindowEndsAt (stored_auction e a) = au_purchaseWindowEndsAt a"
  "au_finalizedAt (stored_auction e a) = au_finalizedAt a"
  by (simp_all add: stored_auction_def)

lemma auction_move_inv:
  assumes inv: "bidding_inv d" and num: "numeric_ok e" and mv: "auction_move e i d d'"
  shows "bidding_inv d'"
proof -
  have b: "bids d' = bids d" "next_id d \<le> next_id d'" using mv by (simp_all add: auction_move_def)
  then have ab: "auction_bids j d' = auction_bids j d" for j by (simp add: auction_bids_def)
  from mv show ?thesis unfolding auction_move_def
  proof (elim conjE disjE exE)
    assume "auctions d' = auctions d"
    with inv b ab show ?thesis by (fastforce simp: bidding_inv_def auction_ok_def)
  next
    fix a a' assume a: "by_id au_id i (auctions d) = Some a" and t: "terms_kept a a'"
      and au: "auctions d' = put_row au_id (stored_auction e a') (auctions d)"
    have ok: "auction_ok d a" using bidding_inv_auction [OF inv a] .
    have "bid_chain (stored_auction e a') bs = bid_chain a bs" for bs
      using t num ok
      by (intro bid_chain_same) (simp_all add: terms_kept_def stored_auction_def auction_ok_def)
    then have new: "auction_ok d' (stored_auction e a')"
      using ok t num by (simp add: auction_ok_def terms_kept_def stored_auction_def ab)
    have "auction_ok d' x" if "x \<in> set (auctions d')" for x
      using set_put_rowD [of x au_id "stored_auction e a'" "auctions d"] that au new inv ab
      by (auto simp: bidding_inv_def auction_ok_def)
    moreover have "map au_id (auctions d') = map au_id (auctions d)"
      using au by (simp add: keys_put_row)
    ultimately show ?thesis using inv b by (fastforce simp: bidding_inv_def)
  qed
qed

definition status_path :: "database \<Rightarrow> database \<Rightarrow> bool" where
  "status_path d d' \<longleftrightarrow>
     (\<forall>i a. by_id au_id i (auctions d) = Some a \<longrightarrow>
        (\<exists>a'. by_id au_id i (auctions d') = Some a' \<and> auction_path (au_status a) (au_status a')))"

lemma status_path_refl [simp]: "auctions d' = auctions d \<Longrightarrow> status_path d d'"
  by (simp add: status_path_def)

lemma status_path_trans: "status_path d d' \<Longrightarrow> status_path d' d'' \<Longrightarrow> status_path d d''"
  unfolding status_path_def by (meson rtranclp_trans)

lemma status_path_put:
  assumes "by_id au_id i (auctions d) = Some a" "auctions d' = put_row au_id a' (auctions d)"
    and "au_id a' = i" "auction_path (au_status a) (au_status a')"
  shows "status_path d d'"
  unfolding status_path_def
proof (intro allI impI)
  fix j b assume "by_id au_id j (auctions d) = Some b"
  then show "\<exists>a'. by_id au_id j (auctions d') = Some a' \<and> auction_path (au_status b) (au_status a')"
    using assms by_id_put_row_same [OF assms(1,3)] by_id_put_row_other [of au_id a' j]
    by (cases "j = i") auto
qed

lemma auction_move_path: "auction_move e i d d' \<Longrightarrow> status_path d d'"
  unfolding auction_move_def
proof (elim conjE disjE exE)
  fix a a' assume "by_id au_id i (auctions d) = Some a" "terms_kept a a'"
    "auctions d' = put_row au_id (stored_auction e a') (auctions d)"
  then show ?thesis by (intro status_path_put) (auto simp: terms_kept_def dest: by_id_SomeD)
qed simp

lemma transition_allowed:
  "assertValidAuctionTransition s t = Inr u \<Longrightarrow> auction_path s t"
  by (auto simp: assertValidAuctionTransition_def split: if_splits)

lemmas event_defs = record_auction_event_def recordProductProjectionEvent_def recordFinalizedEvent_def

lemma event_frame [simp]:
  "auctions (db (record_auction_event t a r c s)) = auctions (db s)"
  "bids (db (record_auction_event t a r c s)) = bids (db s)"
  "products (db (record_auction_event t a r c s)) = products (db s)"
  "next_id (db (record_auction_event t a r c s)) = next_id (db s) + 1"
  "effects (record_auction_event t a r c s) = effects s"
  "auctions (db (recordProductProjectionEvent a c s)) = auctions (db s)"
  "bids (db (recordProductProjectionEvent a c s)) = bids (db s)"
  "products (db (recordProductProjectionEvent a c s)) = products (db s)"
  "next_id (db (recordProductProjectionEvent a c s)) = next_id (db s) + 1"
  "effects (recordProductProjectionEvent a c s) = effects s"
  "auctions (db (recordFinalizedEvent a c s)) = auctions (db s)"
  "bids (db (recordFinalizedEvent a c s)) = bids (db s)"
  "products (db (recordFinalizedEvent a c s)) = products (db s)"
  "next_id (db (recordFinalizedEvent a c s)) = next_id (db s) + 1"
  "effects (recordFinalizedEvent a c s) = effects s"
  by (simp_all add: event_defs)

lemma auctions_save [simp]:
  "auctions (save_auction e a d) = put_row au_id (stored_auction e a) (auctions d)"
  by (simp add: save_auction_def)


lemma auction_moveI:
  "by_id au_id i (auctions d) = Some a \<Longrightarrow> terms_kept a a' \<Longrightarrow>
   auctions d' = put_row au_id (stored_auction e a') (auctions d) \<Longrightarrow>
   bids d' = bids d \<Longrightarrow> products d' = products d \<Longrightarrow> next_id d \<le> next_id d' \<Longrightarrow> auction_move e i d d'"
  unfolding auction_move_def by blast

lemma terms_kept_status:
  "auction_ok d a \<Longrightarrow> t \<in> set (AUCTION_TRANSITIONS (au_status a)) \<Longrightarrow>
   terms_kept a (a\<lparr>au_status := t\<rparr>)"
  by (auto simp: terms_kept_def auction_ok_def)

lemma activate_move:
  assumes "bidding_inv (db s)" "runActivateTransaction e i corr s = (r, s')"
  shows "auction_move e i (db s) (db s') \<and> effects s' = effects s \<and> \<not> is_error r"
proof (cases "by_id au_id i (auctions (db s))")
  case (Some a)
  show ?thesis
  proof (cases "au_status a = AuctionStatus.SCHEDULED \<and> au_startsAt a \<le> now e \<and> now e < au_endsAt a")
    case True
    have "terms_kept a (a\<lparr>au_status := AuctionStatus.ACTIVE\<rparr>)"
      using True by (intro terms_kept_status [OF bidding_inv_auction [OF assms(1) Some]]) simp
    with True assms(2) Some show ?thesis
      by (auto simp: runActivateTransaction_def assertValidAuctionTransition_def Let_def
            intro!: auction_moveI [OF Some])
  qed (use assms(2) Some in \<open>auto simp: runActivateTransaction_def\<close>)
qed (use assms in \<open>auto simp: runActivateTransaction_def\<close>)

definition window_over :: "env \<Rightarrow> Auction \<Rightarrow> bool" where
  "window_over e a \<longleftrightarrow> au_status a = AuctionStatus.AWAITING_PAYMENT \<and>
     (case au_purchaseWindowEndsAt a of None \<Rightarrow> False | Some t \<Rightarrow> t \<le> now e)"

lemma expire_move:
  assumes "bidding_inv (db s)" "runExpireTransaction e i corr s = (r, s')"
  shows "auction_move e i (db s) (db s') \<and> effects s' = effects s \<and> \<not> is_error r"
proof (cases "by_id au_id i (auctions (db s))")
  case (Some a)
  show ?thesis
  proof (cases "window_over e a")
    case True
    then have st: "au_status a = AuctionStatus.AWAITING_PAYMENT" by (simp add: window_over_def)
    have "terms_kept a (a\<lparr>au_status := AuctionStatus.EXPIRED\<rparr>)"
      using st by (intro terms_kept_status [OF bidding_inv_auction [OF assms(1) Some]]) simp
    with True st assms(2) Some show ?thesis
      by (auto simp: runExpireTransaction_def assertValidAuctionTransition_def Let_def window_over_def
            intro!: auction_moveI [OF Some] split: option.splits)
  next
    case False
    then show ?thesis using assms(2) Some
      by (cases "au_purchaseWindowEndsAt a")
         (auto simp: runExpireTransaction_def window_over_def split: if_splits)
  qed
qed (use assms in \<open>auto simp: runExpireTransaction_def\<close>)

lemma cancel_move:
  assumes "bidding_inv (db s)" "runCancelTransaction e actor i corr s = (Inr r, s')"
  shows "auction_move e i (db s) (db s') \<and> effects s' = effects s"
proof (cases "by_id au_id i (auctions (db s))")
  case (Some a)
  show ?thesis
  proof (cases "lockOwnedAuction actor i (db s) = Inr a \<and> isAuctionCancellable (au_status a)")
    case True
    have "terms_kept a (a\<lparr>au_status := AuctionStatus.CANCELLED\<rparr>)"
      using True by (intro terms_kept_status [OF bidding_inv_auction [OF assms(1) Some]])
        (auto simp: isAuctionCancellable_def AUCTION_CANCELLABLE_FROM_def)
    moreover have "au_status a \<noteq> AuctionStatus.CANCELLED"
      using True by (auto simp: isAuctionCancellable_def AUCTION_CANCELLABLE_FROM_def)
    ultimately show ?thesis using True assms(2)
      by (auto simp: runCancelTransaction_def assertAuctionCancellable_def Let_def
            intro!: auction_moveI [OF Some])
  qed (use assms(2) Some in \<open>auto simp: runCancelTransaction_def assertAuctionCancellable_def
         lockOwnedAuction_def split: sum.splits if_splits AuctionLifecycleActor.splits\<close>)
qed (use assms in \<open>auto simp: runCancelTransaction_def lockOwnedAuction_def\<close>)

text \<open>The auction a finalization writes.\<close>

definition overdue :: "env \<Rightarrow> Auction \<Rightarrow> bool" where
  "overdue e a \<longleftrightarrow>
     (au_status a = AuctionStatus.ACTIVE \<or> au_status a = AuctionStatus.SCHEDULED) \<and> au_endsAt a \<le> now e"

definition finalized :: "env \<Rightarrow> database \<Rightarrow> Auction \<Rightarrow> Auction" where
  "finalized e d a =
     (case winning_bid (auction_bids (au_id a) d) of
        None \<Rightarrow> a\<lparr>au_status := AuctionStatus.UNSOLD, au_finalizedAt := Some (now e)\<rparr>
      | Some b \<Rightarrow> a\<lparr>au_winnerId := Some (bid_bidderId b), au_currentPrice := bid_amount b,
            au_purchaseWindowEndsAt := Some (now e + purchaseWindowMinutes e * 60000),
            au_winningBidId := Some (bid_id b), au_finalizedAt := Some (now e),
            au_status := AuctionStatus.AWAITING_PAYMENT\<rparr>)"

lemma terms_kept_finalized:
  assumes inv: "bidding_inv d" and a: "by_id au_id i (auctions d) = Some a" and "overdue e a"
  shows "terms_kept a (finalized e d a)"
proof -
  have ok: "auction_ok d a" using bidding_inv_auction [OF inv a] .
  have path: "auction_path (au_status a) AuctionStatus.UNSOLD"
    "auction_path (au_status a) AuctionStatus.AWAITING_PAYMENT"
  proof -
    have "auction_path (au_status a) AuctionStatus.ACTIVE"
      using assms(3) by (auto simp: overdue_def)
    then show "auction_path (au_status a) AuctionStatus.UNSOLD"
      "auction_path (au_status a) AuctionStatus.AWAITING_PAYMENT"
      by (auto intro: rtranclp.rtrancl_into_rtrancl)
  qed
  show ?thesis
  proof (cases "auction_bids (au_id a) d")
    case Nil
    with ok path winning_bid_ok [OF ok] show ?thesis
      by (simp add: terms_kept_def finalized_def auction_ok_def)
  next
    case (Cons b bs)
    moreover have "is_money (bid_amount (last (auction_bids (au_id a) d)))"
    proof -
      have "last (auction_bids (au_id a) d) \<in> set (auction_bids (au_id a) d)" using Cons by simp
      then have "last (auction_bids (au_id a) d) \<in> set (bids d)" by (simp add: auction_bids_def)
      then show ?thesis using inv by (simp add: bidding_inv_def)
    qed
    ultimately show ?thesis
      using ok path winning_bid_ok [OF ok]
      by (simp add: terms_kept_def finalized_def auction_ok_def bid_chain_def)
  qed
qed

lemma finalize_run:
  assumes a: "by_id au_id i (auctions (db s)) = Some a" and run: "runFinalizeTransaction e i corr s = (r, s')"
  shows "if overdue e a
         then r = Inr \<lparr>fo_touched = True, fo_productId = Some (au_productId a),
                fo_schedulePurchaseWindowExpiry = (if winning_bid (auction_bids i (db s)) = None then None
                   else Some (now e + purchaseWindowMinutes e * 60000))\<rparr> \<and>
              auctions (db s') = put_row au_id (stored_auction e (finalized e (db s) a)) (auctions (db s)) \<and>
              bids (db s') = bids (db s) \<and> products (db s') = products (db s) \<and>
              next_id (db s) \<le> next_id (db s') \<and> effects s' = effects s
         else r = Inr (untouched (Some (au_productId a))) \<and> s' = s"
proof -
  have ida: "au_id a = i" using by_id_SomeD [OF a] by simp
  show ?thesis
  proof (cases "overdue e a")
    case False
    with a run show ?thesis by (auto simp: runFinalizeTransaction_def overdue_def not_le split: if_splits)
  next
    case True
    then have st: "au_status a = AuctionStatus.ACTIVE \<or> au_status a = AuctionStatus.SCHEDULED"
      and t: "\<not> now e < au_endsAt a" by (auto simp: overdue_def)
    show ?thesis
    proof (cases "winning_bid (auction_bids i (db s))")
      case None
      from st show ?thesis
      proof
        assume "au_status a = AuctionStatus.ACTIVE"
        with t a run None True ida show ?thesis
          by (simp add: runFinalizeTransaction_def finalize_unsold_def finalized_def
                assertValidAuctionTransition_def Let_def) auto
      next
        assume "au_status a = AuctionStatus.SCHEDULED"
        with t a run None True ida show ?thesis
          by (simp add: runFinalizeTransaction_def finalize_unsold_def finalized_def
                assertValidAuctionTransition_def Let_def) auto
      qed
    next
      case (Some b)
      from st show ?thesis
      proof
        assume "au_status a = AuctionStatus.ACTIVE"
        with t a run Some True ida show ?thesis
          by (simp add: runFinalizeTransaction_def finalize_won_def finalized_def
                assertValidAuctionTransition_def Let_def) auto
      next
        assume "au_status a = AuctionStatus.SCHEDULED"
        with t a run Some True ida show ?thesis
          by (simp add: runFinalizeTransaction_def finalize_won_def finalized_def
                assertValidAuctionTransition_def Let_def) auto
      qed
    qed
  qed
qed

lemma finalize_move:
  assumes "bidding_inv (db s)" "runFinalizeTransaction e i corr s = (r, s')"
  shows "auction_move e i (db s) (db s') \<and> effects s' = effects s \<and> \<not> is_error r"
proof (cases "by_id au_id i (auctions (db s))")
  case (Some a)
  show ?thesis
    using finalize_run [OF Some assms(2)] terms_kept_finalized [OF assms(1) Some] Some
    by (cases "overdue e a") (auto intro!: auction_moveI)
qed (use assms in \<open>auto simp: runFinalizeTransaction_def\<close>)


section \<open>The handlers\<close>

lemma after_commit_frame [simp]:
  "db (invalidate_auction p s) = db s"
  "effects (invalidate_auction p s) = effects s @ [RedisDelProduct p, RedisIncrSearchVersion]"
  "db (invalidate_if_touched o' s) = db s"
  "db (addDelayedJob e j t i at c s) = db s"
  "effects (addDelayedJob e j t i at c s) = effects s @ [QueueAddAuctionJob j t i (max 0 (at - now e)) c]"
  "db (removeScheduledJob j s) = db s"
  "effects (removeScheduledJob j s) = effects s @ [QueueRemoveJob j]"
  "db (schedulePurchaseWindowExpiry e i at c s) = db s"
  "db (cancelScheduledFinalization i s) = db s"
  by (simp_all add: invalidate_auction_def invalidate_if_touched_def addDelayedJob_def Let_def
        removeScheduledJob_def schedulePurchaseWindowExpiry_def cancelScheduledFinalization_def
        split: option.split)

lemma handler_run:
  "transaction body s = (r, s') \<Longrightarrow> body s = (r, s') \<or> (is_error r \<and> db s' = db s)"
  by (cases "body s"; cases "fst (body s)") (auto simp: transaction_def)

lemma activateAuction_move:
  assumes "bidding_inv (db s)"
  shows "auction_move e i (db s) (db (snd (activateAuction e i corr s))) \<and>
         \<not> is_error (fst (activateAuction e i corr s))"
proof (cases "runActivateTransaction e i corr s")
  case (Pair r s')
  with activate_move [OF assms Pair] show ?thesis
    by (auto simp: activateAuction_def transaction_def not_is_error_iff)
qed

lemma finalizeAuction_move:
  assumes "bidding_inv (db s)"
  shows "auction_move e i (db s) (db (snd (finalizeAuction e i corr s))) \<and>
         \<not> is_error (fst (finalizeAuction e i corr s))"
proof (cases "runFinalizeTransaction e i corr s")
  case (Pair r s')
  with finalize_move [OF assms Pair] show ?thesis
    by (auto simp: finalizeAuction_def transaction_def not_is_error_iff Let_def split: option.split)
qed

lemma expirePurchaseWindow_move:
  assumes "bidding_inv (db s)"
  shows "auction_move e i (db s) (db (snd (expirePurchaseWindow e i corr s))) \<and>
         \<not> is_error (fst (expirePurchaseWindow e i corr s))"
proof (cases "runExpireTransaction e i corr s")
  case (Pair r s')
  with expire_move [OF assms Pair] show ?thesis
    by (auto simp: expirePurchaseWindow_def transaction_def not_is_error_iff)
qed

lemma cancel_auction_move:
  assumes "bidding_inv (db s)"
  shows "auction_move e i (db s) (db (snd (cancel_auction e actor i corr s)))"
proof (cases "runCancelTransaction e actor i corr s")
  case (Pair r s')
  show ?thesis
  proof (cases r)
    case (Inl err)
    with Pair show ?thesis by (simp add: cancel_auction_def transaction_def)
  next
    case (Inr x)
    with Pair cancel_move [OF assms, of e actor i corr x s'] show ?thesis
      by (cases x) (simp add: cancel_auction_def transaction_def Let_def)
  qed
qed

section \<open>Every sequence of operations moves auctions forward\<close>

text \<open>
  \<open>advances s s'\<close>: from a consistent database, \<open>s'\<close> is consistent and every auction has moved
  along the status policy.
\<close>

definition advances :: "sys \<Rightarrow> sys \<Rightarrow> bool" where
  "advances s s' \<longleftrightarrow>
     (bidding_inv (db s) \<longrightarrow> bidding_inv (db s') \<and> status_path (db s) (db s'))"

lemma advances_refl [simp]: "advances s s"
  by (simp add: advances_def)

lemma advances_trans: "advances s s' \<Longrightarrow> advances s' s'' \<Longrightarrow> advances s s''"
  unfolding advances_def using status_path_trans by blast

lemma move_advances:
  "numeric_ok e \<Longrightarrow> (bidding_inv (db s) \<Longrightarrow> auction_move e i (db s) (db s')) \<Longrightarrow> advances s s'"
  unfolding advances_def using auction_move_inv auction_move_path by blast

lemma placeBid_advances:
  assumes num: "numeric_ok e"
  shows "advances s (snd (placeBid e u i key corr amount s))"
  unfolding advances_def
proof (intro impI)
  assume inv: "bidding_inv (db s)"
  from inv num
  show "bidding_inv (db (snd (placeBid e u i key corr amount s))) \<and>
        status_path (db s) (db (snd (placeBid e u i key corr amount s)))"
  proof (cases rule: placeBid_cases [where u = u and i = i and key = key and corr = corr and amount = amount])
    case (recorded k a act out v s' s1)
    note ok = record_bid_ok [OF recorded(5)]
    have "status_path (db s) (db s1)"
    proof (rule status_path_put [OF recorded(2)])
      show "auctions (db s1) = put_row au_id (stored_auction e (led_by e a (fresh_bid e a u k amount (db (attempt s)))))
              (auctions (db s))" using ok(3) by simp
    qed (use by_id_SomeD [OF recorded(2)] in \<open>auto simp: led_by_def open_auction_def\<close>)
    moreover have "bidding_inv (db s1)"
      using runBid_preserves [of "attempt s", OF _ num _ _ recorded(5)] recorded inv by simp
    ultimately show ?thesis using recorded by simp
  qed (use inv in simp_all)
qed

lemma for_each_advances:
  "(\<And>x s. x \<in> set xs \<Longrightarrow> advances s (snd (f x s))) \<Longrightarrow> advances s (snd (for_each f xs s))"
proof (induction xs arbitrary: s)
  case (Cons x xs)
  have "advances s (snd (f x s))" using Cons.prems by simp
  moreover have "advances (snd (f x s)) (snd (for_each f xs (snd (f x s))))"
    using Cons by simp
  ultimately show ?case
    by (cases "f x s"; cases "fst (f x s)") (auto intro: advances_trans)
qed simp

lemma seq_advances:
  "advances s (snd (f s)) \<Longrightarrow> (\<And>s. advances s (snd (g s))) \<Longrightarrow> advances s (snd (seq f g s))"
  by (cases "f s"; cases "fst (f s)") (auto simp: seq_def intro: advances_trans)

datatype auction_op =
    PlaceBid uuid uuid "string option" uuid string
  | Activate uuid uuid
  | Process AuctionJobType uuid uuid
  | Cancel AuctionLifecycleActor uuid uuid
  | Sweep "uuid \<Rightarrow> uuid"

fun run_auction_op :: "env \<Rightarrow> auction_op \<Rightarrow> sys \<Rightarrow> sys" where
  "run_auction_op e (PlaceBid u i key corr amount) s = snd (placeBid e u i key corr amount s)"
| "run_auction_op e (Activate i corr) s = snd (activateAuction e i corr s)"
| "run_auction_op e (Process type i corr) s = snd (process_auction_job e type i corr s)"
| "run_auction_op e (Cancel actor i corr) s = snd (cancel_auction e actor i corr s)"
| "run_auction_op e (Sweep f) s = reconcile e f s"

inductive auction_step :: "sys \<Rightarrow> sys \<Rightarrow> bool" where
  run: "numeric_ok e \<Longrightarrow> auction_step s (run_auction_op e op' s)"

inductive_cases auction_stepE: "auction_step s s'"

lemma sweep_advances: "numeric_ok e \<Longrightarrow> advances s (reconcile e f s)"
  unfolding reconcile_def reconcileStartedAuctions_def reconcileOverdueFinalizations_def
    reconcileExpiredPurchaseWindows_def Let_def
  by (intro seq_advances for_each_advances move_advances)
     (use activateAuction_move finalizeAuction_move expirePurchaseWindow_move in blast)+

lemma run_advances: "numeric_ok e \<Longrightarrow> advances s (run_auction_op e op' s)"
proof (cases op')
  case (Process type i corr)
  assume num: "numeric_ok e"
  show ?thesis
  proof (rule move_advances [OF num])
    assume "bidding_inv (db s)"
    then show "auction_move e i (db s) (db (run_auction_op e op' s))"
      using Process finalizeAuction_move expirePurchaseWindow_move
      by (cases type) (simp_all add: process_auction_job_def db_recordQueueJob)
  qed
qed (auto intro: placeBid_advances sweep_advances
       move_advances [OF _ activateAuction_move [THEN conjunct1]] move_advances [OF _ cancel_auction_move])

lemma steps_advance: "auction_step\<^sup>*\<^sup>* s s' \<Longrightarrow> advances s s'"
proof (induction rule: rtranclp_induct)
  case (step s' s'')
  then show ?case using run_advances by (auto elim!: auction_stepE intro: advances_trans)
qed simp


section \<open>Properties\<close>

lemma rank_mono: "auction_path s t \<Longrightarrow> auction_rank s \<le> auction_rank t"
  by (induction rule: rtranclp_induct) (auto dest: auction_machine.forward)



lemma chain_le_last:
  "successively (\<lambda>x y. cents (bid_amount x) + k \<le> cents (bid_amount y)) bs \<Longrightarrow> 0 < k \<Longrightarrow>
   b \<in> set bs \<Longrightarrow> cents (bid_amount b) \<le> cents (bid_amount (last bs))"
proof (induction bs)
  case (Cons c bs)
  show ?case
  proof (cases "bs = []")
    case False
    with Cons show ?thesis
      using chain_last_exceeds [OF Cons.prems(1,2)] by (cases bs) fastforce+
  qed (use Cons in simp)
qed simp

lemma finalizeAuction_not_due:
  assumes "by_id au_id i (auctions (db s)) = Some a" "\<not> overdue e a"
  shows "finalizeAuction e i corr s = (Inr (), s)"
proof (cases "runFinalizeTransaction e i corr s")
  case (Pair r s')
  with finalize_run [OF assms(1) Pair] assms(2) show ?thesis
    by (simp add: finalizeAuction_def transaction_def untouched_def invalidate_if_touched_def)
qed

lemma finalizeAuction_due:
  assumes a: "by_id au_id i (auctions (db s)) = Some a" and due: "overdue e a"
    and run: "finalizeAuction e i corr s = (r, s')"
  shows "r = Inr () \<and> bids (db s') = bids (db s) \<and>
         auctions (db s') = put_row au_id (stored_auction e (finalized e (db s) a)) (auctions (db s)) \<and>
         (winning_bid (auction_bids i (db s)) \<noteq> None \<longrightarrow>
            QueueAddAuctionJob (ExpireJobId i) EXPIRE_PURCHASE_WINDOW i
              (max 0 (purchaseWindowMinutes e * 60000)) corr \<in> set (effects s'))"
proof (cases "runFinalizeTransaction e i corr s")
  case (Pair r1 s1)
  from finalize_run [OF a Pair] due run Pair show ?thesis
    by (auto simp: finalizeAuction_def transaction_def Let_def invalidate_if_touched_def
          schedulePurchaseWindowExpiry_def split: option.splits)
qed

lemma id_finalized [simp]: "au_id (finalized e d a) = au_id a"
  by (simp add: finalized_def split: option.split)

lemma finalized_not_overdue: "\<not> overdue e' (stored_auction e (finalized e d a))"
  by (simp add: finalized_def overdue_def split: option.split)

text \<open>
  C4: Finalization decides the auction once: when the deadline of an open auction has passed, it
  becomes UNSOLD if it has no bids, and otherwise AWAITING_PAYMENT, won by the last bidder at the
  last (the highest) amount, with the purchase window of the configured length and its expiry job
  scheduled; every other auction is untouched, and a redelivered job at any later time changes
  nothing at all.
\<close>
theorem finalize_outcome:
  assumes inv: "bidding_inv (db s)" and num: "numeric_ok e"
    and a: "by_id au_id i (auctions (db s)) = Some a" and due: "overdue e a"
    and run: "finalizeAuction e i corr s = (r, s')"
  shows "(\<exists>a'. by_id au_id i (auctions (db s')) = Some a' \<and> au_finalizedAt a' = Some (now e) \<and>
           (if auction_bids i (db s) = []
            then au_status a' = AuctionStatus.UNSOLD \<and> au_winnerId a' = None
            else au_status a' = AuctionStatus.AWAITING_PAYMENT \<and>
                 au_winnerId a' = Some (bid_bidderId (last (auction_bids i (db s)))) \<and>
                 cents (au_currentPrice a') = cents (bid_amount (last (auction_bids i (db s)))) \<and>
                 (\<forall>b \<in> set (auction_bids i (db s)). cents (bid_amount b) \<le> cents (au_currentPrice a')) \<and>
                 au_purchaseWindowEndsAt a' = Some (now e + purchaseWindowMinutes e * 60000) \<and>
                 QueueAddAuctionJob (ExpireJobId i) EXPIRE_PURCHASE_WINDOW i
                   (max 0 (purchaseWindowMinutes e * 60000)) corr \<in> set (effects s'))) \<and>
         (\<forall>j. j \<noteq> i \<longrightarrow> by_id au_id j (auctions (db s')) = by_id au_id j (auctions (db s))) \<and>
         finalizeAuction e' i corr' s' = (Inr (), s')"
proof -
  let ?a = "stored_auction e (finalized e (db s) a)" and ?bs = "auction_bids i (db s)"
  have ida: "au_id a = i" using by_id_SomeD [OF a] by simp
  note ok = bidding_inv_auction [OF inv a]
  note d = finalizeAuction_due [OF a due run]
  have row: "by_id au_id i (auctions (db s')) = Some ?a"
    using by_id_put_row_same [OF a, of ?a] d ida by simp
  have other: "by_id au_id j (auctions (db s')) = by_id au_id j (auctions (db s))" if "j \<noteq> i" for j
    using by_id_put_row_other [of au_id ?a j] d ida that by simp
  have again: "finalizeAuction e' i corr' s' = (Inr (), s')"
    using finalizeAuction_not_due [OF row finalized_not_overdue] .
  have "if ?bs = [] then au_status ?a = AuctionStatus.UNSOLD \<and> au_winnerId ?a = None
        else au_status ?a = AuctionStatus.AWAITING_PAYMENT \<and>
             au_winnerId ?a = Some (bid_bidderId (last ?bs)) \<and>
             cents (au_currentPrice ?a) = cents (bid_amount (last ?bs)) \<and>
             (\<forall>b \<in> set ?bs. cents (bid_amount b) \<le> cents (bid_amount (last ?bs))) \<and>
             au_purchaseWindowEndsAt ?a = Some (now e + purchaseWindowMinutes e * 60000)"
  proof (cases "?bs = []")
    case True
    with ok winning_bid_ok [OF ok] ida show ?thesis
      by (simp add: finalized_def auction_ok_def bid_chain_def)
  next
    case False
    then have "last ?bs \<in> set ?bs" by simp
    then have "last ?bs \<in> set (bids (db s))" by (auto simp: auction_bids_def)
    then have m: "is_money (bid_amount (last ?bs))" using inv by (simp add: bidding_inv_def)
    have "successively (\<lambda>x y. cents (bid_amount x) + cents (au_minBidIncrement a) \<le> cents (bid_amount y)) ?bs"
      "0 < cents (au_minBidIncrement a)"
      using ok ida False by (auto simp: auction_ok_def bid_chain_def split: list.splits)
    note chain_le_last [OF this]
    with False m winning_bid_ok [OF ok] ida num show ?thesis
      by (simp add: finalized_def stored_auction_def)
  qed
  moreover have "au_finalizedAt ?a = Some (now e)" by (simp add: finalized_def split: option.split)
  ultimately show ?thesis
    using row other again d winning_bid_ok [OF ok] ida by (auto split: if_splits)
qed

theorem finalize_outcome_witness:
  "\<exists>a'. by_id au_id 3 (auctions (db (snd (finalizeAuction (sample_env 2000) 3 0 (snd sample_bid))))) = Some a' \<and>
        au_status a' = AuctionStatus.AWAITING_PAYMENT \<and> au_winnerId a' = Some 8 \<and>
        cents (au_currentPrice a') = 1200"
proof -
  have inv: "bidding_inv (db (snd sample_bid))" unfolding sample_bid_def by code_simp
  let ?a = "sample_auction\<lparr>au_status := AuctionStatus.ACTIVE, au_currentPrice := ''12.00'',
     au_winnerId := Some 8, au_winningBidId := Some 10\<rparr>"
  have a: "by_id au_id 3 (auctions (db (snd sample_bid))) = Some ?a" by code_simp
  have due: "overdue (sample_env 2000) ?a" by code_simp
  have bs: "auction_bids 3 (db (snd sample_bid)) = [\<lparr>bid_id = 10, bid_auctionId = 3, bid_bidderId = 8,
      bid_amount = ''12.00'', bid_idempotencyKey = ''k1'', bid_createdAt = 5\<rparr>]" by code_simp
  have "cents ''12.00'' = 1200" by code_simp
  then show ?thesis
    using finalize_outcome [OF inv sample_numeric_ok a due surjective_pairing [of "finalizeAuction (sample_env 2000) 3 0 (snd sample_bid)"],
        of "sample_env 0" 0] bs
    by auto
qed


section \<open>The sweep settles everything that is due\<close>

definition starting :: "env \<Rightarrow> Auction \<Rightarrow> bool" where
  "starting e a \<longleftrightarrow> au_status a = AuctionStatus.SCHEDULED \<and> au_startsAt a \<le> now e \<and> now e < au_endsAt a"

text \<open>\<open>clears D f\<close>: the handler \<open>f i\<close> leaves no row of auction \<open>i\<close> in condition \<open>D\<close> and brings no other row into it.\<close>

definition clears :: "(Auction \<Rightarrow> bool) \<Rightarrow> (sys \<Rightarrow> bool) \<Rightarrow> (uuid \<Rightarrow> sys \<Rightarrow> unit result \<times> sys) \<Rightarrow> bool" where
  "clears D I f \<longleftrightarrow>
     (\<forall>i s. I s \<longrightarrow> I (snd (f i s)) \<and> \<not> is_error (fst (f i s)) \<and>
        (\<forall>a \<in> set (auctions (db (snd (f i s)))). D a \<longrightarrow> a \<in> set (auctions (db s)) \<and> au_id a \<noteq> i))"

lemma for_each_clears:
  "clears D I f \<Longrightarrow> I s \<Longrightarrow>
   I (snd (for_each (\<lambda>a. f (au_id a)) xs s)) \<and> \<not> is_error (fst (for_each (\<lambda>a. f (au_id a)) xs s)) \<and>
   (\<forall>a \<in> set (auctions (db (snd (for_each (\<lambda>a. f (au_id a)) xs s)))).
      D a \<longrightarrow> a \<in> set (auctions (db s)) \<and> au_id a \<notin> au_id ` set xs)"
proof (induction xs arbitrary: s)
  case (Cons x xs)
  obtain r s1 where f: "f (au_id x) s = (r, s1)" by fastforce
  have one: "I s1" "\<not> is_error r"
    "\<forall>a \<in> set (auctions (db s1)). D a \<longrightarrow> a \<in> set (auctions (db s)) \<and> au_id a \<noteq> au_id x"
    using Cons.prems [unfolded clears_def] f by (metis fst_conv snd_conv)+
  then obtain u where "r = Inr u" by (auto simp: not_is_error_iff)
  then show ?case using Cons.IH [OF Cons.prems(1) one(1)] one(3) f by auto
qed simp

lemma sweep_all:
  assumes "clears D I f" "I s" "length (auctions (db s)) \<le> BATCH_SIZE"
    and "for_each (\<lambda>a. f (au_id a)) (take BATCH_SIZE (filter D (auctions (db s)))) s = (r, s')"
  shows "\<not> is_error r \<and> I s' \<and> (\<forall>a \<in> set (auctions (db s')). \<not> D a)"
proof -
  have "take BATCH_SIZE (filter D (auctions (db s))) = filter D (auctions (db s))"
    using assms(3) by (meson length_filter_le order_trans take_all)
  with for_each_clears [OF assms(1,2), of "filter D (auctions (db s))"] assms(4)
  show ?thesis by auto
qed

lemma clearsI:
  assumes "\<And>i s. I s \<Longrightarrow> bidding_inv (db s)"
    and "\<And>i s. I s \<Longrightarrow> I (snd (f i s)) \<and> \<not> is_error (fst (f i s))"
    and "\<And>i s a. I s \<Longrightarrow> by_id au_id i (auctions (db s)) = Some a \<Longrightarrow> \<not> D a \<Longrightarrow>
           auctions (db (snd (f i s))) = auctions (db s)"
    and "\<And>i s. by_id au_id i (auctions (db s)) = None \<Longrightarrow> auctions (db (snd (f i s))) = auctions (db s)"
    and "\<And>i s a. I s \<Longrightarrow> by_id au_id i (auctions (db s)) = Some a \<Longrightarrow> D a \<Longrightarrow>
           \<exists>a'. \<not> D a' \<and> au_id a' = i \<and> auctions (db (snd (f i s))) = put_row au_id a' (auctions (db s))"
  shows "clears D I f"
  unfolding clears_def
proof (intro allI impI conjI ballI)
  fix i s assume I: "I s"
  show "I (snd (f i s))" "\<not> is_error (fst (f i s))" using assms(2) [OF I, of i] by simp_all
  fix x assume x: "x \<in> set (auctions (db (snd (f i s))))" and D: "D x"
  have dist: "distinct (map au_id (auctions (db s)))"
    using assms(1) [OF I] by (simp add: bidding_inv_def)
  have "x \<in> set (auctions (db s)) \<and> au_id x \<noteq> i"
  proof (cases "by_id au_id i (auctions (db s))")
    case None
    then show ?thesis using x assms(4) [OF None] by (auto simp: by_id_None_iff)
  next
    case (Some a)
    show ?thesis
    proof (cases "D a")
      case True
      with assms(5) [OF I Some] x D show ?thesis by (auto dest!: set_put_rowD)
    next
      case False
      then have "x \<in> set (auctions (db s))" using x assms(3) [OF I Some] by simp
      moreover have "au_id x \<noteq> i"
        using by_id_unique [OF dist, of x] calculation Some False D by auto
      ultimately show ?thesis by simp
    qed
  qed
  then show "x \<in> set (auctions (db s))" "au_id x \<noteq> i" by simp_all
qed

lemma activateAuction_row:
  assumes "by_id au_id i (auctions (db s)) = Some a"
  shows "auctions (db (snd (activateAuction e i corr s))) =
           (if starting e a then put_row au_id (stored_auction e (a\<lparr>au_status := AuctionStatus.ACTIVE\<rparr>))
                                   (auctions (db s))
            else auctions (db s))"
  using assms
  by (auto simp: activateAuction_def runActivateTransaction_def transaction_def starting_def
        assertValidAuctionTransition_def Let_def)

lemma expirePurchaseWindow_row:
  assumes "by_id au_id i (auctions (db s)) = Some a"
  shows "auctions (db (snd (expirePurchaseWindow e i corr s))) =
           (if window_over e a then put_row au_id (stored_auction e (a\<lparr>au_status := AuctionStatus.EXPIRED\<rparr>))
                                   (auctions (db s))
            else auctions (db s))"
  using assms
  by (cases "au_purchaseWindowEndsAt a")
     (auto simp: expirePurchaseWindow_def runExpireTransaction_def transaction_def window_over_def
        assertValidAuctionTransition_def Let_def)

lemma finalizeAuction_row:
  assumes "by_id au_id i (auctions (db s)) = Some a"
  shows "auctions (db (snd (finalizeAuction e i corr s))) =
           (if overdue e a then put_row au_id (stored_auction e (finalized e (db s) a)) (auctions (db s))
            else auctions (db s))"
  using finalizeAuction_due [OF assms, of e] finalizeAuction_not_due [OF assms, of e corr]
  by (cases "finalizeAuction e i corr s") auto

lemma handlers_skip_missing:
  assumes "by_id au_id i (auctions (db s)) = None"
  shows "auctions (db (snd (activateAuction e i corr s))) = auctions (db s)"
    and "auctions (db (snd (finalizeAuction e i corr s))) = auctions (db s)"
    and "auctions (db (snd (expirePurchaseWindow e i corr s))) = auctions (db s)"
  using assms
  by (simp_all add: activateAuction_def runActivateTransaction_def finalizeAuction_def
        runFinalizeTransaction_def expirePurchaseWindow_def runExpireTransaction_def transaction_def
        untouched_def Let_def)

text \<open>The states the three stages of a sweep pass through.\<close>

definition swept :: "env \<Rightarrow> (Auction \<Rightarrow> bool) \<Rightarrow> sys \<Rightarrow> bool" where
  "swept e D s \<longleftrightarrow> bidding_inv (db s) \<and> length (auctions (db s)) \<le> BATCH_SIZE \<and>
     (\<forall>a \<in> set (auctions (db s)). \<not> D a)"

lemma swept_row:
  assumes "swept e D s" "bidding_inv (db s')"
    and "\<And>a. by_id au_id i (auctions (db s)) = Some a \<Longrightarrow>
           auctions (db s') = (if C a then put_row au_id (F a) (auctions (db s)) else auctions (db s))"
    and "by_id au_id i (auctions (db s)) = None \<Longrightarrow> auctions (db s') = auctions (db s)"
    and "\<And>a. \<not> D (F a)"
  shows "swept e D s'"
proof (cases "by_id au_id i (auctions (db s))")
  case None
  with assms(1,2,4) show ?thesis by (simp add: swept_def)
next
  case (Some a)
  with assms(1,2,5) assms(3) [OF Some] show ?thesis
    by (cases "C a") (auto simp: swept_def dest!: set_put_rowD)
qed

lemma move_inv: "bidding_inv (db s) \<Longrightarrow> numeric_ok e \<Longrightarrow> auction_move e i (db s) (db s') \<Longrightarrow> bidding_inv (db s')"
  by (rule auction_move_inv)

lemma activate_clears:
  assumes num: "numeric_ok e"
  shows "clears (starting e) (swept e (\<lambda>a. False)) (\<lambda>i. activateAuction e i (g i))"
proof (rule clearsI)
  fix i s assume I: "swept e (\<lambda>a. False) s"
  then have inv: "bidding_inv (db s)" by (simp add: swept_def)
  then show "bidding_inv (db s)" .
  note mv = activateAuction_move [OF inv, of e i "g i"]
  have inv': "bidding_inv (db (snd (activateAuction e i (g i) s)))"
    using move_inv [OF inv num] mv by blast
  show "swept e (\<lambda>a. False) (snd (activateAuction e i (g i) s)) \<and>
        \<not> is_error (fst (activateAuction e i (g i) s))"
    using mv swept_row [OF I inv' activateAuction_row handlers_skip_missing(1)] by simp
next
  fix i and s :: sys and a assume "by_id au_id i (auctions (db s)) = Some a"
  note row = activateAuction_row [OF this, of e "g i"] and ida = by_id_SomeD [OF this]
  show "\<not> starting e a \<Longrightarrow> auctions (db (snd (activateAuction e i (g i) s))) = auctions (db s)"
    using row by simp
  show "starting e a \<Longrightarrow> \<exists>a'. \<not> starting e a' \<and> au_id a' = i \<and>
      auctions (db (snd (activateAuction e i (g i) s))) = put_row au_id a' (auctions (db s))"
    using row ida
    by (intro exI [of _ "stored_auction e (a\<lparr>au_status := AuctionStatus.ACTIVE\<rparr>)"])
       (simp add: starting_def)
qed (simp add: handlers_skip_missing)

lemma finalize_clears:
  assumes num: "numeric_ok e"
  shows "clears (overdue e) (swept e (starting e)) (\<lambda>i. finalizeAuction e i (g i))"
proof (rule clearsI)
  fix i s assume I: "swept e (starting e) s"
  then have inv: "bidding_inv (db s)" by (simp add: swept_def)
  then show "bidding_inv (db s)" .
  note mv = finalizeAuction_move [OF inv, of e i "g i"]
  have inv': "bidding_inv (db (snd (finalizeAuction e i (g i) s)))"
    using move_inv [OF inv num] mv by blast
  have "\<not> starting e (stored_auction e (finalized e (db s) a))" for a
    by (simp add: starting_def finalized_def split: option.split)
  then show "swept e (starting e) (snd (finalizeAuction e i (g i) s)) \<and>
        \<not> is_error (fst (finalizeAuction e i (g i) s))"
    using mv swept_row [OF I inv' finalizeAuction_row handlers_skip_missing(2)] by simp
next
  fix i and s :: sys and a assume "by_id au_id i (auctions (db s)) = Some a"
  note row = finalizeAuction_row [OF this, of e "g i"] and ida = by_id_SomeD [OF this]
  show "\<not> overdue e a \<Longrightarrow> auctions (db (snd (finalizeAuction e i (g i) s))) = auctions (db s)"
    using row by simp
  show "overdue e a \<Longrightarrow> \<exists>a'. \<not> overdue e a' \<and> au_id a' = i \<and>
      auctions (db (snd (finalizeAuction e i (g i) s))) = put_row au_id a' (auctions (db s))"
    using row ida finalized_not_overdue
    by (intro exI [of _ "stored_auction e (finalized e (db s) a)"]) simp
qed (simp add: handlers_skip_missing)

lemma expire_clears:
  assumes num: "numeric_ok e"
  shows "clears (window_over e) (swept e (\<lambda>a. starting e a \<or> overdue e a))
           (\<lambda>i. expirePurchaseWindow e i (g i))"
proof (rule clearsI)
  let ?D = "\<lambda>a. starting e a \<or> overdue e a"
  fix i s assume I: "swept e ?D s"
  then have inv: "bidding_inv (db s)" by (simp add: swept_def)
  then show "bidding_inv (db s)" .
  note mv = expirePurchaseWindow_move [OF inv, of e i "g i"]
  have inv': "bidding_inv (db (snd (expirePurchaseWindow e i (g i) s)))"
    using move_inv [OF inv num] mv by blast
  have "\<not> ?D (stored_auction e (a\<lparr>au_status := AuctionStatus.EXPIRED\<rparr>))" for a
    by (simp add: starting_def overdue_def)
  then show "swept e ?D (snd (expirePurchaseWindow e i (g i) s)) \<and>
        \<not> is_error (fst (expirePurchaseWindow e i (g i) s))"
    using mv swept_row [OF I inv' expirePurchaseWindow_row handlers_skip_missing(3)] by simp
next
  fix i and s :: sys and a assume "by_id au_id i (auctions (db s)) = Some a"
  note row = expirePurchaseWindow_row [OF this, of e "g i"] and ida = by_id_SomeD [OF this]
  show "\<not> window_over e a \<Longrightarrow> auctions (db (snd (expirePurchaseWindow e i (g i) s))) = auctions (db s)"
    using row by simp
  show "window_over e a \<Longrightarrow> \<exists>a'. \<not> window_over e a' \<and> au_id a' = i \<and>
      auctions (db (snd (expirePurchaseWindow e i (g i) s))) = put_row au_id a' (auctions (db s))"
    using row ida
    by (intro exI [of _ "stored_auction e (a\<lparr>au_status := AuctionStatus.EXPIRED\<rparr>)"])
       (simp add: window_over_def)
qed (simp add: handlers_skip_missing)




text \<open>
  Cancelling an auction: a caller who does not own it learns nothing but a 404; a cancelled
  auction is reported again without any change; one that is neither scheduled nor active is
  refused; otherwise its status becomes CANCELLED and nothing else of any auction changes. In
  the two successful cases both delayed jobs are withdrawn; a refusal leaves the database alone.
\<close>
theorem cancel_outcome:
  assumes run: "cancel_auction e actor i corr s = (r, s')"
  shows "case by_id au_id i (auctions (db s)) of
           None \<Rightarrow> r = Inl (NotFoundException ''Auction not found'') \<and> db s' = db s
         | Some a \<Rightarrow>
             if lockOwnedAuction actor i (db s) \<noteq> Inr a
             then r = Inl (NotFoundException ''Auction not found'') \<and> db s' = db s
             else if au_status a = AuctionStatus.CANCELLED
             then r = Inr a \<and> db s' = db s \<and>
                  effects s' = effects s @ [QueueRemoveJob (FinalizeJobId i), QueueRemoveJob (ExpireJobId i)]
             else if \<not> isAuctionCancellable (au_status a)
             then (\<exists>m. r = Inl (ConflictException m)) \<and> db s' = db s
             else r = Inr (a\<lparr>au_status := AuctionStatus.CANCELLED\<rparr>) \<and>
                  auctions (db s') = put_row au_id (stored_auction e (a\<lparr>au_status := AuctionStatus.CANCELLED\<rparr>))
                                       (auctions (db s)) \<and>
                  {QueueRemoveJob (FinalizeJobId i), QueueRemoveJob (ExpireJobId i)} \<subseteq> set (effects s')"
proof (cases "by_id au_id i (auctions (db s))")
  case None
  with run show ?thesis
    by (auto simp: cancel_auction_def runCancelTransaction_def lockOwnedAuction_def transaction_def)
next
  case (Some a)
  have lock: "lockOwnedAuction actor i (db s) = Inr a \<or>
      lockOwnedAuction actor i (db s) = Inl (NotFoundException ''Auction not found'')"
    using Some by (auto simp: lockOwnedAuction_def split: AuctionLifecycleActor.split)
  show ?thesis
  proof (cases "lockOwnedAuction actor i (db s) = Inr a")
    case False
    with lock run Some show ?thesis
      by (auto simp: cancel_auction_def runCancelTransaction_def transaction_def)
  next
    case own: True
    show ?thesis
    proof (cases "au_status a = AuctionStatus.CANCELLED \<or> \<not> isAuctionCancellable (au_status a)")
      case True
      with own run Some show ?thesis
        by (auto simp: cancel_auction_def runCancelTransaction_def transaction_def
              assertAuctionCancellable_def cancelScheduledFinalization_def)
    next
      case False
      with own run Some show ?thesis
        by (auto simp: cancel_auction_def runCancelTransaction_def transaction_def Let_def
              assertAuctionCancellable_def cancelScheduledFinalization_def)
    qed
  qed
qed

theorem cancel_outcome_witness:
  "fst (cancel_auction (sample_env 5) (SellerActor 9) 3 0 (start_sys sample_db))
     = Inl (NotFoundException ''Auction not found'')"
proof -
  have a: "by_id au_id 3 (auctions (db (start_sys sample_db))) = Some sample_auction" by code_simp
  have l: "lockOwnedAuction (SellerActor 9) 3 (db (start_sys sample_db)) \<noteq> Inr sample_auction"
    by code_simp
  from cancel_outcome [OF surjective_pairing [of "cancel_auction (sample_env 5) (SellerActor 9) 3 0 (start_sys sample_db)"]]
  show ?thesis using a l by simp
qed

end
