(* ===== verification/Order_Rows.thy ===== *)
theory Order_Rows
  imports Order_Domain
begin

text \<open>
  What the two checkout services share: the idempotency ledger of completed checkouts
  (\<open>CheckoutIdempotencyKey\<close>), and the rows an order is made of. A text written to a numeric
  column here was read from one or comes out of \<open>formatCentsToMoney\<close>, so it is stored as it is.
  The free-text \<open>description\<close> of a ledger entry is not modelled.
\<close>

section \<open>The interface of an idempotency ledger\<close>

text \<open>
  A request first claims its key; a second claim of the key fails for ever; once the request
  records its outcome, the outcome is what a later lookup of the key returns.
\<close>

locale claim_ledger =
  fixes claimed :: "'k \<Rightarrow> 'd \<Rightarrow> bool"
    and claim :: "'k \<Rightarrow> 'd \<Rightarrow> 'd result"
    and complete :: "'k \<Rightarrow> 'o \<Rightarrow> 'd \<Rightarrow> 'd"
    and outcome :: "'k \<Rightarrow> 'd \<Rightarrow> 'o option"
  assumes claim_fails: "claimed k d \<Longrightarrow> is_error (claim k d)"
    and claim_claims: "claim k d = Inr d' \<Longrightarrow> claimed j d' \<longleftrightarrow> j = k \<or> claimed j d"
    and claim_open: "claim k d = Inr d' \<Longrightarrow> outcome k d' = None"
    and claim_other: "claim k d = Inr d' \<Longrightarrow> j \<noteq> k \<Longrightarrow> outcome j d' = outcome j d"
    and complete_claimed [simp]: "claimed j (complete k x d) \<longleftrightarrow> claimed j d"
    and complete_outcome: "claimed k d \<Longrightarrow> outcome k (complete k x d) = Some x"
    and complete_other: "j \<noteq> k \<Longrightarrow> outcome j (complete k x d) = outcome j d"
begin

lemma only_once: "claim k d = Inr d' \<Longrightarrow> is_error (claim k (complete j x d'))"
  using claim_fails claim_claims by auto

lemma completed: "claim k d = Inr d' \<Longrightarrow> outcome k (complete k x d') = Some x"
  using complete_outcome claim_claims by blast

lemma undisturbed: "claim k d = Inr d' \<Longrightarrow> j \<noteq> k \<Longrightarrow> outcome j (complete k x d') = outcome j d"
  using claim_other complete_other by simp

end

section \<open>Checkout idempotency keys\<close>

definition is_checkout_claim :: "uuid \<times> string \<Rightarrow> CheckoutIdempotencyKey \<Rightarrow> bool" where
  "is_checkout_claim k r \<longleftrightarrow> ck_customerId r = fst k \<and> ck_idempotencyKey r = snd k"

definition key_claimed :: "uuid \<times> string \<Rightarrow> database \<Rightarrow> bool" where
  "key_claimed k d \<longleftrightarrow> (\<exists>r \<in> set (checkout_keys d). is_checkout_claim k r)"

text \<open>\<open>manager.insert(CheckoutIdempotencyKey, ...)\<close> under the unique index on (customerId, idempotencyKey).\<close>

definition claim_key :: "uuid \<times> string \<Rightarrow> database \<Rightarrow> database result" where
  "claim_key k d =
     (if key_claimed k d then Inl UniqueViolation
      else Inr (d\<lparr>next_id := next_id d + 1,
                  checkout_keys := checkout_keys d @
                    [\<lparr>ck_id = next_id d, ck_customerId = fst k, ck_idempotencyKey = snd k,
                      ck_status = CheckoutIdempotencyStatus.PROCESSING, ck_orderId = None\<rparr>]\<rparr>))"

definition complete_key :: "uuid \<times> string \<Rightarrow> uuid \<Rightarrow> database \<Rightarrow> database" where
  "complete_key k orderId d = d\<lparr>checkout_keys := map (\<lambda>r. if is_checkout_claim k r
     then r\<lparr>ck_status := CheckoutIdempotencyStatus.COMPLETED, ck_orderId := Some orderId\<rparr> else r)
     (checkout_keys d)\<rparr>"

text \<open>The claim a replay accepts: completed, with an order.\<close>

definition completed_order :: "uuid \<times> string \<Rightarrow> database \<Rightarrow> uuid option" where
  "completed_order k d =
     (case find (is_checkout_claim k) (checkout_keys d) of
        None \<Rightarrow> None
      | Some c \<Rightarrow> if ck_status c \<noteq> CheckoutIdempotencyStatus.COMPLETED then None else ck_orderId c)"

lemma is_checkout_claim_unique: "is_checkout_claim j r \<Longrightarrow> is_checkout_claim k r \<longleftrightarrow> j = k"
  by (cases j; cases k) (auto simp: is_checkout_claim_def)

lemma find_map_claim:
  "find (is_checkout_claim j) (map (\<lambda>r. if is_checkout_claim k r
      then r\<lparr>ck_status := st, ck_orderId := x\<rparr> else r) rs)
     = map_option (\<lambda>r. if j = k then r\<lparr>ck_status := st, ck_orderId := x\<rparr> else r)
         (find (is_checkout_claim j) rs)"
proof (induction rs)
  case (Cons r rs)
  then show ?case
    using is_checkout_claim_unique [of j r k] by (auto simp: is_checkout_claim_def)
qed simp

lemma claimed_iff_find: "key_claimed k d \<longleftrightarrow> find (is_checkout_claim k) (checkout_keys d) \<noteq> None"
  by (auto simp: key_claimed_def find_None_iff)

lemma unclaimed_find: "\<not> key_claimed k d \<Longrightarrow> find (is_checkout_claim k) (checkout_keys d) = None"
  by (simp add: claimed_iff_find)

interpretation checkout_ledger: claim_ledger key_claimed claim_key complete_key completed_order
proof
  fix j k :: "uuid \<times> string" and d d' :: database and x :: uuid
  show "key_claimed k d \<Longrightarrow> is_error (claim_key k d)" by (simp add: claim_key_def)
  show "claim_key k d = Inr d' \<Longrightarrow> key_claimed j d' \<longleftrightarrow> j = k \<or> key_claimed j d"
    by (auto simp: claim_key_def key_claimed_def is_checkout_claim_def prod_eq_iff split: if_splits)
  show "claim_key k d = Inr d' \<Longrightarrow> completed_order k d' = None"
    using unclaimed_find [of k d]
    by (auto simp: claim_key_def completed_order_def is_checkout_claim_def find_append split: if_splits)
  show "claim_key k d = Inr d' \<Longrightarrow> j \<noteq> k \<Longrightarrow> completed_order j d' = completed_order j d"
    by (auto simp: claim_key_def completed_order_def is_checkout_claim_def prod_eq_iff find_append
          split: if_splits option.splits)
  show "key_claimed j (complete_key k x d) \<longleftrightarrow> key_claimed j d"
    by (simp add: claimed_iff_find complete_key_def find_map_claim)
  show "key_claimed k d \<Longrightarrow> completed_order k (complete_key k x d) = Some x"
    by (cases "find (is_checkout_claim k) (checkout_keys d)")
       (auto simp: completed_order_def complete_key_def key_claimed_def find_map_claim find_None_iff)
  show "j \<noteq> k \<Longrightarrow> completed_order j (complete_key k x d) = completed_order j d"
    by (cases "find (is_checkout_claim j) (checkout_keys d)")
       (auto simp: completed_order_def complete_key_def find_map_claim)
qed

section \<open>Rows of an order\<close>

record CheckoutRequestDto =
  co_shippingAddressLine1 :: "string option"
  co_shippingAddressLine2 :: "string option"
  co_shippingCity :: "string option"
  co_shippingPostalCode :: "string option"
  co_shippingCountry :: "string option"

definition create_order ::
  "env \<Rightarrow> uuid \<Rightarrow> string \<Rightarrow> CheckoutRequestDto \<Rightarrow> database \<Rightarrow> Order \<times> database" where
  "create_order e buyerId totalAmount dto d =
     (let order = \<lparr>ord_id = next_id d, ord_buyerId = buyerId, ord_totalAmount = totalAmount,
                   ord_status = OrderStatus.NEW,
                   ord_shippingAddressLine1 = co_shippingAddressLine1 dto,
                   ord_shippingAddressLine2 = co_shippingAddressLine2 dto,
                   ord_shippingCity = co_shippingCity dto,
                   ord_shippingPostalCode = co_shippingPostalCode dto,
                   ord_shippingCountry = co_shippingCountry dto, ord_createdAt = now e\<rparr>
      in (order, d\<lparr>next_id := next_id d + 1, orders := orders d @ [order]\<rparr>))"

definition create_seller_order ::
  "env \<Rightarrow> uuid \<Rightarrow> uuid \<Rightarrow> string \<Rightarrow> string \<Rightarrow> string \<Rightarrow> database \<Rightarrow> SellerOrder \<times> database" where
  "create_seller_order e orderId sellerProfileId subtotal commission net d =
     (let so = \<lparr>so_id = next_id d, so_orderId = orderId, so_sellerProfileId = sellerProfileId,
                so_subtotal = subtotal, so_commissionAmount = commission, so_sellerNetAmount = net,
                so_status = SellerOrderStatus.AWAITING_FULFILLMENT, so_createdAt = now e\<rparr>
      in (so, d\<lparr>next_id := next_id d + 1, seller_orders := seller_orders d @ [so]\<rparr>))"

definition create_seller_order_item ::
  "uuid \<Rightarrow> Product \<Rightarrow> string \<Rightarrow> int \<Rightarrow> string \<Rightarrow> database \<Rightarrow> database" where
  "create_seller_order_item sellerOrderId p unitPrice quantity lineTotal d =
     d\<lparr>next_id := next_id d + 1, seller_order_items := seller_order_items d @
        [\<lparr>soi_id = next_id d, soi_sellerOrderId = sellerOrderId, soi_productId = Some (pr_id p),
          soi_productName = pr_name p, soi_unitPrice = unitPrice, soi_quantity = quantity,
          soi_lineTotal = lineTotal\<rparr>]\<rparr>"

definition create_ledger_entry ::
  "uuid \<Rightarrow> LedgerEntryType \<Rightarrow> string \<Rightarrow> uuid option \<Rightarrow> uuid option \<Rightarrow> uuid \<Rightarrow> database \<Rightarrow> database" where
  "create_ledger_entry sellerProfileId type amount sellerOrderId refundId correlationId d =
     d\<lparr>next_id := next_id d + 1, ledger_entries := ledger_entries d @
        [\<lparr>le_id = next_id d, le_sellerProfileId = sellerProfileId, le_type = type, le_amount = amount,
          le_sellerOrderId = sellerOrderId, le_refundId = refundId,
          le_correlationId = Some correlationId\<rparr>]\<rparr>"

section \<open>The ledger of a seller order\<close>

definition entries_of :: "uuid \<Rightarrow> LedgerEntryType \<Rightarrow> database \<Rightarrow> LedgerEntry list" where
  "entries_of soId t d =
     filter (\<lambda>x. le_sellerOrderId x = Some soId \<and> le_type x = t) (ledger_entries d)"

definition ledger_total :: "uuid \<Rightarrow> LedgerEntryType \<Rightarrow> database \<Rightarrow> int" where
  "ledger_total soId t d = sum_list (map (\<lambda>x. cents (le_amount x)) (entries_of soId t d))"

definition items_of :: "uuid \<Rightarrow> database \<Rightarrow> SellerOrderItem list" where
  "items_of soId d = filter (\<lambda>i. soi_sellerOrderId i = soId) (seller_order_items d)"

definition sellerOrders_of :: "uuid \<Rightarrow> database \<Rightarrow> SellerOrder list" where
  "sellerOrders_of orderId d = filter (\<lambda>so. so_orderId so = orderId) (seller_orders d)"

section \<open>The books\<close>

text \<open>
  What the rows of the order tables say of each other: the split of every seller order adds up,
  its items sum to its subtotal, the ledger holds one sale credit and one commission debit for
  it, an order's total is what its seller orders add up to, and no row refers to an id that is
  still to be given out.
\<close>

definition so_booked :: "database \<Rightarrow> SellerOrder \<Rightarrow> bool" where
  "so_booked d so \<longleftrightarrow>
     so_balanced so \<and>
     map (\<lambda>x. cents (le_amount x)) (entries_of (so_id so) SALE_CREDIT d) = [cents (so_subtotal so)] \<and>
     map (\<lambda>x. cents (le_amount x)) (entries_of (so_id so) COMMISSION_DEBIT d)
       = [cents (so_commissionAmount so)] \<and>
     sum_list (map (\<lambda>i. cents (soi_lineTotal i)) (items_of (so_id so) d)) = cents (so_subtotal so)"

definition refs_below :: "uuid \<Rightarrow> database \<Rightarrow> bool" where
  "refs_below n d \<longleftrightarrow>
     (\<forall>so \<in> set (seller_orders d). so_id so < n \<and> so_orderId so < n) \<and>
     (\<forall>x \<in> set (orders d). ord_id x < n) \<and>
     (\<forall>x \<in> set (ledger_entries d). \<forall>i \<in> set_option (le_sellerOrderId x). i < n) \<and>
     (\<forall>i \<in> set (seller_order_items d). soi_sellerOrderId i < n)"

definition refs_ok :: "database \<Rightarrow> bool" where
  "refs_ok d \<longleftrightarrow>
     distinct (map so_id (seller_orders d)) \<and> distinct (map ord_id (orders d)) \<and>
     refs_below (next_id d) d"

definition sellers_booked :: "database \<Rightarrow> bool" where
  "sellers_booked d \<longleftrightarrow> (\<forall>so \<in> set (seller_orders d). so_booked d so)"

definition orders_total :: "database \<Rightarrow> bool" where
  "orders_total d \<longleftrightarrow>
     (\<forall>x \<in> set (orders d). cents (ord_totalAmount x)
        = sum_list (map (\<lambda>so. cents (so_subtotal so)) (sellerOrders_of (ord_id x) d)))"

definition books_ok :: "database \<Rightarrow> bool" where
  "books_ok d \<longleftrightarrow> refs_ok d \<and> sellers_booked d \<and> orders_total d"

lemma refs_below_mono: "refs_below n d \<Longrightarrow> n \<le> m \<Longrightarrow> refs_below m d"
  unfolding refs_below_def by (meson order_less_le_trans)

lemma fresh_entries: "refs_ok d \<Longrightarrow> next_id d \<le> i \<Longrightarrow> entries_of i t d = []"
  by (auto simp: refs_ok_def refs_below_def entries_of_def filter_empty_conv)

lemma fresh_items: "refs_ok d \<Longrightarrow> next_id d \<le> i \<Longrightarrow> items_of i d = []"
  by (auto simp: refs_ok_def refs_below_def items_of_def filter_empty_conv)

lemma fresh_seller_orders: "refs_ok d \<Longrightarrow> next_id d \<le> i \<Longrightarrow> sellerOrders_of i d = []"
  by (auto simp: refs_ok_def refs_below_def sellerOrders_of_def filter_empty_conv)

text \<open>The books only read these tables.\<close>

definition same_books :: "database \<Rightarrow> database \<Rightarrow> bool" where
  "same_books d d' \<longleftrightarrow>
     seller_orders d' = seller_orders d \<and> orders d' = orders d \<and>
     ledger_entries d' = ledger_entries d \<and> seller_order_items d' = seller_order_items d \<and>
     next_id d \<le> next_id d'"

lemma same_books_refs:
  assumes "same_books d d'" "refs_ok d"
  shows "refs_ok d'"
proof -
  have "refs_below (next_id d') d"
    using refs_below_mono assms by (auto simp: same_books_def refs_ok_def)
  then show ?thesis using assms by (simp add: same_books_def refs_ok_def refs_below_def)
qed

lemma same_books_sellers: "same_books d d' \<Longrightarrow> sellers_booked d' = sellers_booked d"
  by (simp add: same_books_def sellers_booked_def so_booked_def entries_of_def items_of_def)

lemma same_books_totals: "same_books d d' \<Longrightarrow> orders_total d' = orders_total d"
  by (simp add: same_books_def orders_total_def sellerOrders_of_def)

lemma same_books_ok: "same_books d d' \<Longrightarrow> books_ok d \<Longrightarrow> books_ok d'"
  using same_books_refs same_books_sellers same_books_totals by (auto simp: books_ok_def)

lemma same_books_refl [simp]: "same_books d d"
  by (simp add: same_books_def)

lemma same_books_trans: "same_books d d' \<Longrightarrow> same_books d' d'' \<Longrightarrow> same_books d d''"
  by (simp add: same_books_def)

lemma same_books_outbox [simp]: "same_books (db s) (db (outbox_record t g i p c s))"
  by (simp add: same_books_def)

text \<open>
  The rows of one new seller order: the seller order itself, its items and its two ledger
  entries, in a database whose id counter was at the id of the seller order.
\<close>

lemma book_seller_order:
  assumes refs: "refs_ok d" and booked: "sellers_booked d"
    and so: "so_id so = next_id d" "so_orderId so < next_id d" "so_balanced so"
    and items: "\<forall>i \<in> set new. soi_sellerOrderId i = so_id so"
      "sum_list (map (\<lambda>i. cents (soi_lineTotal i)) new) = cents (so_subtotal so)"
    and e1: "le_sellerOrderId e1 = Some (so_id so)" "le_type e1 = SALE_CREDIT"
      "cents (le_amount e1) = cents (so_subtotal so)"
    and e2: "le_sellerOrderId e2 = Some (so_id so)" "le_type e2 = COMMISSION_DEBIT"
      "cents (le_amount e2) = cents (so_commissionAmount so)"
    and d': "seller_orders d' = seller_orders d @ [so]"
      "seller_order_items d' = seller_order_items d @ new"
      "ledger_entries d' = ledger_entries d @ [e1, e2]"
      "orders d' = orders d" "next_id d < next_id d'"
  shows "refs_ok d'" and "sellers_booked d'"
proof -
  have "refs_below (next_id d') d"
    using refs_below_mono refs d'(5) by (auto simp: refs_ok_def)
  moreover have "so_id so \<notin> so_id ` set (seller_orders d)"
    using refs so(1) by (auto simp: refs_ok_def refs_below_def)
  ultimately show "refs_ok d'"
    using refs so items(1) e1 e2 d' by (auto simp: refs_ok_def refs_below_def)
  have ent: "entries_of i t d' = entries_of i t d" if "i < next_id d" for i t
    using that so(1) e1(1) e2(1) d'(3) by (auto simp: entries_of_def)
  have it: "items_of i d' = items_of i d" if "i < next_id d" for i
    using that so(1) items(1) d'(2) by (auto simp: items_of_def filter_empty_conv)
  have old: "so_booked d' x" if "x \<in> set (seller_orders d)" for x
  proof -
    have "so_id x < next_id d" using refs that by (simp add: refs_ok_def refs_below_def)
    then show ?thesis using booked that ent it by (auto simp: sellers_booked_def so_booked_def)
  qed
  have "entries_of (so_id so) SALE_CREDIT d' = [e1]" "entries_of (so_id so) COMMISSION_DEBIT d' = [e2]"
    using fresh_entries [OF refs, of "so_id so"] so(1) e1 e2 d'(3) by (auto simp: entries_of_def)
  moreover have "items_of (so_id so) d' = new"
    using fresh_items [OF refs, of "so_id so"] so(1) items(1) d'(2)
    by (auto simp: items_of_def filter_id_conv)
  ultimately have "so_booked d' so"
    using so(3) items(2) e1(3) e2(3) by (simp add: so_booked_def)
  then show "sellers_booked d'" using old d'(1) by (auto simp: sellers_booked_def)
qed

text \<open>A new order, and the books once all its seller orders are booked.\<close>

lemma books_order_added:
  assumes ok: "books_ok d" and o': "ord_id o' = next_id d"
    and d1: "d1 = d\<lparr>next_id := next_id d + 1, orders := orders d @ [o']\<rparr>"
  shows "refs_ok d1 \<and> sellers_booked d1"
proof
  have refs: "refs_ok d" and booked: "sellers_booked d" using ok by (simp_all add: books_ok_def)
  have "refs_below (next_id d1) d" using refs_below_mono refs d1 by (auto simp: refs_ok_def)
  moreover have "ord_id o' \<notin> ord_id ` set (orders d)"
    using refs o' by (auto simp: refs_ok_def refs_below_def)
  ultimately show "refs_ok d1" using refs d1 o' by (auto simp: refs_ok_def refs_below_def)
  show "sellers_booked d1"
    using booked d1 by (simp add: sellers_booked_def so_booked_def entries_of_def items_of_def)
qed

lemma books_order_closed:
  assumes ok: "books_ok d" and o': "ord_id o' = next_id d"
    and d': "orders d' = orders d @ [o']" "seller_orders d' = seller_orders d @ sos"
    and sos: "\<forall>so \<in> set sos. so_orderId so = ord_id o'"
    and total: "sum_list (map (\<lambda>so. cents (so_subtotal so)) sos) = cents (ord_totalAmount o')"
  shows "orders_total d' \<and> sellerOrders_of (ord_id o') d' = sos"
proof
  have refs: "refs_ok d" and tots: "orders_total d" using ok by (simp_all add: books_ok_def)
  show new: "sellerOrders_of (ord_id o') d' = sos"
    using fresh_seller_orders [OF refs, of "ord_id o'"] d' o' sos
    by (auto simp: sellerOrders_of_def filter_id_conv)
  have old: "sellerOrders_of i d' = sellerOrders_of i d" if "i \<noteq> ord_id o'" for i
    using d' sos that by (auto simp: sellerOrders_of_def filter_empty_conv)
  show "orders_total d'"
    unfolding orders_total_def
  proof
    fix x assume "x \<in> set (orders d')"
    then consider "x = o'" | "x \<in> set (orders d)" using d'(1) by auto
    then show "cents (ord_totalAmount x) = sum_list (map (\<lambda>so. cents (so_subtotal so)) (sellerOrders_of (ord_id x) d'))"
    proof cases
      case 1
      with new total show ?thesis by simp
    next
      case 2
      then have "ord_id x \<noteq> ord_id o'" using refs o' by (auto simp: refs_ok_def refs_below_def)
      with 2 old tots show ?thesis by (simp add: orders_total_def)
    qed
  qed
qed

end
