(* ===== verification/Checkout.thy ===== *)
theory Checkout
  imports Order_Rows Bidding "HOL-Library.Multiset"
begin

text \<open>
  The cart checkout (\<open>modules/checkout/checkout.service.ts\<close>): one transaction that claims the
  idempotency key, takes the stock, splits the cart into one seller order per seller, books the
  ledger and empties the cart; the replay of a completed checkout; and the handler around them.
\<close>

section \<open>The cart a checkout reads\<close>

text \<open>The cart items with their product, ordered by product id.\<close>

definition load_cart_items :: "uuid \<Rightarrow> database \<Rightarrow> (CartItem \<times> Product option) list" where
  "load_cart_items cartId d =
     map (\<lambda>i. (i, by_id pr_id (ci_productId i) (products d)))
       (sort_key ci_productId (filter (\<lambda>i. ci_cartId i = cartId) (cart_items d)))"

definition assertPurchasable :: "CartItem \<times> Product option \<Rightarrow> (CartItem \<times> Product) result" where
  "assertPurchasable x =
     (case snd x of
        None \<Rightarrow> Inl (ConflictException ''A product in your cart is no longer available'')
      | Some product \<Rightarrow>
          if \<not> pr_isPublished product
          then Inl (ConflictException ''A product in your cart is no longer available'')
          else if pr_type product \<noteq> ProductType.FIXED_PRICE \<or> pr_price product = None
          then Inl (ConflictException ''A product is no longer available for direct purchase'')
          else Inr (fst x, product))"

definition lineTotalCents :: "CartItem \<times> Product \<Rightarrow> int result" where
  "lineTotalCents x =
     (case pr_price (snd x) of
        None \<Rightarrow> Inl (PlainError ''TypeError'')
      | Some price \<Rightarrow>
          rbind (parseMoneyToCents price) (\<lambda>c. Inr (multiplyCentsByQuantity c (ci_quantity (fst x)))))"

section \<open>Taking the stock\<close>

definition take_item :: "CartItem \<Rightarrow> database \<Rightarrow> database option" where
  "take_item item d =
     (let (affected, d') = update_stock (ci_productId item) (\<lambda>q. q \<ge> ci_quantity item)
                             (- ci_quantity item) d
      in if affected = 0 then None else Some d')"

fun take_stock :: "(CartItem \<times> Product) list \<Rightarrow> sys \<Rightarrow> uuid list result \<times> sys" where
  "take_stock [] s = (Inr [], s)"
| "take_stock (x # xs) s =
     (case take_item (fst x) (db s) of
        None \<Rightarrow> (Inl (ConflictException ''Only a limited quantity is available''),
                 increment ''stock_conflicts_total'' s)
      | Some d \<Rightarrow>
          (case take_stock xs (s\<lparr>db := d\<rparr>) of
             (Inl err, s1) \<Rightarrow> (Inl err, s1)
           | (Inr touched, s1) \<Rightarrow> (Inr (ci_productId (fst x) # touched), s1)))"

section \<open>Grouping by seller\<close>

fun add_to_group ::
  "uuid \<Rightarrow> 'a \<Rightarrow> (uuid \<times> 'a list) list \<Rightarrow> (uuid \<times> 'a list) list" where
  "add_to_group k x [] = [(k, [x])]"
| "add_to_group k x ((j, xs) # gs) =
     (if j = k then (j, xs @ [x]) # gs else (j, xs) # add_to_group k x gs)"

definition groupBySeller ::
  "(CartItem \<times> Product) list \<Rightarrow> (uuid \<times> (CartItem \<times> Product) list) list" where
  "groupBySeller cartItems =
     foldl (\<lambda>gs x. add_to_group (pr_sellerProfileId (snd x)) x gs) [] cartItems"

section \<open>One seller order\<close>

fun create_items :: "uuid \<Rightarrow> (CartItem \<times> Product) list \<Rightarrow> database \<Rightarrow> database result" where
  "create_items soId [] d = Inr d"
| "create_items soId (x # xs) d =
     rbind (lineTotalCents x) (\<lambda>total.
       create_items soId xs
         (create_seller_order_item soId (snd x) (the (pr_price (snd x))) (ci_quantity (fst x))
            (formatCentsToMoney total) d))"

definition createSellerOrder ::
  "env \<Rightarrow> uuid \<Rightarrow> uuid \<Rightarrow> uuid \<times> (CartItem \<times> Product) list \<Rightarrow> sys \<Rightarrow> SellerOrder result \<times> sys" where
  "createSellerOrder e correlationId orderId grp s =
     (case by_id sp_id (fst grp) (seller_profiles (db s)) of
        None \<Rightarrow> (Inl (PlainError ''TypeError''), s)
      | Some sellerProfile \<Rightarrow>
     (case rmap lineTotalCents (snd grp) of
        Inl err \<Rightarrow> (Inl err, s)
      | Inr totals \<Rightarrow>
     (let subtotalCents = sumCents totals in
      case applyPercent subtotalCents (sp_commissionRatePercent sellerProfile) of
        Inl err \<Rightarrow> (Inl err, s)
      | Inr commissionCents \<Rightarrow>
     (let netCents = subtotalCents - commissionCents;
          (sellerOrder, d1) = create_seller_order e orderId (sp_id sellerProfile)
             (formatCentsToMoney subtotalCents) (formatCentsToMoney commissionCents)
             (formatCentsToMoney netCents) (db s)
      in case create_items (so_id sellerOrder) (snd grp) d1 of
           Inl err \<Rightarrow> (Inl err, s)
         | Inr d2 \<Rightarrow>
             let d3 = create_ledger_entry (sp_id sellerProfile) SALE_CREDIT
                        (formatCentsToMoney subtotalCents) (Some (so_id sellerOrder)) None correlationId d2;
                 d4 = create_ledger_entry (sp_id sellerProfile) COMMISSION_DEBIT
                        (formatCentsToMoney commissionCents) (Some (so_id sellerOrder)) None correlationId d3;
                 s1 = outbox_record ''SELLER_ORDER_CREATED'' ''SellerOrder'' (so_id sellerOrder)
                        [(''sellerOrderId'', JId (so_id sellerOrder)), (''orderId'', JId orderId),
                         (''sellerProfileId'', JId (sp_id sellerProfile))] correlationId (s\<lparr>db := d4\<rparr>)
             in (Inr sellerOrder, s1)))))"

fun create_seller_orders ::
  "env \<Rightarrow> uuid \<Rightarrow> uuid \<Rightarrow> (uuid \<times> (CartItem \<times> Product) list) list \<Rightarrow> sys \<Rightarrow>
   SellerOrder list result \<times> sys" where
  "create_seller_orders e correlationId orderId [] s = (Inr [], s)"
| "create_seller_orders e correlationId orderId (g # gs) s =
     (case createSellerOrder e correlationId orderId g s of
        (Inl err, s1) \<Rightarrow> (Inl err, s1)
      | (Inr so, s1) \<Rightarrow>
          (case create_seller_orders e correlationId orderId gs s1 of
             (Inl err, s2) \<Rightarrow> (Inl err, s2)
           | (Inr sos, s2) \<Rightarrow> (Inr (so # sos), s2)))"

section \<open>The transaction\<close>

record TransactionOutcome =
  to_order :: Order
  to_sellerOrders :: "SellerOrder list"
  to_touchedProductIds :: "uuid list"

definition record_stock_changed :: "uuid \<Rightarrow> uuid list \<Rightarrow> sys \<Rightarrow> sys" where
  "record_stock_changed correlationId =
     fold (\<lambda>p. outbox_record ''STOCK_CHANGED'' ''Product'' p [(''productId'', JId p)] correlationId)"

text \<open>The second half: order, seller orders, events, and the end of the cart and the claim.\<close>

definition place_order ::
  "env \<Rightarrow> uuid \<Rightarrow> string \<Rightarrow> uuid \<Rightarrow> CheckoutRequestDto \<Rightarrow> uuid \<Rightarrow> (CartItem \<times> Product) list \<Rightarrow>
   uuid list \<Rightarrow> sys \<Rightarrow> TransactionOutcome result \<times> sys" where
  "place_order e customerId idempotencyKey correlationId dto cartId cartItems touched s =
     (let groups = groupBySeller cartItems in
      case rmap lineTotalCents cartItems of
        Inl err \<Rightarrow> (Inl err, s)
      | Inr totals \<Rightarrow>
     (let totalCents = sumCents totals;
          (order, d1) = create_order e customerId (formatCentsToMoney totalCents) dto (db s)
      in case create_seller_orders e correlationId (ord_id order) groups (s\<lparr>db := d1\<rparr>) of
           (Inl err, s1) \<Rightarrow> (Inl err, s1)
         | (Inr sellerOrders, s1) \<Rightarrow>
             let s2 = outbox_record ''ORDER_CREATED'' ''Order'' (ord_id order)
                        [(''orderId'', JId (ord_id order)), (''buyerId'', JId customerId),
                         (''totalAmount'', JStr (ord_totalAmount order)),
                         (''sellerOrderIds'', JIds (map so_id sellerOrders))] correlationId s1;
                 s3 = record_stock_changed correlationId touched s2;
                 s4 = upd_db (\<lambda>d. d\<lparr>cart_items := filter (\<lambda>i. ci_cartId i \<noteq> cartId) (cart_items d)\<rparr>) s3;
                 s5 = upd_db (complete_key (customerId, idempotencyKey) (ord_id order)) s4
             in (Inr \<lparr>to_order = order, to_sellerOrders = sellerOrders,
                     to_touchedProductIds = touched\<rparr>, s5)))"

definition runCheckoutTransaction ::
  "env \<Rightarrow> uuid \<Rightarrow> string \<Rightarrow> uuid \<Rightarrow> CheckoutRequestDto \<Rightarrow> sys \<Rightarrow> TransactionOutcome result \<times> sys" where
  "runCheckoutTransaction e customerId idempotencyKey correlationId dto s =
     (case claim_key (customerId, idempotencyKey) (db s) of
        Inl err \<Rightarrow> (Inl err, s)
      | Inr d1 \<Rightarrow>
     (case find (\<lambda>c. cart_userId c = customerId) (carts d1) of
        None \<Rightarrow> (Inl (BadRequestException ''Cart is empty''), s\<lparr>db := d1\<rparr>)
      | Some cart \<Rightarrow>
     (let cartItems = load_cart_items (cart_id cart) d1 in
      if length cartItems = 0 then (Inl (BadRequestException ''Cart is empty''), s\<lparr>db := d1\<rparr>)
      else
     (case rmap assertPurchasable cartItems of
        Inl err \<Rightarrow> (Inl err, s\<lparr>db := d1\<rparr>)
      | Inr lines \<Rightarrow>
     (case take_stock lines (s\<lparr>db := d1\<rparr>) of
        (Inl err, s1) \<Rightarrow> (Inl err, s1)
      | (Inr touched, s1) \<Rightarrow>
          place_order e customerId idempotencyKey correlationId dto (cart_id cart) lines touched s1)))))"

section \<open>The request handler\<close>

record CheckoutSellerOrderResult =
  cs_id :: uuid
  cs_sellerProfileId :: uuid
  cs_subtotal :: string
  cs_commissionAmount :: string
  cs_sellerNetAmount :: string
  cs_status :: SellerOrderStatus

record CheckoutResult =
  cr_orderId :: uuid
  cr_status :: OrderStatus
  cr_totalAmount :: string
  cr_sellerOrders :: "CheckoutSellerOrderResult list"
  cr_replayed :: bool

definition checkout_toResult :: "Order \<Rightarrow> SellerOrder list \<Rightarrow> bool \<Rightarrow> CheckoutResult" where
  "checkout_toResult order sellerOrders replayed =
     \<lparr>cr_orderId = ord_id order, cr_status = ord_status order, cr_totalAmount = ord_totalAmount order,
      cr_sellerOrders = map (\<lambda>so. \<lparr>cs_id = so_id so, cs_sellerProfileId = so_sellerProfileId so,
          cs_subtotal = so_subtotal so, cs_commissionAmount = so_commissionAmount so,
          cs_sellerNetAmount = so_sellerNetAmount so, cs_status = so_status so\<rparr>) sellerOrders,
      cr_replayed = replayed\<rparr>"

definition replayCompletedCheckout :: "uuid \<Rightarrow> string \<Rightarrow> database \<Rightarrow> CheckoutResult result" where
  "replayCompletedCheckout customerId idempotencyKey d =
     (case completed_order (customerId, idempotencyKey) d of
        None \<Rightarrow> Inl (ConflictException ''A checkout with this Idempotency-Key is already in progress'')
      | Some orderId \<Rightarrow>
          (case by_id ord_id orderId (orders d) of
             None \<Rightarrow> Inl (ConflictException ''A checkout with this Idempotency-Key already completed, but the resulting order could not be found'')
           | Some order \<Rightarrow> Inr (checkout_toResult order (sellerOrders_of orderId d) True)))"

definition checkout ::
  "env \<Rightarrow> uuid \<Rightarrow> string option \<Rightarrow> uuid \<Rightarrow> CheckoutRequestDto \<Rightarrow> sys \<Rightarrow> CheckoutResult result \<times> sys" where
  "checkout e customerId key correlationId dto s =
     (case requireIdempotencyKey key of
        Inl err \<Rightarrow> (Inl err, s)
      | Inr idempotencyKey \<Rightarrow>
          let s0 = increment ''checkout_attempts_total'' s in
          (case transaction (runCheckoutTransaction e customerId idempotencyKey correlationId dto) s0 of
             (Inr outcome, s1) \<Rightarrow>
               let s2 = fold (\<lambda>p. emit (RedisDelProduct p)) (to_touchedProductIds outcome) s1;
                   s3 = emit RedisIncrSearchVersion s2;
                   s4 = increment ''orders_created_total'' (increment ''checkout_succeeded_total'' s3)
               in (Inr (checkout_toResult (to_order outcome) (to_sellerOrders outcome) False), s4)
           | (Inl err, s1) \<Rightarrow>
               if isUniqueViolation err
               then let s2 = increment ''checkout_idempotent_replays_total'' s1
                    in (replayCompletedCheckout customerId idempotencyKey (db s2), s2)
               else (Inl err, increment ''checkout_failed_total'' s1)))"

section \<open>Stock\<close>

definition taken :: "uuid \<Rightarrow> (CartItem \<times> Product) list \<Rightarrow> int" where
  "taken pid xs = sum_list (map (\<lambda>x. if ci_productId (fst x) = pid then ci_quantity (fst x) else 0) xs)"

definition stock_less :: "(uuid \<Rightarrow> int) \<Rightarrow> Product list \<Rightarrow> Product list" where
  "stock_less f = map (\<lambda>p. p\<lparr>pr_stockQuantity := pr_stockQuantity p - f (pr_id p)\<rparr>)"

lemma taken_simps [simp]:
  "taken pid [] = 0"
  "taken pid (x # xs) = (if ci_productId (fst x) = pid then ci_quantity (fst x) else 0) + taken pid xs"
  by (simp_all add: taken_def)

lemma stock_less_ids [simp]: "map pr_id (stock_less f ps) = map pr_id ps"
  by (simp add: stock_less_def comp_def)

lemma stock_less_add: "stock_less g (stock_less f ps) = stock_less (\<lambda>i. f i + g i) ps"
  by (simp add: stock_less_def comp_def algebra_simps)

lemma stock_less_zero: "stock_less (\<lambda>i. 0) ps = ps"
  by (simp add: stock_less_def)

text \<open>A guarded update that hits a row hits the only one with that id.\<close>

lemma take_item_Some:
  assumes dist: "distinct (map pr_id (products d))" and t: "take_item item d = Some d'"
  shows "d' = d\<lparr>products := stock_less (\<lambda>i. if ci_productId item = i then ci_quantity item else 0) (products d)\<rparr> \<and>
         (\<exists>p \<in> set (products d). pr_id p = ci_productId item \<and> ci_quantity item \<le> pr_stockQuantity p)"
proof -
  let ?hit = "\<lambda>p. pr_id p = ci_productId item \<and> ci_quantity item \<le> pr_stockQuantity p"
  have ne: "filter ?hit (products d) \<noteq> []"
    and d': "d' = d\<lparr>products := map (\<lambda>p. if ?hit p then p\<lparr>pr_stockQuantity := pr_stockQuantity p + - ci_quantity item\<rparr> else p) (products d)\<rparr>"
    using t by (auto simp: take_item_def update_stock_def Let_def split: if_splits)
  then obtain q where q: "q \<in> set (products d)" "?hit q" by (auto simp: filter_empty_conv)
  have "?hit p" if "p \<in> set (products d)" "pr_id p = ci_productId item" for p
    using dist that q by (metis by_id_unique option.inject)
  then have "map (\<lambda>p. if ?hit p then p\<lparr>pr_stockQuantity := pr_stockQuantity p + - ci_quantity item\<rparr> else p) (products d)
      = stock_less (\<lambda>i. if ci_productId item = i then ci_quantity item else 0) (products d)"
    unfolding stock_less_def by (intro map_cong refl) auto
  with d' q show ?thesis by auto
qed

lemma take_stock_Inr:
  assumes "distinct (map pr_id (products (db s)))" "take_stock xs s = (Inr touched, s')"
  shows "touched = map (\<lambda>x. ci_productId (fst x)) xs \<and>
         s' = s\<lparr>db := (db s)\<lparr>products := stock_less (\<lambda>i. taken i xs) (products (db s))\<rparr>\<rparr> \<and>
         ((\<forall>p \<in> set (products (db s)). 0 \<le> pr_stockQuantity p) \<longrightarrow>
          (\<forall>p \<in> set (products (db s')). 0 \<le> pr_stockQuantity p))"
  using assms
proof (induction xs arbitrary: s touched)
  case Nil
  then show ?case by (simp add: stock_less_zero)
next
  case (Cons x xs)
  obtain d where d: "take_item (fst x) (db s) = Some d"
    using Cons.prems by (cases "take_item (fst x) (db s)") auto
  obtain t where t: "take_stock xs (s\<lparr>db := d\<rparr>) = (Inr t, s')" "touched = ci_productId (fst x) # t"
    using Cons.prems(2) d by (auto split: prod.splits sum.splits)
  note one = take_item_Some [OF Cons.prems(1) d]
  let ?f = "\<lambda>i. if ci_productId (fst x) = i then ci_quantity (fst x) else 0"
  have dist: "distinct (map pr_id (products (db (s\<lparr>db := d\<rparr>))))"
    using Cons.prems(1) one by simp
  note IH = Cons.IH [OF dist t(1)]
  have pd: "products d = stock_less ?f (products (db s))" using one by simp
  have nonneg: "\<forall>p \<in> set (products d). 0 \<le> pr_stockQuantity p"
    if nn: "\<forall>p \<in> set (products (db s)). 0 \<le> pr_stockQuantity p"
  proof
    fix p' assume "p' \<in> set (products d)"
    then obtain p where p: "p \<in> set (products (db s))"
      and p': "p' = p\<lparr>pr_stockQuantity := pr_stockQuantity p - ?f (pr_id p)\<rparr>"
      unfolding pd by (auto simp: stock_less_def)
    obtain q where q: "q \<in> set (products (db s))" "pr_id q = ci_productId (fst x)"
        "ci_quantity (fst x) \<le> pr_stockQuantity q" using one by blast
    have "pr_id p = ci_productId (fst x) \<Longrightarrow> p = q"
      using by_id_unique [OF Cons.prems(1) p] by_id_unique [OF Cons.prems(1) q(1)] q(2) by simp
    then show "0 \<le> pr_stockQuantity p'" using nn p p' q(3) by auto
  qed
  have db_d: "d = (db s)\<lparr>products := stock_less ?f (products (db s))\<rparr>" using one by simp
  show ?case
  proof (intro conjI impI)
    show "touched = map (\<lambda>x. ci_productId (fst x)) (x # xs)" using IH t(2) by simp
    have "s' = s\<lparr>db := d\<lparr>products := stock_less (\<lambda>i. taken i xs) (products d)\<rparr>\<rparr>" using IH by simp
    then show "s' = s\<lparr>db := (db s)\<lparr>products := stock_less (\<lambda>i. taken i (x # xs)) (products (db s))\<rparr>\<rparr>"
      by (subst (asm) (1 2) db_d) (simp add: stock_less_add)
    assume "\<forall>p \<in> set (products (db s)). 0 \<le> pr_stockQuantity p"
    from nonneg [OF this] show "\<forall>p \<in> set (products (db s')). 0 \<le> pr_stockQuantity p"
      using IH by simp
  qed
qed

lemma take_stock_Inl: "take_stock xs s = (Inl err, s') \<Longrightarrow> effects s' = effects s \<and> \<not> isUniqueViolation err"
proof (induction xs arbitrary: s)
  case (Cons x xs)
  then show ?case by (cases "take_item (fst x) (db s)") (auto split: prod.splits sum.splits)
qed simp

section \<open>Grouping\<close>

lemma sum_add_to_group:
  "sum_list (map (\<lambda>g. sum_list (map f (snd g))) (add_to_group k x gs))
     = sum_list (map (\<lambda>g. sum_list (map f (snd g))) gs) + (f x :: int)"
  by (induction k x gs rule: add_to_group.induct) auto

lemma sum_groups:
  "sum_list (map (\<lambda>g. sum_list (map f (snd g))) (groupBySeller xs)) = sum_list (map (f :: _ \<Rightarrow> int) xs)"
proof -
  have "sum_list (map (\<lambda>g. sum_list (map f (snd g)))
      (foldl (\<lambda>gs x. add_to_group (pr_sellerProfileId (snd x)) x gs) gs xs))
    = sum_list (map (\<lambda>g. sum_list (map f (snd g))) gs) + sum_list (map f xs)" for gs
    by (induction xs arbitrary: gs) (simp_all add: sum_add_to_group)
  then show ?thesis by (simp add: groupBySeller_def)
qed

lemma fst_add_to_group:
  "map fst (add_to_group k x gs) = (if k \<in> fst ` set gs then map fst gs else map fst gs @ [k])"
  by (induction k x gs rule: add_to_group.induct) auto

lemma mem_add_to_group:
  "(\<exists>g \<in> set (add_to_group k x gs). fst g = j \<and> y \<in> set (snd g))
     \<longleftrightarrow> (j = k \<and> y = x) \<or> (\<exists>g \<in> set gs. fst g = j \<and> y \<in> set (snd g))"
  by (induction k x gs rule: add_to_group.induct) auto

text \<open>One group per seller, holding exactly the items of that seller.\<close>

lemma groupBySeller_groups:
  "distinct (map fst (groupBySeller xs))"
  "(\<exists>g \<in> set (groupBySeller xs). fst g = j \<and> y \<in> set (snd g))
     \<longleftrightarrow> y \<in> set xs \<and> pr_sellerProfileId (snd y) = j"
proof -
  let ?F = "foldl (\<lambda>gs x. add_to_group (pr_sellerProfileId (snd x)) x gs)"
  have "distinct (map fst gs) \<Longrightarrow> distinct (map fst (?F gs xs))" for gs
    by (induction xs arbitrary: gs) (simp_all add: fst_add_to_group)
  then show "distinct (map fst (groupBySeller xs))" by (simp add: groupBySeller_def)
  have "(\<exists>g \<in> set (?F gs xs). fst g = j \<and> y \<in> set (snd g)) \<longleftrightarrow>
      (y \<in> set xs \<and> pr_sellerProfileId (snd y) = j) \<or> (\<exists>g \<in> set gs. fst g = j \<and> y \<in> set (snd g))" for gs
    by (induction xs arbitrary: gs) (auto simp: mem_add_to_group)
  then show "(\<exists>g \<in> set (groupBySeller xs). fst g = j \<and> y \<in> set (snd g))
     \<longleftrightarrow> y \<in> set xs \<and> pr_sellerProfileId (snd y) = j" by (simp add: groupBySeller_def)
qed

section \<open>Booking a seller order\<close>

text \<open>The tables an order is written to, as opposed to the ones it reads.\<close>

definition only_books :: "sys \<Rightarrow> sys \<Rightarrow> bool" where
  "only_books s s' \<longleftrightarrow>
     (let d = db s; d' = db s' in
      users d' = users d \<and> refresh_tokens d' = refresh_tokens d \<and> seller_profiles d' = seller_profiles d \<and>
      seller_applications d' = seller_applications d \<and> products d' = products d \<and>
      auctions d' = auctions d \<and> bids d' = bids d \<and> carts d' = carts d \<and> cart_items d' = cart_items d \<and>
      checkout_keys d' = checkout_keys d \<and> refunds d' = refunds d \<and> disputes d' = disputes d \<and>
      reviews d' = reviews d \<and> processed_events d' = processed_events d \<and> next_id d \<le> next_id d') \<and>
     effects s' = effects s"

lemma only_books_trans: "only_books s s' \<Longrightarrow> only_books s' s'' \<Longrightarrow> only_books s s''"
  by (simp add: only_books_def Let_def)

lemma only_books_refl [simp]: "only_books s s"
  by (simp add: only_books_def Let_def)

lemma only_books_outbox [simp]: "only_books s (outbox_record t g i p c s)"
  by (simp add: only_books_def outbox_record_def Let_def)

lemma only_booksD:
  "only_books s s' \<Longrightarrow>
   products (db s') = products (db s) \<and> carts (db s') = carts (db s) \<and>
   cart_items (db s') = cart_items (db s) \<and> checkout_keys (db s') = checkout_keys (db s) \<and>
   seller_profiles (db s') = seller_profiles (db s) \<and> auctions (db s') = auctions (db s) \<and>
   bids (db s') = bids (db s) \<and> refunds (db s') = refunds (db s) \<and> effects s' = effects s \<and>
   next_id (db s) \<le> next_id (db s')"
  by (simp add: only_books_def Let_def)

lemma create_items_Inr:
  assumes "create_items soId xs d = Inr d'" and "rmap lineTotalCents xs = Inr totals"
  shows "\<exists>new. d' = d\<lparr>next_id := next_id d + length xs, seller_order_items := seller_order_items d @ new\<rparr> \<and>
           (\<forall>i \<in> set new. soi_sellerOrderId i = soId) \<and>
           sum_list (map (\<lambda>i. cents (soi_lineTotal i)) new) = sum_list totals"
  using assms
proof (induction xs arbitrary: d totals)
  case (Cons x xs)
  obtain t ts where t: "lineTotalCents x = Inr t" "rmap lineTotalCents xs = Inr ts" "totals = t # ts"
    using Cons.prems(2) by (auto simp: rbind_Inr_iff)
  let ?d = "create_seller_order_item soId (snd x) (the (pr_price (snd x))) (ci_quantity (fst x))
      (formatCentsToMoney t) d"
  have "create_items soId xs ?d = Inr d'" using Cons.prems(1) t(1) by simp
  from Cons.IH [OF this t(2)] obtain new where
    new: "d' = ?d\<lparr>next_id := next_id ?d + length xs, seller_order_items := seller_order_items ?d @ new\<rparr>"
      "\<forall>i \<in> set new. soi_sellerOrderId i = soId"
      "sum_list (map (\<lambda>i. cents (soi_lineTotal i)) new) = sum_list ts" by blast
  let ?i = "\<lparr>soi_id = next_id d, soi_sellerOrderId = soId, soi_productId = Some (pr_id (snd x)),
      soi_productName = pr_name (snd x), soi_unitPrice = the (pr_price (snd x)),
      soi_quantity = ci_quantity (fst x), soi_lineTotal = formatCentsToMoney t\<rparr>"
  show ?case
    using new t(3) by (intro exI [of _ "?i # new"]) (simp add: create_seller_order_item_def)
next
  case Nil
  then show ?case by (cases d) (auto intro: exI [of _ "[]"])
qed

definition booked_for :: "uuid \<Rightarrow> SellerOrder \<Rightarrow> bool" where
  "booked_for orderId so \<longleftrightarrow>
     so_orderId so = orderId \<and> so_balanced so \<and> so_status so = SellerOrderStatus.AWAITING_FULFILLMENT"

lemma createSellerOrder_Inr:
  assumes run: "createSellerOrder e corr oid g s = (Inr so, s')"
    and refs: "refs_ok (db s)" and booked: "sellers_booked (db s)" and oid: "oid < next_id (db s)"
  shows "refs_ok (db s') \<and> sellers_booked (db s') \<and> only_books s s' \<and> orders (db s') = orders (db s) \<and>
         seller_orders (db s') = seller_orders (db s) @ [so] \<and> booked_for oid so \<and>
         rbind (rmap lineTotalCents (snd g)) (\<lambda>ts. Inr (sum_list ts)) = Inr (cents (so_subtotal so)) \<and>
         so_sellerProfileId so = fst g \<and> so_id so \<ge> next_id (db s)"
proof -
  obtain sp where sp: "by_id sp_id (fst g) (seller_profiles (db s)) = Some sp"
    using run by (auto simp: createSellerOrder_def split: option.splits)
  obtain totals where tot: "rmap lineTotalCents (snd g) = Inr totals"
    using run sp by (auto simp: createSellerOrder_def split: sum.splits)
  obtain com where com: "applyPercent (sum_list totals) (sp_commissionRatePercent sp) = Inr com"
    using run sp tot by (auto simp: createSellerOrder_def Let_def split: sum.splits)
  define s0 where "s0 = \<lparr>so_id = next_id (db s), so_orderId = oid, so_sellerProfileId = sp_id sp,
      so_subtotal = formatCentsToMoney (sum_list totals), so_commissionAmount = formatCentsToMoney com,
      so_sellerNetAmount = formatCentsToMoney (sum_list totals - com),
      so_status = SellerOrderStatus.AWAITING_FULFILLMENT, so_createdAt = now e\<rparr>"
  define d1 where "d1 = (db s)\<lparr>next_id := next_id (db s) + 1, seller_orders := seller_orders (db s) @ [s0]\<rparr>"
  obtain d2 where d2: "create_items (so_id s0) (snd g) d1 = Inr d2"
    using run sp tot com
    by (auto simp: createSellerOrder_def create_seller_order_def s0_def d1_def Let_def split: sum.splits)
  have out: "so = s0" "s' = outbox_record ''SELLER_ORDER_CREATED'' ''SellerOrder'' (so_id s0)
      [(''sellerOrderId'', JId (so_id s0)), (''orderId'', JId oid), (''sellerProfileId'', JId (sp_id sp))] corr
      (s\<lparr>db := create_ledger_entry (sp_id sp) COMMISSION_DEBIT (formatCentsToMoney com) (Some (so_id s0)) None corr
          (create_ledger_entry (sp_id sp) SALE_CREDIT (formatCentsToMoney (sum_list totals)) (Some (so_id s0)) None corr d2)\<rparr>)"
    using run sp tot com d2
    by (auto simp: createSellerOrder_def create_seller_order_def s0_def d1_def Let_def)
  obtain new where new: "d2 = d1\<lparr>next_id := next_id d1 + length (snd g), seller_order_items := seller_order_items d1 @ new\<rparr>"
      "\<forall>i \<in> set new. soi_sellerOrderId i = so_id s0"
      "sum_list (map (\<lambda>i. cents (soi_lineTotal i)) new) = sum_list totals"
    using create_items_Inr [OF d2 tot] by blast
  have bal: "so_balanced s0" by (simp add: so_balanced_def s0_def)
  have sid: "so_id s0 = next_id (db s)" "so_orderId s0 = oid" "cents (so_subtotal s0) = sum_list totals"
    "cents (so_commissionAmount s0) = com"
    by (simp_all add: s0_def)
  obtain e1 e2 where e12: "ledger_entries (db s') = ledger_entries (db s) @ [e1, e2]"
      "le_sellerOrderId e1 = Some (so_id s0)" "le_type e1 = SALE_CREDIT" "cents (le_amount e1) = sum_list totals"
      "le_sellerOrderId e2 = Some (so_id s0)" "le_type e2 = COMMISSION_DEBIT" "cents (le_amount e2) = com"
    using out new by (simp add: create_ledger_entry_def d1_def)
  have "seller_orders (db s') = seller_orders (db s) @ [s0]"
    "seller_order_items (db s') = seller_order_items (db s) @ new" "orders (db s') = orders (db s)"
    "next_id (db s) < next_id (db s')"
    using out new by (simp_all add: create_ledger_entry_def d1_def)
  note frame = this
  note B = book_seller_order [OF refs booked sid(1) _ bal new(2) _ e12(2,3) _ e12(5,6) _ frame(1,2) e12(1) frame(3,4)]
  have "refs_ok (db s')" "sellers_booked (db s')"
    using B oid new(3) e12 sid by simp_all
  moreover have "only_books s s'"
    using out new by (simp add: only_books_def Let_def create_ledger_entry_def d1_def outbox_record_def)
  moreover have "sp_id sp = fst g" using by_id_SomeD [OF sp] by simp
  ultimately show ?thesis
    using frame out bal sid tot by (simp add: booked_for_def s0_def)
qed

lemma create_seller_orders_Inr:
  assumes "create_seller_orders e corr oid gs s = (Inr sos, s')"
    and "refs_ok (db s)" "sellers_booked (db s)" "oid < next_id (db s)"
  shows "refs_ok (db s') \<and> sellers_booked (db s') \<and> only_books s s' \<and> orders (db s') = orders (db s) \<and>
         seller_orders (db s') = seller_orders (db s) @ sos \<and> list_all (booked_for oid) sos \<and>
         map so_sellerProfileId sos = map fst gs \<and>
         rmap (\<lambda>g. rbind (rmap lineTotalCents (snd g)) (\<lambda>ts. Inr (sum_list ts))) gs
           = Inr (map (\<lambda>so. cents (so_subtotal so)) sos)"
  using assms
proof (induction gs arbitrary: s sos)
  case (Cons g gs)
  obtain so s1 where so: "createSellerOrder e corr oid g s = (Inr so, s1)"
    using Cons.prems(1) by (auto split: prod.splits sum.splits)
  obtain rest where rest: "create_seller_orders e corr oid gs s1 = (Inr rest, s')" "sos = so # rest"
    using Cons.prems(1) so by (auto split: prod.splits sum.splits)
  note one = createSellerOrder_Inr [OF so Cons.prems(2-4)]
  have "oid < next_id (db s1)" using one Cons.prems(4) by (auto dest: only_booksD)
  with Cons.IH [OF rest(1)] one have
    IH: "refs_ok (db s') \<and> sellers_booked (db s') \<and> only_books s1 s' \<and> orders (db s') = orders (db s1) \<and>
         seller_orders (db s') = seller_orders (db s1) @ rest \<and> list_all (booked_for oid) rest \<and>
         map so_sellerProfileId rest = map fst gs \<and>
         rmap (\<lambda>g. rbind (rmap lineTotalCents (snd g)) (\<lambda>ts. Inr (sum_list ts))) gs
           = Inr (map (\<lambda>so. cents (so_subtotal so)) rest)" by blast
  have "only_books s s'" using one IH only_books_trans by blast
  then show ?case using one IH rest(2) by (simp add: rbind_Inr_iff)
qed simp

lemma rmap_Inr_map: "rmap f xs = Inr ys \<Longrightarrow> \<forall>x \<in> set xs. f x = Inr (case f x of Inr y \<Rightarrow> y | Inl e \<Rightarrow> undefined)"
  by (induction xs arbitrary: ys) (auto simp: rbind_Inr_iff)

definition line_cents :: "CartItem \<times> Product \<Rightarrow> int" where
  "line_cents x = (case lineTotalCents x of Inr c \<Rightarrow> c | Inl e \<Rightarrow> 0)"

lemma line_totals: "rmap lineTotalCents xs = Inr ts \<Longrightarrow> ts = map line_cents xs"
  by (induction xs arbitrary: ts) (auto simp: rbind_Inr_iff line_cents_def)

lemma group_totals:
  "rmap (\<lambda>g. rbind (rmap lineTotalCents (snd g)) (\<lambda>ts. Inr (sum_list ts))) gs = Inr ys \<Longrightarrow>
   ys = map (\<lambda>g. sum_list (map line_cents (snd g))) gs"
  by (induction gs arbitrary: ys) (auto simp: rbind_Inr_iff dest: line_totals)

lemma record_stock_changed_frame [simp]:
  "only_books s (record_stock_changed c ps s)"
  "same_books (db s) (db (record_stock_changed c ps s))"
proof -
  have "only_books s (record_stock_changed c ps s) \<and> same_books (db s) (db (record_stock_changed c ps s))"
    unfolding record_stock_changed_def
  proof (induction ps arbitrary: s)
    case (Cons p ps)
    let ?s = "outbox_record ''STOCK_CHANGED'' ''Product'' p [(''productId'', JId p)] c s"
    from Cons [of ?s] show ?case
      using only_books_trans [of s ?s] same_books_trans [of "db s" "db ?s"] by simp
  qed simp
  then show "only_books s (record_stock_changed c ps s)"
    "same_books (db s) (db (record_stock_changed c ps s))" by blast+
qed

lemma place_order_Inr:
  assumes run: "place_order e u k corr dto cid lines touched s = (Inr out, s')"
    and ok: "books_ok (db s)"
  shows "books_ok (db s') \<and>
         cart_items (db s') = filter (\<lambda>i. ci_cartId i \<noteq> cid) (cart_items (db s)) \<and>
         products (db s') = products (db s) \<and> carts (db s') = carts (db s) \<and>
         checkout_keys (db s') = checkout_keys (complete_key (u, k) (ord_id (to_order out)) (db s)) \<and>
         to_touchedProductIds out = touched \<and> effects s' = effects s \<and>
         orders (db s') = orders (db s) @ [to_order out] \<and> ord_buyerId (to_order out) = u \<and>
         seller_orders (db s') = seller_orders (db s) @ to_sellerOrders out \<and>
         list_all (booked_for (ord_id (to_order out))) (to_sellerOrders out) \<and>
         map so_sellerProfileId (to_sellerOrders out) = map fst (groupBySeller lines) \<and>
         cents (ord_totalAmount (to_order out)) = sum_list (map line_cents lines) \<and>
         sum_list (map (\<lambda>so. cents (so_subtotal so)) (to_sellerOrders out)) = sum_list (map line_cents lines) \<and>
         sellerOrders_of (ord_id (to_order out)) (db s') = to_sellerOrders out"
proof -
  obtain totals where tot: "rmap lineTotalCents lines = Inr totals"
    using run by (auto simp: place_order_def Let_def split: sum.splits)
  have ts: "totals = map line_cents lines" using line_totals [OF tot] .
  define o' where "o' = fst (create_order e u (formatCentsToMoney (sum_list totals)) dto (db s))"
  define d1 where "d1 = snd (create_order e u (formatCentsToMoney (sum_list totals)) dto (db s))"
  obtain sos s1 where sos: "create_seller_orders e corr (ord_id o') (groupBySeller lines) (s\<lparr>db := d1\<rparr>) = (Inr sos, s1)"
    using run tot by (auto simp: place_order_def Let_def o'_def d1_def split: sum.splits prod.splits)
  define s2 where "s2 = outbox_record ''ORDER_CREATED'' ''Order'' (ord_id o')
      [(''orderId'', JId (ord_id o')), (''buyerId'', JId u), (''totalAmount'', JStr (ord_totalAmount o')),
       (''sellerOrderIds'', JIds (map so_id sos))] corr s1"
  define s3 where "s3 = record_stock_changed corr touched s2"
  have out: "out = \<lparr>to_order = o', to_sellerOrders = sos, to_touchedProductIds = touched\<rparr>"
    and s': "s' = upd_db (complete_key (u, k) (ord_id o'))
       (upd_db (\<lambda>d. d\<lparr>cart_items := filter (\<lambda>i. ci_cartId i \<noteq> cid) (cart_items d)\<rparr>) s3)"
    using run tot sos by (auto simp: place_order_def Let_def o'_def d1_def s2_def s3_def split: prod.splits)
  have o'_id: "ord_id o' = next_id (db s)" "ord_buyerId o' = u" "cents (ord_totalAmount o') = sum_list totals"
    and d1: "d1 = (db s)\<lparr>next_id := next_id (db s) + 1, orders := orders (db s) @ [o']\<rparr>"
    by (simp_all add: o'_def d1_def create_order_def Let_def)
  note added = books_order_added [OF ok o'_id(1) d1]
  note C = create_seller_orders_Inr [OF sos, simplified, OF added [THEN conjunct1] added [THEN conjunct2]]
  have lt: "ord_id o' < next_id d1" using o'_id d1 by simp
  have sub: "sum_list (map (\<lambda>so. cents (so_subtotal so)) sos) = sum_list (map line_cents lines)"
    using C [OF lt] group_totals sum_groups [of line_cents lines] by fastforce
  have so1: "seller_orders (db s1) = seller_orders (db s) @ sos" "orders (db s1) = orders (db s) @ [o']"
    "list_all (booked_for (ord_id o')) sos"
    using C [OF lt] d1 by simp_all
  have "orders_total (db s1) \<and> sellerOrders_of (ord_id o') (db s1) = sos"
    by (rule books_order_closed [OF ok o'_id(1)])
       (use so1 sub o'_id ts in \<open>auto simp: booked_for_def list_all_iff\<close>)
  then have new: "sellerOrders_of (ord_id o') (db s1) = sos" and "orders_total (db s1)" by simp_all
  then have books1: "books_ok (db s1)" using C [OF lt] by (simp add: books_ok_def)
  have same: "same_books (db s1) (db s3)" "only_books s1 s3"
    using same_books_trans [of "db s1" "db s2"] only_books_trans [of s1 s2] by (simp_all add: s3_def s2_def)
  have "same_books (db s3) (db s')" by (simp add: s' same_books_def complete_key_def)
  with same books1 have "books_ok (db s')" using same_books_ok same_books_trans by blast
  moreover have frame: "cart_items (db s3) = cart_items (db s) \<and> products (db s3) = products (db s) \<and>
      carts (db s3) = carts (db s) \<and> checkout_keys (db s3) = checkout_keys (db s) \<and> effects s3 = effects s"
    using same(2) C [OF lt] d1 by (auto dest!: only_booksD)
  moreover have "orders (db s') = orders (db s1)" "seller_orders (db s') = seller_orders (db s1)"
    using same(1) by (simp_all add: s' same_books_def complete_key_def)
  moreover have "sellerOrders_of (ord_id o') (db s') = sos"
    using new calculation(4) by (simp add: sellerOrders_of_def)
  ultimately show ?thesis
    using out s' so1 o'_id ts sub C [OF lt] by (simp add: complete_key_def)
qed

section \<open>The whole transaction\<close>

definition user_cart :: "uuid \<Rightarrow> database \<Rightarrow> CartItem list" where
  "user_cart u d = (case find (\<lambda>c. cart_userId c = u) (carts d) of
      None \<Rightarrow> [] | Some c \<Rightarrow> filter (\<lambda>i. ci_cartId i = cart_id c) (cart_items d))"

definition item_value :: "database \<Rightarrow> CartItem \<Rightarrow> int" where
  "item_value d i = (case by_id pr_id (ci_productId i) (products d) of
      None \<Rightarrow> 0
    | Some p \<Rightarrow> (case pr_price p of None \<Rightarrow> 0 | Some t \<Rightarrow> cents t * ci_quantity i))"

definition in_cart :: "uuid \<Rightarrow> CartItem list \<Rightarrow> int" where
  "in_cart pid items = sum_list (map (\<lambda>i. if ci_productId i = pid then ci_quantity i else 0) items)"

lemma sum_list_sort_key: "sum_list (map f (sort_key k xs)) = sum_list (map (f :: _ \<Rightarrow> int) xs)"
  by (metis mset_map mset_sort sum_mset_sum_list)

lemma purchasable_lines:
  "rmap assertPurchasable xs = Inr ys \<Longrightarrow>
   map fst ys = map fst xs \<and> list_all (\<lambda>x. snd x \<noteq> None) xs \<and>
   map (\<lambda>y. Some (snd y)) ys = map snd xs"
  by (induction xs arbitrary: ys)
     (auto simp: rbind_Inr_iff assertPurchasable_def split: option.splits if_splits)

lemma line_cents_value:
  "lineTotalCents (i, p) = Inr c \<Longrightarrow> by_id pr_id (ci_productId i) (products d) = Some p \<Longrightarrow>
   line_cents (i, p) = item_value d i"
  by (auto simp: lineTotalCents_def line_cents_def item_value_def multiplyCentsByQuantity_def
        rbind_Inr_iff cents_parse split: option.splits)

lemma lines_value:
  assumes "rmap lineTotalCents lines = Inr ts"
    and "map (\<lambda>y. Some (snd y)) lines = map (\<lambda>i. by_id pr_id (ci_productId i) (products d)) (map fst lines)"
  shows "map line_cents lines = map (item_value d) (map fst lines)"
  using assms
proof (induction lines arbitrary: ts)
  case (Cons x xs)
  then show ?case
    using line_cents_value [of "fst x" "snd x" _ d] by (auto simp: rbind_Inr_iff)
qed simp

lemma runCheckout_Inr:
  assumes run: "runCheckoutTransaction e u k corr dto s = (Inr out, s')"
    and ok: "books_ok (db s)" and dist: "distinct (map pr_id (products (db s)))"
  obtains d1 lines cart where
    "claim_key (u, k) (db s) = Inr d1"
    "find (\<lambda>c. cart_userId c = u) (carts (db s)) = Some cart"
    "user_cart u (db s) \<noteq> []"
    "map fst lines = sort_key ci_productId (user_cart u (db s))"
    "books_ok (db s')" "effects s' = effects s"
    "products (db s') = stock_less (\<lambda>i. in_cart i (user_cart u (db s))) (products (db s))"
    "(\<forall>p \<in> set (products (db s)). 0 \<le> pr_stockQuantity p) \<longrightarrow>
     (\<forall>p \<in> set (products (db s')). 0 \<le> pr_stockQuantity p)"
    "carts (db s') = carts (db s)"
    "cart_items (db s') = filter (\<lambda>i. ci_cartId i \<noteq> cart_id cart) (cart_items (db s))"
    "checkout_keys (db s') = checkout_keys (complete_key (u, k) (ord_id (to_order out)) d1)"
    "to_touchedProductIds out = map (\<lambda>x. ci_productId (fst x)) lines"
    "orders (db s') = orders (db s) @ [to_order out]" "ord_buyerId (to_order out) = u"
    "seller_orders (db s') = seller_orders (db s) @ to_sellerOrders out"
    "list_all (booked_for (ord_id (to_order out))) (to_sellerOrders out)"
    "map so_sellerProfileId (to_sellerOrders out) = map fst (groupBySeller lines)"
    "cents (ord_totalAmount (to_order out)) = sum_list (map (item_value (db s)) (user_cart u (db s)))"
    "sum_list (map (\<lambda>so. cents (so_subtotal so)) (to_sellerOrders out)) = cents (ord_totalAmount (to_order out))"
    "sellerOrders_of (ord_id (to_order out)) (db s') = to_sellerOrders out"
proof -
  obtain d1 where d1: "claim_key (u, k) (db s) = Inr d1"
    using run by (auto simp: runCheckoutTransaction_def split: sum.splits)
  have d1f: "same_books (db s) d1" "carts d1 = carts (db s)" "cart_items d1 = cart_items (db s)"
    "products d1 = products (db s)"
    using d1 by (auto simp: claim_key_def same_books_def split: if_splits)
  obtain cart where cart: "find (\<lambda>c. cart_userId c = u) (carts (db s)) = Some cart"
    using run d1 d1f by (auto simp: runCheckoutTransaction_def split: option.splits)
  let ?items = "load_cart_items (cart_id cart) d1"
  have items: "map fst ?items = sort_key ci_productId (user_cart u (db s))"
    "map snd ?items = map (\<lambda>i. by_id pr_id (ci_productId i) (products (db s))) (map fst ?items)"
    using cart d1f by (simp_all add: load_cart_items_def user_cart_def comp_def)
  have ne: "?items \<noteq> []"
    using run d1 cart d1f by (auto simp: runCheckoutTransaction_def)
  obtain lines where lines: "rmap assertPurchasable ?items = Inr lines"
    using run d1 cart d1f ne by (auto simp: runCheckoutTransaction_def Let_def split: sum.splits)
  obtain touched s1 where ts: "take_stock lines (s\<lparr>db := d1\<rparr>) = (Inr touched, s1)"
    using run d1 cart d1f ne lines
    by (auto simp: runCheckoutTransaction_def Let_def split: sum.splits prod.splits)
  have po: "place_order e u k corr dto (cart_id cart) lines touched s1 = (Inr out, s')"
    using run d1 cart d1f ne lines ts by (simp add: runCheckoutTransaction_def Let_def)
  note stock = take_stock_Inr [OF _ ts, simplified, unfolded d1f, OF dist]
  have st: "touched = map (\<lambda>x. ci_productId (fst x)) lines"
    "\<forall>p \<in> set (products (db s)). 0 \<le> pr_stockQuantity p \<Longrightarrow> \<forall>p \<in> set (products (db s1)). 0 \<le> pr_stockQuantity p"
    using stock by blast+
  have s1: "db s1 = d1\<lparr>products := stock_less (\<lambda>i. taken i lines) (products (db s))\<rparr>" "effects s1 = effects s"
    using stock by simp_all
  have "same_books d1 (db s1)" using s1 by (simp add: same_books_def)
  then have ok1: "books_ok (db s1)" using same_books_ok ok d1f(1) by blast
  note P = place_order_Inr [OF po ok1]
  note L = purchasable_lines [OF lines]
  have fl: "map fst lines = sort_key ci_productId (user_cart u (db s))" using L items by simp
  have tk: "taken i lines = in_cart i (user_cart u (db s))" for i
  proof -
    have "taken i lines = sum_list (map (\<lambda>x. if ci_productId x = i then ci_quantity x else 0) (map fst lines))"
      by (simp add: taken_def comp_def)
    then show ?thesis unfolding fl in_cart_def by (simp add: sum_list_sort_key)
  qed
  obtain tot where tot: "rmap lineTotalCents lines = Inr tot"
    using po by (auto simp: place_order_def Let_def split: sum.splits)
  have "map line_cents lines = map (item_value (db s)) (map fst lines)"
    by (rule lines_value [OF tot]) (use L items in simp)
  then have val: "sum_list (map line_cents lines) = sum_list (map (item_value (db s)) (user_cart u (db s)))"
    unfolding fl by (simp add: sum_list_sort_key)
  have ne': "user_cart u (db s) \<noteq> []"
    using ne items(1) by (metis Nil_is_map_conv length_0_conv length_sort)
  have prod: "products (db s') = products (db s1)" using P by blast
  have nonneg: "(\<forall>p \<in> set (products (db s)). 0 \<le> pr_stockQuantity p) \<longrightarrow>
      (\<forall>p \<in> set (products (db s')). 0 \<le> pr_stockQuantity p)"
    unfolding prod using st(2) by blast
  have prods: "products (db s') = stock_less (\<lambda>i. in_cart i (user_cart u (db s))) (products (db s))"
    unfolding prod using s1 by (simp add: tk)
  have f1: "carts (db s1) = carts (db s)" "cart_items (db s1) = cart_items (db s)"
    "orders (db s1) = orders (db s)" "seller_orders (db s1) = seller_orders (db s)"
    "checkout_keys (db s1) = checkout_keys d1"
    using s1(1) d1f by (simp_all add: same_books_def)
  show ?thesis
    by (rule that [OF d1 cart ne' fl _ _ prods nonneg])
       (use P f1 s1(2) st(1) val in \<open>simp_all add: complete_key_def\<close>)
qed

section \<open>The handler\<close>

lemma effects_createSellerOrder [simp]: "effects (snd (createSellerOrder e corr oid g s)) = effects s"
  by (simp add: createSellerOrder_def Let_def split: option.split sum.split prod.split)

lemma effects_create_seller_orders [simp]: "effects (snd (create_seller_orders e corr oid gs s)) = effects s"
proof (induction gs arbitrary: s)
  case (Cons g gs)
  obtain r s1 where g: "createSellerOrder e corr oid g s = (r, s1)" by fastforce
  obtain r' s2 where gs: "create_seller_orders e corr oid gs s1 = (r', s2)" by fastforce
  show ?case
    using Cons [of s1] effects_createSellerOrder [of e corr oid g s] g gs
    by (auto split: sum.split)
qed simp

lemma effects_record_stock_changed [simp]: "effects (record_stock_changed c ps s) = effects s"
  using record_stock_changed_frame(1) only_booksD by blast

lemma effects_place_order [simp]:
  "effects (snd (place_order e u k corr dto cid lines touched s)) = effects s"
proof (cases "rmap lineTotalCents lines")
  case (Inr totals)
  obtain o' d1 where o': "create_order e u (formatCentsToMoney (sum_list totals)) dto (db s) = (o', d1)"
    by fastforce
  obtain r s1 where r: "create_seller_orders e corr (ord_id o') (groupBySeller lines) (s\<lparr>db := d1\<rparr>) = (r, s1)"
    by fastforce
  with effects_create_seller_orders [of e corr "ord_id o'" "groupBySeller lines" "s\<lparr>db := d1\<rparr>"]
  show ?thesis using Inr o' by (simp add: place_order_def Let_def split: sum.split)
qed (simp add: place_order_def)

lemma effects_take_stock: "effects (snd (take_stock xs s)) = effects s"
proof (induction xs arbitrary: s)
  case (Cons x xs)
  show ?case
  proof (cases "take_item (fst x) (db s)")
    case (Some d)
    obtain r s1 where "take_stock xs (s\<lparr>db := d\<rparr>) = (r, s1)" by fastforce
    with Some Cons [of "s\<lparr>db := d\<rparr>"] show ?thesis by (auto split: sum.split)
  qed simp
qed simp

lemma effects_runCheckout: "effects (snd (runCheckoutTransaction e u k corr dto s)) = effects s"
proof -
  have "effects (snd (case take_stock lines s1 of (Inl err, s1) \<Rightarrow> (Inl err, s1)
      | (Inr touched, s1) \<Rightarrow> place_order e u k corr dto cid lines touched s1)) = effects s1" for lines cid s1
    using effects_take_stock [of lines s1] by (cases "take_stock lines s1") (auto split: sum.split)
  then show ?thesis
    by (auto simp: runCheckoutTransaction_def Let_def split: option.split sum.split)
qed

lemma transaction_error:
  "transaction f s = (Inl err, s') \<Longrightarrow> db s' = db s \<and> effects s' = effects (snd (f s))"
  by (cases "f s"; cases "fst (f s)") (auto simp: transaction_def)

text \<open>
  A checkout that fails leaves no trace: whatever the reason (no cart, an unavailable product,
  too little stock, a malformed price), the stock already taken, the rows already written and the
  claim of the key are rolled back, and no cache command is sent.
\<close>
theorem checkout_failure_unchanged:
  assumes "checkout e u key corr dto s = (Inl err, s')"
  shows "db s' = db s \<and> effects s' = effects s"
proof (cases "requireIdempotencyKey key")
  case (Inr k)
  let ?s0 = "increment ''checkout_attempts_total'' s"
  obtain r s1 where t: "transaction (runCheckoutTransaction e u k corr dto) ?s0 = (r, s1)" by fastforce
  show ?thesis
  proof (cases r)
    case (Inl err')
    then have "db s1 = db s \<and> effects s1 = effects s"
      using transaction_error [of "runCheckoutTransaction e u k corr dto" ?s0 err' s1] t
      by (simp add: effects_runCheckout)
    with assms Inr Inl t show ?thesis by (auto simp: checkout_def Let_def split: if_splits)
  qed (use assms Inr t in \<open>simp add: checkout_def Let_def\<close>)
qed (use assms in \<open>simp add: checkout_def\<close>)

lemma db_emit_all [simp]: "db (fold (\<lambda>p. emit (f p)) ps s) = db s"
  by (induction ps arbitrary: s) simp_all

lemma effects_emit_all [simp]: "effects (fold (\<lambda>p. emit (f p)) ps s) = effects s @ map f ps"
  by (induction ps arbitrary: s) simp_all

lemma replay_shape: "replayCompletedCheckout u k d = Inr r \<Longrightarrow> cr_replayed r"
  by (auto simp: replayCompletedCheckout_def checkout_toResult_def split: option.splits)

text \<open>A successful request either ran the transaction or replayed an earlier one.\<close>

lemma checkout_Inr_cases:
  assumes "checkout e u key corr dto s = (Inr r, s')"
  obtains (ran) k out s1 where "requireIdempotencyKey key = Inr k"
      "runCheckoutTransaction e u k corr dto (increment ''checkout_attempts_total'' s) = (Inr out, s1)"
      "r = checkout_toResult (to_order out) (to_sellerOrders out) False" "db s' = db s1"
      "effects s' = effects s1 @ map RedisDelProduct (to_touchedProductIds out) @ [RedisIncrSearchVersion]"
  | (replayed) k where "requireIdempotencyKey key = Inr k" "replayCompletedCheckout u k (db s) = Inr r"
      "db s' = db s" "effects s' = effects s" "cr_replayed r"
proof (cases "requireIdempotencyKey key")
  case (Inr k)
  let ?s0 = "increment ''checkout_attempts_total'' s"
  obtain t s1 where t: "transaction (runCheckoutTransaction e u k corr dto) ?s0 = (t, s1)" by fastforce
  show ?thesis
  proof (cases t)
    case (Inl err)
    then have d: "db s1 = db s \<and> effects s1 = effects s"
      using transaction_error [of "runCheckoutTransaction e u k corr dto" ?s0 err s1] t
      by (simp add: effects_runCheckout)
    have rr: "replayCompletedCheckout u k (db s) = Inr r" "db s' = db s" "effects s' = effects s"
      using assms Inr Inl t d by (auto simp: checkout_def Let_def split: if_splits)
    show ?thesis by (rule replayed [OF Inr rr replay_shape [OF rr(1)]])
  next
    case out: (Inr out)
    have run: "runCheckoutTransaction e u k corr dto ?s0 = (Inr out, s1)"
      using t out by (simp add: transaction_Inr)
    show ?thesis
      by (rule ran [OF Inr run]) (use assms Inr out t in \<open>auto simp: checkout_def Let_def\<close>)
  qed
qed (use assms in \<open>simp add: checkout_def\<close>)

text \<open>
  C2: A checkout never loses or invents a cent: from consistent books, a fresh checkout charges
  exactly price times quantity over the customer's cart, this total is the sum of the seller
  orders' subtotals, each split into commission and seller net without remainder; there is one
  seller order per seller in the cart, the seller orders reported are the rows written, and the
  books (items, ledger credits and debits, order totals) are consistent again.
\<close>
theorem checkout_conserves:
  assumes ok: "books_ok (db s)" and dist: "distinct (map pr_id (products (db s)))"
    and run: "checkout e u key corr dto s = (Inr r, s')" and new: "\<not> cr_replayed r"
  shows "books_ok (db s') \<and>
         cents (cr_totalAmount r) = sum_list (map (item_value (db s)) (user_cart u (db s))) \<and>
         sum_list (map (\<lambda>x. cents (cs_subtotal x)) (cr_sellerOrders r)) = cents (cr_totalAmount r) \<and>
         list_all (\<lambda>x. cents (cs_subtotal x) = cents (cs_commissionAmount x) + cents (cs_sellerNetAmount x))
           (cr_sellerOrders r) \<and>
         distinct (map cs_sellerProfileId (cr_sellerOrders r)) \<and>
         map cs_id (cr_sellerOrders r) = map so_id (sellerOrders_of (cr_orderId r) (db s'))"
  using run
proof (cases rule: checkout_Inr_cases)
  case (ran k out s1)
  let ?s0 = "increment ''checkout_attempts_total'' s"
  from ran(2) ok dist show ?thesis
  proof (cases rule: runCheckout_Inr [of e u k corr dto ?s0 out s1, simplified, consumes 3, case_names main])
    case (main d1 lines cart)
    have "list_all (\<lambda>x. cents (cs_subtotal x) = cents (cs_commissionAmount x) + cents (cs_sellerNetAmount x))
           (cr_sellerOrders r)"
      using main(16) ran(3) by (simp add: checkout_toResult_def list_all_iff booked_for_def so_balanced_def)
    moreover have "map cs_sellerProfileId (cr_sellerOrders r) = map fst (groupBySeller lines)"
      using main(17) ran(3) by (simp add: checkout_toResult_def comp_def)
    ultimately show ?thesis
      using main ran(3,4) groupBySeller_groups(1) [of lines]
      by (simp add: checkout_toResult_def comp_def)
  qed
qed (use new in simp)

text \<open>
  C5: A checkout takes exactly what the cart holds: each product's stock drops by its quantity in
  the customer's cart and by nothing otherwise, no stock becomes negative, the customer's cart is
  empty afterwards and every other cart keeps its items.
\<close>
theorem checkout_stock:
  assumes ok: "books_ok (db s)" and dist: "distinct (map pr_id (products (db s)))"
    and run: "checkout e u key corr dto s = (Inr r, s')" and new: "\<not> cr_replayed r"
  shows "products (db s') = map (\<lambda>p. p\<lparr>pr_stockQuantity := pr_stockQuantity p
             - in_cart (pr_id p) (user_cart u (db s))\<rparr>) (products (db s)) \<and>
         ((\<forall>p \<in> set (products (db s)). 0 \<le> pr_stockQuantity p) \<longrightarrow>
          (\<forall>p \<in> set (products (db s')). 0 \<le> pr_stockQuantity p)) \<and>
         user_cart u (db s) \<noteq> [] \<and> user_cart u (db s') = [] \<and>
         filter (\<lambda>i. i \<notin> set (user_cart u (db s))) (cart_items (db s)) = cart_items (db s')"
  using run
proof (cases rule: checkout_Inr_cases)
  case (ran k out s1)
  let ?s0 = "increment ''checkout_attempts_total'' s"
  from ran(2) ok dist show ?thesis
  proof (cases rule: runCheckout_Inr [of e u k corr dto ?s0 out s1, simplified, consumes 3, case_names main])
    case (main d1 lines cart)
    have "user_cart u (db s') = []"
      using main(2,9,10) ran(4) by (simp add: user_cart_def filter_empty_conv)
    moreover have "filter (\<lambda>i. i \<notin> set (user_cart u (db s))) (cart_items (db s)) = cart_items (db s')"
      using main(2,10) ran(4) by (auto simp: user_cart_def intro!: filter_cong)
    ultimately show ?thesis
      using main(3,7,8) ran(4) by (simp add: stock_less_def)
  qed
qed (use new in simp)

lemma completed_order_cong: "checkout_keys d = checkout_keys d' \<Longrightarrow> completed_order k d = completed_order k d'"
  by (simp add: completed_order_def)

lemma key_claimed_cong: "checkout_keys d = checkout_keys d' \<Longrightarrow> key_claimed k d = key_claimed k d'"
  by (simp add: key_claimed_def)

lemma checkout_claimed:
  assumes "requireIdempotencyKey key = Inr k" "key_claimed (u, k) (db s)"
  shows "checkout e u key corr dto s
           = (replayCompletedCheckout u k (db s),
              increment ''checkout_idempotent_replays_total'' (increment ''checkout_attempts_total'' s))"
  using assms
  by (simp add: checkout_def Let_def transaction_def runCheckoutTransaction_def claim_key_def increment_def)

lemma completed_claimed: "completed_order k d = Some x \<Longrightarrow> key_claimed k d"
  by (auto simp: completed_order_def claimed_iff_find split: option.splits)

text \<open>
  C6: A checkout is idempotent: once a request with a key succeeded, repeating it with the same key
  (at any later time, with any other address) answers with the same order and seller orders, only
  marked as replayed, charges nothing, takes no stock and writes nothing.
\<close>
theorem checkout_replay:
  assumes ok: "books_ok (db s)" and dist: "distinct (map pr_id (products (db s)))"
    and run: "checkout e u key corr dto s = (Inr r, s')"
  shows "\<exists>s''. checkout e' u key corr' dto' s' = (Inr (r\<lparr>cr_replayed := True\<rparr>), s'') \<and>
               db s'' = db s' \<and> effects s'' = effects s'"
  using run
proof (cases rule: checkout_Inr_cases)
  case (replayed k)
  then have "key_claimed (u, k) (db s')"
    by (auto simp: replayCompletedCheckout_def intro: completed_claimed split: option.splits)
  moreover have "r\<lparr>cr_replayed := True\<rparr> = r" using replayed(5) by (cases r) simp
  ultimately show ?thesis using checkout_claimed [OF replayed(1)] replayed by simp
next
  case (ran k out s1)
  let ?s0 = "increment ''checkout_attempts_total'' s"
  from ran(2) ok dist show ?thesis
  proof (cases rule: runCheckout_Inr [of e u k corr dto ?s0 out s1, simplified, consumes 3, case_names main])
    case (main d1 lines cart)
    let ?oid = "ord_id (to_order out)"
    have fin: "completed_order (u, k) (db s') = Some ?oid"
      using checkout_ledger.completed [OF main(1), of ?oid] main(11) ran(4)
        completed_order_cong [of "db s'" "complete_key (u, k) ?oid d1"] by simp
    have "distinct (map ord_id (orders (db s')))"
      using main(5) ran(4) by (simp add: books_ok_def refs_ok_def)
    then have "by_id ord_id ?oid (orders (db s')) = Some (to_order out)"
      using main(13) ran(4) by (intro by_id_unique) simp_all
    with fin have "replayCompletedCheckout u k (db s') = Inr (r\<lparr>cr_replayed := True\<rparr>)"
      using main(20) ran(3,4) by (simp add: replayCompletedCheckout_def checkout_toResult_def)
    then show ?thesis
      using checkout_claimed [OF ran(1) completed_claimed [OF fin]] by simp
  qed
qed

section \<open>A concrete shop\<close>

definition shop_product :: "uuid \<Rightarrow> uuid \<Rightarrow> string \<Rightarrow> int \<Rightarrow> Product" where
  "shop_product i seller price stock = \<lparr>pr_id = i, pr_sellerProfileId = seller, pr_categoryId = 0,
     pr_name = ''P'', pr_slug = ''p'', pr_description = None, pr_type = ProductType.FIXED_PRICE,
     pr_price = Some price, pr_stockQuantity = stock, pr_imageUrls = [], pr_isPublished = True,
     pr_ratingAverage = ''0.00'', pr_ratingCount = 0\<rparr>"

definition shop_db :: database where
  "shop_db = empty_db\<lparr>next_id := 50,
     seller_profiles := [sample_seller, sample_seller\<lparr>sp_id := 4, sp_userId := 9\<rparr>],
     products := [shop_product 20 1 ''3.33'' 5, shop_product 21 4 ''10.00'' 2, shop_product 22 1 ''0.50'' 9],
     carts := [\<lparr>cart_id = 30, cart_userId = 8\<rparr>],
     cart_items := [\<lparr>ci_id = 31, ci_cartId = 30, ci_productId = 21, ci_quantity = 1\<rparr>,
                    \<lparr>ci_id = 32, ci_cartId = 30, ci_productId = 20, ci_quantity = 3\<rparr>]\<rparr>"

definition no_address :: CheckoutRequestDto where
  "no_address = \<lparr>co_shippingAddressLine1 = None, co_shippingAddressLine2 = None, co_shippingCity = None,
     co_shippingPostalCode = None, co_shippingCountry = None\<rparr>"

definition shop_checkout :: "CheckoutResult result \<times> sys" where
  "shop_checkout = checkout (sample_env 5) 8 (Some ''k'') 0 no_address (start_sys shop_db)"

definition shop_result :: CheckoutResult where
  "shop_result = (case fst shop_checkout of Inr r \<Rightarrow> r | Inl e \<Rightarrow> undefined)"

lemma shop_ok: "books_ok (db (start_sys shop_db))" "distinct (map pr_id (products (db (start_sys shop_db))))"
  by code_simp+

lemma shop_runs: "shop_checkout = (Inr shop_result, snd shop_checkout)" "\<not> cr_replayed shop_result"
proof -
  have "\<not> is_error (fst shop_checkout)" by code_simp
  then obtain r where r: "fst shop_checkout = Inr r" by (auto simp: not_is_error_iff)
  then show "shop_checkout = (Inr shop_result, snd shop_checkout)"
    by (simp add: shop_result_def prod_eq_iff)
  show "\<not> cr_replayed shop_result" by code_simp
qed

theorem checkout_conserves_witness:
  "books_ok (db (snd shop_checkout)) \<and> cents (cr_totalAmount shop_result) = 1999"
proof -
  have "sum_list (map (item_value (db (start_sys shop_db))) (user_cart 8 (db (start_sys shop_db)))) = 1999"
    by code_simp
  with checkout_conserves [OF shop_ok shop_runs(1) [unfolded shop_checkout_def] shop_runs(2)]
  show ?thesis unfolding shop_checkout_def by simp
qed

theorem checkout_stock_witness:
  "map pr_stockQuantity (products (db (snd shop_checkout))) = [2, 1, 9]"
proof -
  have "map (\<lambda>p. pr_stockQuantity p - in_cart (pr_id p) (user_cart 8 (db (start_sys shop_db))))
      (products (db (start_sys shop_db))) = [2, 1, 9]" by code_simp
  with checkout_stock [OF shop_ok shop_runs(1) [unfolded shop_checkout_def] shop_runs(2)]
  show ?thesis unfolding shop_checkout_def by (simp add: comp_def)
qed

theorem checkout_replay_witness:
  "\<exists>s''. checkout (sample_env 900) 8 (Some ''k'') 1 no_address (snd shop_checkout)
           = (Inr (shop_result\<lparr>cr_replayed := True\<rparr>), s'') \<and> db s'' = db (snd shop_checkout)"
  using checkout_replay [OF shop_ok shop_runs(1) [unfolded shop_checkout_def], of "sample_env 900" 1 no_address]
  unfolding shop_checkout_def by blast

theorem checkout_failure_unchanged_witness:
  "db (snd (checkout (sample_env 5) 9 (Some ''k'') 0 no_address (start_sys shop_db))) = shop_db"
proof -
  have "fst (checkout (sample_env 5) 9 (Some ''k'') 0 no_address (start_sys shop_db))
      = Inl (BadRequestException ''Cart is empty'')" by code_simp
  then have "checkout (sample_env 5) 9 (Some ''k'') 0 no_address (start_sys shop_db)
      = (Inl (BadRequestException ''Cart is empty''),
         snd (checkout (sample_env 5) 9 (Some ''k'') 0 no_address (start_sys shop_db)))"
    by (simp add: prod_eq_iff)
  from checkout_failure_unchanged [OF this] show ?thesis by (simp add: start_sys_def)
qed
end
