(* ===== verification/Auction_Checkout.thy ===== *)
theory Auction_Checkout
  imports Auction_Lifecycle Checkout
begin

text \<open>
  The winner's purchase of an auctioned product (\<open>modules/bidding/auction-checkout.service.ts\<close>):
  one product, one seller, quantity one, at the price of the locked auction. It shares the
  idempotency ledger and the rows of an order with the cart checkout. An uncaught
  \<open>TypeError\<close> stands for reading a field of a missing relation.
\<close>

section \<open>The transaction\<close>

record CheckoutOutcome =
  cko_order :: Order
  cko_sellerOrder :: SellerOrder
  cko_productId :: uuid

text \<open>The rows of the purchase, once every check has passed and the stock is taken.\<close>

definition purchase_ledger ::
  "uuid \<Rightarrow> Product \<Rightarrow> string \<Rightarrow> string \<Rightarrow> SellerOrder \<Rightarrow> database \<Rightarrow> database" where
  "purchase_ledger correlationId product price commission sellerOrder d =
     create_ledger_entry (pr_sellerProfileId product) COMMISSION_DEBIT commission
       (Some (so_id sellerOrder)) None correlationId
       (create_ledger_entry (pr_sellerProfileId product) SALE_CREDIT price
          (Some (so_id sellerOrder)) None correlationId
          (create_seller_order_item (so_id sellerOrder) product price 1 price d))"

definition purchase_events ::
  "uuid \<Rightarrow> uuid \<Rightarrow> Auction \<Rightarrow> Product \<Rightarrow> Order \<Rightarrow> SellerOrder \<Rightarrow> sys \<Rightarrow> sys" where
  "purchase_events winnerId correlationId auction product order sellerOrder s =
     outbox_record ''AUCTION_PURCHASED'' ''Auction'' (au_id auction)
       [(''auctionId'', JId (au_id auction)), (''orderId'', JId (ord_id order)),
        (''sellerOrderId'', JId (so_id sellerOrder))] correlationId
     (outbox_record ''STOCK_CHANGED'' ''Product'' (pr_id product)
       [(''productId'', JId (pr_id product))] correlationId
     (outbox_record ''SELLER_ORDER_CREATED'' ''SellerOrder'' (so_id sellerOrder)
       [(''sellerOrderId'', JId (so_id sellerOrder)), (''orderId'', JId (ord_id order)),
        (''sellerProfileId'', JId (pr_sellerProfileId product))] correlationId
     (outbox_record ''ORDER_CREATED'' ''Order'' (ord_id order)
       [(''orderId'', JId (ord_id order)), (''buyerId'', JId winnerId),
        (''totalAmount'', JStr (ord_totalAmount order)),
        (''sellerOrderIds'', JIds [so_id sellerOrder])] correlationId s)))"

definition finish_purchase ::
  "env \<Rightarrow> uuid \<Rightarrow> string \<Rightarrow> uuid \<Rightarrow> Auction \<Rightarrow> Product \<Rightarrow> Order \<Rightarrow> SellerOrder \<Rightarrow> sys \<Rightarrow>
   CheckoutOutcome result \<times> sys" where
  "finish_purchase e winnerId idempotencyKey correlationId auction product order sellerOrder s =
     (case assertValidAuctionTransition (au_status auction) AuctionStatus.COMPLETED of
        Inl err \<Rightarrow> (Inl err, s)
      | Inr _ \<Rightarrow>
          (Inr \<lparr>cko_order = order, cko_sellerOrder = sellerOrder, cko_productId = pr_id product\<rparr>,
           upd_db (complete_key (winnerId, idempotencyKey) (ord_id order))
             (purchase_events winnerId correlationId auction product order sellerOrder
               (upd_db (save_auction e (auction\<lparr>au_status := AuctionStatus.COMPLETED\<rparr>)) s))))"

definition book_purchase ::
  "env \<Rightarrow> uuid \<Rightarrow> string \<Rightarrow> uuid \<Rightarrow> Auction \<Rightarrow> Product \<Rightarrow> string \<Rightarrow> Order \<Rightarrow> SellerOrder \<times> database \<Rightarrow>
   sys \<Rightarrow> CheckoutOutcome result \<times> sys" where
  "book_purchase e winnerId idempotencyKey correlationId auction product commission order created s =
     finish_purchase e winnerId idempotencyKey correlationId auction product order (fst created)
       (s\<lparr>db := purchase_ledger correlationId product (au_currentPrice auction) commission
                  (fst created) (snd created)\<rparr>)"

definition split_purchase ::
  "env \<Rightarrow> uuid \<Rightarrow> string \<Rightarrow> uuid \<Rightarrow> Auction \<Rightarrow> Product \<Rightarrow> int \<Rightarrow> int \<Rightarrow> Order \<times> database \<Rightarrow>
   sys \<Rightarrow> CheckoutOutcome result \<times> sys" where
  "split_purchase e winnerId idempotencyKey correlationId auction product priceCents commissionCents created s =
     book_purchase e winnerId idempotencyKey correlationId auction product
       (formatCentsToMoney commissionCents) (fst created)
       (create_seller_order e (ord_id (fst created)) (pr_sellerProfileId product) (au_currentPrice auction)
          (formatCentsToMoney commissionCents) (formatCentsToMoney (priceCents - commissionCents))
          (snd created)) s"

definition record_purchase ::
  "env \<Rightarrow> uuid \<Rightarrow> string \<Rightarrow> uuid \<Rightarrow> CheckoutRequestDto \<Rightarrow> Auction \<Rightarrow> Product \<Rightarrow> SellerProfile \<Rightarrow>
   sys \<Rightarrow> CheckoutOutcome result \<times> sys" where
  "record_purchase e winnerId idempotencyKey correlationId dto auction product sellerProfile s =
     (case parseMoneyToCents (au_currentPrice auction) of
        Inl err \<Rightarrow> (Inl err, s)
      | Inr priceCents \<Rightarrow>
     (case applyPercent priceCents (sp_commissionRatePercent sellerProfile) of
        Inl err \<Rightarrow> (Inl err, s)
      | Inr commissionCents \<Rightarrow>
          split_purchase e winnerId idempotencyKey correlationId auction product priceCents commissionCents
            (create_order e winnerId (au_currentPrice auction) dto (db s)) s))"

definition runAuctionCheckoutTransaction ::
  "env \<Rightarrow> uuid \<Rightarrow> uuid \<Rightarrow> string \<Rightarrow> uuid \<Rightarrow> CheckoutRequestDto \<Rightarrow> sys \<Rightarrow> CheckoutOutcome result \<times> sys" where
  "runAuctionCheckoutTransaction e winnerId auctionId idempotencyKey correlationId dto s =
     (case claim_key (winnerId, idempotencyKey) (db s) of
        Inl err \<Rightarrow> (Inl err, s)
      | Inr d1 \<Rightarrow>
     (case by_id au_id auctionId (auctions d1) of
        None \<Rightarrow> (Inl (NotFoundException ''Auction not found''), s\<lparr>db := d1\<rparr>)
      | Some auction \<Rightarrow>
          if au_winnerId auction \<noteq> Some winnerId
          then (Inl (ForbiddenException ''Only the auction winner can complete this purchase''), s\<lparr>db := d1\<rparr>)
          else if au_status auction \<noteq> AuctionStatus.AWAITING_PAYMENT
          then (Inl (ConflictException ''This auction is not currently awaiting payment''), s\<lparr>db := d1\<rparr>)
          else if (case au_purchaseWindowEndsAt auction of None \<Rightarrow> True | Some t \<Rightarrow> now e > t)
          then (Inl (ConflictException ''The purchase window for this auction has expired''), s\<lparr>db := d1\<rparr>)
          else
     (case by_id pr_id (au_productId auction) (products d1) of
        None \<Rightarrow> (Inl (NotFoundException ''Product not found''), s\<lparr>db := d1\<rparr>)
      | Some product \<Rightarrow>
     (case update_stock (pr_id product) (\<lambda>q. q \<ge> 1) (- 1) d1 of (affected, d2) \<Rightarrow>
      if affected = 0
      then (Inl (ConflictException ''This item is no longer available for purchase''), s\<lparr>db := d1\<rparr>)
      else
     (case by_id sp_id (pr_sellerProfileId product) (seller_profiles d2) of
        None \<Rightarrow> (Inl (PlainError ''TypeError''), s\<lparr>db := d2\<rparr>)
      | Some sellerProfile \<Rightarrow>
          record_purchase e winnerId idempotencyKey correlationId dto auction product sellerProfile
            (s\<lparr>db := d2\<rparr>))))))"

section \<open>The request handler\<close>

record AuctionCheckoutResult =
  acr_orderId :: uuid
  acr_sellerOrderId :: uuid
  acr_status :: OrderStatus
  acr_totalAmount :: string
  acr_replayed :: bool

definition auction_checkout_toResult :: "Order \<Rightarrow> SellerOrder \<Rightarrow> bool \<Rightarrow> AuctionCheckoutResult" where
  "auction_checkout_toResult order sellerOrder replayed =
     \<lparr>acr_orderId = ord_id order, acr_sellerOrderId = so_id sellerOrder,
      acr_status = ord_status order, acr_totalAmount = ord_totalAmount order, acr_replayed = replayed\<rparr>"

definition replayAuctionCheckout :: "uuid \<Rightarrow> string \<Rightarrow> database \<Rightarrow> AuctionCheckoutResult result" where
  "replayAuctionCheckout winnerId idempotencyKey d =
     (case completed_order (winnerId, idempotencyKey) d of
        None \<Rightarrow> Inl (ConflictException ''A checkout with this Idempotency-Key is already in progress'')
      | Some orderId \<Rightarrow>
          (case by_id ord_id orderId (orders d) of
             None \<Rightarrow> Inl (ConflictException ''A checkout with this Idempotency-Key already completed, but the resulting order could not be found'')
           | Some order \<Rightarrow>
               (case sellerOrders_of orderId d of
                  [] \<Rightarrow> Inl (ConflictException ''A checkout with this Idempotency-Key already completed, but the resulting order could not be found'')
                | so # _ \<Rightarrow> Inr (auction_checkout_toResult order so True))))"

definition auction_checkout ::
  "env \<Rightarrow> uuid \<Rightarrow> uuid \<Rightarrow> string option \<Rightarrow> uuid \<Rightarrow> CheckoutRequestDto \<Rightarrow> sys \<Rightarrow>
   AuctionCheckoutResult result \<times> sys" where
  "auction_checkout e winnerId auctionId key correlationId dto s =
     (case requireIdempotencyKey key of
        Inl err \<Rightarrow> (Inl err, s)
      | Inr idempotencyKey \<Rightarrow>
          let s0 = increment ''auction_checkout_attempts_total'' s in
          (case transaction (runAuctionCheckoutTransaction e winnerId auctionId idempotencyKey correlationId dto) s0 of
             (Inr outcome, s1) \<Rightarrow>
               let s2 = emit (RedisDelProduct (cko_productId outcome)) s1;
                   s3 = emit RedisIncrSearchVersion s2;
                   s4 = increment ''orders_created_total'' (increment ''auction_checkout_succeeded_total'' s3)
               in (Inr (auction_checkout_toResult (cko_order outcome) (cko_sellerOrder outcome) False), s4)
           | (Inl err, s1) \<Rightarrow>
               if isUniqueViolation err
               then let s2 = increment ''auction_checkout_idempotent_replays_total'' s1
                    in (replayAuctionCheckout winnerId idempotencyKey (db s2), s2)
               else (Inl err, increment ''auction_checkout_failed_total'' s1)))"

section \<open>What a purchase writes\<close>

lemmas purchase_defs = record_purchase_def split_purchase_def book_purchase_def finish_purchase_def purchase_events_def purchase_ledger_def

lemma record_purchase_Inr:
  assumes run: "record_purchase e u k corr dto a p sp s = (Inr out, s')" and ok: "books_ok (db s)"
  shows "books_ok (db s') \<and> products (db s') = products (db s) \<and> bids (db s') = bids (db s) \<and>
         next_id (db s) \<le> next_id (db s') \<and> effects s' = effects s \<and>
         auctions (db s') = put_row au_id (stored_auction e (a\<lparr>au_status := AuctionStatus.COMPLETED\<rparr>)) (auctions (db s)) \<and>
         au_status a = AuctionStatus.AWAITING_PAYMENT \<and>
         checkout_keys (db s') = checkout_keys (complete_key (u, k) (ord_id (cko_order out)) (db s)) \<and>
         orders (db s') = orders (db s) @ [cko_order out] \<and>
         ord_totalAmount (cko_order out) = au_currentPrice a \<and> ord_buyerId (cko_order out) = u \<and>
         sellerOrders_of (ord_id (cko_order out)) (db s') = [cko_sellerOrder out] \<and>
         booked_for (ord_id (cko_order out)) (cko_sellerOrder out) \<and>
         so_subtotal (cko_sellerOrder out) = au_currentPrice a \<and> cko_productId out = pr_id p"
proof -
  let ?price = "au_currentPrice a"
  obtain c where c: "parseMoneyToCents ?price = Inr c"
    using run by (auto simp: record_purchase_def split: sum.splits)
  obtain com where com: "applyPercent c (sp_commissionRatePercent sp) = Inr com"
    using run c by (auto simp: record_purchase_def split: sum.splits)
  have st: "au_status a = AuctionStatus.AWAITING_PAYMENT"
    using run c com by (cases "au_status a")
      (auto simp: purchase_defs assertValidAuctionTransition_def split: prod.splits)
  define o' where "o' = fst (create_order e u ?price dto (db s))"
  define d1 where "d1 = (db s)\<lparr>next_id := next_id (db s) + 1, orders := orders (db s) @ [o']\<rparr>"
  have o': "ord_id o' = next_id (db s)" "ord_buyerId o' = u" "ord_totalAmount o' = ?price"
    "create_order e u ?price dto (db s) = (o', d1)"
    by (simp_all add: o'_def d1_def create_order_def Let_def)
  define so where "so = \<lparr>so_id = next_id d1, so_orderId = ord_id o', so_sellerProfileId = pr_sellerProfileId p,
     so_subtotal = ?price, so_commissionAmount = formatCentsToMoney com,
     so_sellerNetAmount = formatCentsToMoney (c - com),
     so_status = SellerOrderStatus.AWAITING_FULFILLMENT, so_createdAt = now e\<rparr>"
  have so: "create_seller_order e (ord_id o') (pr_sellerProfileId p) ?price (formatCentsToMoney com)
      (formatCentsToMoney (c - com)) d1 = (so, d1\<lparr>next_id := next_id d1 + 1, seller_orders := seller_orders d1 @ [so]\<rparr>)"
    by (simp add: so_def create_seller_order_def Let_def)
  have bal: "so_balanced so" "cents (so_subtotal so) = c" "cents (so_commissionAmount so) = com"
    using c by (simp_all add: so_balanced_def so_def is_money_def cents_parse)
  have out: "out = \<lparr>cko_order = o', cko_sellerOrder = so, cko_productId = pr_id p\<rparr>"
    using run c com st o'(4) so
    by (auto simp: purchase_defs assertValidAuctionTransition_def)
  obtain item e1 e2 where rows: "seller_order_items (db s') = seller_order_items d1 @ [item]"
      "ledger_entries (db s') = ledger_entries d1 @ [e1, e2]"
      "soi_sellerOrderId item = so_id so" "soi_lineTotal item = ?price"
      "le_sellerOrderId e1 = Some (so_id so)" "le_type e1 = SALE_CREDIT" "le_amount e1 = ?price"
      "le_sellerOrderId e2 = Some (so_id so)" "le_type e2 = COMMISSION_DEBIT"
      "le_amount e2 = formatCentsToMoney com"
    using run c com st o'(4) so
    by (auto simp: purchase_defs assertValidAuctionTransition_def save_auction_def
          complete_key_def create_ledger_entry_def create_seller_order_item_def)
  have frame: "seller_orders (db s') = seller_orders d1 @ [so]" "orders (db s') = orders d1"
    "next_id d1 < next_id (db s')" "products (db s') = products (db s)" "bids (db s') = bids (db s)"
    "auctions (db s') = put_row au_id (stored_auction e (a\<lparr>au_status := AuctionStatus.COMPLETED\<rparr>)) (auctions (db s))"
    "checkout_keys (db s') = checkout_keys (complete_key (u, k) (ord_id o') (db s))" "effects s' = effects s"
    using run c com st o'(4) so
    by (auto simp: purchase_defs assertValidAuctionTransition_def save_auction_def
          complete_key_def create_ledger_entry_def create_seller_order_item_def d1_def)
  note added = books_order_added [OF ok o'(1) d1_def]
  have so_ids: "so_id so = next_id d1" "so_orderId so < next_id d1" "so_orderId so = ord_id o'"
    using o'(1) by (simp_all add: so_def d1_def)
  have B: "refs_ok (db s')" "sellers_booked (db s')"
    using book_seller_order [of d1 so "[item]" e1 e2 "db s'"] added so_ids bal rows frame c
    by (simp_all add: cents_parse)
  have closed: "orders_total (db s') \<and> sellerOrders_of (ord_id o') (db s') = [so]"
    by (rule books_order_closed [OF ok o'(1)])
       (use frame so_ids bal c o' in \<open>simp_all add: d1_def cents_parse\<close>)
  show ?thesis
    using B closed frame out o' st bal so_ids
    by (simp add: books_ok_def booked_for_def so_def d1_def)
qed

text \<open>The conditions under which a purchase goes through.\<close>

definition may_purchase :: "env \<Rightarrow> uuid \<Rightarrow> Auction \<Rightarrow> bool" where
  "may_purchase e u a \<longleftrightarrow>
     au_winnerId a = Some u \<and> au_status a = AuctionStatus.AWAITING_PAYMENT \<and>
     (\<exists>t \<in> set_option (au_purchaseWindowEndsAt a). now e \<le> t)"

lemma window_open_iff:
  "\<not> (case au_purchaseWindowEndsAt a of None \<Rightarrow> True | Some t \<Rightarrow> now e > t)
     \<longleftrightarrow> (\<exists>t \<in> set_option (au_purchaseWindowEndsAt a). now e \<le> t)"
  by (cases "au_purchaseWindowEndsAt a") auto

lemma update_stock_one:
  assumes dist: "distinct (map pr_id (products d))" and u: "update_stock i (\<lambda>q. q \<ge> k) (- k) d = (n, d')" "n \<noteq> 0"
  shows "d' = d\<lparr>products := stock_less (\<lambda>j. if i = j then k else 0) (products d)\<rparr> \<and>
         (\<exists>p \<in> set (products d). pr_id p = i \<and> k \<le> pr_stockQuantity p)"
proof -
  have "take_item \<lparr>ci_id = 0, ci_cartId = 0, ci_productId = i, ci_quantity = k\<rparr> d = Some d'"
    using u by (simp add: take_item_def)
  from take_item_Some [OF dist this] show ?thesis by (simp cong: if_cong)
qed

lemma runAuctionCheckout_Inr:
  assumes run: "runAuctionCheckoutTransaction e u i k corr dto s = (Inr out, s')"
    and ok: "books_ok (db s)" and inv: "bidding_inv (db s)" and num: "numeric_ok e"
    and dist: "distinct (map pr_id (products (db s)))"
  obtains a d1 where "by_id au_id i (auctions (db s)) = Some a" "may_purchase e u a"
    "claim_key (u, k) (db s) = Inr d1"
    "books_ok (db s')" "bidding_inv (db s')" "effects s' = effects s"
    "products (db s') = stock_less (\<lambda>j. if au_productId a = j then 1 else 0) (products (db s))"
    "\<exists>p \<in> set (products (db s)). pr_id p = au_productId a \<and> 1 \<le> pr_stockQuantity p"
    "auctions (db s') = put_row au_id (stored_auction e (a\<lparr>au_status := AuctionStatus.COMPLETED\<rparr>)) (auctions (db s))"
    "checkout_keys (db s') = checkout_keys (complete_key (u, k) (ord_id (cko_order out)) d1)"
    "orders (db s') = orders (db s) @ [cko_order out]" "ord_buyerId (cko_order out) = u"
    "ord_totalAmount (cko_order out) = au_currentPrice a"
    "sellerOrders_of (ord_id (cko_order out)) (db s') = [cko_sellerOrder out]"
    "booked_for (ord_id (cko_order out)) (cko_sellerOrder out)"
    "so_subtotal (cko_sellerOrder out) = au_currentPrice a" "cko_productId out = au_productId a"
proof -
  obtain d1 where d1: "claim_key (u, k) (db s) = Inr d1"
    using run by (auto simp: runAuctionCheckoutTransaction_def split: sum.splits)
  have d1f: "same_books (db s) d1" "auctions d1 = auctions (db s)" "bids d1 = bids (db s)"
    "products d1 = products (db s)" "next_id (db s) \<le> next_id d1"
    using d1 by (auto simp: claim_key_def same_books_def split: if_splits)
  obtain a where a: "by_id au_id i (auctions (db s)) = Some a"
    using run d1 d1f by (auto simp: runAuctionCheckoutTransaction_def Let_def split: option.splits)
  have may: "may_purchase e u a"
    using run d1 d1f a by (auto simp: runAuctionCheckoutTransaction_def Let_def may_purchase_def
        window_open_iff [symmetric] split: if_splits)
  then have g: "au_winnerId a = Some u" "au_status a = AuctionStatus.AWAITING_PAYMENT"
    "\<not> (case au_purchaseWindowEndsAt a of None \<Rightarrow> True | Some t \<Rightarrow> now e > t)"
    by (auto simp: may_purchase_def window_open_iff)
  obtain p where p: "by_id pr_id (au_productId a) (products (db s)) = Some p"
    using run d1 d1f a g by (auto simp: runAuctionCheckoutTransaction_def Let_def split: option.splits)
  have idp: "pr_id p = au_productId a" using by_id_SomeD [OF p] by simp
  obtain n d2 where n: "update_stock (pr_id p) (\<lambda>q. q \<ge> 1) (- 1) d1 = (n, d2)" by fastforce
  have nz: "n \<noteq> 0"
    using run d1 d1f a g p n by (auto simp: runAuctionCheckoutTransaction_def Let_def split: if_splits)
  note st = update_stock_one [OF dist [folded d1f(4)] n nz]
  obtain sp where rp: "record_purchase e u k corr dto a p sp (s\<lparr>db := d2\<rparr>) = (Inr out, s')"
    using run d1 d1f a g p n nz
    by (auto simp: runAuctionCheckoutTransaction_def Let_def split: option.splits)
  have "same_books d1 d2" using st by (simp add: same_books_def)
  then have ok2: "books_ok (db (s\<lparr>db := d2\<rparr>))"
    using same_books_ok ok d1f(1) by auto
  note R = record_purchase_Inr [OF rp ok2]
  have aok: "auction_ok (db s) a" using bidding_inv_auction [OF inv a] .
  have "auction_move e i (db s) (db s' \<lparr>products := products (db s)\<rparr>)"
    by (rule auction_moveI [OF a terms_kept_status [OF aok, of AuctionStatus.COMPLETED]])
       (use R st d1f g in auto)
  from auction_move_inv [OF inv num this] have "bidding_inv (db s')"
    by (simp add: bidding_inv_def auction_ok_def auction_bids_def)
  then show ?thesis
    using R st d1f idp by (intro that [OF a may d1]) (simp_all add: complete_key_def same_books_def)
qed

lemma effects_record_purchase [simp]: "effects (snd (record_purchase e u k corr dto a p sp s)) = effects s"
  by (simp add: purchase_defs split: sum.split prod.split)

lemma effects_runAuctionCheckout:
  "effects (snd (runAuctionCheckoutTransaction e u i k corr dto s)) = effects s"
  by (simp add: runAuctionCheckoutTransaction_def Let_def split: sum.split option.split prod.split)

lemma replayAuction_shape: "replayAuctionCheckout u k d = Inr r \<Longrightarrow> acr_replayed r"
  by (auto simp: replayAuctionCheckout_def auction_checkout_toResult_def split: option.splits list.splits)

lemma auction_checkout_Inr_cases:
  assumes "auction_checkout e u i key corr dto s = (Inr r, s')"
  obtains (ran) k out s1 where "requireIdempotencyKey key = Inr k"
      "runAuctionCheckoutTransaction e u i k corr dto (increment ''auction_checkout_attempts_total'' s) = (Inr out, s1)"
      "r = auction_checkout_toResult (cko_order out) (cko_sellerOrder out) False" "db s' = db s1"
      "effects s' = effects s1 @ [RedisDelProduct (cko_productId out), RedisIncrSearchVersion]"
  | (replayed) k where "requireIdempotencyKey key = Inr k" "replayAuctionCheckout u k (db s) = Inr r"
      "db s' = db s" "effects s' = effects s" "acr_replayed r"
proof (cases "requireIdempotencyKey key")
  case (Inr k)
  let ?s0 = "increment ''auction_checkout_attempts_total'' s"
  obtain t s1 where t: "transaction (runAuctionCheckoutTransaction e u i k corr dto) ?s0 = (t, s1)" by fastforce
  show ?thesis
  proof (cases t)
    case (Inl err)
    then have d: "db s1 = db s \<and> effects s1 = effects s"
      using transaction_error [of "runAuctionCheckoutTransaction e u i k corr dto" ?s0 err s1] t
      by (simp add: effects_runAuctionCheckout)
    have rr: "replayAuctionCheckout u k (db s) = Inr r" "db s' = db s" "effects s' = effects s"
      using assms Inr Inl t d by (auto simp: auction_checkout_def Let_def split: if_splits)
    show ?thesis by (rule replayed [OF Inr rr replayAuction_shape [OF rr(1)]])
  next
    case out: (Inr out)
    have run: "runAuctionCheckoutTransaction e u i k corr dto ?s0 = (Inr out, s1)"
      using t out by (simp add: transaction_Inr)
    show ?thesis
      by (rule ran [OF Inr run]) (use assms Inr out t in \<open>auto simp: auction_checkout_def Let_def\<close>)
  qed
qed (use assms in \<open>simp add: auction_checkout_def\<close>)

lemma auction_checkout_Inl:
  assumes "auction_checkout e u i key corr dto s = (Inl err, s')"
  shows "db s' = db s \<and> effects s' = effects s"
proof (cases "requireIdempotencyKey key")
  case (Inr k)
  let ?s0 = "increment ''auction_checkout_attempts_total'' s"
  obtain t s1 where t: "transaction (runAuctionCheckoutTransaction e u i k corr dto) ?s0 = (t, s1)" by fastforce
  show ?thesis
  proof (cases t)
    case (Inl err')
    then have "db s1 = db s \<and> effects s1 = effects s"
      using transaction_error [of "runAuctionCheckoutTransaction e u i k corr dto" ?s0 err' s1] t
      by (simp add: effects_runAuctionCheckout)
    with assms Inr Inl t show ?thesis by (auto simp: auction_checkout_def Let_def split: if_splits)
  qed (use assms Inr t in \<open>simp add: auction_checkout_def Let_def\<close>)
qed (use assms in \<open>simp add: auction_checkout_def\<close>)

lemma auction_checkout_claimed:
  assumes "requireIdempotencyKey key = Inr k" "key_claimed (u, k) (db s)"
  shows "auction_checkout e u i key corr dto s
           = (replayAuctionCheckout u k (db s), increment ''auction_checkout_idempotent_replays_total''
                (increment ''auction_checkout_attempts_total'' s))"
  using assms
  by (simp add: auction_checkout_def Let_def transaction_def runAuctionCheckoutTransaction_def
        claim_key_def increment_def)

section \<open>Properties\<close>

text \<open>
  C9: A fresh purchase of an auction: only the recorded winner, while payment is awaited and the
  window has not passed, buys it, for exactly the winning price; one unit of the product is
  taken, the auction is COMPLETED, no other auction changes, the order has one seller order
  carrying the whole price split into commission and net, and both the bidding tables and the
  books stay consistent.
\<close>
theorem auction_checkout_purchase:
  assumes ok: "books_ok (db s)" and inv: "bidding_inv (db s)" and num: "numeric_ok e"
    and dist: "distinct (map pr_id (products (db s)))"
    and run: "auction_checkout e u i key corr dto s = (Inr r, s')" and new: "\<not> acr_replayed r"
  shows "books_ok (db s') \<and> bidding_inv (db s') \<and>
         (\<exists>a. by_id au_id i (auctions (db s)) = Some a \<and> may_purchase e u a \<and>
              acr_totalAmount r = au_currentPrice a \<and>
              by_id au_id i (auctions (db s')) = Some (stored_auction e (a\<lparr>au_status := AuctionStatus.COMPLETED\<rparr>)) \<and>
              (\<forall>j. j \<noteq> i \<longrightarrow> by_id au_id j (auctions (db s')) = by_id au_id j (auctions (db s))) \<and>
              products (db s') = map (\<lambda>p. if pr_id p = au_productId a
                  then p\<lparr>pr_stockQuantity := pr_stockQuantity p - 1\<rparr> else p) (products (db s)) \<and>
              (\<exists>so. sellerOrders_of (acr_orderId r) (db s') = [so] \<and> so_id so = acr_sellerOrderId r \<and>
                    so_subtotal so = au_currentPrice a \<and> so_balanced so))"
  using run
proof (cases rule: auction_checkout_Inr_cases)
  case (ran k out s1)
  let ?s0 = "increment ''auction_checkout_attempts_total'' s"
  from ran(2) ok inv num dist show ?thesis
  proof (cases rule: runAuctionCheckout_Inr [of e u i k corr dto ?s0 out s1, simplified, consumes 5, case_names main])
    case (main a d1)
    have ida: "au_id a = i" using by_id_SomeD [OF main(1)] by simp
    have row: "by_id au_id i (auctions (db s1)) = Some (stored_auction e (a\<lparr>au_status := AuctionStatus.COMPLETED\<rparr>))"
      using by_id_put_row_same [OF main(1)] main(9) ida by simp
    have other: "\<forall>j. j \<noteq> i \<longrightarrow> by_id au_id j (auctions (db s1)) = by_id au_id j (auctions (db s))"
      using by_id_put_row_other [of au_id "stored_auction e (a\<lparr>au_status := AuctionStatus.COMPLETED\<rparr>)"] main(9) ida
      by simp
    have prods: "products (db s1) = map (\<lambda>p. if pr_id p = au_productId a
        then p\<lparr>pr_stockQuantity := pr_stockQuantity p - 1\<rparr> else p) (products (db s))"
      unfolding main(7) stock_less_def by (intro map_cong refl) auto
    show ?thesis
      using main(1,2,4,5,13,14,15,16) row other prods ran(3,4)
      by (simp add: auction_checkout_toResult_def booked_for_def)
  qed
qed (use new in simp)

text \<open>
  An auction is sold at most once and a purchase is idempotent: after a purchase, repeating the
  request with its key reports the same order as replayed, and any request for that auction under
  an unclaimed key, by anybody and at any time, fails; neither writes anything.
\<close>
theorem auction_sold_once:
  assumes ok: "books_ok (db s)" and inv: "bidding_inv (db s)" and num: "numeric_ok e"
    and dist: "distinct (map pr_id (products (db s)))"
    and run: "auction_checkout e u i key corr dto s = (Inr r, s')" and new: "\<not> acr_replayed r"
  shows "(\<exists>s''. auction_checkout e' u i key corr' dto' s' = (Inr (r\<lparr>acr_replayed := True\<rparr>), s'') \<and>
                db s'' = db s' \<and> effects s'' = effects s') \<and>
         (\<forall>u' k'. \<not> key_claimed (u', k') (db s') \<longrightarrow>
            (\<exists>err s''. auction_checkout e' u' i (Some k') corr' dto' s' = (Inl err, s'') \<and>
                       db s'' = db s' \<and> effects s'' = effects s'))"
  using run
proof (cases rule: auction_checkout_Inr_cases)
  case (ran k out s1)
  let ?s0 = "increment ''auction_checkout_attempts_total'' s"
  from ran(2) ok inv num dist show ?thesis
  proof (cases rule: runAuctionCheckout_Inr [of e u i k corr dto ?s0 out s1, simplified, consumes 5, case_names main])
    case (main a d1)
    let ?oid = "ord_id (cko_order out)" and ?a = "stored_auction e (a\<lparr>au_status := AuctionStatus.COMPLETED\<rparr>)"
    have fin: "completed_order (u, k) (db s') = Some ?oid"
      using checkout_ledger.completed [OF main(3), of ?oid] main(10) ran(4)
        completed_order_cong [of "db s'" "complete_key (u, k) ?oid d1"] by simp
    have "distinct (map ord_id (orders (db s')))"
      using main(4) ran(4) by (simp add: books_ok_def refs_ok_def)
    then have "by_id ord_id ?oid (orders (db s')) = Some (cko_order out)"
      using main(11) ran(4) by (intro by_id_unique) simp_all
    with fin have "replayAuctionCheckout u k (db s') = Inr (r\<lparr>acr_replayed := True\<rparr>)"
      using main(14) ran(3,4) by (simp add: replayAuctionCheckout_def auction_checkout_toResult_def)
    then have again: "\<exists>s''. auction_checkout e' u i key corr' dto' s' = (Inr (r\<lparr>acr_replayed := True\<rparr>), s'') \<and>
        db s'' = db s' \<and> effects s'' = effects s'"
      using auction_checkout_claimed [OF ran(1) completed_claimed [OF fin]] by simp
    have ida: "au_id a = i" using by_id_SomeD [OF main(1)] by simp
    have row: "by_id au_id i (auctions (db s')) = Some ?a"
      using by_id_put_row_same [OF main(1), of ?a] main(9) ran(4) ida by simp
    have "\<exists>err s''. auction_checkout e' u' i (Some k') corr' dto' s' = (Inl err, s'') \<and>
        db s'' = db s' \<and> effects s'' = effects s'"
      if un: "\<not> key_claimed (u', k') (db s')" for u' k'
    proof (cases "auction_checkout e' u' i (Some k') corr' dto' s'")
      case (Pair r' s'')
      show ?thesis
      proof (cases r')
        case (Inl err)
        with Pair auction_checkout_Inl [of e' u' i "Some k'" corr' dto' s' err s''] show ?thesis by simp
      next
        case (Inr v)
        from Pair [unfolded Inr] show ?thesis
        proof (cases rule: auction_checkout_Inr_cases)
          case (ran k2 out2 s2)
          then have False
            using row by (auto simp: runAuctionCheckoutTransaction_def claim_key_def Let_def
                split: if_splits sum.splits)
          then show ?thesis ..
        next
          case (replayed k2)
          have "k2 = k'" using requireIdempotencyKey_Inr [OF replayed(1)] by simp
          then show ?thesis using replayed(2) un completed_claimed
            by (auto simp: replayAuctionCheckout_def split: option.splits)
        qed
      qed
    qed
    with again show ?thesis by blast
  qed
qed (use new in simp)

text \<open>
  A purchase that fails leaves no trace: a stranger, a second buyer, a missed window, a sold-out
  product or a malformed price roll everything back, including the claim of the key.
\<close>
theorem auction_checkout_failure_unchanged:
  assumes "auction_checkout e u i key corr dto s = (Inl err, s')"
  shows "db s' = db s \<and> effects s' = effects s"
  using auction_checkout_Inl [OF assms] .

text \<open>
  The instant the window ends: the buyer's page already says the purchase is closed, the expiry
  job may already expire the auction, and a purchase is still accepted.
\<close>
theorem purchase_deadline_instant:
  assumes a: "by_id au_id i (auctions (db s)) = Some a" and w: "au_winnerId a = Some u"
    and st: "au_status a = AuctionStatus.AWAITING_PAYMENT" and t: "au_purchaseWindowEndsAt a = Some (now e)"
  shows "winnerState e i u (db s) = Inr \<lparr>aw_isWinner = True, aw_canCheckout = False,
            aw_purchaseWindowEndsAt = Some (now e)\<rparr> \<and>
         window_over e a \<and> may_purchase e u a"
  using assms by (simp add: winnerState_def window_over_def may_purchase_def Let_def)

section \<open>A concrete purchase\<close>

definition won_sys :: sys where
  "won_sys = start_sys (sample_db\<lparr>next_id := 11,
     bids := [\<lparr>bid_id = 10, bid_auctionId = 3, bid_bidderId = 8, bid_amount = ''12.00'',
               bid_idempotencyKey = ''k1'', bid_createdAt = 5\<rparr>],
     auctions := [sample_auction\<lparr>au_status := AuctionStatus.AWAITING_PAYMENT, au_winnerId := Some 8,
               au_winningBidId := Some 10, au_currentPrice := ''12.00'',
               au_finalizedAt := Some 2000, au_purchaseWindowEndsAt := Some 3602000\<rparr>]\<rparr>)"

definition sample_purchase :: "AuctionCheckoutResult result \<times> sys" where
  "sample_purchase = auction_checkout (sample_env 3000) 8 3 (Some ''k'') 0 no_address won_sys"

definition sample_purchase_result :: AuctionCheckoutResult where
  "sample_purchase_result = (case fst sample_purchase of Inr r \<Rightarrow> r | Inl e \<Rightarrow> undefined)"

lemma won_ok: "books_ok (db won_sys)" "bidding_inv (db won_sys)" "distinct (map pr_id (products (db won_sys)))"
  by code_simp+

lemma sample_purchase_runs:
  "sample_purchase = (Inr sample_purchase_result, snd sample_purchase)" "\<not> acr_replayed sample_purchase_result"
proof -
  have "\<not> is_error (fst sample_purchase)" by code_simp
  then obtain r where r: "fst sample_purchase = Inr r" by (auto simp: not_is_error_iff)
  then show "sample_purchase = (Inr sample_purchase_result, snd sample_purchase)"
    by (simp add: sample_purchase_result_def prod_eq_iff)
  show "\<not> acr_replayed sample_purchase_result" by code_simp
qed

theorem auction_checkout_purchase_witness:
  "books_ok (db (snd sample_purchase)) \<and> bidding_inv (db (snd sample_purchase)) \<and>
   acr_totalAmount sample_purchase_result = ''12.00''"
proof -
  have a: "by_id au_id 3 (auctions (db won_sys)) \<noteq> None" by code_simp
  have p: "map_option au_currentPrice (by_id au_id 3 (auctions (db won_sys))) = Some ''12.00''" by code_simp
  show ?thesis
    using auction_checkout_purchase [OF won_ok(1,2) sample_numeric_ok won_ok(3)
        sample_purchase_runs(1) [unfolded sample_purchase_def] sample_purchase_runs(2)] p
    unfolding sample_purchase_def by auto
qed

theorem auction_sold_once_witness:
  "\<exists>err s''. auction_checkout (sample_env 3001) 9 3 (Some ''x'') 0 no_address (snd sample_purchase) = (Inl err, s'')"
proof -
  have "\<not> key_claimed (9, ''x'') (db (snd sample_purchase))" by code_simp
  then show ?thesis
    using auction_sold_once [OF won_ok(1,2) sample_numeric_ok won_ok(3)
        sample_purchase_runs(1) [unfolded sample_purchase_def] sample_purchase_runs(2),
        of "sample_env 3001" 0 no_address]
    unfolding sample_purchase_def by blast
qed

theorem auction_checkout_failure_unchanged_witness:
  "db (snd (auction_checkout (sample_env 3000) 9 3 (Some ''k'') 0 no_address won_sys)) = db won_sys"
proof -
  have "fst (auction_checkout (sample_env 3000) 9 3 (Some ''k'') 0 no_address won_sys)
      = Inl (ForbiddenException ''Only the auction winner can complete this purchase'')" by code_simp
  then have "auction_checkout (sample_env 3000) 9 3 (Some ''k'') 0 no_address won_sys
      = (Inl (ForbiddenException ''Only the auction winner can complete this purchase''),
         snd (auction_checkout (sample_env 3000) 9 3 (Some ''k'') 0 no_address won_sys))"
    by (simp add: prod_eq_iff)
  from auction_checkout_failure_unchanged [OF this] show ?thesis by simp
qed

theorem purchase_deadline_instant_witness:
  "\<exists>a. by_id au_id 3 (auctions (db won_sys)) = Some a \<and>
       window_over (sample_env 3602000) a \<and> may_purchase (sample_env 3602000) 8 a"
proof -
  have "by_id au_id 3 (auctions (db won_sys)) \<noteq> None" by code_simp
  then obtain a where a: "by_id au_id 3 (auctions (db won_sys)) = Some a" by blast
  have "map_option (\<lambda>a. (au_winnerId a, au_status a, au_purchaseWindowEndsAt a))
      (by_id au_id 3 (auctions (db won_sys))) = Some (Some 8, AuctionStatus.AWAITING_PAYMENT, Some 3602000)"
    by code_simp
  then have "au_winnerId a = Some 8" "au_status a = AuctionStatus.AWAITING_PAYMENT"
    "au_purchaseWindowEndsAt a = Some (now (sample_env 3602000))"
    using a by (simp_all add: sample_env_def)
  from purchase_deadline_instant [OF a this] show ?thesis using a by blast
qed

end
