(* ===== verification/Seller_Orders.thy ===== *)
theory Seller_Orders
  imports Checkout Consumers
begin

text \<open>
  The life of a seller order after checkout: the status changes and the cancellation a seller or
  an admin asks for (\<open>modules/orders/seller-order-lifecycle.service.ts\<close>), the stock they restore
  (\<open>stock-restoration.util.ts\<close>), the aggregate status of the parent order, and the consumer that
  starts processing (\<open>modules/seller-order-processing\<close>).
\<close>

section \<open>Shared steps\<close>

datatype LifecycleActor = BySeller uuid | ByAdmin

definition lockOwnedSellerOrder :: "LifecycleActor \<Rightarrow> uuid \<Rightarrow> database \<Rightarrow> SellerOrder result" where
  "lockOwnedSellerOrder actor sellerOrderId d =
     (case find (\<lambda>so. so_id so = sellerOrderId \<and>
                      (case actor of BySeller sellerProfileId \<Rightarrow> so_sellerProfileId so = sellerProfileId
                                   | ByAdmin \<Rightarrow> True)) (seller_orders d) of
        None \<Rightarrow> Inl (NotFoundException ''Seller order not found'')
      | Some so \<Rightarrow> Inr so)"

definition restoreProductStock :: "uuid \<Rightarrow> int \<Rightarrow> database \<Rightarrow> bool \<times> database" where
  "restoreProductStock productId quantity d =
     (fst (update_stock productId (\<lambda>q. True) quantity d) \<noteq> 0,
      snd (update_stock productId (\<lambda>q. True) quantity d))"

text \<open>Siblings' statuses as they are in the rows now decide the parent's; an event only if it moved.\<close>

definition set_parent_status :: "uuid \<Rightarrow> Order \<Rightarrow> OrderStatus \<Rightarrow> sys \<Rightarrow> sys" where
  "set_parent_status correlationId order nextStatus s =
     outbox_record ''ORDER_STATUS_CHANGED'' ''Order'' (ord_id order)
       [(''orderId'', JId (ord_id order)), (''from'', JOrderStatus (ord_status order)),
        (''to'', JOrderStatus nextStatus)] correlationId
     (upd_db (save_order (order\<lparr>ord_status := nextStatus\<rparr>)) s)"

definition recomputeParentOrderStatus :: "uuid \<Rightarrow> uuid \<Rightarrow> sys \<Rightarrow> sys" where
  "recomputeParentOrderStatus orderId correlationId s =
     (case by_id ord_id orderId (orders (db s)) of
        None \<Rightarrow> s
      | Some order \<Rightarrow>
          if ord_status order = deriveParentOrderStatus (map so_status (sellerOrders_of orderId (db s)))
          then s
          else set_parent_status correlationId order
                 (deriveParentOrderStatus (map so_status (sellerOrders_of orderId (db s)))) s)"

section \<open>Status changes\<close>

definition record_status_change :: "SellerOrder \<Rightarrow> SellerOrderStatus \<Rightarrow> uuid \<Rightarrow> sys \<Rightarrow> sys" where
  "record_status_change sellerOrder targetStatus =
     outbox_record ''SELLER_ORDER_STATUS_CHANGED'' ''SellerOrder'' (so_id sellerOrder)
       [(''sellerOrderId'', JId (so_id sellerOrder)), (''orderId'', JId (so_orderId sellerOrder)),
        (''from'', JSellerOrderStatus (so_status sellerOrder)),
        (''to'', JSellerOrderStatus targetStatus)]"

definition runUpdateStatus ::
  "LifecycleActor \<Rightarrow> uuid \<Rightarrow> SellerOrderStatus \<Rightarrow> uuid \<Rightarrow> sys \<Rightarrow> SellerOrder result \<times> sys" where
  "runUpdateStatus actor sellerOrderId targetStatus correlationId s =
     (case lockOwnedSellerOrder actor sellerOrderId (db s) of
        Inl err \<Rightarrow> (Inl err, s)
      | Inr sellerOrder \<Rightarrow>
     (case assertValidStatusTransition (so_status sellerOrder) targetStatus of
        Inl err \<Rightarrow> (Inl err, s)
      | Inr _ \<Rightarrow>
          (Inr (sellerOrder\<lparr>so_status := targetStatus\<rparr>),
           recomputeParentOrderStatus (so_orderId sellerOrder) correlationId
             (record_status_change sellerOrder targetStatus correlationId
               (increment ''seller_order_status_changes_total''
                 (upd_db (save_seller_order (sellerOrder\<lparr>so_status := targetStatus\<rparr>)) s))))))"

definition updateStatus ::
  "LifecycleActor \<Rightarrow> uuid \<Rightarrow> SellerOrderStatus \<Rightarrow> uuid \<Rightarrow> sys \<Rightarrow> SellerOrder result \<times> sys" where
  "updateStatus actor sellerOrderId targetStatus correlationId =
     transaction (runUpdateStatus actor sellerOrderId targetStatus correlationId)"

section \<open>Cancellation\<close>

record CancelOutcome =
  cn_sellerOrder :: SellerOrder
  cn_touchedProductIds :: "uuid list"
  cn_alreadyCancelled :: bool

definition record_restored :: "uuid \<Rightarrow> uuid \<Rightarrow> sys \<Rightarrow> sys" where
  "record_restored correlationId productId =
     outbox_record ''STOCK_CHANGED'' ''Product'' productId [(''productId'', JId productId)] correlationId"

fun restore_items :: "uuid \<Rightarrow> SellerOrderItem list \<Rightarrow> sys \<Rightarrow> uuid list \<times> sys" where
  "restore_items correlationId [] s = ([], s)"
| "restore_items correlationId (item # items) s =
     (case soi_productId item of
        None \<Rightarrow> restore_items correlationId items s
      | Some productId \<Rightarrow>
     (case restoreProductStock productId (soi_quantity item) (db s) of
        (False, d) \<Rightarrow> restore_items correlationId items (s\<lparr>db := d\<rparr>)
      | (True, d) \<Rightarrow>
          (case restore_items correlationId items (record_restored correlationId productId (s\<lparr>db := d\<rparr>)) of
             (touched, s') \<Rightarrow> (productId # touched, s'))))"

definition reverse_ledger :: "SellerOrder \<Rightarrow> uuid \<Rightarrow> database \<Rightarrow> database" where
  "reverse_ledger sellerOrder correlationId d =
     create_ledger_entry (so_sellerProfileId sellerOrder) PLATFORM_COMMISSION_REVERSAL
       (so_commissionAmount sellerOrder) (Some (so_id sellerOrder)) None correlationId
       (create_ledger_entry (so_sellerProfileId sellerOrder) SELLER_EARNING_REVERSAL
          (so_subtotal sellerOrder) (Some (so_id sellerOrder)) None correlationId d)"

text \<open>Everything after the stock loop: ledger, status, event, parent.\<close>

definition finish_cancel :: "SellerOrder \<Rightarrow> uuid \<Rightarrow> sys \<Rightarrow> sys" where
  "finish_cancel sellerOrder correlationId s =
     recomputeParentOrderStatus (so_orderId sellerOrder) correlationId
       (outbox_record ''SELLER_ORDER_CANCELLED'' ''SellerOrder'' (so_id sellerOrder)
          [(''sellerOrderId'', JId (so_id sellerOrder)), (''orderId'', JId (so_orderId sellerOrder))]
          correlationId
          (upd_db (save_seller_order (sellerOrder\<lparr>so_status := SellerOrderStatus.CANCELLED\<rparr>))
             (increment ''seller_order_cancellations_total''
                (upd_db (reverse_ledger sellerOrder correlationId) s))))"

definition runCancelSellerOrder ::
  "LifecycleActor \<Rightarrow> uuid \<Rightarrow> uuid \<Rightarrow> sys \<Rightarrow> CancelOutcome result \<times> sys" where
  "runCancelSellerOrder actor sellerOrderId correlationId s =
     (case lockOwnedSellerOrder actor sellerOrderId (db s) of
        Inl err \<Rightarrow> (Inl err, s)
      | Inr sellerOrder \<Rightarrow>
          if so_status sellerOrder = SellerOrderStatus.CANCELLED
          then (Inr \<lparr>cn_sellerOrder = sellerOrder, cn_touchedProductIds = [], cn_alreadyCancelled = True\<rparr>, s)
          else
     (case assertCancellable (so_status sellerOrder) of
        Inl err \<Rightarrow> (Inl err, s)
      | Inr _ \<Rightarrow>
     (case restore_items correlationId (items_of sellerOrderId (db s)) s of
        (touched, s1) \<Rightarrow>
          (Inr \<lparr>cn_sellerOrder = sellerOrder\<lparr>so_status := SellerOrderStatus.CANCELLED\<rparr>,
                cn_touchedProductIds = touched, cn_alreadyCancelled = False\<rparr>,
           finish_cancel sellerOrder correlationId s1))))"

definition cancel_seller_order ::
  "LifecycleActor \<Rightarrow> uuid \<Rightarrow> uuid \<Rightarrow> sys \<Rightarrow> SellerOrder result \<times> sys" where
  "cancel_seller_order actor sellerOrderId correlationId s =
     (case transaction (runCancelSellerOrder actor sellerOrderId correlationId) s of
        (Inl err, s1) \<Rightarrow> (Inl err, s1)
      | (Inr outcome, s1) \<Rightarrow>
          (Inr (cn_sellerOrder outcome),
           if cn_alreadyCancelled outcome then s1
           else emit RedisIncrSearchVersion
                  (fold (\<lambda>p. emit (RedisDelProduct p)) (cn_touchedProductIds outcome) s1)))"

section \<open>The consumer that starts processing\<close>

definition CONSUMER_NAME :: string where
  "CONSUMER_NAME = ''seller-order-processing''"

definition runStartProcessing :: "uuid \<Rightarrow> uuid \<Rightarrow> sys \<Rightarrow> bool result \<times> sys" where
  "runStartProcessing sellerOrderId correlationId s =
     (case by_id so_id sellerOrderId (seller_orders (db s)) of
        None \<Rightarrow> (Inr False, s)
      | Some sellerOrder \<Rightarrow>
          if so_status sellerOrder \<noteq> SellerOrderStatus.AWAITING_FULFILLMENT then (Inr False, s)
          else (Inr True, record_status_change sellerOrder SellerOrderStatus.PROCESSING correlationId
                  (upd_db (save_seller_order (sellerOrder\<lparr>so_status := SellerOrderStatus.PROCESSING\<rparr>)) s)))"

definition startProcessing :: "uuid \<Rightarrow> uuid \<Rightarrow> sys \<Rightarrow> unit result \<times> sys" where
  "startProcessing sellerOrderId correlationId s =
     (case transaction (runStartProcessing sellerOrderId correlationId) s of
        (Inl err, s1) \<Rightarrow> (Inl err, s1)
      | (Inr changed, s1) \<Rightarrow>
          (Inr (), if \<not> changed then s1 else increment ''seller_orders_processed_total'' s1))"

definition dispatch_seller_order :: "string \<Rightarrow> uuid \<Rightarrow> uuid \<Rightarrow> sys \<Rightarrow> unit result \<times> sys" where
  "dispatch_seller_order eventType aggregateId correlationId s =
     (if eventType = ''SELLER_ORDER_CREATED'' then startProcessing aggregateId correlationId s
      else (Inr (), s))"

definition process_seller_order_event ::
  "uuid \<Rightarrow> string \<Rightarrow> uuid \<Rightarrow> uuid \<Rightarrow> sys \<Rightarrow> unit result \<times> sys" where
  "process_seller_order_event outboxEventId eventType aggregateId correlationId =
     consume CONSUMER_NAME outboxEventId (dispatch_seller_order eventType aggregateId correlationId)"

section \<open>What each step leaves alone\<close>

lemma outbox_more_frame [simp]:
  "refresh_tokens (db (outbox_record t g i p c s)) = refresh_tokens (db s)"
  "seller_applications (db (outbox_record t g i p c s)) = seller_applications (db s)"
  by (simp_all add: outbox_record_def)

lemma lockOwned_Inr:
  "lockOwnedSellerOrder actor i d = Inr so \<Longrightarrow> so \<in> set (seller_orders d) \<and> so_id so = i"
  by (auto simp: lockOwnedSellerOrder_def split: option.splits dest: find_SomeD)

lemma lockOwned_row:
  "distinct (map so_id (seller_orders d)) \<Longrightarrow> lockOwnedSellerOrder actor i d = Inr so \<Longrightarrow>
   by_id so_id i (seller_orders d) = Some so"
  using lockOwned_Inr by_id_unique by metis

lemma set_parent_frame [simp]:
  "seller_orders (db (set_parent_status c x n s)) = seller_orders (db s)"
  "seller_order_items (db (set_parent_status c x n s)) = seller_order_items (db s)"
  "ledger_entries (db (set_parent_status c x n s)) = ledger_entries (db s)"
  "refunds (db (set_parent_status c x n s)) = refunds (db s)"
  "products (db (set_parent_status c x n s)) = products (db s)"
  "processed_events (db (set_parent_status c x n s)) = processed_events (db s)"
  "disputes (db (set_parent_status c x n s)) = disputes (db s)"
  "effects (set_parent_status c x n s) = effects s"
  "orders (db (set_parent_status c x n s)) = put_row ord_id (x\<lparr>ord_status := n\<rparr>) (orders (db s))"
  "next_id (db (set_parent_status c x n s)) = next_id (db s) + 1"
  by (simp_all add: set_parent_status_def save_order_def)

lemma recompute_frame [simp]:
  "seller_orders (db (recomputeParentOrderStatus i c s)) = seller_orders (db s)"
  "seller_order_items (db (recomputeParentOrderStatus i c s)) = seller_order_items (db s)"
  "ledger_entries (db (recomputeParentOrderStatus i c s)) = ledger_entries (db s)"
  "refunds (db (recomputeParentOrderStatus i c s)) = refunds (db s)"
  "products (db (recomputeParentOrderStatus i c s)) = products (db s)"
  "processed_events (db (recomputeParentOrderStatus i c s)) = processed_events (db s)"
  "disputes (db (recomputeParentOrderStatus i c s)) = disputes (db s)"
  "effects (recomputeParentOrderStatus i c s) = effects s"
  "next_id (db s) \<le> next_id (db (recomputeParentOrderStatus i c s))"
  by (simp_all add: recomputeParentOrderStatus_def split: option.split)

lemma status_change_frame [simp]:
  "seller_orders (db (record_status_change so t c s)) = seller_orders (db s)"
  "seller_order_items (db (record_status_change so t c s)) = seller_order_items (db s)"
  "ledger_entries (db (record_status_change so t c s)) = ledger_entries (db s)"
  "refunds (db (record_status_change so t c s)) = refunds (db s)"
  "products (db (record_status_change so t c s)) = products (db s)"
  "processed_events (db (record_status_change so t c s)) = processed_events (db s)"
  "disputes (db (record_status_change so t c s)) = disputes (db s)"
  "orders (db (record_status_change so t c s)) = orders (db s)"
  "effects (record_status_change so t c s) = effects s"
  "next_id (db (record_status_change so t c s)) = next_id (db s) + 1"
  by (simp_all add: record_status_change_def)

lemma save_seller_order_frame [simp]:
  "orders (save_seller_order so d) = orders d" "products (save_seller_order so d) = products d"
  "seller_order_items (save_seller_order so d) = seller_order_items d"
  "ledger_entries (save_seller_order so d) = ledger_entries d" "refunds (save_seller_order so d) = refunds d"
  "disputes (save_seller_order so d) = disputes d" "next_id (save_seller_order so d) = next_id d"
  "processed_events (save_seller_order so d) = processed_events d"
  "seller_orders (save_seller_order so d) = put_row so_id so (seller_orders d)"
  by (simp_all add: save_seller_order_def)

lemma ledger_frame [simp]:
  "orders (create_ledger_entry sp t a so rf c d) = orders d"
  "products (create_ledger_entry sp t a so rf c d) = products d"
  "seller_orders (create_ledger_entry sp t a so rf c d) = seller_orders d"
  "seller_order_items (create_ledger_entry sp t a so rf c d) = seller_order_items d"
  "refunds (create_ledger_entry sp t a so rf c d) = refunds d"
  "disputes (create_ledger_entry sp t a so rf c d) = disputes d"
  "processed_events (create_ledger_entry sp t a so rf c d) = processed_events d"
  "next_id (create_ledger_entry sp t a so rf c d) = next_id d + 1"
  by (simp_all add: create_ledger_entry_def)

text \<open>The parent's row after a recomputation, and every other order.\<close>

lemma recompute_orders:
  "by_id ord_id j (orders (db (recomputeParentOrderStatus i c s))) =
     (if j = i then map_option (\<lambda>x. x\<lparr>ord_status := deriveParentOrderStatus (map so_status (sellerOrders_of i (db s)))\<rparr>)
                      (by_id ord_id i (orders (db s)))
      else by_id ord_id j (orders (db s)))"
proof (cases "by_id ord_id i (orders (db s))")
  case None
  then show ?thesis by (simp add: recomputeParentOrderStatus_def)
next
  case (Some x)
  then have id: "ord_id x = i" using by_id_SomeD by metis
  let ?n = "deriveParentOrderStatus (map so_status (sellerOrders_of i (db s)))"
  show ?thesis
  proof (cases "ord_status x = ?n")
    case True
    then have "x\<lparr>ord_status := ?n\<rparr> = x" by simp
    with Some True show ?thesis by (simp add: recomputeParentOrderStatus_def)
  next
    case False
    with Some id show ?thesis
      by (simp add: recomputeParentOrderStatus_def by_id_put_row_same by_id_put_row_other)
  qed
qed

section \<open>Restoring stock\<close>

definition restored_units :: "uuid \<Rightarrow> SellerOrderItem list \<Rightarrow> int" where
  "restored_units pid items =
     sum_list (map (\<lambda>i. if soi_productId i = Some pid then soi_quantity i else 0) items)"

lemma restore_products:
  "products (snd (restoreProductStock pid q d)) = stock_less (\<lambda>i. if i = pid then - q else 0) (products d)"
  by (auto simp: restoreProductStock_def update_stock_def Let_def stock_less_def)

lemma restore_others [simp]:
  "orders (snd (restoreProductStock pid q d)) = orders d"
  "seller_orders (snd (restoreProductStock pid q d)) = seller_orders d"
  "seller_order_items (snd (restoreProductStock pid q d)) = seller_order_items d"
  "ledger_entries (snd (restoreProductStock pid q d)) = ledger_entries d"
  "refunds (snd (restoreProductStock pid q d)) = refunds d"
  "disputes (snd (restoreProductStock pid q d)) = disputes d"
  "processed_events (snd (restoreProductStock pid q d)) = processed_events d"
  "next_id (snd (restoreProductStock pid q d)) = next_id d"
  by (simp_all add: restoreProductStock_def update_stock_def Let_def)

text \<open>The order tables a stock restoration does not touch.\<close>

definition same_order_rows :: "sys \<Rightarrow> sys \<Rightarrow> bool" where
  "same_order_rows s s' \<longleftrightarrow>
     orders (db s') = orders (db s) \<and> seller_orders (db s') = seller_orders (db s) \<and>
     seller_order_items (db s') = seller_order_items (db s) \<and>
     ledger_entries (db s') = ledger_entries (db s) \<and> refunds (db s') = refunds (db s) \<and>
     disputes (db s') = disputes (db s) \<and> processed_events (db s') = processed_events (db s) \<and>
     effects s' = effects s \<and> next_id (db s) \<le> next_id (db s')"

lemma restored_simps [simp]:
  "restored_units pid [] = 0"
  "restored_units pid (i # is) = (if soi_productId i = Some pid then soi_quantity i else 0) + restored_units pid is"
  by (simp_all add: restored_units_def)

lemma restore_items_run:
  "products (db (snd (restore_items c items s))) = stock_less (\<lambda>i. - restored_units i items) (products (db s)) \<and>
   same_order_rows s (snd (restore_items c items s))"
proof (induction items arbitrary: s)
  case Nil
  then show ?case by (simp add: same_order_rows_def stock_less_zero)
next
  case (Cons item items)
  show ?case
  proof (cases "soi_productId item")
    case None
    then show ?thesis using Cons.IH [of s] by simp
  next
    case (Some pid)
    obtain b d where r: "restoreProductStock pid (soi_quantity item) (db s) = (b, d)" by (cases "restoreProductStock pid (soi_quantity item) (db s)")
    have d: "d = snd (restoreProductStock pid (soi_quantity item) (db s))" by (simp add: r)
    have pd: "products d = stock_less (\<lambda>i. if i = pid then - soi_quantity item else 0) (products (db s))"
      unfolding d by (rule restore_products)
    have same: "orders d = orders (db s)" "seller_orders d = seller_orders (db s)"
      "seller_order_items d = seller_order_items (db s)" "ledger_entries d = ledger_entries (db s)"
      "refunds d = refunds (db s)" "disputes d = disputes (db s)"
      "processed_events d = processed_events (db s)" "next_id d = next_id (db s)"
      unfolding d by simp_all
    have sum: "(\<lambda>i. (if i = pid then - soi_quantity item else 0) - restored_units i items)
        = (\<lambda>i. - (if pid = i then soi_quantity item else 0) - restored_units i items)"
      by (simp add: fun_eq_iff)
    show ?thesis
    proof (cases b)
      case False
      with Some r Cons.IH [of "s\<lparr>db := d\<rparr>"] pd same show ?thesis
        by (simp add: stock_less_add sum same_order_rows_def)
    next
      case True
      with Some r Cons.IH [of "record_restored c pid (s\<lparr>db := d\<rparr>)"] pd same show ?thesis
        by (simp add: stock_less_add sum same_order_rows_def record_restored_def split_beta)
    qed
  qed
qed

section \<open>The books under status changes\<close>

text \<open>
  A step that only changes statuses, adds ledger entries other than the two of the sale and
  perhaps moves stock keeps the books: the sale stays recorded as it was.
\<close>

definition so_terms :: "SellerOrder \<Rightarrow> SellerOrder" where
  "so_terms so = so\<lparr>so_status := SellerOrderStatus.AWAITING_FULFILLMENT\<rparr>"

definition order_terms :: "Order \<Rightarrow> Order" where
  "order_terms x = x\<lparr>ord_status := OrderStatus.NEW\<rparr>"

definition after_sale :: "uuid \<Rightarrow> LedgerEntry \<Rightarrow> bool" where
  "after_sale n x \<longleftrightarrow> le_type x \<noteq> SALE_CREDIT \<and> le_type x \<noteq> COMMISSION_DEBIT \<and>
     (\<forall>i \<in> set_option (le_sellerOrderId x). i < n)"

definition books_frame :: "database \<Rightarrow> database \<Rightarrow> bool" where
  "books_frame d d' \<longleftrightarrow>
     map so_terms (seller_orders d') = map so_terms (seller_orders d) \<and>
     map order_terms (orders d') = map order_terms (orders d) \<and>
     seller_order_items d' = seller_order_items d \<and> next_id d \<le> next_id d' \<and>
     (\<exists>new. ledger_entries d' = ledger_entries d @ new \<and> list_all (after_sale (next_id d')) new)"

lemma so_terms_simps [simp]:
  "so_id (so_terms so) = so_id so" "so_orderId (so_terms so) = so_orderId so"
  "so_subtotal (so_terms so) = so_subtotal so" "so_commissionAmount (so_terms so) = so_commissionAmount so"
  "so_sellerNetAmount (so_terms so) = so_sellerNetAmount so"
  "so_sellerProfileId (so_terms so) = so_sellerProfileId so"
  "so_terms (so\<lparr>so_status := st\<rparr>) = so_terms so"
  by (simp_all add: so_terms_def)

lemma order_terms_simps [simp]:
  "ord_id (order_terms x) = ord_id x" "ord_totalAmount (order_terms x) = ord_totalAmount x"
  "ord_buyerId (order_terms x) = ord_buyerId x"
  "order_terms (x\<lparr>ord_status := st\<rparr>) = order_terms x"
  by (simp_all add: order_terms_def)

lemma so_terms_eqD:
  assumes "so_terms a = so_terms b"
  shows "so_id a = so_id b" "so_orderId a = so_orderId b" "so_subtotal a = so_subtotal b"
    "so_commissionAmount a = so_commissionAmount b" "so_sellerNetAmount a = so_sellerNetAmount b"
    "so_sellerProfileId a = so_sellerProfileId b"
  using assms so_terms_simps by metis+

lemma order_terms_eqD:
  assumes "order_terms a = order_terms b"
  shows "ord_id a = ord_id b" "ord_totalAmount a = ord_totalAmount b" "ord_buyerId a = ord_buyerId b"
  using assms order_terms_simps by metis+

lemma books_frame_refl [simp]: "books_frame d d"
  by (simp add: books_frame_def)

lemma after_sale_mono: "after_sale n x \<Longrightarrow> n \<le> m \<Longrightarrow> after_sale m x"
  by (auto simp: after_sale_def)

lemma books_frame_trans: "books_frame d d' \<Longrightarrow> books_frame d' d'' \<Longrightarrow> books_frame d d''"
  by (auto simp: books_frame_def list_all_iff) (use after_sale_mono in blast)

lemma map_put_row_same:
  "(\<And>x. x \<in> set t \<Longrightarrow> k x = k r \<Longrightarrow> f x = f r) \<Longrightarrow> map f (put_row k r t) = map f t"
  by (auto simp: put_row_def)

lemma same_row: "distinct (map k t) \<Longrightarrow> x \<in> set t \<Longrightarrow> y \<in> set t \<Longrightarrow> k x = k y \<Longrightarrow> x = y"
  by (metis distinct_map inj_on_eq_iff)

lemma so_terms_put:
  "distinct (map so_id t) \<Longrightarrow> so \<in> set t \<Longrightarrow>
   map so_terms (put_row so_id (so\<lparr>so_status := st\<rparr>) t) = map so_terms t"
  by (intro map_put_row_same) (auto dest: same_row [of so_id t])

lemma order_terms_put:
  "distinct (map ord_id t) \<Longrightarrow> x \<in> set t \<Longrightarrow>
   map order_terms (put_row ord_id (x\<lparr>ord_status := st\<rparr>) t) = map order_terms t"
  by (intro map_put_row_same) (auto dest: same_row [of ord_id t])

lemma map_filter_terms:
  "(\<And>x. P (f x) = P x) \<Longrightarrow> map f (filter P xs) = filter P (map f xs)"
  by (induction xs) auto

lemma sellers_of_terms:
  assumes "map so_terms (seller_orders d') = map so_terms (seller_orders d)"
  shows "map so_terms (sellerOrders_of i d') = map so_terms (sellerOrders_of i d)"
  using assms unfolding sellerOrders_of_def by (simp add: map_filter_terms)

lemma terms_subtotals:
  assumes "map so_terms xs = map so_terms ys"
  shows "map (\<lambda>so. cents (so_subtotal so)) xs = map (\<lambda>so. cents (so_subtotal so)) ys"
    and "map so_id xs = map so_id ys"
proof -
  have "map (\<lambda>so. cents (so_subtotal so)) (map so_terms xs) = map (\<lambda>so. cents (so_subtotal so)) (map so_terms ys)"
    and "map so_id (map so_terms xs) = map so_id (map so_terms ys)" by (simp_all add: assms)
  then show "map (\<lambda>so. cents (so_subtotal so)) xs = map (\<lambda>so. cents (so_subtotal so)) ys"
    and "map so_id xs = map so_id ys" by (simp_all add: comp_def)
qed

lemma entries_after_sale:
  assumes "ledger_entries d' = ledger_entries d @ new" "list_all (after_sale n) new"
    and "t = SALE_CREDIT \<or> t = COMMISSION_DEBIT"
  shows "entries_of i t d' = entries_of i t d"
  using assms by (auto simp: entries_of_def after_sale_def list_all_iff filter_empty_conv)

lemma terms_memberD:
  assumes "map f xs = map f ys" "x \<in> set xs"
  obtains y where "y \<in> set ys" "f x = f y"
proof -
  have "f x \<in> set (map f ys)" using assms by (metis image_eqI list.set_map)
  then show thesis using that by auto
qed

lemma books_frame_booked:
  assumes fr: "books_frame d d'" and ok: "sellers_booked d"
  shows "sellers_booked d'"
  unfolding sellers_booked_def
proof
  fix so' assume "so' \<in> set (seller_orders d')"
  then obtain so where so: "so \<in> set (seller_orders d)" and eq: "so_terms so' = so_terms so"
    using fr unfolding books_frame_def by (blast elim: terms_memberD)
  obtain new where new: "ledger_entries d' = ledger_entries d @ new" "list_all (after_sale (next_id d')) new"
    using fr by (auto simp: books_frame_def)
  note f = so_terms_eqD [OF eq]
  have "seller_order_items d' = seller_order_items d" using fr by (simp add: books_frame_def)
  then show "so_booked d' so'"
    using ok so f entries_after_sale [OF new]
    by (simp add: sellers_booked_def so_booked_def so_balanced_def items_of_def)
qed

lemma books_frame_ok:
  assumes fr: "books_frame d d'" and ok: "books_ok d"
  shows "books_ok d'"
proof -
  have t: "map so_terms (seller_orders d') = map so_terms (seller_orders d)"
    "map order_terms (orders d') = map order_terms (orders d)"
    "seller_order_items d' = seller_order_items d" "next_id d \<le> next_id d'"
    using fr by (auto simp: books_frame_def)
  obtain new where new: "ledger_entries d' = ledger_entries d @ new" "list_all (after_sale (next_id d')) new"
    using fr by (auto simp: books_frame_def)
  have refs: "refs_below (next_id d') d"
    using ok t(4) refs_below_mono by (auto simp: books_ok_def refs_ok_def)
  have sos: "so_id so' < next_id d' \<and> so_orderId so' < next_id d'" if in_so: "so' \<in> set (seller_orders d')" for so'
  proof -
    obtain so where so: "so \<in> set (seller_orders d)" "so_terms so' = so_terms so"
      using terms_memberD [OF t(1) in_so] by blast
    then show ?thesis
      using refs so_terms_eqD [OF so(2)] by (simp add: refs_below_def)
  qed
  have ords: "\<exists>x \<in> set (orders d). ord_id x' = ord_id x \<and> ord_totalAmount x' = ord_totalAmount x"
    if in_x: "x' \<in> set (orders d')" for x'
  proof -
    obtain x where x: "x \<in> set (orders d)" "order_terms x' = order_terms x"
      using terms_memberD [OF t(2) in_x] by blast
    then show ?thesis
      using order_terms_eqD [OF x(2)] by auto
  qed
  have ids: "map so_id (seller_orders d') = map so_id (seller_orders d)"
    using terms_subtotals(2) [OF t(1)] .
  have oids: "map ord_id (orders d') = map ord_id (orders d)"
    using arg_cong [OF t(2), of "map ord_id"] by (simp add: comp_def)
  have "refs_ok d'"
    using ok refs sos ords ids oids t(3) new
    by (fastforce simp: books_ok_def refs_ok_def refs_below_def after_sale_def list_all_iff)
  moreover have "orders_total d'"
    unfolding orders_total_def
  proof
    fix x' assume "x' \<in> set (orders d')"
    then obtain x where x: "x \<in> set (orders d)" "ord_id x' = ord_id x" "ord_totalAmount x' = ord_totalAmount x"
      using ords by blast
    show "cents (ord_totalAmount x') = sum_list (map (\<lambda>so. cents (so_subtotal so)) (sellerOrders_of (ord_id x') d'))"
      using ok x terms_subtotals(1) [OF sellers_of_terms [OF t(1), of "ord_id x"]]
      by (simp add: books_ok_def orders_total_def)
  qed
  ultimately show ?thesis
    using books_frame_booked [OF fr] ok by (simp add: books_ok_def)
qed

lemma recompute_books:
  assumes "distinct (map ord_id (orders (db s)))"
  shows "books_frame (db s) (db (recomputeParentOrderStatus i c s))"
proof (cases "by_id ord_id i (orders (db s))")
  case None
  then show ?thesis by (simp add: recomputeParentOrderStatus_def)
next
  case (Some x)
  then show ?thesis
    using order_terms_put [OF assms, of x] by_id_SomeD [OF Some]
    by (simp add: recomputeParentOrderStatus_def books_frame_def)
qed

section \<open>The parent's status is the aggregate\<close>

definition parents_ok :: "database \<Rightarrow> bool" where
  "parents_ok d \<longleftrightarrow> (\<forall>x \<in> set (orders d).
     ord_status x = deriveParentOrderStatus (map so_status (sellerOrders_of (ord_id x) d)))"

lemma filter_put_row_out:
  "\<not> P r \<Longrightarrow> (\<And>x. x \<in> set t \<Longrightarrow> k x = k r \<Longrightarrow> \<not> P x) \<Longrightarrow> filter P (put_row k r t) = filter P t"
  unfolding put_row_def by (induction t) auto

lemma sellerOrders_other:
  assumes "distinct (map so_id (seller_orders d))" "so \<in> set (seller_orders d)" "j \<noteq> so_orderId so"
    and "seller_orders d' = put_row so_id (so\<lparr>so_status := st\<rparr>) (seller_orders d)"
  shows "sellerOrders_of j d' = sellerOrders_of j d"
  unfolding sellerOrders_of_def assms(4)
  by (rule filter_put_row_out) (use assms same_row [of so_id] in fastforce)+

lemma parents_recompute:
  assumes par: "parents_ok (db s)" and refs: "refs_ok (db s)" and so: "so \<in> set (seller_orders (db s))"
    and s1: "seller_orders (db s1) = put_row so_id (so\<lparr>so_status := st\<rparr>) (seller_orders (db s))"
      "orders (db s1) = orders (db s)"
  shows "parents_ok (db (recomputeParentOrderStatus (so_orderId so) c s1))"
  unfolding parents_ok_def
proof
  let ?s2 = "recomputeParentOrderStatus (so_orderId so) c s1"
  fix x assume x: "x \<in> set (orders (db ?s2))"
  have dist: "distinct (map ord_id (orders (db s1)))" "distinct (map so_id (seller_orders (db s)))"
    using refs s1(2) by (simp_all add: refs_ok_def)
  have "map order_terms (orders (db ?s2)) = map order_terms (orders (db s1))"
    using recompute_books [OF dist(1)] by (simp add: books_frame_def)
  from arg_cong [OF this, of "map ord_id"] have "distinct (map ord_id (orders (db ?s2)))"
    using dist(1) by (simp add: comp_def)
  then have row: "by_id ord_id (ord_id x) (orders (db ?s2)) = Some x" using x by (rule by_id_unique)
  have sos: "sellerOrders_of j (db ?s2) = sellerOrders_of j (db s1)" for j
    by (simp add: sellerOrders_of_def)
  show "ord_status x = deriveParentOrderStatus (map so_status (sellerOrders_of (ord_id x) (db ?s2)))"
  proof (cases "ord_id x = so_orderId so")
    case True
    then show ?thesis using row sos by (auto simp: recompute_orders)
  next
    case False
    then have "by_id ord_id (ord_id x) (orders (db s)) = Some x" using row s1(2) by (simp add: recompute_orders)
    then have "x \<in> set (orders (db s))" using by_id_SomeD by metis
    then show ?thesis
      using par sos sellerOrders_other [OF dist(2) so False s1(1)] by (simp add: parents_ok_def)
  qed
qed

section \<open>Status changes, branch by branch\<close>

definition may_act :: "LifecycleActor \<Rightarrow> SellerOrder \<Rightarrow> bool" where
  "may_act actor so \<longleftrightarrow> (case actor of BySeller sp \<Rightarrow> so_sellerProfileId so = sp | ByAdmin \<Rightarrow> True)"

lemma lockOwned_iff:
  assumes "distinct (map so_id (seller_orders d))"
  shows "lockOwnedSellerOrder actor i d = Inr so \<longleftrightarrow>
           by_id so_id i (seller_orders d) = Some so \<and> may_act actor so"
proof
  assume l: "lockOwnedSellerOrder actor i d = Inr so"
  then show "by_id so_id i (seller_orders d) = Some so \<and> may_act actor so"
    using lockOwned_row [OF assms l]
    by (auto simp: lockOwnedSellerOrder_def may_act_def split: option.splits dest: find_SomeD)
next
  assume r: "by_id so_id i (seller_orders d) = Some so \<and> may_act actor so"
  then have so: "so \<in> set (seller_orders d)" "so_id so = i" by (auto dest: by_id_SomeD)
  let ?P = "\<lambda>so. so_id so = i \<and> may_act actor so"
  obtain so' where so': "find ?P (seller_orders d) = Some so'"
    using so r by (cases "find ?P (seller_orders d)") (auto simp: find_None_iff)
  then have "so' = so" using find_SomeD [OF so'] so same_row [OF assms] by metis
  with so' show "lockOwnedSellerOrder actor i d = Inr so"
    by (simp add: lockOwnedSellerOrder_def may_act_def)
qed

lemma lockOwned_Inl: "lockOwnedSellerOrder actor i d = Inl err \<Longrightarrow> err = NotFoundException ''Seller order not found''"
  by (auto simp: lockOwnedSellerOrder_def split: option.splits)

lemma status_put_books:
  assumes "refs_ok (db s)" "so \<in> set (seller_orders (db s))"
    "seller_orders d' = put_row so_id (so\<lparr>so_status := st\<rparr>) (seller_orders (db s))"
    "orders d' = orders (db s)" "seller_order_items d' = seller_order_items (db s)"
    "ledger_entries d' = ledger_entries (db s) @ new" "list_all (after_sale (next_id d')) new"
    "next_id (db s) \<le> next_id d'"
  shows "books_frame (db s) d'"
  using assms so_terms_put [of "seller_orders (db s)" so st]
  by (auto simp: books_frame_def refs_ok_def)

lemma runUpdateStatus_Inr:
  assumes ok: "refs_ok (db s)" and run: "runUpdateStatus actor i target c s = (Inr so', s')"
  obtains so where "by_id so_id i (seller_orders (db s)) = Some so" "may_act actor so"
    "target \<in> set (FORWARD_TRANSITIONS (so_status so))" "so' = so\<lparr>so_status := target\<rparr>"
    "seller_orders (db s') = put_row so_id so' (seller_orders (db s))"
    "products (db s') = products (db s)" "ledger_entries (db s') = ledger_entries (db s)"
    "refunds (db s') = refunds (db s)" "seller_order_items (db s') = seller_order_items (db s)"
    "effects s' = effects s" "books_frame (db s) (db s')" "parents_ok (db s) \<Longrightarrow> parents_ok (db s')"
    "processed_events (db s') = processed_events (db s)"
proof -
  have dist: "distinct (map so_id (seller_orders (db s)))" "distinct (map ord_id (orders (db s)))"
    using ok by (simp_all add: refs_ok_def)
  obtain so where l: "lockOwnedSellerOrder actor i (db s) = Inr so"
    using run by (auto simp: runUpdateStatus_def split: sum.splits)
  note row = l [unfolded lockOwned_iff [OF dist(1)]]
  have t: "target \<in> set (FORWARD_TRANSITIONS (so_status so))"
    using run l by (auto simp: runUpdateStatus_def assertValidStatusTransition_def split: if_splits)
  let ?so = "so\<lparr>so_status := target\<rparr>"
  let ?s1 = "record_status_change so target c (increment ''seller_order_status_changes_total''
               (upd_db (save_seller_order ?so) s))"
  have s': "so' = ?so" "s' = recomputeParentOrderStatus (so_orderId so) c ?s1"
    using run l t by (auto simp: runUpdateStatus_def assertValidStatusTransition_def)
  have so: "so \<in> set (seller_orders (db s))" using row by_id_SomeD by metis
  have fr1: "books_frame (db s) (db ?s1)"
    by (rule status_put_books [OF ok so, where new = "[]"]) simp_all
  have fr: "books_frame (db s) (db s')"
    using books_frame_trans [OF fr1 recompute_books] dist(2) by (simp add: s'(2))
  have par: "parents_ok (db s')" if "parents_ok (db s)"
    unfolding s'(2) by (rule parents_recompute [OF that ok so]) simp_all
  show thesis by (rule that [of so]) (use row t s' fr par in simp_all)
qed

text \<open>
  C11: A status change succeeds exactly for an order the actor can see (a seller only his own) and
  for the next status of the policy, and then it changes the status of that one row, keeps the
  books, leaves stock and ledger alone, and the parent order's status is again the aggregate of its
  seller orders. A refused change leaves no trace.
\<close>
theorem updateStatus_outcome:
  assumes ok: "books_ok (db s)" and run: "updateStatus actor i target c s = (r, s')"
  shows "(\<not> is_error r \<longleftrightarrow> (\<exists>so. by_id so_id i (seller_orders (db s)) = Some so \<and> may_act actor so \<and>
                             target \<in> set (FORWARD_TRANSITIONS (so_status so)))) \<and>
         (is_error r \<longrightarrow> db s' = db s \<and> effects s' = effects s) \<and>
         (\<forall>so'. r = Inr so' \<longrightarrow>
            so_status so' = target \<and> seller_orders (db s') = put_row so_id so' (seller_orders (db s)) \<and>
            books_ok (db s') \<and> (parents_ok (db s) \<longrightarrow> parents_ok (db s')) \<and>
            products (db s') = products (db s) \<and> ledger_entries (db s') = ledger_entries (db s) \<and>
            effects s' = effects s)"
proof -
  have refs: "refs_ok (db s)" using ok by (simp add: books_ok_def)
  then have dist: "distinct (map so_id (seller_orders (db s)))" by (simp add: refs_ok_def)
  show ?thesis
  proof (cases r)
    case (Inr so')
    then have "runUpdateStatus actor i target c s = (Inr so', s')"
      using run by (simp add: updateStatus_def transaction_Inr)
    from refs this show ?thesis
    proof (cases rule: runUpdateStatus_Inr [consumes 2, case_names main])
      case (main so)
      then show ?thesis using Inr books_frame_ok [OF main(11) ok] by auto
    qed
  next
    case (Inl err)
    have "db s' = db s" using run Inl transaction_Inl by (metis updateStatus_def)
    moreover have "effects s' = effects s"
      using run Inl by (auto simp: updateStatus_def transaction_def runUpdateStatus_def split: sum.splits prod.splits)
    moreover have "\<not> (\<exists>so. by_id so_id i (seller_orders (db s)) = Some so \<and> may_act actor so \<and>
                        target \<in> set (FORWARD_TRANSITIONS (so_status so)))"
    proof
      assume "\<exists>so. by_id so_id i (seller_orders (db s)) = Some so \<and> may_act actor so \<and>
                target \<in> set (FORWARD_TRANSITIONS (so_status so))"
      then obtain so where "lockOwnedSellerOrder actor i (db s) = Inr so"
        "target \<in> set (FORWARD_TRANSITIONS (so_status so))" using lockOwned_iff [OF dist] by blast
      then show False
        using run Inl by (simp add: updateStatus_def transaction_def runUpdateStatus_def assertValidStatusTransition_def)
    qed
    ultimately show ?thesis using Inl by simp
  qed
qed

section \<open>Cancellation\<close>

lemma reverse_ledger_frame [simp]:
  "orders (reverse_ledger so c d) = orders d" "products (reverse_ledger so c d) = products d"
  "seller_orders (reverse_ledger so c d) = seller_orders d"
  "seller_order_items (reverse_ledger so c d) = seller_order_items d"
  "refunds (reverse_ledger so c d) = refunds d" "disputes (reverse_ledger so c d) = disputes d"
  "processed_events (reverse_ledger so c d) = processed_events d"
  "next_id (reverse_ledger so c d) = next_id d + 2"
  by (simp_all add: reverse_ledger_def)

lemma reverse_ledger_entries:
  "\<exists>new. ledger_entries (reverse_ledger so c d) = ledger_entries d @ new \<and>
         list_all (\<lambda>x. le_sellerOrderId x = Some (so_id so) \<and> le_refundId x = None) new \<and>
         map (\<lambda>x. (le_type x, le_amount x)) new
           = [(SELLER_EARNING_REVERSAL, so_subtotal so), (PLATFORM_COMMISSION_REVERSAL, so_commissionAmount so)]"
  by (simp add: reverse_ledger_def create_ledger_entry_def)

lemma reverse_ledger_total:
  "ledger_total i t (reverse_ledger so c d) = ledger_total i t d +
     (if i \<noteq> so_id so then 0 else if t = SELLER_EARNING_REVERSAL then cents (so_subtotal so)
      else if t = PLATFORM_COMMISSION_REVERSAL then cents (so_commissionAmount so) else 0)"
  by (auto simp: ledger_total_def entries_of_def reverse_ledger_def create_ledger_entry_def)

lemma ledger_total_cong:
  "ledger_entries d' = ledger_entries d \<Longrightarrow> ledger_total i t d' = ledger_total i t d"
  by (simp add: ledger_total_def entries_of_def)

lemma finish_cancel_frame [simp]:
  "products (db (finish_cancel so c s)) = products (db s)"
  "seller_order_items (db (finish_cancel so c s)) = seller_order_items (db s)"
  "refunds (db (finish_cancel so c s)) = refunds (db s)"
  "disputes (db (finish_cancel so c s)) = disputes (db s)"
  "processed_events (db (finish_cancel so c s)) = processed_events (db s)"
  "effects (finish_cancel so c s) = effects s"
  "seller_orders (db (finish_cancel so c s))
     = put_row so_id (so\<lparr>so_status := SellerOrderStatus.CANCELLED\<rparr>) (seller_orders (db s))"
  "ledger_entries (db (finish_cancel so c s)) = ledger_entries (reverse_ledger so c (db s))"
  by (simp_all add: finish_cancel_def)

lemma fresh_so_id: "refs_ok d \<Longrightarrow> so \<in> set (seller_orders d) \<Longrightarrow> so_id so < next_id d"
  by (simp add: refs_ok_def refs_below_def)

lemma finish_cancel_books:
  assumes refs: "refs_ok (db s)" and so: "so \<in> set (seller_orders (db s))" and same: "same_order_rows s s1"
  shows "books_frame (db s) (db (finish_cancel so c s1)) \<and>
         (parents_ok (db s) \<longrightarrow> parents_ok (db (finish_cancel so c s1)))"
proof -
  let ?so = "so\<lparr>so_status := SellerOrderStatus.CANCELLED\<rparr>"
  let ?s2 = "outbox_record ''SELLER_ORDER_CANCELLED'' ''SellerOrder'' (so_id so)
          [(''sellerOrderId'', JId (so_id so)), (''orderId'', JId (so_orderId so))] c
          (upd_db (save_seller_order ?so) (increment ''seller_order_cancellations_total''
             (upd_db (reverse_ledger so c) s1)))"
  have fin: "finish_cancel so c s1 = recomputeParentOrderStatus (so_orderId so) c ?s2"
    by (simp add: finish_cancel_def)
  have rows: "seller_orders (db s1) = seller_orders (db s)" "orders (db s1) = orders (db s)"
    "seller_order_items (db s1) = seller_order_items (db s)"
    "ledger_entries (db s1) = ledger_entries (db s)" "next_id (db s) \<le> next_id (db s1)"
    using same by (simp_all add: same_order_rows_def)
  obtain new where new: "ledger_entries (reverse_ledger so c (db s1)) = ledger_entries (db s1) @ new"
      "list_all (\<lambda>x. le_sellerOrderId x = Some (so_id so) \<and> le_refundId x = None) new"
      "map (\<lambda>x. (le_type x, le_amount x)) new
         = [(SELLER_EARNING_REVERSAL, so_subtotal so), (PLATFORM_COMMISSION_REVERSAL, so_commissionAmount so)]"
    using reverse_ledger_entries [of so c "db s1"] by (elim exE conjE)
  have "list_all (after_sale (next_id (db ?s2))) new"
    using new(2,3) fresh_so_id [OF refs so] rows(5)
    by (auto simp: list_all_iff after_sale_def Cons_eq_map_conv)
  then have "books_frame (db s) (db ?s2)"
    by (intro status_put_books [OF refs so, where new = new]) (use rows(5) in \<open>simp_all add: rows(1-4) new(1)\<close>)
  moreover have "distinct (map ord_id (orders (db ?s2)))" using refs rows by (simp add: refs_ok_def)
  ultimately have fr: "books_frame (db s) (db (finish_cancel so c s1))"
    using books_frame_trans recompute_books unfolding fin by blast
  moreover have "parents_ok (db (finish_cancel so c s1))" if "parents_ok (db s)"
    unfolding fin by (rule parents_recompute [OF that refs so]) (simp_all add: rows)
  ultimately show ?thesis by blast
qed

lemma runCancel_Inr:
  assumes ok: "refs_ok (db s)" and run: "runCancelSellerOrder actor i c s = (Inr out, s')"
  obtains (again) so where "by_id so_id i (seller_orders (db s)) = Some so" "may_act actor so"
      "so_status so = SellerOrderStatus.CANCELLED" "s' = s" "cn_sellerOrder out = so"
      "cn_alreadyCancelled out"
    | (cancelled) so where "by_id so_id i (seller_orders (db s)) = Some so" "may_act actor so"
      "isCancellable (so_status so)" "cn_sellerOrder out = so\<lparr>so_status := SellerOrderStatus.CANCELLED\<rparr>"
      "\<not> cn_alreadyCancelled out"
      "seller_orders (db s') = put_row so_id (cn_sellerOrder out) (seller_orders (db s))"
      "products (db s') = stock_less (\<lambda>p. - restored_units p (items_of i (db s))) (products (db s))"
      "\<And>j t. ledger_total j t (db s') = ledger_total j t (db s) +
         (if j \<noteq> i then 0 else if t = SELLER_EARNING_REVERSAL then cents (so_subtotal so)
          else if t = PLATFORM_COMMISSION_REVERSAL then cents (so_commissionAmount so) else 0)"
      "refunds (db s') = refunds (db s)" "seller_order_items (db s') = seller_order_items (db s)"
      "effects s' = effects s" "books_frame (db s) (db s')" "parents_ok (db s) \<Longrightarrow> parents_ok (db s')"
      "processed_events (db s') = processed_events (db s)"
proof -
  have dist: "distinct (map so_id (seller_orders (db s)))" using ok by (simp add: refs_ok_def)
  obtain so where l: "lockOwnedSellerOrder actor i (db s) = Inr so"
    using run by (auto simp: runCancelSellerOrder_def split: sum.splits)
  note row = l [unfolded lockOwned_iff [OF dist]]
  have so: "so \<in> set (seller_orders (db s))" "so_id so = i" using row by (auto dest: by_id_SomeD)
  show thesis
  proof (cases "so_status so = SellerOrderStatus.CANCELLED")
    case True
    with run l row show ?thesis by (intro again [of so]) (auto simp: runCancelSellerOrder_def)
  next
    case False
    have canc: "isCancellable (so_status so)"
      using run l False by (auto simp: runCancelSellerOrder_def assertCancellable_def split: if_splits)
    let ?s1 = "snd (restore_items c (items_of i (db s)) s)"
    have out: "cn_sellerOrder out = so\<lparr>so_status := SellerOrderStatus.CANCELLED\<rparr>" "\<not> cn_alreadyCancelled out"
      and s': "s' = finish_cancel so c ?s1"
      using run l False canc by (auto simp: runCancelSellerOrder_def assertCancellable_def split_beta)
    note rest = restore_items_run [of c "items_of i (db s)" s]
    have same: "same_order_rows s ?s1" using rest by simp
    then have ent: "ledger_entries (db ?s1) = ledger_entries (db s)" by (simp add: same_order_rows_def)
    have led: "ledger_total j t (db s') = ledger_total j t (db s) +
        (if j \<noteq> i then 0 else if t = SELLER_EARNING_REVERSAL then cents (so_subtotal so)
         else if t = PLATFORM_COMMISSION_REVERSAL then cents (so_commissionAmount so) else 0)" for j t
      using ledger_total_cong [of "db s'" "reverse_ledger so c (db ?s1)" j t] ledger_total_cong [OF ent, of j t] so(2)
      by (simp add: s' reverse_ledger_total)
    show ?thesis
      by (rule cancelled [of so])
        (use row canc out led finish_cancel_books [OF ok so(1) same] same rest s' in
          \<open>simp_all add: same_order_rows_def\<close>)
  qed
qed

lemma lockOwned_put:
  assumes d: "distinct (map so_id (seller_orders d))" and row: "by_id so_id i (seller_orders d) = Some so"
    and act: "may_act actor so" and d': "seller_orders d' = put_row so_id (so\<lparr>so_status := st\<rparr>) (seller_orders d)"
  shows "lockOwnedSellerOrder actor i d' = Inr (so\<lparr>so_status := st\<rparr>)"
proof -
  have "distinct (map so_id (seller_orders d'))" unfolding d' keys_put_row by (rule d)
  moreover have "by_id so_id i (seller_orders d') = Some (so\<lparr>so_status := st\<rparr>)"
    unfolding d' by (rule by_id_put_row_same [OF row]) (use by_id_SomeD [OF row] in simp)
  moreover have "may_act actor (so\<lparr>so_status := st\<rparr>)" using act by (cases actor) (simp_all add: may_act_def)
  ultimately show ?thesis using lockOwned_iff by blast
qed

text \<open>
  C10: Cancelling gives everything back once. For a seller order that was not cancelled yet it
  succeeds exactly while the order is awaiting fulfilment or in processing; it puts the ordered
  units of every product back, reverses the whole subtotal and commission in the ledger, keeps the
  books and the parent's aggregate status; and a second cancellation of it, by whoever may see it,
  succeeds and changes nothing at all.
\<close>
theorem cancel_gives_back:
  assumes ok: "books_ok (db s)" and row: "by_id so_id i (seller_orders (db s)) = Some so"
    and act: "may_act actor so" and new: "so_status so \<noteq> SellerOrderStatus.CANCELLED"
    and run: "cancel_seller_order actor i c s = (r, s')"
  shows "(\<not> is_error r \<longleftrightarrow> isCancellable (so_status so)) \<and> (is_error r \<longrightarrow> db s' = db s) \<and>
         (\<not> is_error r \<longrightarrow>
            r = Inr (so\<lparr>so_status := SellerOrderStatus.CANCELLED\<rparr>) \<and>
            seller_orders (db s') = put_row so_id (so\<lparr>so_status := SellerOrderStatus.CANCELLED\<rparr>) (seller_orders (db s)) \<and>
            products (db s') = stock_less (\<lambda>p. - restored_units p (items_of i (db s))) (products (db s)) \<and>
            ledger_total i SELLER_EARNING_REVERSAL (db s')
              = ledger_total i SELLER_EARNING_REVERSAL (db s) + cents (so_subtotal so) \<and>
            ledger_total i PLATFORM_COMMISSION_REVERSAL (db s')
              = ledger_total i PLATFORM_COMMISSION_REVERSAL (db s) + cents (so_commissionAmount so) \<and>
            books_ok (db s') \<and> (parents_ok (db s) \<longrightarrow> parents_ok (db s')) \<and>
            (\<forall>actor' c'. may_act actor' so \<longrightarrow> cancel_seller_order actor' i c' s' = (r, s')))"
proof -
  have refs: "refs_ok (db s)" using ok by (simp add: books_ok_def)
  then have dist: "distinct (map so_id (seller_orders (db s)))" by (simp add: refs_ok_def)
  have lock: "lockOwnedSellerOrder actor i (db s) = Inr so" using lockOwned_iff [OF dist] row act by blast
  let ?so = "so\<lparr>so_status := SellerOrderStatus.CANCELLED\<rparr>"
  show ?thesis
  proof (cases "isCancellable (so_status so)")
    case False
    then have "r = Inl (ConflictException ''A seller order in this status cannot be cancelled'') \<and> db s' = db s"
      using run lock new
      by (auto simp: cancel_seller_order_def transaction_def runCancelSellerOrder_def assertCancellable_def)
    then show ?thesis using False by simp
  next
    case True
    define s1 where "s1 = snd (runCancelSellerOrder actor i c s)"
    obtain out where run1: "runCancelSellerOrder actor i c s = (Inr out, s1)"
      using True lock new by (auto simp: s1_def runCancelSellerOrder_def assertCancellable_def split_beta)
    have r: "r = Inr (cn_sellerOrder out)" and s': "db s' = db s1"
      using run run1 by (auto simp: cancel_seller_order_def transaction_def split: if_splits)
    from refs run1 show ?thesis
    proof (cases rule: runCancel_Inr)
      case (again so2)
      then show ?thesis using row new by simp
    next
      case (cancelled so2)
      then have so2: "so2 = so" using row by simp
      have sos: "seller_orders (db s') = put_row so_id ?so (seller_orders (db s))"
        using cancelled(4,6) so2 s' by simp
      have "cancel_seller_order actor' i c' s' = (r, s')" if "may_act actor' so" for actor' c'
        using lockOwned_put [OF dist row that sos] r cancelled(4) so2
        by (simp add: cancel_seller_order_def transaction_def runCancelSellerOrder_def)
      then show ?thesis
        using True r s' sos cancelled(4,7,8,12,13) so2 books_frame_ok [OF cancelled(12) ok] by simp
    qed
  qed
qed

section \<open>The consumer\<close>

lemma startProcessing_row:
  assumes "by_id so_id i (seller_orders (db s)) = Some so" "so_status so = SellerOrderStatus.AWAITING_FULFILLMENT"
  shows "startProcessing i c s = (Inr (), snd (startProcessing i c s)) \<and>
         seller_orders (db (snd (startProcessing i c s)))
           = put_row so_id (so\<lparr>so_status := SellerOrderStatus.PROCESSING\<rparr>) (seller_orders (db s)) \<and>
         orders (db (snd (startProcessing i c s))) = orders (db s)"
  using assms by (simp add: startProcessing_def transaction_def runStartProcessing_def)

lemma startProcessing_frame:
  "fst (startProcessing i c s) = Inr () \<and>
   products (db (snd (startProcessing i c s))) = products (db s) \<and>
   refunds (db (snd (startProcessing i c s))) = refunds (db s) \<and>
   ledger_entries (db (snd (startProcessing i c s))) = ledger_entries (db s) \<and>
   seller_order_items (db (snd (startProcessing i c s))) = seller_order_items (db s) \<and>
   orders (db (snd (startProcessing i c s))) = orders (db s) \<and>
   processed_events (db (snd (startProcessing i c s))) = processed_events (db s) \<and>
   effects (snd (startProcessing i c s)) = effects s \<and>
   next_id (db s) \<le> next_id (db (snd (startProcessing i c s)))"
  by (simp add: startProcessing_def transaction_def runStartProcessing_def split: option.split)

lemma startProcessing_skips:
  "(\<And>so. by_id so_id i (seller_orders (db s)) = Some so \<Longrightarrow> so_status so \<noteq> SellerOrderStatus.AWAITING_FULFILLMENT)
   \<Longrightarrow> startProcessing i c s = (Inr (), s)"
  by (simp add: startProcessing_def transaction_def runStartProcessing_def split: option.split)

lemma startProcessing_settled:
  assumes "by_id so_id i (seller_orders (db (snd (startProcessing i c s)))) = Some so"
  shows "so_status so \<noteq> SellerOrderStatus.AWAITING_FULFILLMENT"
proof (cases "\<exists>so. by_id so_id i (seller_orders (db s)) = Some so \<and>
                   so_status so = SellerOrderStatus.AWAITING_FULFILLMENT")
  case True
  then obtain so' where so': "by_id so_id i (seller_orders (db s)) = Some so'"
    "so_status so' = SellerOrderStatus.AWAITING_FULFILLMENT" by blast
  then have "by_id so_id i (seller_orders (db (snd (startProcessing i c s))))
      = Some (so'\<lparr>so_status := SellerOrderStatus.PROCESSING\<rparr>)"
    using startProcessing_row [OF so', of c] by_id_SomeD [OF so'(1)] by (simp add: by_id_put_row_same)
  with assms show ?thesis by auto
next
  case False
  then have "startProcessing i c s = (Inr (), s)" using startProcessing_skips by blast
  with assms False show ?thesis by auto
qed

lemma dispatch_frame:
  "fst (dispatch_seller_order t i c s) = Inr () \<and>
   processed_events (db (snd (dispatch_seller_order t i c s))) = processed_events (db s)"
  using startProcessing_frame by (simp add: dispatch_seller_order_def)

text \<open>The job data of the queue, and the consumer as an instance of the contract.\<close>

type_synonym event_job = "uuid \<times> string \<times> uuid \<times> uuid"

fun handle_seller_order_job :: "event_job \<Rightarrow> sys \<Rightarrow> unit result \<times> sys" where
  "handle_seller_order_job (outboxEventId, eventType, aggregateId, correlationId) s =
     process_seller_order_event outboxEventId eventType aggregateId correlationId s"

interpretation seller_order_consumer: dedup_consumer
  "\<lambda>j s. alreadyProcessed CONSUMER_NAME (fst j) (db s)" handle_seller_order_job
proof
  fix x y :: event_job and s s' :: sys
  show "alreadyProcessed CONSUMER_NAME (fst x) (db s) \<Longrightarrow> handle_seller_order_job x s = (Inr (), s)"
    by (cases x) (simp add: process_seller_order_event_def consume_skips)
  show "handle_seller_order_job x s = (Inr (), s') \<Longrightarrow> alreadyProcessed CONSUMER_NAME (fst x) (db s')"
    by (cases x) (auto simp: process_seller_order_event_def dest: consume_marks)
  show "alreadyProcessed CONSUMER_NAME (fst y) (db s) \<Longrightarrow>
        alreadyProcessed CONSUMER_NAME (fst y) (db (snd (handle_seller_order_job x s)))"
    by (cases x) (simp add: process_seller_order_event_def consume_keeps dispatch_frame)
qed

text \<open>
  The consumer tolerates the queue's at-least-once delivery. A job always succeeds; delivered
  again later, after any other jobs, it changes nothing; and if the worker dies between starting
  the order and recording the event, the repeated start finds the order already started and
  changes nothing either.
\<close>
theorem seller_order_event_once:
  "(\<exists>s'. handle_seller_order_job j s = (Inr (), s') \<and>
         (\<forall>js. let later = fold (\<lambda>x t. snd (handle_seller_order_job x t)) js s'
               in handle_seller_order_job j later = (Inr (), later))) \<and>
   startProcessing i c' (snd (startProcessing i c s)) = (Inr (), snd (startProcessing i c s))"
proof (intro conjI)
  obtain x t i c where j: "j = (x, t, i, c)" by (cases j)
  have "fst (handle_seller_order_job j s) = Inr ()"
    using dispatch_frame by (simp add: j process_seller_order_event_def consume_def fst_recordQueueJob split_beta)
  then obtain s' where s': "handle_seller_order_job j s = (Inr (), s')"
    by (cases "handle_seller_order_job j s") auto
  then show "\<exists>s'. handle_seller_order_job j s = (Inr (), s') \<and>
         (\<forall>js. let later = fold (\<lambda>x t. snd (handle_seller_order_job x t)) js s'
               in handle_seller_order_job j later = (Inr (), later))"
    using seller_order_consumer.redelivery [OF s'] by (auto simp: Let_def)
  show "startProcessing i c' (snd (startProcessing i c s)) = (Inr (), snd (startProcessing i c s))" for i c c' s
    by (rule startProcessing_skips) (rule startProcessing_settled)
qed

lemma derive_in_processing:
  assumes st: "\<forall>x \<in> set xs. x = SellerOrderStatus.AWAITING_FULFILLMENT \<or> x = SellerOrderStatus.PROCESSING"
    and p: "SellerOrderStatus.PROCESSING \<in> set xs"
  shows "deriveParentOrderStatus xs = OrderStatus.PROCESSING"
proof -
  have ne: "xs \<noteq> []" and nc: "SellerOrderStatus.CANCELLED \<notin> set xs" and ns: "SellerOrderStatus.SHIPPED \<notin> set xs"
    and nf: "\<forall>x \<in> set xs. \<not> finished x" using st p by (auto simp: finished_def)
  have act: "filter (\<lambda>s. s \<noteq> SellerOrderStatus.CANCELLED) xs = xs"
    "filter (\<lambda>s. s = SellerOrderStatus.CANCELLED) xs = []"
    using nc by (auto simp: filter_id_conv filter_empty_conv)
  note R = ranks_of_active [OF ne nc]
  have "Max (set (map rankOf xs)) \<noteq> 3" using R(1) nf by auto
  moreover have "Max (set (map rankOf xs)) \<noteq> 2" using R(3) [OF nf] ns by auto
  moreover have "Max (set (map rankOf xs)) = 1" using R(5) [OF nf ns] p by auto
  ultimately show ?thesis using ne by (simp add: deriveParentOrderStatus_def act Let_def del: set_map)
qed

text \<open>
  Starting an order leaves its parent behind. After a checkout, when all seller orders of an order
  await fulfilment, the event that starts one of them makes the aggregate of their statuses
  PROCESSING, but the handler never recomputes the parent, whose stored status stays as it was:
  the invariant the two other handlers keep is broken until the next of them runs.
\<close>
theorem start_leaves_parent_behind:
  assumes refs: "refs_ok (db s)" and row: "by_id so_id i (seller_orders (db s)) = Some so"
    and parent: "by_id ord_id (so_orderId so) (orders (db s)) = Some x" and new: "ord_status x = OrderStatus.NEW"
    and sib: "\<forall>y \<in> set (sellerOrders_of (so_orderId so) (db s)). so_status y = SellerOrderStatus.AWAITING_FULFILLMENT"
    and run: "startProcessing i c s = (r, s')"
  shows "r = Inr () \<and>
         deriveParentOrderStatus (map so_status (sellerOrders_of (so_orderId so) (db s'))) = OrderStatus.PROCESSING \<and>
         by_id ord_id (so_orderId so) (orders (db s')) = Some x \<and> \<not> parents_ok (db s')"
proof -
  let ?so = "so\<lparr>so_status := SellerOrderStatus.PROCESSING\<rparr>"
  have so: "so \<in> set (seller_orders (db s))" "so_id so = i" using by_id_SomeD [OF row] by auto
  have aw: "so_status so = SellerOrderStatus.AWAITING_FULFILLMENT" using sib so(1) by (simp add: sellerOrders_of_def)
  note step = startProcessing_row [OF row aw, of c, unfolded run, simplified]
  have xs: "\<forall>y \<in> set (sellerOrders_of (so_orderId so) (db s')).
      so_status y = SellerOrderStatus.AWAITING_FULFILLMENT \<or> so_status y = SellerOrderStatus.PROCESSING"
  proof
    fix y assume y: "y \<in> set (sellerOrders_of (so_orderId so) (db s'))"
    then have "y \<in> set (put_row so_id ?so (seller_orders (db s)))" "so_orderId y = so_orderId so"
      using step by (simp_all add: sellerOrders_of_def)
    then have "y = ?so \<or> y \<in> set (sellerOrders_of (so_orderId so) (db s))"
      using set_put_rowD [of y so_id ?so] by (auto simp: sellerOrders_of_def)
    then show "so_status y = SellerOrderStatus.AWAITING_FULFILLMENT \<or> so_status y = SellerOrderStatus.PROCESSING"
      using sib by auto
  qed
  have "by_id so_id i (seller_orders (db s')) = Some ?so"
    using step by_id_put_row_same [OF row, of ?so] so(2) by simp
  from by_id_SomeD [OF this] have "?so \<in> set (sellerOrders_of (so_orderId so) (db s'))"
    by (simp add: sellerOrders_of_def)
  from imageI [OF this, of so_status]
  have "SellerOrderStatus.PROCESSING \<in> set (map so_status (sellerOrders_of (so_orderId so) (db s')))"
    by simp
  then have d: "deriveParentOrderStatus (map so_status (sellerOrders_of (so_orderId so) (db s'))) = OrderStatus.PROCESSING"
    using xs by (intro derive_in_processing) auto
  have p: "by_id ord_id (so_orderId so) (orders (db s')) = Some x" using step parent by simp
  from by_id_SomeD [OF p] have "x \<in> set (orders (db s'))" "ord_id x = so_orderId so" by simp_all
  then have "\<not> parents_ok (db s')" using d new unfolding parents_ok_def by (metis OrderStatus.distinct(1))
  with step d p show ?thesis by simp
qed

section \<open>A concrete order\<close>

text \<open>
  One order of two sellers, as a checkout leaves it: seller 1 sold two units of product 11 at 5.00,
  seller 2 one unit of product 12 at 9.99.
\<close>

definition ordered_so :: SellerOrder where
  "ordered_so = \<lparr>so_id = 31, so_orderId = 30, so_sellerProfileId = 1, so_subtotal = ''10.00'',
     so_commissionAmount = ''1.00'', so_sellerNetAmount = ''9.00'',
     so_status = SellerOrderStatus.AWAITING_FULFILLMENT, so_createdAt = 5\<rparr>"

definition ordered_order :: Order where
  "ordered_order = \<lparr>ord_id = 30, ord_buyerId = 8, ord_totalAmount = ''19.99'', ord_status = OrderStatus.NEW,
     ord_shippingAddressLine1 = None, ord_shippingAddressLine2 = None, ord_shippingCity = None,
     ord_shippingPostalCode = None, ord_shippingCountry = None, ord_createdAt = 5\<rparr>"

definition order_entry :: "uuid \<Rightarrow> uuid \<Rightarrow> LedgerEntryType \<Rightarrow> string \<Rightarrow> uuid \<Rightarrow> LedgerEntry" where
  "order_entry i sp t a so = \<lparr>le_id = i, le_sellerProfileId = sp, le_type = t, le_amount = a,
     le_sellerOrderId = Some so, le_refundId = None, le_correlationId = Some 0\<rparr>"

definition order_db :: database where
  "order_db = empty_db\<lparr>next_id := 50, products := [shop_product 11 1 ''5.00'' 3, shop_product 12 2 ''9.99'' 2],
     orders := [ordered_order],
     seller_orders := [ordered_so, ordered_so\<lparr>so_id := 32, so_sellerProfileId := 2, so_subtotal := ''9.99'',
        so_commissionAmount := ''0.50'', so_sellerNetAmount := ''9.49''\<rparr>],
     seller_order_items := [\<lparr>soi_id = 41, soi_sellerOrderId = 31, soi_productId = Some 11,
        soi_productName = ''mug'', soi_unitPrice = ''5.00'', soi_quantity = 2, soi_lineTotal = ''10.00''\<rparr>,
        \<lparr>soi_id = 42, soi_sellerOrderId = 32, soi_productId = Some 12, soi_productName = ''cup'',
         soi_unitPrice = ''9.99'', soi_quantity = 1, soi_lineTotal = ''9.99''\<rparr>],
     ledger_entries := [order_entry 43 1 SALE_CREDIT ''10.00'' 31, order_entry 44 1 COMMISSION_DEBIT ''1.00'' 31,
        order_entry 45 2 SALE_CREDIT ''9.99'' 32, order_entry 46 2 COMMISSION_DEBIT ''0.50'' 32]\<rparr>"

lemma order_db_ok: "books_ok (db (start_sys order_db))" "parents_ok (db (start_sys order_db))"
  by code_simp+

lemma order_db_row: "by_id so_id 31 (seller_orders (db (start_sys order_db))) = Some ordered_so"
  by code_simp

theorem updateStatus_outcome_witness:
  "\<not> is_error (fst (updateStatus (BySeller 1) 31 SellerOrderStatus.PROCESSING 7 (start_sys order_db))) \<and>
   parents_ok (db (snd (updateStatus (BySeller 1) 31 SellerOrderStatus.PROCESSING 7 (start_sys order_db)))) \<and>
   is_error (fst (updateStatus (BySeller 2) 31 SellerOrderStatus.PROCESSING 7 (start_sys order_db)))"
proof -
  let ?run = "\<lambda>sp. updateStatus (BySeller sp) 31 SellerOrderStatus.PROCESSING 7 (start_sys order_db)"
  note out = updateStatus_outcome [OF order_db_ok(1), of "BySeller sp" 31 SellerOrderStatus.PROCESSING 7
      "fst (?run sp)" "snd (?run sp)" for sp, simplified prod.collapse]
  have m: "may_act (BySeller 1) ordered_so" "\<not> may_act (BySeller 2) ordered_so"
    "SellerOrderStatus.PROCESSING \<in> set (FORWARD_TRANSITIONS (so_status ordered_so))" by code_simp+
  have "\<not> is_error (fst (?run 1))" using out [of 1] order_db_row m by simp
  moreover from this obtain so' where "fst (?run 1) = Inr so'" by (auto simp: not_is_error_iff)
  ultimately show ?thesis using out [of 1] out [of 2] order_db_row order_db_ok(2) m by auto
qed

theorem cancel_gives_back_witness:
  "map pr_stockQuantity (products (db (snd (cancel_seller_order ByAdmin 31 7 (start_sys order_db))))) = [5, 2] \<and>
   books_ok (db (snd (cancel_seller_order ByAdmin 31 7 (start_sys order_db))))"
proof -
  have c: "may_act ByAdmin ordered_so" "so_status ordered_so \<noteq> SellerOrderStatus.CANCELLED"
    "isCancellable (so_status ordered_so)" by code_simp+
  have "map pr_stockQuantity (stock_less (\<lambda>p. - restored_units p (items_of 31 (db (start_sys order_db))))
      (products (db (start_sys order_db)))) = [5, 2]" by code_simp
  then show ?thesis
    using cancel_gives_back [OF order_db_ok(1) order_db_row c(1,2) prod.collapse [symmetric], of 7] c(3) by simp
qed

theorem start_leaves_parent_behind_witness:
  "\<not> parents_ok (db (snd (startProcessing 31 7 (start_sys order_db))))"
proof -
  have "by_id ord_id (so_orderId ordered_so) (orders (db (start_sys order_db))) = Some ordered_order"
    "ord_status ordered_order = OrderStatus.NEW" "refs_ok (db (start_sys order_db))"
    "list_all (\<lambda>y. so_status y = SellerOrderStatus.AWAITING_FULFILLMENT)
       (sellerOrders_of (so_orderId ordered_so) (db (start_sys order_db)))" by code_simp+
  then show ?thesis
    using start_leaves_parent_behind [OF _ order_db_row _ _ _ prod.collapse [symmetric], of ordered_order 7]
    by (simp add: list_all_iff)
qed

end
