(* ===== verification/Refunds.thy ===== *)
theory Refunds
  imports Seller_Orders
begin

text \<open>
  Item-level refunds (\<open>modules/refunds/refunds.service.ts\<close>): the transaction, which the dispute
  resolution also runs, the handler around it with its idempotent replay, and the list of a seller
  order's refunds. The amounts written here come out of \<open>formatCentsToMoney\<close>.
\<close>

section \<open>Requests and views\<close>

record CreateRefundDto =
  rd_sellerOrderItemId :: uuid
  rd_quantity :: int
  rd_reason :: "string option"

record RefundOutcome =
  ro_refund :: Refund
  ro_touchedProductId :: "uuid option"
  ro_replayed :: bool

record RefundView =
  rfv_id :: uuid
  rfv_sellerOrderId :: uuid
  rfv_sellerOrderItemId :: uuid
  rfv_quantity :: int
  rfv_amount :: string
  rfv_commissionAdjustment :: string
  rfv_sellerAdjustment :: string
  rfv_reason :: "string option"
  rfv_status :: RefundStatus
  rfv_createdAt :: time

definition refund_toView :: "Refund \<Rightarrow> RefundView" where
  "refund_toView refund =
     \<lparr>rfv_id = rf_id refund, rfv_sellerOrderId = rf_sellerOrderId refund,
      rfv_sellerOrderItemId = rf_sellerOrderItemId refund, rfv_quantity = rf_quantity refund,
      rfv_amount = rf_amount refund, rfv_commissionAdjustment = rf_commissionAdjustment refund,
      rfv_sellerAdjustment = rf_sellerAdjustment refund, rfv_reason = rf_reason refund,
      rfv_status = rf_status refund, rfv_createdAt = rf_createdAt refund\<rparr>"

definition RESTORE_STOCK_ON_REFUND :: bool where
  "RESTORE_STOCK_ON_REFUND = True"

section \<open>The transaction\<close>

definition priorRefunds :: "uuid \<Rightarrow> database \<Rightarrow> Refund list" where
  "priorRefunds itemId d =
     filter (\<lambda>r. rf_sellerOrderItemId r = itemId \<and> rf_status r = RefundStatus.COMPLETED) (refunds d)"

definition alreadyRefundedQty :: "uuid \<Rightarrow> database \<Rightarrow> int" where
  "alreadyRefundedQty itemId d = foldl (\<lambda>sum r. sum + rf_quantity r) 0 (priorRefunds itemId d)"

text \<open>Gross refund, commission correction and seller adjustment, in cents.\<close>

definition refund_amounts :: "SellerOrder \<Rightarrow> SellerOrderItem \<Rightarrow> int \<Rightarrow> (int \<times> int \<times> int) result" where
  "refund_amounts sellerOrder item quantity =
     rbind (parseMoneyToCents (soi_unitPrice item)) (\<lambda>unitPriceCents.
     rbind (parseMoneyToCents (so_subtotal sellerOrder)) (\<lambda>subtotalCents.
     rbind (parseMoneyToCents (so_commissionAmount sellerOrder)) (\<lambda>commissionCents.
     let refundGrossCents = multiplyCentsByQuantity unitPriceCents quantity;
         commissionCorrectionCents = applyRatio refundGrossCents commissionCents subtotalCents
     in Inr (refundGrossCents, commissionCorrectionCents,
             refundGrossCents - commissionCorrectionCents))))"

definition new_refund ::
  "env \<Rightarrow> uuid \<Rightarrow> CreateRefundDto \<Rightarrow> string \<Rightarrow> uuid \<Rightarrow> uuid \<Rightarrow> uuid option \<Rightarrow> uuid \<Rightarrow> int \<times> int \<times> int \<Rightarrow>
   uuid \<Rightarrow> Refund" where
  "new_refund e sellerOrderId dto idempotencyKey initiatedBy correlationId disputeId itemId parts i =
     \<lparr>rf_id = i, rf_sellerOrderId = sellerOrderId, rf_sellerOrderItemId = itemId,
      rf_disputeId = disputeId, rf_quantity = rd_quantity dto,
      rf_amount = formatCentsToMoney (fst parts),
      rf_commissionAdjustment = formatCentsToMoney (fst (snd parts)),
      rf_sellerAdjustment = formatCentsToMoney (snd (snd parts)), rf_reason = rd_reason dto,
      rf_status = RefundStatus.COMPLETED, rf_idempotencyKey = idempotencyKey,
      rf_initiatedBy = initiatedBy, rf_correlationId = Some correlationId, rf_createdAt = now e\<rparr>"

text \<open>The unique index on (sellerOrderId, idempotencyKey) makes the insert the idempotency claim.\<close>

definition is_refund_claim :: "uuid \<Rightarrow> string \<Rightarrow> Refund \<Rightarrow> bool" where
  "is_refund_claim sellerOrderId idempotencyKey r \<longleftrightarrow>
     rf_sellerOrderId r = sellerOrderId \<and> rf_idempotencyKey r = idempotencyKey"

definition insert_refund :: "Refund \<Rightarrow> database \<Rightarrow> database result" where
  "insert_refund refund d =
     (if \<exists>r \<in> set (refunds d). is_refund_claim (rf_sellerOrderId refund) (rf_idempotencyKey refund) r
      then Inl UniqueViolation
      else Inr (d\<lparr>next_id := next_id d + 1, refunds := refunds d @ [refund]\<rparr>))"

definition refund_ledger :: "SellerOrder \<Rightarrow> Refund \<Rightarrow> uuid \<Rightarrow> database \<Rightarrow> database" where
  "refund_ledger sellerOrder refund correlationId d =
     create_ledger_entry (so_sellerProfileId sellerOrder) PLATFORM_COMMISSION_REVERSAL
       (rf_commissionAdjustment refund) (Some (rf_sellerOrderId refund)) (Some (rf_id refund)) correlationId
       (create_ledger_entry (so_sellerProfileId sellerOrder) SELLER_EARNING_REVERSAL
          (rf_amount refund) (Some (rf_sellerOrderId refund)) (Some (rf_id refund)) correlationId d)"

definition restock_refund :: "SellerOrderItem \<Rightarrow> int \<Rightarrow> uuid \<Rightarrow> sys \<Rightarrow> uuid option \<times> sys" where
  "restock_refund item quantity correlationId s =
     (case soi_productId item of
        None \<Rightarrow> (None, s)
      | Some productId \<Rightarrow>
          if \<not> RESTORE_STOCK_ON_REFUND then (None, s)
          else if fst (restoreProductStock productId quantity (db s))
          then (Some productId, record_restored correlationId productId
                  (upd_db (\<lambda>d. snd (restoreProductStock productId quantity d)) s))
          else (None, upd_db (\<lambda>d. snd (restoreProductStock productId quantity d)) s))"

definition record_refund_created :: "Refund \<Rightarrow> uuid \<Rightarrow> sys \<Rightarrow> sys" where
  "record_refund_created refund =
     outbox_record ''REFUND_CREATED'' ''Refund'' (rf_id refund)
       [(''refundId'', JId (rf_id refund)), (''sellerOrderId'', JId (rf_sellerOrderId refund)),
        (''sellerOrderItemId'', JId (rf_sellerOrderItemId refund)),
        (''quantity'', JInt (rf_quantity refund))]"

definition book_refund ::
  "SellerOrder \<Rightarrow> SellerOrderItem \<Rightarrow> uuid \<Rightarrow> Refund \<Rightarrow> sys \<Rightarrow> RefundOutcome result \<times> sys" where
  "book_refund sellerOrder item correlationId refund s =
     (case insert_refund refund (db s) of
        Inl err \<Rightarrow> (Inl err, s)
      | Inr d1 \<Rightarrow>
     (case restock_refund item (rf_quantity refund) correlationId
             (s\<lparr>db := refund_ledger sellerOrder refund correlationId d1\<rparr>) of
        (touched, s1) \<Rightarrow>
          (Inr \<lparr>ro_refund = refund, ro_touchedProductId = touched, ro_replayed = False\<rparr>,
           record_refund_created refund correlationId s1)))"

definition createRefundInTransaction ::
  "env \<Rightarrow> uuid \<Rightarrow> CreateRefundDto \<Rightarrow> string \<Rightarrow> uuid \<Rightarrow> uuid \<Rightarrow> uuid option \<Rightarrow> sys \<Rightarrow>
   RefundOutcome result \<times> sys" where
  "createRefundInTransaction e sellerOrderId dto idempotencyKey initiatedBy correlationId disputeId s =
     (case by_id so_id sellerOrderId (seller_orders (db s)) of
        None \<Rightarrow> (Inl (NotFoundException ''Seller order not found''), s)
      | Some sellerOrder \<Rightarrow>
     (case assertRefundable (so_status sellerOrder) of
        Inl err \<Rightarrow> (Inl err, s)
      | Inr _ \<Rightarrow>
     (case find (\<lambda>i. soi_id i = rd_sellerOrderItemId dto \<and> soi_sellerOrderId i = sellerOrderId)
             (seller_order_items (db s)) of
        None \<Rightarrow> (Inl (NotFoundException ''Item does not belong to seller order''), s)
      | Some item \<Rightarrow>
          if rd_quantity dto > soi_quantity item - alreadyRefundedQty (soi_id item) (db s)
          then (Inl (ConflictException ''Only some unit(s) remain refundable''), s)
          else
     (case refund_amounts sellerOrder item (rd_quantity dto) of
        Inl err \<Rightarrow> (Inl err, s)
      | Inr parts \<Rightarrow>
          book_refund sellerOrder item correlationId
            (new_refund e sellerOrderId dto idempotencyKey initiatedBy correlationId disputeId
               (soi_id item) parts (next_id (db s))) s))))"

section \<open>The handler\<close>

definition afterCommittedRefund :: "RefundOutcome \<Rightarrow> sys \<Rightarrow> unit result \<times> sys" where
  "afterCommittedRefund outcome s =
     (let s1 = (case ro_touchedProductId outcome of
                  None \<Rightarrow> s
                | Some p \<Rightarrow> emit RedisIncrSearchVersion (emit (RedisDelProduct p) s))
      in if ro_replayed outcome then (Inr (), s1)
         else (case parseMoneyToCents (rf_amount (ro_refund outcome)) of
                 Inl err \<Rightarrow> (Inl err, increment ''refunds_total'' s1)
               | Inr amount \<Rightarrow>
                   (Inr (), incrementBy ''refund_amount_total'' amount (increment ''refunds_total'' s1))))"

definition replayCompletedRefund :: "uuid \<Rightarrow> string \<Rightarrow> database \<Rightarrow> RefundView result" where
  "replayCompletedRefund sellerOrderId idempotencyKey d =
     (case find (is_refund_claim sellerOrderId idempotencyKey) (refunds d) of
        None \<Rightarrow> Inl (ConflictException ''A refund with this Idempotency-Key is already in progress'')
      | Some existing \<Rightarrow>
          if rf_status existing \<noteq> RefundStatus.COMPLETED
          then Inl (ConflictException ''A refund with this Idempotency-Key is already in progress'')
          else Inr (refund_toView existing))"

definition refund_failed :: "uuid \<Rightarrow> string \<Rightarrow> app_error \<Rightarrow> sys \<Rightarrow> RefundView result \<times> sys" where
  "refund_failed sellerOrderId idempotencyKey err s =
     (if isUniqueViolation err then (replayCompletedRefund sellerOrderId idempotencyKey (db s), s)
      else (Inl err, increment ''refund_failures_total'' s))"

definition createRefund ::
  "env \<Rightarrow> uuid \<Rightarrow> CreateRefundDto \<Rightarrow> string option \<Rightarrow> uuid \<Rightarrow> uuid \<Rightarrow> sys \<Rightarrow> RefundView result \<times> sys" where
  "createRefund e sellerOrderId dto key initiatedBy correlationId s =
     (case requireIdempotencyKey key of
        Inl err \<Rightarrow> (Inl err, s)
      | Inr idempotencyKey \<Rightarrow>
          (case transaction (createRefundInTransaction e sellerOrderId dto idempotencyKey initiatedBy
                   correlationId None) s of
             (Inl err, s1) \<Rightarrow> refund_failed sellerOrderId idempotencyKey err s1
           | (Inr outcome, s1) \<Rightarrow>
               (case afterCommittedRefund outcome s1 of
                  (Inl err, s2) \<Rightarrow> refund_failed sellerOrderId idempotencyKey err s2
                | (Inr _, s2) \<Rightarrow> (Inr (refund_toView (ro_refund outcome)), s2))))"

text \<open>\<open>createdAt DESC\<close>: rows are kept in the order they were created.\<close>

definition findBySellerOrder :: "uuid \<Rightarrow> database \<Rightarrow> RefundView list" where
  "findBySellerOrder sellerOrderId d =
     map refund_toView (rev (filter (\<lambda>r. rf_sellerOrderId r = sellerOrderId) (refunds d)))"

section \<open>What a refund writes\<close>

lemma alreadyRefundedQty_sum:
  "alreadyRefundedQty i d = sum_list (map rf_quantity (priorRefunds i d))"
proof -
  have "foldl (\<lambda>sum r. sum + rf_quantity r) a rs = a + sum_list (map rf_quantity rs)" for a :: int and rs :: "Refund list"
    by (induction rs arbitrary: a) auto
  then show ?thesis by (simp add: alreadyRefundedQty_def)
qed

lemma alreadyRefundedQty_cong: "refunds d' = refunds d \<Longrightarrow> alreadyRefundedQty i d' = alreadyRefundedQty i d"
  by (simp add: alreadyRefundedQty_def priorRefunds_def)

lemma restock_run:
  "products (db (snd (restock_refund item q c s))) =
     stock_less (\<lambda>p. if soi_productId item = Some p then - q else 0) (products (db s)) \<and>
   same_order_rows s (snd (restock_refund item q c s))"
proof (cases "soi_productId item")
  case None
  then show ?thesis by (simp add: restock_refund_def same_order_rows_def stock_less_zero)
next
  case (Some pid)
  have "(\<lambda>p. if soi_productId item = Some p then - q else 0) = (\<lambda>p. if p = pid then - q else 0)"
    using Some by (auto simp: fun_eq_iff)
  with Some show ?thesis
    by (simp add: restock_refund_def RESTORE_STOCK_ON_REFUND_def same_order_rows_def restore_products
        record_restored_def)
qed

lemma record_refund_created_frame [simp]:
  "seller_orders (db (record_refund_created r c s)) = seller_orders (db s)"
  "seller_order_items (db (record_refund_created r c s)) = seller_order_items (db s)"
  "ledger_entries (db (record_refund_created r c s)) = ledger_entries (db s)"
  "refunds (db (record_refund_created r c s)) = refunds (db s)"
  "products (db (record_refund_created r c s)) = products (db s)"
  "disputes (db (record_refund_created r c s)) = disputes (db s)"
  "processed_events (db (record_refund_created r c s)) = processed_events (db s)"
  "orders (db (record_refund_created r c s)) = orders (db s)"
  "effects (record_refund_created r c s) = effects s"
  "next_id (db (record_refund_created r c s)) = next_id (db s) + 1"
  by (simp_all add: record_refund_created_def)

definition refund_entries :: "SellerOrder \<Rightarrow> Refund \<Rightarrow> LedgerEntry list \<Rightarrow> bool" where
  "refund_entries so r new \<longleftrightarrow>
     list_all (\<lambda>x. le_sellerOrderId x = Some (so_id so) \<and> le_refundId x = Some (rf_id r) \<and>
                   le_sellerProfileId x = so_sellerProfileId so) new \<and>
     map (\<lambda>x. (le_type x, le_amount x)) new
       = [(SELLER_EARNING_REVERSAL, rf_amount r), (PLATFORM_COMMISSION_REVERSAL, rf_commissionAdjustment r)]"

lemma refund_ledger_run:
  "rf_sellerOrderId r = so_id so \<Longrightarrow>
   \<exists>new. ledger_entries (refund_ledger so r c d) = ledger_entries d @ new \<and> refund_entries so r new"
  by (simp add: refund_ledger_def create_ledger_entry_def refund_entries_def)

lemma refund_ledger_frame [simp]:
  "seller_orders (refund_ledger so r c d) = seller_orders d" "orders (refund_ledger so r c d) = orders d"
  "seller_order_items (refund_ledger so r c d) = seller_order_items d"
  "refunds (refund_ledger so r c d) = refunds d" "products (refund_ledger so r c d) = products d"
  "disputes (refund_ledger so r c d) = disputes d"
  "processed_events (refund_ledger so r c d) = processed_events d"
  "next_id (refund_ledger so r c d) = next_id d + 2"
  by (simp_all add: refund_ledger_def)

text \<open>A refund that went through, row by row.\<close>

lemma createRefund_Inr:
  assumes run: "createRefundInTransaction e i dto k u c dis s = (Inr out, s')"
  obtains so item gross com new where
    "by_id so_id i (seller_orders (db s)) = Some so" "so_status so \<in> set REFUNDABLE_FROM"
    "item \<in> set (seller_order_items (db s))" "soi_id item = rd_sellerOrderItemId dto" "soi_sellerOrderId item = i"
    "rd_quantity dto \<le> soi_quantity item - alreadyRefundedQty (soi_id item) (db s)"
    "is_money (soi_unitPrice item)" "gross = cents (soi_unitPrice item) * rd_quantity dto"
    "com = applyRatio gross (cents (so_commissionAmount so)) (cents (so_subtotal so))"
    "\<not> (\<exists>r \<in> set (refunds (db s)). is_refund_claim i k r)"
    "ro_refund out = new_refund e i dto k u c dis (soi_id item) (gross, com, gross - com) (next_id (db s))"
    "refunds (db s') = refunds (db s) @ [ro_refund out]"
    "ledger_entries (db s') = ledger_entries (db s) @ new" "refund_entries so (ro_refund out) new"
    "products (db s') = stock_less (\<lambda>p. if soi_productId item = Some p then - rd_quantity dto else 0) (products (db s))"
    "seller_orders (db s') = seller_orders (db s)" "orders (db s') = orders (db s)"
    "seller_order_items (db s') = seller_order_items (db s)" "disputes (db s') = disputes (db s)"
    "effects s' = effects s" "next_id (db s) < next_id (db s')" "\<not> ro_replayed out"
    "processed_events (db s') = processed_events (db s)"
proof -
  obtain so where so: "by_id so_id i (seller_orders (db s)) = Some so"
    using run by (auto simp: createRefundInTransaction_def split: option.splits)
  have st: "so_status so \<in> set REFUNDABLE_FROM"
    using run so by (auto simp: createRefundInTransaction_def assertRefundable_def split: if_splits)
  let ?P = "\<lambda>x. soi_id x = rd_sellerOrderItemId dto \<and> soi_sellerOrderId x = i"
  obtain item where f: "find ?P (seller_order_items (db s)) = Some item"
    using run so st by (cases "find ?P (seller_order_items (db s))")
      (auto simp: createRefundInTransaction_def assertRefundable_def)
  note item = find_SomeD [OF f]
  have q: "rd_quantity dto \<le> soi_quantity item - alreadyRefundedQty (soi_id item) (db s)"
    using run so st f by (auto simp: createRefundInTransaction_def assertRefundable_def split: if_splits)
  obtain parts where am: "refund_amounts so item (rd_quantity dto) = Inr parts"
    using run so st f q by (cases "refund_amounts so item (rd_quantity dto)")
      (auto simp: createRefundInTransaction_def assertRefundable_def)
  let ?gross = "cents (soi_unitPrice item) * rd_quantity dto"
  let ?com = "applyRatio ?gross (cents (so_commissionAmount so)) (cents (so_subtotal so))"
  have parts: "parts = (?gross, ?com, ?gross - ?com)" and unit: "is_money (soi_unitPrice item)"
    using am by (auto simp: refund_amounts_def rbind_Inr_iff multiplyCentsByQuantity_def Let_def is_money_def
        dest: cents_parse)
  let ?r = "new_refund e i dto k u c dis (soi_id item) parts (next_id (db s))"
  have book: "book_refund so item c ?r s = (Inr out, s')"
    using run so st f q am by (simp add: createRefundInTransaction_def assertRefundable_def)
  then obtain d1 where d1: "insert_refund ?r (db s) = Inr d1"
    by (auto simp: book_refund_def split: sum.splits)
  have new: "\<not> (\<exists>r \<in> set (refunds (db s)). is_refund_claim i k r)"
    and d1': "d1 = (db s)\<lparr>next_id := next_id (db s) + 1, refunds := refunds (db s) @ [?r]\<rparr>"
    using d1 by (auto simp: insert_refund_def new_refund_def split: if_splits)
  let ?s1 = "s\<lparr>db := refund_ledger so ?r c d1\<rparr>"
  let ?s2 = "snd (restock_refund item (rd_quantity dto) c ?s1)"
  have rq: "rf_quantity ?r = rd_quantity dto" "rf_sellerOrderId ?r = so_id so"
    using by_id_SomeD [OF so] by (simp_all add: new_refund_def)
  have out: "ro_refund out = ?r" "\<not> ro_replayed out" "s' = record_refund_created ?r c ?s2"
    using book d1 rq by (auto simp: book_refund_def split_beta)
  obtain nw where nw: "ledger_entries (refund_ledger so ?r c d1) = ledger_entries d1 @ nw" "refund_entries so ?r nw"
    using refund_ledger_run [OF rq(2), of c d1] by blast
  note rs = restock_run [of item "rd_quantity dto" c ?s1]
  have same: "same_order_rows ?s1 ?s2" using rs by simp
  show thesis
    by (rule that [of so item ?gross ?com nw])
      (use so st item q unit new out nw rs same d1' parts in \<open>simp_all add: same_order_rows_def\<close>)
qed

section \<open>The invariant of the refunds\<close>

text \<open>
  No item is refunded beyond what was bought; every refund belongs to an item of its seller order,
  pays the unit price of the purchase for each unit and splits it between platform and seller
  without a rest, in the proportion of the sale; and the ledger holds exactly its two reversals.
\<close>

definition refund_of_item :: "database \<Rightarrow> Refund \<Rightarrow> bool" where
  "refund_of_item d r \<longleftrightarrow> refund_balanced r \<and> rf_status r = RefundStatus.COMPLETED \<and>
     (\<exists>i \<in> set (seller_order_items d). soi_id i = rf_sellerOrderItemId r \<and>
        soi_sellerOrderId i = rf_sellerOrderId r \<and>
        cents (rf_amount r) = cents (soi_unitPrice i) * rf_quantity r) \<and>
     (\<exists>so \<in> set (seller_orders d). so_id so = rf_sellerOrderId r \<and>
        cents (rf_commissionAdjustment r)
          = applyRatio (cents (rf_amount r)) (cents (so_commissionAmount so)) (cents (so_subtotal so)))"

definition refund_booked :: "database \<Rightarrow> Refund \<Rightarrow> bool" where
  "refund_booked d r \<longleftrightarrow>
     map (\<lambda>x. (le_type x, le_amount x, le_sellerOrderId x))
       (filter (\<lambda>x. le_refundId x = Some (rf_id r)) (ledger_entries d))
     = [(SELLER_EARNING_REVERSAL, rf_amount r, Some (rf_sellerOrderId r)),
        (PLATFORM_COMMISSION_REVERSAL, rf_commissionAdjustment r, Some (rf_sellerOrderId r))]"

definition refund_ids_ok :: "database \<Rightarrow> bool" where
  "refund_ids_ok d \<longleftrightarrow> distinct (map soi_id (seller_order_items d)) \<and>
     (\<forall>r \<in> set (refunds d). rf_id r < next_id d) \<and>
     (\<forall>x \<in> set (ledger_entries d). \<forall>i \<in> set_option (le_refundId x). i < next_id d)"

definition refunds_ok :: "database \<Rightarrow> bool" where
  "refunds_ok d \<longleftrightarrow> refund_ids_ok d \<and>
     (\<forall>i \<in> set (seller_order_items d). alreadyRefundedQty (soi_id i) d \<le> soi_quantity i) \<and>
     (\<forall>r \<in> set (refunds d). refund_of_item d r \<and> refund_booked d r)"

lemma alreadyRefundedQty_new:
  assumes "refunds d' = refunds d @ [r]" "rf_status r = RefundStatus.COMPLETED"
  shows "alreadyRefundedQty i d' = alreadyRefundedQty i d + (if rf_sellerOrderItemId r = i then rf_quantity r else 0)"
  using assms by (simp add: alreadyRefundedQty_sum priorRefunds_def)

lemma refund_booked_old:
  assumes "refund_booked d r" "rf_id r < n" "ledger_entries d' = ledger_entries d @ new"
    "list_all (\<lambda>x. le_refundId x = Some n) new"
  shows "refund_booked d' r"
  using assms by (auto simp: refund_booked_def list_all_iff filter_empty_conv)

lemma refund_booked_new:
  assumes "refund_entries so r new" "rf_sellerOrderId r = so_id so" "ledger_entries d' = ledger_entries d @ new"
    "\<And>x. x \<in> set (ledger_entries d) \<Longrightarrow> le_refundId x \<noteq> Some (rf_id r)"
  shows "refund_booked d' r"
proof -
  have "filter (\<lambda>x. le_refundId x = Some (rf_id r)) (ledger_entries d') = new"
    using assms by (auto simp: refund_entries_def list_all_iff filter_id_conv filter_empty_conv)
  moreover obtain a b where "new = [a, b]"
    using assms(1) by (auto simp: refund_entries_def Cons_eq_map_conv)
  ultimately show ?thesis using assms(1,2) by (auto simp: refund_booked_def refund_entries_def)
qed

lemma refund_split_balanced:
  "refund_balanced (new_refund e i dto k u c dis itemId (g, m, g - m) n)"
  by (simp add: refund_balanced_def new_refund_def)

lemma createRefund_ok:
  assumes run: "createRefundInTransaction e i dto k u c dis s = (Inr out, s')"
    and ok: "refunds_ok (db s)" and books: "books_ok (db s)"
  shows "refunds_ok (db s') \<and> books_ok (db s')"
  using run
proof (cases rule: createRefund_Inr)
  case (1 so item gross com new)
  let ?r = "ro_refund out"
  have ids: "refund_ids_ok (db s)" using ok by (simp add: refunds_ok_def)
  have r: "rf_id ?r = next_id (db s)" "rf_sellerOrderId ?r = i" "rf_sellerOrderItemId ?r = soi_id item"
    "rf_quantity ?r = rd_quantity dto" "rf_status ?r = RefundStatus.COMPLETED" "cents (rf_amount ?r) = gross"
    by (simp_all add: 1(11) new_refund_def)
  have bal: "refund_balanced ?r" unfolding 1(11) by (rule refund_split_balanced)
  have so: "so_id so = i" "so \<in> set (seller_orders (db s))" using by_id_SomeD [OF 1(1)] by auto
  have entries: "list_all (\<lambda>x. le_refundId x = Some (next_id (db s))) new"
    using 1(14) r(1) by (auto simp: refund_entries_def list_all_iff)
  have old: "refund_of_item (db s') x \<and> refund_booked (db s') x" if "x \<in> set (refunds (db s))" for x
    using ok ids that 1(16,18) refund_booked_old [OF _ _ 1(13) entries]
    by (auto simp: refunds_ok_def refund_ids_ok_def refund_of_item_def)
  have "refund_booked (db s') ?r"
    by (rule refund_booked_new [OF 1(14) _ 1(13)]) (use r so ids in \<open>auto simp: refund_ids_ok_def\<close>)
  moreover have "refund_of_item (db s') ?r"
    unfolding refund_of_item_def
  proof (intro conjI bexI)
    show "cents (rf_commissionAdjustment ?r) = applyRatio (cents (rf_amount ?r)) (cents (so_commissionAmount so)) (cents (so_subtotal so))"
      using 1(9) by (simp add: 1(11) new_refund_def)
  qed (use bal r so 1(3,5,8,16,18) in simp_all)
  moreover have "alreadyRefundedQty (soi_id x) (db s') \<le> soi_quantity x" if x: "x \<in> set (seller_order_items (db s))" for x
  proof (cases "soi_id x = soi_id item")
    case True
    then have "x = item" using ids x 1(3) same_row by (metis refund_ids_ok_def)
    then show ?thesis using 1(6) alreadyRefundedQty_new [OF 1(12) r(5), of "soi_id x"] r(3,4) by simp
  next
    case False
    then show ?thesis using x ok alreadyRefundedQty_new [OF 1(12) r(5), of "soi_id x"] r(3) by (simp add: refunds_ok_def)
  qed
  moreover have "refund_ids_ok (db s')"
    using ids 1(12,13,18,21) r(1) entries
    by (auto simp: refund_ids_ok_def list_all_iff dest: order.strict_trans)
  ultimately have "refunds_ok (db s')" using old 1(12,18) by (auto simp: refunds_ok_def)
  moreover have "books_frame (db s) (db s')"
  proof -
    have "list_all (after_sale (next_id (db s'))) new"
      using 1(14) so fresh_so_id [of "db s" so] books 1(21)
      by (auto simp: refund_entries_def list_all_iff after_sale_def books_ok_def Cons_eq_map_conv)
    then show ?thesis using 1(13,16,17,18,21) by (auto simp: books_frame_def)
  qed
  ultimately show ?thesis using books_frame_ok books by blast
qed

section \<open>Refund requests\<close>

lemma afterCommitted_run:
  assumes "rf_amount (ro_refund out) = formatCentsToMoney g"
  shows "fst (afterCommittedRefund out s) = Inr () \<and> db (snd (afterCommittedRefund out s)) = db s"
  using assms by (simp add: afterCommittedRefund_def Let_def split: option.split)

lemma createRefund_money:
  "createRefundInTransaction e i dto k u c dis s = (Inr out, s') \<Longrightarrow>
   \<exists>g. rf_amount (ro_refund out) = formatCentsToMoney g"
  by (erule createRefund_Inr) (auto simp: new_refund_def)

text \<open>A request either went through, or was answered from the rows as they are.\<close>

lemma createRefund_cases:
  assumes "createRefund e i dto key u c s = (r, s')"
  obtains (refunded) k out s1 where "key = Some k" "requireIdempotencyKey key = Inr k"
      "createRefundInTransaction e i dto k u c None s = (Inr out, s1)"
      "r = Inr (refund_toView (ro_refund out))" "db s' = db s1"
    | (unchanged) "db s' = db s" "effects s' = effects s"
      "\<forall>k. requireIdempotencyKey key = Inr k \<longrightarrow> is_error (fst (createRefundInTransaction e i dto k u c None s))"
proof (cases "requireIdempotencyKey key")
  case (Inl err)
  with assms show thesis by (intro unchanged) (auto simp: createRefund_def)
next
  case (Inr k)
  then have key: "key = Some k" by (rule requireIdempotencyKey_Inr)
  obtain r1 s1 where run: "createRefundInTransaction e i dto k u c None s = (r1, s1)" by fastforce
  show thesis
  proof (cases r1)
    case (Inl err)
    have ef: "effects s1 = effects s" using run Inl
      by (auto simp: createRefundInTransaction_def book_refund_def split: option.splits sum.splits if_splits prod.splits)
    show ?thesis using assms Inr run Inl ef
      by (intro unchanged) (auto simp: createRefund_def transaction_def refund_failed_def split: if_splits)
  next
    case ok: (Inr out)
    obtain g where g: "rf_amount (ro_refund out) = formatCentsToMoney g"
      using createRefund_money run ok by blast
    note a = afterCommitted_run [OF g, of s1]
    obtain s2 where s2: "afterCommittedRefund out s1 = (Inr (), s2)"
      using a by (cases "afterCommittedRefund out s1") auto
    show ?thesis
      by (rule refunded [OF key Inr run [unfolded ok]])
        (use assms Inr run ok s2 a in \<open>auto simp: createRefund_def transaction_def\<close>)
  qed
qed

lemma createRefund_fresh:
  assumes run: "createRefund e i dto (Some k) u c s = (Inr v, s')"
    and fresh: "\<not> (\<exists>r \<in> set (refunds (db s)). is_refund_claim i k r)"
  obtains out s1 where "createRefundInTransaction e i dto k u c None s = (Inr out, s1)"
    "v = refund_toView (ro_refund out)" "db s' = db s1"
  using run
proof (cases rule: createRefund_cases)
  case (refunded k' out s1)
  then show thesis using that by simp
next
  case unchanged
  have k: "requireIdempotencyKey (Some k) = Inr k"
    using run by (auto simp: createRefund_def requireIdempotencyKey_def split: if_splits)
  then obtain err where err: "fst (createRefundInTransaction e i dto k u c None s) = Inl err"
    using unchanged(3) by (auto simp: is_error_def split: sum.splits)
  then have "isUniqueViolation err"
    using run k by (cases "createRefundInTransaction e i dto k u c None s")
      (auto simp: createRefund_def transaction_def refund_failed_def split: if_splits)
  moreover have "find (is_refund_claim i k) (refunds (db s)) = None"
    using fresh by (auto simp: find_None_iff)
  ultimately have "\<exists>x. fst (createRefund e i dto (Some k) u c s) = Inl x"
    using k err by (cases "createRefundInTransaction e i dto k u c None s")
      (auto simp: createRefund_def transaction_def refund_failed_def replayCompletedRefund_def)
  then show ?thesis using run by auto
qed

lemma refund_share_bounds:
  assumes "0 \<le> gross" "0 \<le> com" "com \<le> sub"
  shows "0 \<le> applyRatio gross com sub \<and> applyRatio gross com sub \<le> gross"
  using applyRatio_bounds assms by blast

text \<open>
  C13: A refund pays the unit price of the purchase for each returned unit, never more units than
  were bought minus those refunded before, and splits the amount without losing a cent: the
  platform gives back its share of the sale, between nothing and the whole amount, and the seller
  the rest. The ledger reversals of the seller order grow by exactly these two figures, the units go
  back on stock, and books and refunds stay consistent.
\<close>
theorem refund_pays_back:
  assumes ok: "refunds_ok (db s)" "books_ok (db s)" and run: "createRefund e i dto (Some k) u c s = (Inr v, s')"
    and fresh: "\<not> (\<exists>r \<in> set (refunds (db s)). is_refund_claim i k r)"
    and so: "by_id so_id i (seller_orders (db s)) = Some so"
      "0 \<le> cents (so_commissionAmount so)" "cents (so_commissionAmount so) \<le> cents (so_subtotal so)"
    and item: "item \<in> set (seller_order_items (db s))" "soi_id item = rd_sellerOrderItemId dto"
    and pos: "0 \<le> cents (soi_unitPrice item)" "1 \<le> rd_quantity dto"
  shows "rfv_quantity v = rd_quantity dto \<and>
         rd_quantity dto \<le> soi_quantity item - alreadyRefundedQty (soi_id item) (db s) \<and>
         cents (rfv_amount v) = cents (soi_unitPrice item) * rd_quantity dto \<and>
         cents (rfv_amount v) = cents (rfv_commissionAdjustment v) + cents (rfv_sellerAdjustment v) \<and>
         0 \<le> cents (rfv_commissionAdjustment v) \<and> 0 \<le> cents (rfv_sellerAdjustment v) \<and>
         ledger_total i SELLER_EARNING_REVERSAL (db s')
           = ledger_total i SELLER_EARNING_REVERSAL (db s) + cents (rfv_amount v) \<and>
         ledger_total i PLATFORM_COMMISSION_REVERSAL (db s')
           = ledger_total i PLATFORM_COMMISSION_REVERSAL (db s) + cents (rfv_commissionAdjustment v) \<and>
         products (db s') = stock_less (\<lambda>p. if soi_productId item = Some p then - rd_quantity dto else 0)
           (products (db s)) \<and>
         refunds_ok (db s') \<and> books_ok (db s')"
proof -
  obtain out s1 where run1: "createRefundInTransaction e i dto k u c None s = (Inr out, s1)"
    and v: "v = refund_toView (ro_refund out)" and s': "db s' = db s1"
    using createRefund_fresh [OF run fresh] by blast
  note kept = createRefund_ok [OF run1 ok]
  from run1 show ?thesis
  proof (cases rule: createRefund_Inr)
    case (1 so2 item2 gross com new)
    have eq: "so2 = so" using 1(1) so(1) by simp
    have eqi: "item2 = item"
      using 1(3,4) item ok(1) same_row [of soi_id] by (metis refund_ids_ok_def refunds_ok_def)
    have b: "0 \<le> com \<and> com \<le> gross"
      unfolding 1(9) eq by (rule refund_share_bounds) (use so(2,3) pos 1(8) eqi in simp_all)
    have vs: "rfv_quantity v = rd_quantity dto" "cents (rfv_amount v) = gross"
      "cents (rfv_commissionAdjustment v) = com" "cents (rfv_sellerAdjustment v) = gross - com"
      by (simp_all add: v refund_toView_def 1(11) new_refund_def)
    have am: "cents (rf_amount (ro_refund out)) = gross" "cents (rf_commissionAdjustment (ro_refund out)) = com"
      by (simp_all add: 1(11) new_refund_def)
    obtain a b' where new: "new = [a, b']"
      using 1(14) by (auto simp: refund_entries_def Cons_eq_map_conv)
    have "so_id so2 = i" using by_id_SomeD [OF 1(1)] by simp
    then have led: "ledger_total i SELLER_EARNING_REVERSAL (db s1) = ledger_total i SELLER_EARNING_REVERSAL (db s) + gross"
      "ledger_total i PLATFORM_COMMISSION_REVERSAL (db s1) = ledger_total i PLATFORM_COMMISSION_REVERSAL (db s) + com"
      using 1(13,14) new am by (auto simp: ledger_total_def entries_of_def refund_entries_def)
    show ?thesis
      using vs b led kept 1(6,8,15) s' eqi ledger_total_cong [of "db s'" "db s1"] by simp
  qed
qed

section \<open>Retries\<close>

lemma find_claim_new:
  assumes "\<not> (\<exists>r \<in> set rs. is_refund_claim i k r)" "is_refund_claim i k x"
  shows "find (is_refund_claim i k) (rs @ [x]) = Some x"
  using assms by (auto simp: find_append find_None_iff split: option.splits dest: find_SomeD)

text \<open>
  A refund request repeated with its key writes nothing. But its answer depends on what is left:
  while as many units remain refundable it is the first answer again, and once they do not, for
  example when the first request took the last unit, the retry of a refund that succeeded is
  refused as a conflict, because the quantity is checked before the key is claimed.
\<close>
theorem refund_retry:
  assumes ok: "refunds_ok (db s)" and run: "createRefund e i dto (Some k) u c s = (Inr v, s')"
    and fresh: "\<not> (\<exists>r \<in> set (refunds (db s)). is_refund_claim i k r)"
    and item: "item \<in> set (seller_order_items (db s))" "soi_id item = rd_sellerOrderItemId dto"
    and again: "createRefund e' i dto (Some k) u c' s' = (r, s'')"
  shows "db s'' = db s' \<and> effects s'' = effects s' \<and>
         r = (if rd_quantity dto \<le> soi_quantity item - alreadyRefundedQty (soi_id item) (db s')
              then Inr v else Inl (ConflictException ''Only some unit(s) remain refundable''))"
proof -
  obtain out s1 where run1: "createRefundInTransaction e i dto k u c None s = (Inr out, s1)"
    and v: "v = refund_toView (ro_refund out)" and s': "db s' = db s1"
    using createRefund_fresh [OF run fresh] by blast
  have key: "requireIdempotencyKey (Some k) = Inr k"
    using run by (auto simp: createRefund_def requireIdempotencyKey_def split: if_splits)
  from run1 show ?thesis
  proof (cases rule: createRefund_Inr)
    case (1 so item2 gross com new)
    have dist: "distinct (map soi_id (seller_order_items (db s)))"
      using ok by (simp add: refunds_ok_def refund_ids_ok_def)
    have eqi: "item2 = item" using 1(3,4) item same_row [OF dist] by metis
    let ?P = "\<lambda>x. soi_id x = rd_sellerOrderItemId dto \<and> soi_sellerOrderId x = i"
    obtain y where y: "find ?P (seller_order_items (db s)) = Some y"
      using 1(3-5) by (cases "find ?P (seller_order_items (db s))") (auto simp: find_None_iff)
    then have "y = item" using find_SomeD [OF y] item same_row [OF dist] by metis
    then have row: "by_id so_id i (seller_orders (db s')) = Some so"
      "find ?P (seller_order_items (db s')) = Some item" "so_status so \<in> set REFUNDABLE_FROM"
      using 1 y s' by simp_all
    have claim: "is_refund_claim i k (ro_refund out)" "rf_status (ro_refund out) = RefundStatus.COMPLETED"
      by (simp_all add: 1(11) is_refund_claim_def new_refund_def)
    have replay: "replayCompletedRefund i k (db s') = Inr v"
      using find_claim_new [OF fresh claim(1)] 1(12) s' v claim(2) by (simp add: replayCompletedRefund_def)
    obtain p where am: "refund_amounts so item (rd_quantity dto) = Inr p"
      using run1 1(1,2,6) y \<open>y = item\<close> by (cases "refund_amounts so item (rd_quantity dto)")
        (auto simp: createRefundInTransaction_def assertRefundable_def split: if_splits)
    have dup: "insert_refund (new_refund e' i dto k u c' None j p n) (db s') = Inl UniqueViolation" for j n
      using claim(1) 1(12) s' by (simp add: insert_refund_def new_refund_def)
    show ?thesis
      using again key row am replay dup
      by (auto simp: createRefund_def transaction_def createRefundInTransaction_def assertRefundable_def
          book_refund_def refund_failed_def not_le split: if_splits)
  qed
qed

section \<open>A refund and then a cancellation\<close>

lemma cancel_runs:
  assumes refs: "refs_ok (db s)" and row: "by_id so_id i (seller_orders (db s)) = Some so"
    and act: "may_act actor so" and c: "isCancellable (so_status so)"
  obtains out s1 where "runCancelSellerOrder actor i cid s = (Inr out, s1)" "\<not> cn_alreadyCancelled out"
    "db (snd (cancel_seller_order actor i cid s)) = db s1"
proof -
  have lock: "lockOwnedSellerOrder actor i (db s) = Inr so"
    using lockOwned_iff refs row act by (simp add: refs_ok_def)
  have n: "so_status so \<noteq> SellerOrderStatus.CANCELLED" using c by (auto simp: isCancellable_def CANCELLABLE_FROM_def)
  obtain out s1 where run: "runCancelSellerOrder actor i cid s = (Inr out, s1)" "\<not> cn_alreadyCancelled out"
    using lock n c by (auto simp: runCancelSellerOrder_def assertCancellable_def split_beta)
  then show thesis
    by (intro that [of out s1]) (simp_all add: cancel_seller_order_def transaction_def)
qed

text \<open>
  C14: An order in processing is both refundable and cancellable, and the cancellation forgets the
  refunds: it reverses the whole subtotal again and puts every ordered unit back on stock again, so
  after a refund the ledger has given back more than the sale brought, and the shelf holds units
  that were returned twice.
\<close>
theorem cancel_after_refund:
  assumes ok: "refunds_ok (db s)" "books_ok (db s)" and st: "so_status so = SellerOrderStatus.PROCESSING"
    and run: "createRefund e i dto (Some k) u c s = (Inr v, s1)"
    and fresh: "\<not> (\<exists>r \<in> set (refunds (db s)). is_refund_claim i k r)"
    and so: "by_id so_id i (seller_orders (db s)) = Some so" "may_act actor so"
    and item: "item \<in> set (seller_order_items (db s))" "soi_id item = rd_sellerOrderItemId dto"
    and can: "cancel_seller_order actor i c' s1 = (r, s2)"
  shows "ledger_total i SELLER_EARNING_REVERSAL (db s2)
           = ledger_total i SELLER_EARNING_REVERSAL (db s) + cents (rfv_amount v) + cents (so_subtotal so) \<and>
         products (db s2) = stock_less (\<lambda>p. - restored_units p (items_of i (db s))
             - (if soi_productId item = Some p then rd_quantity dto else 0)) (products (db s))"
proof -
  obtain out t where run1: "createRefundInTransaction e i dto k u c None s = (Inr out, t)"
    and v: "v = refund_toView (ro_refund out)" and t: "db s1 = db t"
    using createRefund_fresh [OF run fresh] by blast
  have refs: "refs_ok (db s1)" using createRefund_ok [OF run1 ok] t by (simp add: books_ok_def)
  from run1 show ?thesis
  proof (cases rule: createRefund_Inr)
    case (1 so2 item2 gross com new)
    have so2: "so2 = so" "so_id so = i" using 1(1) so by_id_SomeD [OF 1(1)] by auto
    have eqi: "item2 = item"
      using 1(3,4) item ok(1) same_row [of soi_id] by (metis refund_ids_ok_def refunds_ok_def)
    have row: "by_id so_id i (seller_orders (db s1)) = Some so" using so 1(16) t by simp
    have "isCancellable (so_status so)" by (simp add: st isCancellable_def CANCELLABLE_FROM_def)
    from cancel_runs [OF refs row so(2) this] obtain out2 t2
      where c: "runCancelSellerOrder actor i c' s1 = (Inr out2, t2)" "\<not> cn_alreadyCancelled out2" "db s2 = db t2"
      using can by (metis snd_conv)
    have led: "ledger_total i SELLER_EARNING_REVERSAL (db t) = ledger_total i SELLER_EARNING_REVERSAL (db s) + cents (rfv_amount v)"
      using 1(13,14) v so2
      by (auto simp: ledger_total_def entries_of_def refund_entries_def Cons_eq_map_conv refund_toView_def)
    have items: "items_of i (db s1) = items_of i (db s)" using 1(18) t by (simp add: items_of_def)
    from refs c(1) show ?thesis
    proof (cases rule: runCancel_Inr)
      case (again so3)
      then show ?thesis using c(2) by simp
    next
      case (cancelled so3)
      have "so3 = so" using cancelled(1) row by simp
      moreover have "ledger_total i SELLER_EARNING_REVERSAL (db s1) = ledger_total i SELLER_EARNING_REVERSAL (db t)"
        using t by simp
      moreover have "(\<lambda>p. (if soi_productId item = Some p then - rd_quantity dto else 0) - restored_units p (items_of i (db s)))
          = (\<lambda>p. - restored_units p (items_of i (db s)) - (if soi_productId item = Some p then rd_quantity dto else 0))"
        by (auto simp: fun_eq_iff)
      ultimately show ?thesis
        using cancelled(7,8) c(3) led items 1(15) eqi t by (simp add: stock_less_add)
    qed
  qed
qed

section \<open>Refunds against the sale\<close>

lemma paid_per_unit:
  assumes "\<And>r. r \<in> set rs \<Longrightarrow> cents (rf_amount r) = unit * rf_quantity r"
  shows "sum_list (map (\<lambda>r. cents (rf_amount r)) rs) = unit * sum_list (map rf_quantity rs)"
  using assms by (induction rs) (auto simp: algebra_simps)

lemma refunded_at_most_paid:
  assumes ok: "refunds_ok d" and i: "i \<in> set (seller_order_items d)" "0 \<le> cents (soi_unitPrice i)"
  shows "sum_list (map (\<lambda>r. cents (rf_amount r)) (priorRefunds (soi_id i) d)) \<le> cents (soi_unitPrice i) * soi_quantity i"
proof -
  have "cents (rf_amount r) = cents (soi_unitPrice i) * rf_quantity r" if "r \<in> set (priorRefunds (soi_id i) d)" for r
  proof -
    have "refund_of_item d r" "rf_sellerOrderItemId r = soi_id i"
      using that ok by (auto simp: priorRefunds_def refunds_ok_def)
    then obtain j where "j \<in> set (seller_order_items d)" "soi_id j = soi_id i"
      "cents (rf_amount r) = cents (soi_unitPrice j) * rf_quantity r" by (auto simp: refund_of_item_def)
    then show ?thesis using i(1) ok same_row [of soi_id] by (metis refund_ids_ok_def refunds_ok_def)
  qed
  then have "sum_list (map (\<lambda>r. cents (rf_amount r)) (priorRefunds (soi_id i) d))
      = cents (soi_unitPrice i) * alreadyRefundedQty (soi_id i) d"
    unfolding alreadyRefundedQty_sum by (rule paid_per_unit)
  then show ?thesis using ok i by (simp add: refunds_ok_def mult_left_mono)
qed

definition refunds_of :: "uuid \<Rightarrow> database \<Rightarrow> Refund list" where
  "refunds_of sellerOrderId d = filter (\<lambda>r. rf_sellerOrderId r = sellerOrderId) (refunds d)"

lemma applyRatio_near:
  assumes "0 \<le> g" "0 \<le> m" "0 < n"
  shows "2 * n * applyRatio g m n \<le> 2 * (g * m) + n \<and> 2 * (g * m) - n \<le> 2 * n * applyRatio g m n"
  using assms roundHalfUp_bounds [of "g * m" n] by (simp add: applyRatio_def)

lemma ratio_sum:
  assumes "0 \<le> m" "0 < (n::int)" "\<And>r. r \<in> set rs \<Longrightarrow> 0 \<le> f r \<and> g r = applyRatio (f r) m n"
  shows "2 * n * sum_list (map g rs) \<le> 2 * (m * sum_list (map f rs)) + n * int (length rs) \<and>
         2 * (m * sum_list (map f rs)) - n * int (length rs) \<le> 2 * n * sum_list (map g rs)"
  using assms
proof (induction rs)
  case (Cons r rs)
  have "0 \<le> f r" "g r = applyRatio (f r) m n" using Cons.prems(3) [of r] by auto
  then have "2 * n * g r \<le> 2 * (f r * m) + n \<and> 2 * (f r * m) - n \<le> 2 * n * g r"
    using applyRatio_near [of "f r" m n] assms(1,2) by simp
  then show ?case using Cons.IH Cons.prems by (simp add: algebra_simps)
qed simp

text \<open>
  What the refunds of a seller order give back of the commission is its share of the refunded
  amount, up to half a cent for each refund. That is the exact bound: three single-unit refunds of a
  sale of three can give back three cents of a commission of two, so the partial refunds of a
  fully refunded order need not add up to the sale.
\<close>
theorem refunds_reconcile_to_half_cents:
  assumes ok: "refunds_ok d" "refs_ok d" and so: "so \<in> set (seller_orders d)"
    and pos: "0 \<le> cents (so_commissionAmount so)" "0 < cents (so_subtotal so)"
      "list_all (\<lambda>r. 0 \<le> cents (rf_amount r)) (refunds d)"
  shows "let rs = refunds_of (so_id so) d;
             given_back = sum_list (map (\<lambda>r. cents (rf_commissionAdjustment r)) rs);
             refunded = sum_list (map (\<lambda>r. cents (rf_amount r)) rs)
         in 2 * cents (so_subtotal so) * given_back
              \<le> 2 * (cents (so_commissionAmount so) * refunded) + cents (so_subtotal so) * int (length rs) \<and>
            2 * (cents (so_commissionAmount so) * refunded) - cents (so_subtotal so) * int (length rs)
              \<le> 2 * cents (so_subtotal so) * given_back"
proof -
  have "0 \<le> cents (rf_amount r) \<and> cents (rf_commissionAdjustment r)
      = applyRatio (cents (rf_amount r)) (cents (so_commissionAmount so)) (cents (so_subtotal so))"
    if r: "r \<in> set (refunds_of (so_id so) d)" for r
  proof -
    have "refund_of_item d r" "rf_sellerOrderId r = so_id so" "0 \<le> cents (rf_amount r)"
      using r ok(1) pos(3) by (auto simp: refunds_of_def refunds_ok_def list_all_iff)
    then obtain so' where so': "so' \<in> set (seller_orders d)" "so_id so' = so_id so"
      "cents (rf_commissionAdjustment r)
         = applyRatio (cents (rf_amount r)) (cents (so_commissionAmount so')) (cents (so_subtotal so'))"
      by (auto simp: refund_of_item_def)
    then have "so' = so" using same_row [of so_id] ok(2) so by (metis refs_ok_def)
    then show ?thesis using so'(3) \<open>0 \<le> cents (rf_amount r)\<close> by simp
  qed
  from ratio_sum [OF pos(1,2), where f = "\<lambda>r. cents (rf_amount r)" and g = "\<lambda>r. cents (rf_commissionAdjustment r)", OF this]
  show ?thesis by (simp add: Let_def)
qed

section \<open>Every interleaving of the operations on seller orders\<close>

datatype order_op =
    UpdateStatus LifecycleActor uuid SellerOrderStatus uuid
  | CancelSellerOrder LifecycleActor uuid uuid
  | DeliverEvent event_job
  | RefundItem uuid CreateRefundDto "string option" uuid uuid

fun run_order_op :: "env \<Rightarrow> order_op \<Rightarrow> sys \<Rightarrow> sys" where
  "run_order_op e (UpdateStatus actor i target c) s = snd (updateStatus actor i target c s)"
| "run_order_op e (CancelSellerOrder actor i c) s = snd (cancel_seller_order actor i c s)"
| "run_order_op e (DeliverEvent job) s = snd (handle_seller_order_job job s)"
| "run_order_op e (RefundItem i dto key u c) s = snd (createRefund e i dto key u c s)"

inductive order_step :: "sys \<Rightarrow> sys \<Rightarrow> bool" where
  run: "order_step s (run_order_op e op' s)"

inductive_cases order_stepE: "order_step s s'"

definition so_path :: "database \<Rightarrow> database \<Rightarrow> bool" where
  "so_path d d' \<longleftrightarrow> (\<forall>i so. by_id so_id i (seller_orders d) = Some so \<longrightarrow>
     (\<exists>so'. by_id so_id i (seller_orders d') = Some so' \<and> so_terms so' = so_terms so \<and>
            (\<lambda>x y. y \<in> set (seller_order_moves x))\<^sup>*\<^sup>* (so_status so) (so_status so')))"

lemma so_path_refl [simp]: "seller_orders d' = seller_orders d \<Longrightarrow> so_path d d'"
  by (auto simp: so_path_def)

lemma so_path_trans: "so_path d d' \<Longrightarrow> so_path d' d'' \<Longrightarrow> so_path d d''"
  unfolding so_path_def
proof (intro allI impI)
  fix i so assume so: "by_id so_id i (seller_orders d) = Some so"
  let ?R = "(\<lambda>x y. y \<in> set (seller_order_moves x))\<^sup>*\<^sup>*"
  assume 1: "\<forall>i so. by_id so_id i (seller_orders d) = Some so \<longrightarrow>
      (\<exists>so'. by_id so_id i (seller_orders d') = Some so' \<and> so_terms so' = so_terms so \<and> ?R (so_status so) (so_status so'))"
  assume 2: "\<forall>i so. by_id so_id i (seller_orders d') = Some so \<longrightarrow>
      (\<exists>so'. by_id so_id i (seller_orders d'') = Some so' \<and> so_terms so' = so_terms so \<and> ?R (so_status so) (so_status so'))"
  obtain so' where s': "by_id so_id i (seller_orders d') = Some so'" "so_terms so' = so_terms so"
    "?R (so_status so) (so_status so')" using 1 so by blast
  obtain so'' where s'': "by_id so_id i (seller_orders d'') = Some so''" "so_terms so'' = so_terms so'"
    "?R (so_status so') (so_status so'')" using 2 s'(1) by blast
  show "\<exists>so''. by_id so_id i (seller_orders d'') = Some so'' \<and> so_terms so'' = so_terms so \<and> ?R (so_status so) (so_status so'')"
    using s'' s'(2) rtranclp_trans [OF s'(3) s''(3)] by auto
qed

lemma so_path_put:
  assumes "by_id so_id i (seller_orders d) = Some so" "st \<in> set (seller_order_moves (so_status so))"
    and "seller_orders d' = put_row so_id (so\<lparr>so_status := st\<rparr>) (seller_orders d)"
  shows "so_path d d'"
  unfolding so_path_def
proof (intro allI impI)
  fix j x assume x: "by_id so_id j (seller_orders d) = Some x"
  have id: "so_id so = i" using by_id_SomeD [OF assms(1)] by simp
  show "\<exists>so'. by_id so_id j (seller_orders d') = Some so' \<and> so_terms so' = so_terms x \<and>
      (\<lambda>x y. y \<in> set (seller_order_moves x))\<^sup>*\<^sup>* (so_status x) (so_status so')"
  proof (cases "j = i")
    case True
    then have "x = so" using x assms(1) by simp
    moreover have "by_id so_id j (seller_orders d') = Some (so\<lparr>so_status := st\<rparr>)"
      unfolding assms(3) by (rule by_id_put_row_same [OF x]) (simp add: True id)
    ultimately show ?thesis using assms(2) by (auto intro: r_into_rtranclp)
  next
    case False
    then have "by_id so_id j (seller_orders d') = Some x" using x id assms(3) by (simp add: by_id_put_row_other)
    then show ?thesis by auto
  qed
qed

text \<open>Steps that write no refund.\<close>

lemma refunds_ok_kept:
  assumes ok: "refunds_ok d" and r: "refunds d' = refunds d" and fr: "books_frame d d'"
    and l: "ledger_entries d' = ledger_entries d @ new" "list_all (\<lambda>x. le_refundId x = None) new"
  shows "refunds_ok d'"
proof -
  have items: "seller_order_items d' = seller_order_items d" "next_id d \<le> next_id d'"
    using fr by (simp_all add: books_frame_def)
  have terms: "map so_terms (seller_orders d') = map so_terms (seller_orders d)"
    using fr by (simp add: books_frame_def)
  have so: "\<exists>so' \<in> set (seller_orders d'). so_terms so' = so_terms so" if "so \<in> set (seller_orders d)" for so
    using terms_memberD [OF terms [symmetric] that] by metis
  have "refund_of_item d' x" if x: "refund_of_item d x" for x
  proof -
    obtain so where s: "so \<in> set (seller_orders d)" "so_id so = rf_sellerOrderId x"
      "cents (rf_commissionAdjustment x)
         = applyRatio (cents (rf_amount x)) (cents (so_commissionAmount so)) (cents (so_subtotal so))"
      using x by (auto simp: refund_of_item_def)
    from so [OF s(1)] obtain so' where s': "so' \<in> set (seller_orders d')" "so_terms so' = so_terms so" by blast
    show ?thesis using x s s' so_terms_eqD [OF s'(2)] items(1) by (auto simp: refund_of_item_def)
  qed
  moreover have "refund_booked d' x" if "refund_booked d x" for x
    using that l by (auto simp: refund_booked_def list_all_iff filter_empty_conv)
  moreover have "refund_ids_ok d'"
    using ok l r items by (fastforce simp: refunds_ok_def refund_ids_ok_def list_all_iff)
  ultimately show ?thesis using ok r items alreadyRefundedQty_cong [OF r] by (simp add: refunds_ok_def)
qed

lemma runCancel_entries:
  assumes "runCancelSellerOrder actor i c s = (Inr out, s')"
  shows "\<exists>new. ledger_entries (db s') = ledger_entries (db s) @ new \<and> list_all (\<lambda>x. le_refundId x = None) new"
proof -
  have same: "ledger_entries (db (snd (restore_items c items s))) = ledger_entries (db s)" for items
    using restore_items_run [of c items s] by (simp add: same_order_rows_def)
  have "db s' = db s \<or> (\<exists>so. s' = finish_cancel so c (snd (restore_items c (items_of i (db s)) s)))"
    using assms by (auto simp: runCancelSellerOrder_def split: sum.splits if_splits prod.splits)
  then show ?thesis
  proof (elim disjE exE)
    fix so assume s': "s' = finish_cancel so c (snd (restore_items c (items_of i (db s)) s))"
    show ?thesis by (simp add: s' reverse_ledger_def create_ledger_entry_def same)
  qed simp
qed

definition orders_step_ok :: "database \<Rightarrow> database \<Rightarrow> bool" where
  "orders_step_ok d d' \<longleftrightarrow>
     (books_ok d \<and> refunds_ok d \<longrightarrow> books_ok d' \<and> refunds_ok d' \<and> so_path d d' \<and>
      seller_order_items d' = seller_order_items d)"

lemma step_ok_refl [simp]: "orders_step_ok d d"
  by (simp add: orders_step_ok_def)

lemma step_ok_trans: "orders_step_ok d d' \<Longrightarrow> orders_step_ok d' d'' \<Longrightarrow> orders_step_ok d d''"
  unfolding orders_step_ok_def using so_path_trans by metis

lemma step_ok_frame:
  assumes "refunds d' = refunds d" "books_ok d \<Longrightarrow> books_frame d d'" "books_ok d \<Longrightarrow> so_path d d'"
    "ledger_entries d' = ledger_entries d @ new" "list_all (\<lambda>x. le_refundId x = None) new"
  shows "orders_step_ok d d'"
  using assms books_frame_ok refunds_ok_kept by (auto simp: orders_step_ok_def books_frame_def)

lemma cancellable_moves: "isCancellable st \<Longrightarrow> SellerOrderStatus.CANCELLED \<in> set (seller_order_moves st)"
  by (simp add: seller_order_moves_def)

lemma runUpdate_step: "runUpdateStatus actor i t c s = (Inr so', s') \<Longrightarrow> orders_step_ok (db s) (db s')"
proof (cases "books_ok (db s)")
  case True
  assume run: "runUpdateStatus actor i t c s = (Inr so', s')"
  have "refs_ok (db s)" using True by (simp add: books_ok_def)
  from this run show ?thesis
  proof (cases rule: runUpdateStatus_Inr [consumes 2, case_names main])
    case (main so)
    have "so_path (db s) (db s')"
      by (rule so_path_put [OF main(1), of t]) (use main in \<open>simp_all add: seller_order_moves_def\<close>)
    then show ?thesis by (intro step_ok_frame [where new = "[]"]) (use main in simp_all)
  qed
qed (simp add: orders_step_ok_def)

lemma runCancel_step: "runCancelSellerOrder actor i c s = (Inr out, s') \<Longrightarrow> orders_step_ok (db s) (db s')"
proof (cases "books_ok (db s)")
  case True
  assume run: "runCancelSellerOrder actor i c s = (Inr out, s')"
  obtain new where new: "ledger_entries (db s') = ledger_entries (db s) @ new"
    "list_all (\<lambda>x. le_refundId x = None) new" using runCancel_entries [OF run] by blast
  have "refs_ok (db s)" using True by (simp add: books_ok_def)
  from this run show ?thesis
  proof (cases rule: runCancel_Inr)
    case (cancelled so)
    have "so_path (db s) (db s')"
      by (rule so_path_put [OF cancelled(1), of SellerOrderStatus.CANCELLED])
         (use cancelled in \<open>simp_all add: cancellable_moves\<close>)
    then show ?thesis by (intro step_ok_frame [OF _ _ _ new]) (use cancelled in simp_all)
  qed simp
qed (simp add: orders_step_ok_def)

lemma start_step: "orders_step_ok (db s) (db (snd (startProcessing i c s)))"
proof (cases "\<exists>so. by_id so_id i (seller_orders (db s)) = Some so \<and> so_status so = SellerOrderStatus.AWAITING_FULFILLMENT")
  case True
  then obtain so where so: "by_id so_id i (seller_orders (db s)) = Some so"
    "so_status so = SellerOrderStatus.AWAITING_FULFILLMENT" by blast
  note row = startProcessing_row [OF so, of c] and fr = startProcessing_frame [of i c s]
  show ?thesis
  proof (rule step_ok_frame [where new = "[]"])
    show "so_path (db s) (db (snd (startProcessing i c s)))"
      by (rule so_path_put [OF so(1), of SellerOrderStatus.PROCESSING])
         (use row so(2) in \<open>simp_all add: seller_order_moves_def\<close>)
    assume "books_ok (db s)"
    then show "books_frame (db s) (db (snd (startProcessing i c s)))"
      by (intro status_put_books [where new = "[]"]) (use row fr by_id_SomeD [OF so(1)] in \<open>simp_all add: books_ok_def\<close>)
  qed (use fr in simp_all)
next
  case False
  then have "startProcessing i c s = (Inr (), s)" by (intro startProcessing_skips) blast
  then show ?thesis by simp
qed

lemma mark_step: "orders_step_ok (db s) (db (markProcessed c x s))"
  by (rule step_ok_frame [where new = "[]"]) (simp_all add: books_frame_def)

lemma deliver_step: "orders_step_ok (db s) (db (snd (handle_seller_order_job j s)))"
proof -
  obtain x t i c where j: "j = (x, t, i, c)" by (cases j)
  let ?d = "dispatch_seller_order t i c s"
  have d: "fst ?d = Inr ()" using dispatch_frame by blast
  have step: "orders_step_ok (db s) (db (snd ?d))"
    using start_step by (simp add: dispatch_seller_order_def)
  have "db (snd (handle_seller_order_job j s)) = db s \<or>
        db (snd (handle_seller_order_job j s)) = db (markProcessed CONSUMER_NAME x (snd ?d))"
    using d by (cases ?d) (simp add: j process_seller_order_event_def consume_def db_recordQueueJob)
  then show ?thesis using step_ok_trans [OF step mark_step] by auto
qed

lemma refund_step: "orders_step_ok (db s) (db (snd (createRefund e i dto key u c s)))"
proof -
  obtain r s' where run: "createRefund e i dto key u c s = (r, s')" by fastforce
  then show ?thesis
  proof (cases rule: createRefund_cases)
    case (refunded k out s1)
    from refunded(3) show ?thesis
    proof (cases rule: createRefund_Inr)
      case 1
      then show ?thesis
        using createRefund_ok [OF refunded(3)] refunded(5) run by (simp add: orders_step_ok_def)
    qed
  qed (use run in simp)
qed

lemma run_order_op_ok: "orders_step_ok (db s) (db (run_order_op e op' s))"
proof (cases op')
  case (UpdateStatus actor i t c)
  show ?thesis
    using runUpdate_step [of actor i t c s]
    by (cases "runUpdateStatus actor i t c s"; cases "fst (runUpdateStatus actor i t c s)")
       (auto simp: UpdateStatus updateStatus_def transaction_def)
next
  case (CancelSellerOrder actor i c)
  show ?thesis
    using runCancel_step [of actor i c s]
    by (cases "runCancelSellerOrder actor i c s"; cases "fst (runCancelSellerOrder actor i c s)")
       (auto simp: CancelSellerOrder cancel_seller_order_def transaction_def)
qed (simp_all add: deliver_step refund_step)

lemma order_steps_ok: "order_step\<^sup>*\<^sup>* s s' \<Longrightarrow> orders_step_ok (db s) (db s')"
  by (induction rule: rtranclp_induct) (auto elim!: order_stepE intro: step_ok_trans run_order_op_ok)

text \<open>
  C12: Whatever sellers, admins, the event consumer and refunds do to an order, in any interleaving:
  the books and the refunds stay consistent, the status of a seller order only moves along the policy
  and a final status is never left, what was bought stays as it was bought, and the money paid back
  for an item never exceeds what was paid for it.
\<close>
theorem orders_stay_safe:
  assumes steps: "order_step\<^sup>*\<^sup>* s s'" and ok: "books_ok (db s)" "refunds_ok (db s)"
    and row: "by_id so_id i (seller_orders (db s)) = Some so"
    and item: "it \<in> set (seller_order_items (db s))" "0 \<le> cents (soi_unitPrice it)"
  shows "books_ok (db s') \<and> refunds_ok (db s') \<and>
         (\<exists>so'. by_id so_id i (seller_orders (db s')) = Some so' \<and> so_terms so' = so_terms so \<and>
                lifecycle_rank (so_status so) \<le> lifecycle_rank (so_status so') \<and>
                (seller_order_moves (so_status so) = [] \<longrightarrow> so_status so' = so_status so)) \<and>
         sum_list (map (\<lambda>r. cents (rf_amount r)) (priorRefunds (soi_id it) (db s')))
           \<le> cents (soi_unitPrice it) * soi_quantity it"
proof -
  have st: "books_ok (db s')" "refunds_ok (db s')" "so_path (db s) (db s')"
    "seller_order_items (db s') = seller_order_items (db s)"
    using order_steps_ok [OF steps] ok by (simp_all add: orders_step_ok_def)
  obtain so' where so': "by_id so_id i (seller_orders (db s')) = Some so'" "so_terms so' = so_terms so"
    and path: "(\<lambda>x y. y \<in> set (seller_order_moves x))\<^sup>*\<^sup>* (so_status so) (so_status so')"
    using st(3) row by (auto simp: so_path_def)
  have "lifecycle_rank (so_status so) \<le> lifecycle_rank (so_status so')"
    using rtranclpD [OF path] seller_order_machine.path_forward by (auto dest: less_imp_le)
  moreover have "seller_order_moves (so_status so) = [] \<longrightarrow> so_status so' = so_status so"
    using seller_order_machine.final_stays [OF path] by blast
  moreover have "sum_list (map (\<lambda>r. cents (rf_amount r)) (priorRefunds (soi_id it) (db s')))
      \<le> cents (soi_unitPrice it) * soi_quantity it"
    by (rule refunded_at_most_paid [OF st(2)]) (use item st(4) in simp_all)
  ultimately show ?thesis using st so' by blast
qed

section \<open>Concrete refunds\<close>

definition started_sys :: sys where
  "started_sys = start_sys (order_db\<lparr>seller_orders := map (\<lambda>so. so\<lparr>so_status := SellerOrderStatus.PROCESSING\<rparr>)
     (seller_orders order_db)\<rparr>)"

definition started_so :: SellerOrder where
  "started_so = ordered_so\<lparr>so_status := SellerOrderStatus.PROCESSING\<rparr>"

definition mug_item :: SellerOrderItem where
  "mug_item = \<lparr>soi_id = 41, soi_sellerOrderId = 31, soi_productId = Some 11, soi_productName = ''mug'',
     soi_unitPrice = ''5.00'', soi_quantity = 2, soi_lineTotal = ''10.00''\<rparr>"

definition refund_dto :: "int \<Rightarrow> CreateRefundDto" where
  "refund_dto q = \<lparr>rd_sellerOrderItemId = 41, rd_quantity = q, rd_reason = None\<rparr>"

definition mug_refund :: "int \<Rightarrow> RefundView result \<times> sys" where
  "mug_refund q = createRefund (sample_env 9) 31 (refund_dto q) (Some ''r1'') 5 0 started_sys"

definition mug_view :: "int \<Rightarrow> RefundView" where
  "mug_view q = (case fst (mug_refund q) of Inr v \<Rightarrow> v | Inl e \<Rightarrow> undefined)"

lemma started_ok: "books_ok (db started_sys)" "refunds_ok (db started_sys)"
  by code_simp+

lemma started_rows:
  "by_id so_id 31 (seller_orders (db started_sys)) = Some started_so"
  "mug_item \<in> set (seller_order_items (db started_sys))"
  "soi_id mug_item = rd_sellerOrderItemId (refund_dto q)"
  "\<not> (\<exists>r \<in> set (refunds (db started_sys)). is_refund_claim 31 ''r1'' r)"
  "may_act ByAdmin started_so" "so_status started_so = SellerOrderStatus.PROCESSING"
  by (simp_all add: started_sys_def start_sys_def order_db_def empty_db_def by_id_def started_so_def
      ordered_so_def mug_item_def refund_dto_def may_act_def)

lemma mug_runs:
  "mug_refund 1 = (Inr (mug_view 1), snd (mug_refund 1))"
  "mug_refund 2 = (Inr (mug_view 2), snd (mug_refund 2))"
proof -
  have "\<not> is_error (fst (mug_refund 1))" "\<not> is_error (fst (mug_refund 2))" by code_simp+
  then show "mug_refund 1 = (Inr (mug_view 1), snd (mug_refund 1))"
    "mug_refund 2 = (Inr (mug_view 2), snd (mug_refund 2))"
    by (auto simp: not_is_error_iff mug_view_def prod_eq_iff)
qed

theorem refund_pays_back_witness:
  "cents (rfv_amount (mug_view 1)) = 500 \<and> refunds_ok (db (snd (mug_refund 1)))"
proof -
  have c: "0 \<le> cents (so_commissionAmount started_so)"
    "cents (so_commissionAmount started_so) \<le> cents (so_subtotal started_so)"
    "0 \<le> cents (soi_unitPrice mug_item)" "cents (soi_unitPrice mug_item) = 500"
    "1 \<le> rd_quantity (refund_dto 1)" "rd_quantity (refund_dto 1) = 1" by code_simp+
  show ?thesis
    using refund_pays_back [OF started_ok(2,1) mug_runs(1) [unfolded mug_refund_def] started_rows(4,1) c(1,2)
        started_rows(2,3) c(3,5)] c(4,6)
    unfolding mug_refund_def by simp
qed

theorem refund_retry_witness:
  "fst (createRefund (sample_env 10) 31 (refund_dto 1) (Some ''r1'') 5 1 (snd (mug_refund 1))) = Inr (mug_view 1) \<and>
   is_error (fst (createRefund (sample_env 10) 31 (refund_dto 2) (Some ''r1'') 5 1 (snd (mug_refund 2))))"
proof -
  have q: "soi_quantity mug_item - alreadyRefundedQty (soi_id mug_item) (db (snd (mug_refund 1))) = 1"
    "soi_quantity mug_item - alreadyRefundedQty (soi_id mug_item) (db (snd (mug_refund 2))) = 0"
    "rd_quantity (refund_dto 1) = 1" "rd_quantity (refund_dto 2) = 2" by code_simp+
  show ?thesis
    using refund_retry [OF started_ok(2) mug_runs(1) [unfolded mug_refund_def] started_rows(4,2,3)
        prod.collapse [symmetric], of "sample_env 10" 1, folded mug_refund_def]
      refund_retry [OF started_ok(2) mug_runs(2) [unfolded mug_refund_def] started_rows(4,2,3)
        prod.collapse [symmetric], of "sample_env 10" 1, folded mug_refund_def] q
    by simp
qed

theorem cancel_after_refund_witness:
  "ledger_total 31 SELLER_EARNING_REVERSAL (db (snd (cancel_seller_order ByAdmin 31 7 (snd (mug_refund 1))))) = 1500 \<and>
   ledger_total 31 SALE_CREDIT (db started_sys) = 1000"
proof -
  have c: "ledger_total 31 SELLER_EARNING_REVERSAL (db started_sys) = 0" "cents (rfv_amount (mug_view 1)) = 500"
    "cents (so_subtotal started_so) = 1000" "ledger_total 31 SALE_CREDIT (db started_sys) = 1000" by code_simp+
  show ?thesis
    using cancel_after_refund [OF started_ok(2,1) started_rows(6) mug_runs(1) [unfolded mug_refund_def]
        started_rows(4,1,5,2,3) prod.collapse [symmetric], of 7, folded mug_refund_def] c
    by simp
qed

text \<open>Three units at five cents, a commission of two cents, refunded one by one.\<close>

definition penny_db :: database where
  "penny_db = empty_db\<lparr>next_id := 50, orders := [ordered_order\<lparr>ord_totalAmount := ''0.15''\<rparr>],
     seller_orders := [ordered_so\<lparr>so_subtotal := ''0.15'', so_commissionAmount := ''0.02'',
        so_sellerNetAmount := ''0.13'', so_status := SellerOrderStatus.DELIVERED\<rparr>],
     seller_order_items := [mug_item\<lparr>soi_unitPrice := ''0.05'', soi_quantity := 3, soi_lineTotal := ''0.15''\<rparr>],
     ledger_entries := [order_entry 43 1 SALE_CREDIT ''0.15'' 31, order_entry 44 1 COMMISSION_DEBIT ''0.02'' 31]\<rparr>"

definition penny_refund :: "string \<Rightarrow> sys \<Rightarrow> sys" where
  "penny_refund k s = snd (createRefund (sample_env 9) 31 (refund_dto 1) (Some k) 5 0 s)"

definition penny_sys :: sys where
  "penny_sys = penny_refund ''r3'' (penny_refund ''r2'' (penny_refund ''r1'' (start_sys penny_db)))"

theorem refunds_reconcile_witness:
  "sum_list (map (\<lambda>r. cents (rf_commissionAdjustment r)) (refunds_of 31 (db penny_sys))) = 3 \<and>
   sum_list (map (\<lambda>r. cents (rf_amount r)) (refunds_of 31 (db penny_sys))) = 15 \<and>
   2 * 15 * (3::int) \<le> 2 * (2 * 15) + 15 * int (length (refunds_of 31 (db penny_sys)))"
proof -
  define so where "so = ordered_so\<lparr>so_subtotal := ''0.15'', so_commissionAmount := ''0.02'',
        so_sellerNetAmount := ''0.13'', so_status := SellerOrderStatus.DELIVERED\<rparr>"
  have st: "refunds_ok (db penny_sys)" "refs_ok (db penny_sys)"
    "list_all (\<lambda>r. 0 \<le> cents (rf_amount r)) (refunds (db penny_sys))" by code_simp+
  have "so \<in> set (seller_orders (db penny_sys))" unfolding so_def by code_simp
  moreover have "cents (so_commissionAmount so) = 2" "cents (so_subtotal so) = 15" "so_id so = 31"
    unfolding so_def by code_simp+
  moreover have "sum_list (map (\<lambda>r. cents (rf_commissionAdjustment r)) (refunds_of 31 (db penny_sys))) = 3"
    "sum_list (map (\<lambda>r. cents (rf_amount r)) (refunds_of 31 (db penny_sys))) = 15" by code_simp+
  ultimately show ?thesis
    using refunds_reconcile_to_half_cents [OF st(1,2), of so] st(3) by (simp add: Let_def)
qed

theorem orders_stay_safe_witness:
  "refunds_ok (db (snd (mug_refund 1))) \<and>
   sum_list (map (\<lambda>r. cents (rf_amount r)) (priorRefunds 41 (db (snd (mug_refund 1))))) \<le> 1000"
proof -
  have "order_step\<^sup>*\<^sup>* started_sys (snd (mug_refund 1))"
    using order_step.run [of started_sys "sample_env 9" "RefundItem 31 (refund_dto 1) (Some ''r1'') 5 0"]
    by (simp add: mug_refund_def r_into_rtranclp)
  moreover have "0 \<le> cents (soi_unitPrice mug_item)" "cents (soi_unitPrice mug_item) * soi_quantity mug_item = 1000"
    "soi_id mug_item = 41" by code_simp+
  ultimately show ?thesis
    using orders_stay_safe [OF _ started_ok started_rows(1,2)] by simp
qed

end
