(* ===== verification/Order_Views.thy ===== *)
theory Order_Views
  imports Refunds
begin

text \<open>
  What customers, sellers and admins read of the orders (\<open>modules/orders\<close>: \<open>orders.service.ts\<close>,
  \<open>seller-orders.service.ts\<close>, \<open>admin-orders.service.ts\<close>, \<open>admin-seller-orders.service.ts\<close> and
  their view classes), and the pagination all lists share. The rows of a table are kept in the
  order of their \<open>createdAt\<close>, so \<open>DESC\<close> is the reverse of it. A missing relation makes the code
  read a property of undefined, a \<open>TypeError\<close>.
\<close>

section \<open>Pagination\<close>

record OrderListQueryDto =
  page :: nat
  pageSize :: nat

record 'a PaginatedResult =
  pg_items :: "'a list"
  pg_total :: nat
  pg_page :: nat
  pg_pageSize :: nat

text \<open>\<open>skip: (page - 1) * pageSize, take: pageSize\<close>; the DTO asks for at least 1 for both.\<close>

definition page_of :: "OrderListQueryDto \<Rightarrow> 'a list \<Rightarrow> 'a list" where
  "page_of query rows = take (pageSize query) (drop ((page query - 1) * pageSize query) rows)"

definition paginated :: "OrderListQueryDto \<Rightarrow> 'b list \<Rightarrow> 'a list \<Rightarrow> 'a PaginatedResult" where
  "paginated query rows views =
     \<lparr>pg_items = views, pg_total = length rows, pg_page = page query, pg_pageSize = pageSize query\<rparr>"

section \<open>Seller views\<close>

record SellerOrderItemView =
  iv_id :: uuid
  iv_productId :: "uuid option"
  iv_productName :: string
  iv_unitPrice :: string
  iv_quantity :: int
  iv_lineTotal :: string
  iv_refundedQuantity :: int

record SellerOrderRefundView =
  rv'_id :: uuid
  rv'_sellerOrderItemId :: uuid
  rv'_quantity :: int
  rv'_amount :: string
  rv'_commissionAdjustment :: string
  rv'_sellerAdjustment :: string
  rv'_reason :: "string option"
  rv'_status :: RefundStatus
  rv'_createdAt :: time

record SellerOrderListItemView =
  sl_id :: uuid
  sl_orderId :: uuid
  sl_status :: SellerOrderStatus
  sl_subtotal :: string
  sl_commissionAmount :: string
  sl_sellerNetAmount :: string
  sl_createdAt :: time
  sl_itemCount :: nat

record SellerOrderDetailView =
  sd_id :: uuid
  sd_orderId :: uuid
  sd_status :: SellerOrderStatus
  sd_subtotal :: string
  sd_commissionAmount :: string
  sd_sellerNetAmount :: string
  sd_financials :: SellerOrderFinancialSummary
  sd_createdAt :: time
  sd_items :: "SellerOrderItemView list"
  sd_refunds :: "SellerOrderRefundView list"
  sd_shippingAddressLine1 :: "string option"
  sd_shippingAddressLine2 :: "string option"
  sd_shippingCity :: "string option"
  sd_shippingPostalCode :: "string option"
  sd_shippingCountry :: "string option"

definition refundedQuantityByItem :: "Refund list \<Rightarrow> uuid \<Rightarrow> int option" where
  "refundedQuantityByItem completedRefunds =
     foldl (\<lambda>m r. m(rf_sellerOrderItemId r \<mapsto>
              (case m (rf_sellerOrderItemId r) of None \<Rightarrow> 0 | Some q \<Rightarrow> q) + rf_quantity r))
       Map.empty completedRefunds"

definition item_view :: "(uuid \<Rightarrow> int option) \<Rightarrow> SellerOrderItem \<Rightarrow> SellerOrderItemView" where
  "item_view refundedQtyByItem item =
     \<lparr>iv_id = soi_id item, iv_productId = soi_productId item, iv_productName = soi_productName item,
      iv_unitPrice = soi_unitPrice item, iv_quantity = soi_quantity item,
      iv_lineTotal = soi_lineTotal item,
      iv_refundedQuantity = (case refundedQtyByItem (soi_id item) of None \<Rightarrow> 0 | Some q \<Rightarrow> q)\<rparr>"

definition order_refund_view :: "Refund \<Rightarrow> SellerOrderRefundView" where
  "order_refund_view r =
     \<lparr>rv'_id = rf_id r, rv'_sellerOrderItemId = rf_sellerOrderItemId r, rv'_quantity = rf_quantity r,
      rv'_amount = rf_amount r, rv'_commissionAdjustment = rf_commissionAdjustment r,
      rv'_sellerAdjustment = rf_sellerAdjustment r, rv'_reason = rf_reason r,
      rv'_status = rf_status r, rv'_createdAt = rf_createdAt r\<rparr>"

definition completedRefunds :: "SellerOrder \<Rightarrow> database \<Rightarrow> Refund list" where
  "completedRefunds sellerOrder d =
     filter (\<lambda>r. rf_status r = RefundStatus.COMPLETED) (refunds_of (so_id sellerOrder) d)"

definition buildSellerOrderDetailView ::
  "SellerOrder \<Rightarrow> database \<Rightarrow> SellerOrderDetailView result" where
  "buildSellerOrderDetailView sellerOrder d =
     rbind (deriveSellerOrderFinancialSummary sellerOrder (completedRefunds sellerOrder d)) (\<lambda>financials.
     case by_id ord_id (so_orderId sellerOrder) (orders d) of
       None \<Rightarrow> Inl (PlainError ''TypeError'')
     | Some order \<Rightarrow> Inr
         \<lparr>sd_id = so_id sellerOrder, sd_orderId = so_orderId sellerOrder, sd_status = so_status sellerOrder,
          sd_subtotal = so_subtotal sellerOrder, sd_commissionAmount = so_commissionAmount sellerOrder,
          sd_sellerNetAmount = so_sellerNetAmount sellerOrder, sd_financials = financials,
          sd_createdAt = so_createdAt sellerOrder,
          sd_items = map (item_view (refundedQuantityByItem (completedRefunds sellerOrder d)))
                       (items_of (so_id sellerOrder) d),
          sd_refunds = map order_refund_view (completedRefunds sellerOrder d),
          sd_shippingAddressLine1 = ord_shippingAddressLine1 order,
          sd_shippingAddressLine2 = ord_shippingAddressLine2 order,
          sd_shippingCity = ord_shippingCity order,
          sd_shippingPostalCode = ord_shippingPostalCode order,
          sd_shippingCountry = ord_shippingCountry order\<rparr>)"

definition seller_findMine ::
  "uuid \<Rightarrow> OrderListQueryDto \<Rightarrow> database \<Rightarrow> SellerOrderListItemView PaginatedResult" where
  "seller_findMine sellerProfileId query d =
     (let rows = rev (filter (\<lambda>so. so_sellerProfileId so = sellerProfileId) (seller_orders d))
      in paginated query rows (map (\<lambda>so.
           \<lparr>sl_id = so_id so, sl_orderId = so_orderId so, sl_status = so_status so,
            sl_subtotal = so_subtotal so, sl_commissionAmount = so_commissionAmount so,
            sl_sellerNetAmount = so_sellerNetAmount so, sl_createdAt = so_createdAt so,
            sl_itemCount = length (items_of (so_id so) d)\<rparr>) (page_of query rows)))"

definition seller_findMineById :: "uuid \<Rightarrow> uuid \<Rightarrow> database \<Rightarrow> SellerOrderDetailView result" where
  "seller_findMineById sellerProfileId i d =
     (case find (\<lambda>so. so_id so = i \<and> so_sellerProfileId so = sellerProfileId) (seller_orders d) of
        None \<Rightarrow> Inl (NotFoundException ''Seller order not found'')
      | Some so \<Rightarrow> buildSellerOrderDetailView so d)"

section \<open>Customer views\<close>

record CustomerOrderItemView =
  cv_productId :: "uuid option"
  cv_productName :: string
  cv_unitPrice :: string
  cv_quantity :: int
  cv_lineTotal :: string
  cv_refundedQuantity :: int

record CustomerSellerOrderView =
  cso_id :: uuid
  cso_storeName :: string
  cso_status :: SellerOrderStatus
  cso_subtotal :: string
  cso_refundedAmount :: string
  cso_items :: "CustomerOrderItemView list"

record CustomerOrderListItemView =
  cl_id :: uuid
  cl_status :: OrderStatus
  cl_totalAmount :: string
  cl_createdAt :: time
  cl_sellerCount :: nat

record CustomerOrderDetailView =
  cd_id :: uuid
  cd_status :: OrderStatus
  cd_originalTotal :: string
  cd_refundedTotal :: string
  cd_effectiveTotal :: string
  cd_createdAt :: time
  cd_shippingAddressLine1 :: "string option"
  cd_shippingAddressLine2 :: "string option"
  cd_shippingCity :: "string option"
  cd_shippingPostalCode :: "string option"
  cd_shippingCountry :: "string option"
  cd_sellerOrders :: "CustomerSellerOrderView list"

definition customer_findMine ::
  "uuid \<Rightarrow> OrderListQueryDto \<Rightarrow> database \<Rightarrow> CustomerOrderListItemView PaginatedResult" where
  "customer_findMine buyerId query d =
     (let rows = rev (filter (\<lambda>x. ord_buyerId x = buyerId) (orders d))
      in paginated query rows (map (\<lambda>x.
           \<lparr>cl_id = ord_id x, cl_status = ord_status x, cl_totalAmount = ord_totalAmount x,
            cl_createdAt = ord_createdAt x, cl_sellerCount = length (sellerOrders_of (ord_id x) d)\<rparr>)
           (page_of query rows)))"

text \<open>The seller orders of an order with their refunds and figures, and the order's own figures.\<close>

definition sellerOrderSummaries ::
  "Order \<Rightarrow> database \<Rightarrow> (SellerOrder \<times> SellerOrderFinancialSummary) list result" where
  "sellerOrderSummaries order d =
     rmap (\<lambda>so. rbind (deriveSellerOrderFinancialSummary so (completedRefunds so d)) (\<lambda>f. Inr (so, f)))
       (sellerOrders_of (ord_id order) d)"

definition customer_item_view :: "(uuid \<Rightarrow> int option) \<Rightarrow> SellerOrderItem \<Rightarrow> CustomerOrderItemView" where
  "customer_item_view refundedQtyByItem item =
     \<lparr>cv_productId = soi_productId item, cv_productName = soi_productName item,
      cv_unitPrice = soi_unitPrice item, cv_quantity = soi_quantity item,
      cv_lineTotal = soi_lineTotal item,
      cv_refundedQuantity = (case refundedQtyByItem (soi_id item) of None \<Rightarrow> 0 | Some q \<Rightarrow> q)\<rparr>"

definition customer_seller_order_view ::
  "database \<Rightarrow> SellerOrder \<times> SellerOrderFinancialSummary \<Rightarrow> CustomerSellerOrderView result" where
  "customer_seller_order_view d s =
     (case by_id sp_id (so_sellerProfileId (fst s)) (seller_profiles d) of
        None \<Rightarrow> Inl (PlainError ''TypeError'')
      | Some profile \<Rightarrow> Inr
          \<lparr>cso_id = so_id (fst s), cso_storeName = sp_storeName profile, cso_status = so_status (fst s),
           cso_subtotal = so_subtotal (fst s), cso_refundedAmount = refundedAmount (snd s),
           cso_items = map (customer_item_view (refundedQuantityByItem (completedRefunds (fst s) d)))
                         (items_of (so_id (fst s)) d)\<rparr>)"

definition customer_findMineById :: "uuid \<Rightarrow> uuid \<Rightarrow> database \<Rightarrow> CustomerOrderDetailView result" where
  "customer_findMineById buyerId i d =
     (case find (\<lambda>x. ord_id x = i \<and> ord_buyerId x = buyerId) (orders d) of
        None \<Rightarrow> Inl (NotFoundException ''Order not found'')
      | Some order \<Rightarrow>
          rbind (sellerOrderSummaries order d) (\<lambda>summaries.
          rbind (deriveOrderFinancialSummary (ord_totalAmount order) (map snd summaries)) (\<lambda>fin.
          rbind (rmap (customer_seller_order_view d) summaries) (\<lambda>views.
          Inr \<lparr>cd_id = ord_id order, cd_status = ord_status order, cd_originalTotal = originalTotal fin,
               cd_refundedTotal = refundedTotal fin, cd_effectiveTotal = effectiveTotal fin,
               cd_createdAt = ord_createdAt order,
               cd_shippingAddressLine1 = ord_shippingAddressLine1 order,
               cd_shippingAddressLine2 = ord_shippingAddressLine2 order,
               cd_shippingCity = ord_shippingCity order,
               cd_shippingPostalCode = ord_shippingPostalCode order,
               cd_shippingCountry = ord_shippingCountry order, cd_sellerOrders = views\<rparr>))))"

section \<open>Admin views\<close>

record AdminSellerOrderView =
  as_id :: uuid
  as_sellerProfileId :: uuid
  as_storeName :: string
  as_status :: SellerOrderStatus
  as_subtotal :: string
  as_commissionAmount :: string
  as_sellerNetAmount :: string
  as_financials :: SellerOrderFinancialSummary
  as_items :: "SellerOrderItemView list"
  as_refunds :: "SellerOrderRefundView list"

record AdminOrderListItemView =
  al_id :: uuid
  al_buyerId :: uuid
  al_status :: OrderStatus
  al_totalAmount :: string
  al_createdAt :: time
  al_sellerOrderCount :: nat

record AdminOrderDetailView =
  ad_id :: uuid
  ad_buyerId :: uuid
  ad_status :: OrderStatus
  ad_originalTotal :: string
  ad_refundedTotal :: string
  ad_effectiveTotal :: string
  ad_createdAt :: time
  ad_shippingAddressLine1 :: "string option"
  ad_shippingAddressLine2 :: "string option"
  ad_shippingCity :: "string option"
  ad_shippingPostalCode :: "string option"
  ad_shippingCountry :: "string option"
  ad_sellerOrders :: "AdminSellerOrderView list"

definition admin_findAll :: "OrderListQueryDto \<Rightarrow> database \<Rightarrow> AdminOrderListItemView PaginatedResult" where
  "admin_findAll query d =
     (let rows = rev (orders d)
      in paginated query rows (map (\<lambda>x.
           \<lparr>al_id = ord_id x, al_buyerId = ord_buyerId x, al_status = ord_status x,
            al_totalAmount = ord_totalAmount x, al_createdAt = ord_createdAt x,
            al_sellerOrderCount = length (sellerOrders_of (ord_id x) d)\<rparr>) (page_of query rows)))"

definition admin_seller_order_view ::
  "database \<Rightarrow> SellerOrder \<times> SellerOrderFinancialSummary \<Rightarrow> AdminSellerOrderView result" where
  "admin_seller_order_view d s =
     (case by_id sp_id (so_sellerProfileId (fst s)) (seller_profiles d) of
        None \<Rightarrow> Inl (PlainError ''TypeError'')
      | Some profile \<Rightarrow> Inr
          \<lparr>as_id = so_id (fst s), as_sellerProfileId = so_sellerProfileId (fst s),
           as_storeName = sp_storeName profile, as_status = so_status (fst s),
           as_subtotal = so_subtotal (fst s), as_commissionAmount = so_commissionAmount (fst s),
           as_sellerNetAmount = so_sellerNetAmount (fst s), as_financials = snd s,
           as_items = map (item_view (refundedQuantityByItem (completedRefunds (fst s) d)))
                        (items_of (so_id (fst s)) d),
           as_refunds = map order_refund_view (completedRefunds (fst s) d)\<rparr>)"

definition admin_findById :: "uuid \<Rightarrow> database \<Rightarrow> AdminOrderDetailView result" where
  "admin_findById i d =
     (case by_id ord_id i (orders d) of
        None \<Rightarrow> Inl (NotFoundException ''Order not found'')
      | Some order \<Rightarrow>
          rbind (sellerOrderSummaries order d) (\<lambda>summaries.
          rbind (deriveOrderFinancialSummary (ord_totalAmount order) (map snd summaries)) (\<lambda>fin.
          rbind (rmap (admin_seller_order_view d) summaries) (\<lambda>views.
          Inr \<lparr>ad_id = ord_id order, ad_buyerId = ord_buyerId order, ad_status = ord_status order,
               ad_originalTotal = originalTotal fin, ad_refundedTotal = refundedTotal fin,
               ad_effectiveTotal = effectiveTotal fin, ad_createdAt = ord_createdAt order,
               ad_shippingAddressLine1 = ord_shippingAddressLine1 order,
               ad_shippingAddressLine2 = ord_shippingAddressLine2 order,
               ad_shippingCity = ord_shippingCity order,
               ad_shippingPostalCode = ord_shippingPostalCode order,
               ad_shippingCountry = ord_shippingCountry order, ad_sellerOrders = views\<rparr>))))"

definition admin_seller_findById :: "uuid \<Rightarrow> database \<Rightarrow> AdminSellerOrderView result" where
  "admin_seller_findById i d =
     (case by_id so_id i (seller_orders d) of
        None \<Rightarrow> Inl (NotFoundException ''Seller order not found'')
      | Some sellerOrder \<Rightarrow>
          rbind (buildSellerOrderDetailView sellerOrder d) (\<lambda>base.
          case by_id sp_id (so_sellerProfileId sellerOrder) (seller_profiles d) of
            None \<Rightarrow> Inl (PlainError ''TypeError'')
          | Some profile \<Rightarrow> Inr
              \<lparr>as_id = sd_id base, as_sellerProfileId = so_sellerProfileId sellerOrder,
               as_storeName = sp_storeName profile, as_status = sd_status base,
               as_subtotal = sd_subtotal base, as_commissionAmount = sd_commissionAmount base,
               as_sellerNetAmount = sd_sellerNetAmount base, as_financials = sd_financials base,
               as_items = sd_items base, as_refunds = sd_refunds base\<rparr>))"

section \<open>What the lists show\<close>

lemma page_of_prefix:
  "1 \<le> pageSize q \<Longrightarrow>
   concat (map (\<lambda>p. page_of (q\<lparr>page := p\<rparr>) rows) [1..<Suc n]) = take (n * pageSize q) rows"
proof (induction n)
  case (Suc n)
  have "[1..<Suc (Suc n)] = [1..<Suc n] @ [Suc n]" by simp
  then show ?case
    using Suc by (simp add: page_of_def take_add [symmetric] add.commute del: upt_Suc)
qed simp

text \<open>
  Paging loses and repeats nothing: whatever the page size, the pages of a seller's list, read one
  after the other, are all of his orders and only his, newest first, and every page reports their number.
\<close>
theorem seller_pages_cover:
  assumes n: "1 \<le> pageSize q" and enough: "length (filter (\<lambda>so. so_sellerProfileId so = sp) (seller_orders d)) \<le> n * pageSize q"
  shows "map sl_id (concat (map (\<lambda>p. pg_items (seller_findMine sp (q\<lparr>page := p\<rparr>) d)) [1..<Suc n]))
           = rev (map so_id (filter (\<lambda>so. so_sellerProfileId so = sp) (seller_orders d))) \<and>
         pg_total (seller_findMine sp q d) = length (filter (\<lambda>so. so_sellerProfileId so = sp) (seller_orders d))"
proof -
  let ?rows = "rev (filter (\<lambda>so. so_sellerProfileId so = sp) (seller_orders d))"
  have "map sl_id (pg_items (seller_findMine sp (q\<lparr>page := p\<rparr>) d)) = map so_id (page_of (q\<lparr>page := p\<rparr>) ?rows)" for p
    by (simp add: seller_findMine_def paginated_def Let_def)
  then have "map sl_id (concat (map (\<lambda>p. pg_items (seller_findMine sp (q\<lparr>page := p\<rparr>) d)) [1..<Suc n]))
      = map so_id (concat (map (\<lambda>p. page_of (q\<lparr>page := p\<rparr>) ?rows) [1..<Suc n]))"
    by (simp add: map_concat comp_def del: upt_Suc)
  also have "\<dots> = map so_id (take (n * pageSize q) ?rows)" by (simp only: page_of_prefix [OF n])
  also have "\<dots> = rev (map so_id (filter (\<lambda>so. so_sellerProfileId so = sp) (seller_orders d)))"
    using enough by (simp add: rev_map)
  finally show ?thesis by (simp add: seller_findMine_def paginated_def Let_def)
qed

section \<open>Refunded quantities\<close>

lemma quantity_fold:
  "(case foldl (\<lambda>m r. m(rf_sellerOrderItemId r \<mapsto>
              (case m (rf_sellerOrderItemId r) of None \<Rightarrow> 0 | Some q \<Rightarrow> q) + rf_quantity r)) m rs i
    of None \<Rightarrow> 0 | Some q \<Rightarrow> q)
   = (case m i of None \<Rightarrow> 0 | Some q \<Rightarrow> q)
     + sum_list (map rf_quantity (filter (\<lambda>r. rf_sellerOrderItemId r = i) rs))" for rs :: "Refund list"
  by (induction rs arbitrary: m) auto

lemma refundedQuantityByItem_sum:
  "(case refundedQuantityByItem rs i of None \<Rightarrow> 0 | Some q \<Rightarrow> q)
     = sum_list (map rf_quantity (filter (\<lambda>r. rf_sellerOrderItemId r = i) rs))"
  unfolding refundedQuantityByItem_def by (subst quantity_fold) simp

text \<open>The view counts the refunds of the seller order; the refund handler those of the item.\<close>

lemma refunds_of_item:
  assumes ok: "refunds_ok d" and it: "it \<in> set (seller_order_items d)" "soi_sellerOrderId it = so_id so"
  shows "filter (\<lambda>r. rf_sellerOrderItemId r = soi_id it) (completedRefunds so d) = priorRefunds (soi_id it) d"
proof -
  have "rf_sellerOrderId r = so_id so" if r: "r \<in> set (refunds d)" "rf_sellerOrderItemId r = soi_id it" for r
  proof -
    obtain j where "j \<in> set (seller_order_items d)" "soi_id j = soi_id it" "soi_sellerOrderId j = rf_sellerOrderId r"
      using ok r by (auto simp: refunds_ok_def refund_of_item_def)
    then show ?thesis using it ok same_row [of soi_id] by (metis refund_ids_ok_def refunds_ok_def)
  qed
  then show ?thesis
    unfolding completedRefunds_def refunds_of_def priorRefunds_def filter_filter
    by (intro filter_cong) auto
qed

lemma shown_quantity:
  assumes "refunds_ok d" "it \<in> set (items_of (so_id so) d)"
  shows "iv_refundedQuantity (item_view (refundedQuantityByItem (completedRefunds so d)) it) = alreadyRefundedQty (soi_id it) d"
    and "alreadyRefundedQty (soi_id it) d \<le> soi_quantity it"
  using assms refunds_of_item [OF assms(1), of it so]
  by (auto simp: item_view_def refundedQuantityByItem_sum alreadyRefundedQty_sum items_of_def refunds_ok_def)

section \<open>Totals\<close>

lemma summary_figures:
  assumes so: "so_balanced so" and rs: "list_all refund_balanced rs"
  obtains s where "deriveSellerOrderFinancialSummary so rs = Inr s" "is_money (refundedAmount s)"
    "cents (refundedAmount s) = (if so_status so = SellerOrderStatus.CANCELLED then cents (so_subtotal so)
       else sum_list (map (\<lambda>r. cents (rf_amount r)) rs))"
proof -
  have m: "parseMoneyToCents (so_subtotal so) = Inr (cents (so_subtotal so))"
    "parseMoneyToCents (so_commissionAmount so) = Inr (cents (so_commissionAmount so))"
    "parseMoneyToCents (so_sellerNetAmount so) = Inr (cents (so_sellerNetAmount so))"
    and money: "is_money (so_subtotal so)"
    using so by (auto simp: so_balanced_def is_money_cents)
  have r: "rmap (\<lambda>r. parseMoneyToCents (rf_amount r)) rs = Inr (map (\<lambda>r. cents (rf_amount r)) rs)"
    "rmap (\<lambda>r. parseMoneyToCents (rf_commissionAdjustment r)) rs
       = Inr (map (\<lambda>r. cents (rf_commissionAdjustment r)) rs)"
    "rmap (\<lambda>r. parseMoneyToCents (rf_sellerAdjustment r)) rs
       = Inr (map (\<lambda>r. cents (rf_sellerAdjustment r)) rs)"
    using rs by (auto intro!: rmap_money simp: list_all_iff refund_balanced_def)
  show thesis
    by (rule that [of "projr (deriveSellerOrderFinancialSummary so rs)"])
       (simp_all add: deriveSellerOrderFinancialSummary_def m r money Let_def)
qed

definition effective_cents :: "database \<Rightarrow> SellerOrder \<Rightarrow> int" where
  "effective_cents d so = (if so_status so = SellerOrderStatus.CANCELLED then 0
     else cents (so_subtotal so) - sum_list (map (\<lambda>r. cents (rf_amount r)) (completedRefunds so d)))"

definition profiles_ok :: "database \<Rightarrow> bool" where
  "profiles_ok d \<longleftrightarrow> (\<forall>so \<in> set (seller_orders d). so_sellerProfileId so \<in> sp_id ` set (seller_profiles d))"

lemma rmap_total:
  assumes "\<And>x. x \<in> set xs \<Longrightarrow> \<exists>y. f x = Inr y \<and> P x y"
  shows "\<exists>ys. rmap f xs = Inr ys \<and> list_all2 P xs ys"
  using assms
proof (induction xs)
  case (Cons x xs)
  then obtain y ys where "f x = Inr y" "P x y" "rmap f xs = Inr ys" "list_all2 P xs ys" by fastforce
  then show ?case by (intro exI [of _ "y # ys"]) simp
qed simp

lemma list_all2_setD: "list_all2 P xs ys \<Longrightarrow> y \<in> set ys \<Longrightarrow> \<exists>x \<in> set xs. P x y"
  by (induction rule: list_all2_induct) auto

lemma sum_of_summaries:
  "list_all2 (\<lambda>so s. fst s = so \<and> is_money (refundedAmount (snd s)) \<and>
       cents (refundedAmount (snd s)) = cents (so_subtotal so) - effective_cents d so) sos ss \<Longrightarrow>
   sum_list (map (\<lambda>s. cents (refundedAmount s)) (map snd ss))
     = sum_list (map (\<lambda>so. cents (so_subtotal so)) sos) - sum_list (map (effective_cents d) sos)"
  by (induction rule: list_all2_induct) auto

lemma summaries_exist:
  assumes books: "sellers_booked d" and ref: "refunds_ok d"
  shows "\<exists>ss. sellerOrderSummaries order d = Inr ss \<and>
    list_all2 (\<lambda>so s. fst s = so \<and> is_money (refundedAmount (snd s)) \<and>
       cents (refundedAmount (snd s)) = cents (so_subtotal so) - effective_cents d so)
      (sellerOrders_of (ord_id order) d) ss"
  unfolding sellerOrderSummaries_def
proof (rule rmap_total)
  fix so assume "so \<in> set (sellerOrders_of (ord_id order) d)"
  then have bal: "so_balanced so" using books by (auto simp: sellers_booked_def so_booked_def sellerOrders_of_def)
  have "list_all refund_balanced (completedRefunds so d)"
    using ref by (auto simp: completedRefunds_def refunds_of_def refunds_ok_def refund_of_item_def list_all_iff)
  from summary_figures [OF bal this] obtain s where
    "deriveSellerOrderFinancialSummary so (completedRefunds so d) = Inr s" "is_money (refundedAmount s)"
    "cents (refundedAmount s) = (if so_status so = SellerOrderStatus.CANCELLED then cents (so_subtotal so)
       else sum_list (map (\<lambda>r. cents (rf_amount r)) (completedRefunds so d)))" by blast
  then show "\<exists>y. rbind (deriveSellerOrderFinancialSummary so (completedRefunds so d)) (\<lambda>f. Inr (so, f)) = Inr y \<and>
      fst y = so \<and> is_money (refundedAmount (snd y)) \<and>
      cents (refundedAmount (snd y)) = cents (so_subtotal so) - effective_cents d so"
    by (simp add: effective_cents_def)
qed

lemma order_summary_figures:
  assumes "is_money amount" and "\<And>s. s \<in> set ss \<Longrightarrow> is_money (refundedAmount s)"
  obtains f where "deriveOrderFinancialSummary amount ss = Inr f" "originalTotal f = amount"
    "cents (refundedTotal f) = sum_list (map (\<lambda>s. cents (refundedAmount s)) ss)"
    "cents (effectiveTotal f) = cents amount - sum_list (map (\<lambda>s. cents (refundedAmount s)) ss)"
proof -
  have "rmap (\<lambda>s. parseMoneyToCents (refundedAmount s)) ss = Inr (map (\<lambda>s. cents (refundedAmount s)) ss)"
    using assms(2) by (intro rmap_money) auto
  then show thesis
    using that [of "projr (deriveOrderFinancialSummary amount ss)"]
    by (simp add: deriveOrderFinancialSummary_def is_money_cents [OF assms(1)] Let_def)
qed

text \<open>
  The totals a customer sees are right. For a consistent database his order's page never fails,
  its original total is what he paid, and its effective total is the sum, over the seller orders, of
  what is left of each: nothing of a cancelled one, the subtotal less the completed refunds of any
  other. The admin's page of the same order shows the same three figures.
\<close>
theorem order_page_totals:
  assumes ok: "books_ok d" "refunds_ok d" "profiles_ok d"
    and row: "by_id ord_id i (orders d) = Some x" "is_money (ord_totalAmount x)"
  shows "\<exists>v w. customer_findMineById (ord_buyerId x) i d = Inr v \<and> admin_findById i d = Inr w \<and>
           cd_originalTotal v = ord_totalAmount x \<and>
           cents (cd_effectiveTotal v) = sum_list (map (effective_cents d) (sellerOrders_of i d)) \<and>
           cents (cd_refundedTotal v) = cents (ord_totalAmount x) - cents (cd_effectiveTotal v) \<and>
           ad_originalTotal w = cd_originalTotal v \<and> ad_refundedTotal w = cd_refundedTotal v \<and>
           ad_effectiveTotal w = cd_effectiveTotal v"
proof -
  have x: "x \<in> set (orders d)" "ord_id x = i" using by_id_SomeD [OF row(1)] by auto
  have dist: "distinct (map ord_id (orders d))" using ok(1) by (simp add: books_ok_def refs_ok_def)
  let ?sos = "sellerOrders_of i d"
  obtain y where y: "find (\<lambda>z. ord_id z = i \<and> ord_buyerId z = ord_buyerId x) (orders d) = Some y"
    using x by (cases "find (\<lambda>z. ord_id z = i \<and> ord_buyerId z = ord_buyerId x) (orders d)") (auto simp: find_None_iff)
  then have yx: "y = x" using find_SomeD [OF y] x same_row [OF dist] by metis
  obtain ss where ss: "sellerOrderSummaries x d = Inr ss"
    and each: "list_all2 (\<lambda>so s. fst s = so \<and> is_money (refundedAmount (snd s)) \<and>
       cents (refundedAmount (snd s)) = cents (so_subtotal so) - effective_cents d so) ?sos ss"
    using summaries_exist [of d x] ok x(2) by (auto simp: books_ok_def)
  have money: "is_money (refundedAmount s)" if "s \<in> set (map snd ss)" for s
    using that list_all2_setD [OF each] by auto
  obtain f where f: "deriveOrderFinancialSummary (ord_totalAmount x) (map snd ss) = Inr f"
    "originalTotal f = ord_totalAmount x"
    "cents (refundedTotal f) = sum_list (map (\<lambda>s. cents (refundedAmount s)) (map snd ss))"
    "cents (effectiveTotal f) = cents (ord_totalAmount x) - sum_list (map (\<lambda>s. cents (refundedAmount s)) (map snd ss))"
    using order_summary_figures [OF row(2) money] by blast
  note refs = sum_of_summaries [OF each]
  have tot: "cents (ord_totalAmount x) = sum_list (map (\<lambda>so. cents (so_subtotal so)) ?sos)"
    using ok(1) x by (auto simp: books_ok_def orders_total_def)
  have prof: "\<exists>p. by_id sp_id (so_sellerProfileId (fst s)) (seller_profiles d) = Some p" if s: "s \<in> set ss" for s
  proof -
    have "fst s \<in> set ?sos" using list_all2_setD [OF each s] by auto
    then have "so_sellerProfileId (fst s) \<in> sp_id ` set (seller_profiles d)"
      using ok(3) by (auto simp: profiles_ok_def sellerOrders_of_def)
    then show ?thesis using by_id_None_iff [of sp_id] by fastforce
  qed
  have cv: "\<exists>vs. rmap (customer_seller_order_view d) ss = Inr vs"
    using rmap_total [of ss "customer_seller_order_view d" "\<lambda>_ _. True"] prof
    by (fastforce simp: customer_seller_order_view_def)
  have av: "\<exists>vs. rmap (admin_seller_order_view d) ss = Inr vs"
    using rmap_total [of ss "admin_seller_order_view d" "\<lambda>_ _. True"] prof
    by (fastforce simp: admin_seller_order_view_def)
  obtain vs ws where vs: "rmap (customer_seller_order_view d) ss = Inr vs" "rmap (admin_seller_order_view d) ss = Inr ws"
    using cv av by blast
  show ?thesis
    by (simp add: customer_findMineById_def admin_findById_def y yx row(1) ss f vs refs tot del: map_map)
qed

definition pages_db :: database where
  "pages_db = order_db\<lparr>seller_profiles := [sample_seller, sample_seller\<lparr>sp_id := 2\<rparr>]\<rparr>"

theorem order_page_totals_witness:
  "\<exists>v. customer_findMineById 8 30 pages_db = Inr v \<and> cents (cd_effectiveTotal v) = 1999"
proof -
  have ok: "books_ok pages_db" "refunds_ok pages_db" "profiles_ok pages_db" by code_simp+
  have row: "by_id ord_id 30 (orders pages_db) = Some ordered_order" "is_money (ord_totalAmount ordered_order)"
    "ord_buyerId ordered_order = 8" by code_simp+
  have "sum_list (map (effective_cents pages_db) (sellerOrders_of 30 pages_db)) = 1999" by code_simp
  then show ?thesis using order_page_totals [OF ok row(1,2)] row(3) by auto
qed

theorem seller_pages_cover_witness:
  "map sl_id (concat (map (\<lambda>p. pg_items (seller_findMine 1 (\<lparr>page = 1, pageSize = 1\<rparr>\<lparr>page := p\<rparr>) pages_db)) [1..<Suc 2])) = [31]"
proof -
  have "length (filter (\<lambda>so. so_sellerProfileId so = 1) (seller_orders pages_db)) \<le> 2 * pageSize \<lparr>page = 1, pageSize = 1\<rparr>"
    "1 \<le> pageSize \<lparr>page = 1, pageSize = 1\<rparr>"
    "rev (map so_id (filter (\<lambda>so. so_sellerProfileId so = 1) (seller_orders pages_db))) = [31]" by code_simp+
  then show ?thesis using seller_pages_cover [of "\<lparr>page = 1, pageSize = 1\<rparr>" 1 pages_db 2] by simp
qed

end
