(* ===== verification/Disputes.thy ===== *)
theory Disputes
  imports Order_Views
begin

text \<open>
  Disputes over a seller order (\<open>modules/disputes\<close>): opening one, the seller's answer, the admin's
  status changes and the resolution, which may carry a refund in the same transaction, and the reads.
  The table has a partial unique index: one OPEN or UNDER\_REVIEW dispute per seller order. The
  \<open>updatedAt\<close> of a row is not modelled.
\<close>

section \<open>Status policy\<close>

fun ALLOWED :: "DisputeStatus \<Rightarrow> DisputeStatus list" where
  "ALLOWED DisputeStatus.OPEN = [UNDER_REVIEW, RESOLVED_CUSTOMER, RESOLVED_SELLER, CLOSED]"
| "ALLOWED UNDER_REVIEW = [RESOLVED_CUSTOMER, RESOLVED_SELLER, CLOSED]"
| "ALLOWED RESOLVED_CUSTOMER = [CLOSED]"
| "ALLOWED RESOLVED_SELLER = [CLOSED]"
| "ALLOWED CLOSED = []"

definition assertDisputeTransition :: "DisputeStatus \<Rightarrow> DisputeStatus \<Rightarrow> unit result" where
  "assertDisputeTransition from to =
     (if from = to then Inr ()
      else if to \<notin> set (ALLOWED from) then Inl (ConflictException ''Invalid dispute transition'')
      else Inr ())"

definition isActiveDispute :: "DisputeStatus \<Rightarrow> bool" where
  "isActiveDispute status \<longleftrightarrow> status = DisputeStatus.OPEN \<or> status = UNDER_REVIEW"

fun dispute_rank :: "DisputeStatus \<Rightarrow> nat" where
  "dispute_rank DisputeStatus.OPEN = 0"
| "dispute_rank UNDER_REVIEW = 1"
| "dispute_rank RESOLVED_CUSTOMER = 2"
| "dispute_rank RESOLVED_SELLER = 2"
| "dispute_rank CLOSED = 3"

interpretation dispute_machine: status_machine ALLOWED dispute_rank
proof
  fix s t assume "t \<in> set (ALLOWED s)"
  then show "dispute_rank s < dispute_rank t" by (cases s) auto
qed

section \<open>Requests and views\<close>

record CreateDisputeDto =
  cdd_reason :: string
  cdd_description :: string

record DisputeListQueryDto = OrderListQueryDto +
  dq_status :: "DisputeStatus option"

datatype DisputeResolutionOutcome = CUSTOMER | SELLER

record ResolveDisputeDto =
  rdd_outcome :: DisputeResolutionOutcome
  rdd_adminResolution :: string
  rdd_refund :: "CreateRefundDto option"

record DisputeOrderView =
  dov_id :: uuid
  dov_status :: SellerOrderStatus
  dov_createdAt :: time
  dov_items :: "SellerOrderItemView list"

record DisputeView =
  dv_id :: uuid
  dv_sellerOrderId :: uuid
  dv_customerId :: "uuid option"
  dv_sellerProfileId :: uuid
  dv_reason :: string
  dv_description :: string
  dv_status :: DisputeStatus
  dv_adminResolution :: "string option"
  dv_sellerResponse :: "string option"
  dv_resolvedAt :: "time option"
  dv_createdAt :: time
  dv_sellerProfile :: "(uuid \<times> string) option"
  dv_sellerOrder :: "DisputeOrderView option"

text \<open>\<open>loaded\<close> are the refunds the query joined: those of the seller order, or none for a list.\<close>

definition dispute_item_view :: "Refund list \<Rightarrow> SellerOrderItem \<Rightarrow> SellerOrderItemView" where
  "dispute_item_view loaded item =
     \<lparr>iv_id = soi_id item, iv_productId = soi_productId item, iv_productName = soi_productName item,
      iv_unitPrice = soi_unitPrice item, iv_quantity = soi_quantity item,
      iv_lineTotal = soi_lineTotal item,
      iv_refundedQuantity = foldl (\<lambda>sum r. sum + rf_quantity r) 0
        (filter (\<lambda>r. rf_sellerOrderItemId r = soi_id item) loaded)\<rparr>"

definition dispute_toView :: "Dispute \<Rightarrow> bool \<Rightarrow> bool \<Rightarrow> database \<Rightarrow> DisputeView" where
  "dispute_toView row includeCustomer withRefunds d =
     \<lparr>dv_id = dp_id row, dv_sellerOrderId = dp_sellerOrderId row,
      dv_customerId = (if includeCustomer then Some (dp_customerId row) else None),
      dv_sellerProfileId = dp_sellerProfileId row, dv_reason = dp_reason row,
      dv_description = dp_description row, dv_status = dp_status row,
      dv_adminResolution = dp_adminResolution row, dv_sellerResponse = dp_sellerResponse row,
      dv_resolvedAt = dp_resolvedAt row, dv_createdAt = dp_createdAt row,
      dv_sellerProfile = map_option (\<lambda>p. (sp_id p, sp_storeName p))
        (by_id sp_id (dp_sellerProfileId row) (seller_profiles d)),
      dv_sellerOrder = map_option (\<lambda>so.
          \<lparr>dov_id = so_id so, dov_status = so_status so, dov_createdAt = so_createdAt so,
           dov_items = map (dispute_item_view (if withRefunds then refunds_of (so_id so) d else []))
             (items_of (so_id so) d)\<rparr>)
        (by_id so_id (dp_sellerOrderId row) (seller_orders d))\<rparr>"

definition findOne_dispute :: "(Dispute \<Rightarrow> bool) \<Rightarrow> bool \<Rightarrow> database \<Rightarrow> DisputeView result" where
  "findOne_dispute where' includeCustomer d =
     (case find where' (disputes d) of
        None \<Rightarrow> Inl (NotFoundException ''Dispute not found'')
      | Some row \<Rightarrow> Inr (dispute_toView row includeCustomer True d))"

definition findCustomerById :: "uuid \<Rightarrow> uuid \<Rightarrow> database \<Rightarrow> DisputeView result" where
  "findCustomerById customerId i = findOne_dispute (\<lambda>r. dp_id r = i \<and> dp_customerId r = customerId) False"

definition findSellerById :: "uuid \<Rightarrow> uuid \<Rightarrow> database \<Rightarrow> DisputeView result" where
  "findSellerById sellerProfileId i =
     findOne_dispute (\<lambda>r. dp_id r = i \<and> dp_sellerProfileId r = sellerProfileId) False"

definition findAdminById :: "uuid \<Rightarrow> database \<Rightarrow> DisputeView result" where
  "findAdminById i = findOne_dispute (\<lambda>r. dp_id r = i) True"

definition list_disputes ::
  "(Dispute \<Rightarrow> bool) \<Rightarrow> DisputeListQueryDto \<Rightarrow> bool \<Rightarrow> database \<Rightarrow> DisputeView PaginatedResult" where
  "list_disputes where' query includeCustomer d =
     (let rows = rev (filter (\<lambda>r. where' r \<and> (case dq_status query of None \<Rightarrow> True | Some st \<Rightarrow> dp_status r = st))
                        (disputes d));
          q = \<lparr>page = page query, pageSize = pageSize query\<rparr>
      in paginated q rows (map (\<lambda>r. dispute_toView r includeCustomer False d) (page_of q rows)))"

definition listCustomer :: "uuid \<Rightarrow> DisputeListQueryDto \<Rightarrow> database \<Rightarrow> DisputeView PaginatedResult" where
  "listCustomer customerId query = list_disputes (\<lambda>r. dp_customerId r = customerId) query False"

definition listSeller :: "uuid \<Rightarrow> DisputeListQueryDto \<Rightarrow> database \<Rightarrow> DisputeView PaginatedResult" where
  "listSeller sellerProfileId query = list_disputes (\<lambda>r. dp_sellerProfileId r = sellerProfileId) query False"

definition listAdmin :: "DisputeListQueryDto \<Rightarrow> database \<Rightarrow> DisputeView PaginatedResult" where
  "listAdmin query = list_disputes (\<lambda>r. True) query True"

section \<open>Opening a dispute\<close>

definition ELIGIBLE_STATUSES :: "SellerOrderStatus list" where
  "ELIGIBLE_STATUSES = [SellerOrderStatus.SHIPPED, SellerOrderStatus.DELIVERED]"

definition new_dispute :: "env \<Rightarrow> uuid \<Rightarrow> SellerOrder \<Rightarrow> CreateDisputeDto \<Rightarrow> uuid \<Rightarrow> Dispute" where
  "new_dispute e customerId so dto i =
     \<lparr>dp_id = i, dp_sellerOrderId = so_id so, dp_customerId = customerId,
      dp_sellerProfileId = so_sellerProfileId so, dp_reason = js_trim (cdd_reason dto),
      dp_description = js_trim (cdd_description dto), dp_status = DisputeStatus.OPEN,
      dp_resolvedByUserId = None, dp_adminResolution = None, dp_sellerResponse = None,
      dp_resolvedAt = None, dp_createdAt = now e\<rparr>"

definition insert_dispute :: "Dispute \<Rightarrow> database \<Rightarrow> database result" where
  "insert_dispute row d =
     (if \<exists>x \<in> set (disputes d). dp_sellerOrderId x = dp_sellerOrderId row \<and> isActiveDispute (dp_status x)
      then Inl UniqueViolation
      else Inr (d\<lparr>next_id := next_id d + 1, disputes := disputes d @ [row]\<rparr>))"

definition open_dispute :: "uuid \<Rightarrow> Dispute \<Rightarrow> sys \<Rightarrow> Dispute result \<times> sys" where
  "open_dispute correlationId row s =
     (case insert_dispute row (db s) of
        Inl err \<Rightarrow> (Inl err, s)
      | Inr d \<Rightarrow>
          (Inr row, outbox_record ''DISPUTE_OPENED'' ''Dispute'' (dp_id row)
             [(''disputeId'', JId (dp_id row)), (''sellerOrderId'', JId (dp_sellerOrderId row))]
             correlationId (s\<lparr>db := d\<rparr>)))"

definition runCreateDispute ::
  "env \<Rightarrow> uuid \<Rightarrow> uuid \<Rightarrow> CreateDisputeDto \<Rightarrow> uuid \<Rightarrow> sys \<Rightarrow> Dispute result \<times> sys" where
  "runCreateDispute e customerId sellerOrderId dto correlationId s =
     (case by_id so_id sellerOrderId (seller_orders (db s)) of
        None \<Rightarrow> (Inl (NotFoundException ''Seller order not found''), s)
      | Some so \<Rightarrow>
          if map_option ord_buyerId (by_id ord_id (so_orderId so) (orders (db s))) \<noteq> Some customerId
          then (Inl (NotFoundException ''Seller order not found''), s)
          else if so_status so \<notin> set ELIGIBLE_STATUSES
          then (Inl (ConflictException ''Only shipped or delivered seller orders are eligible for dispute''), s)
          else open_dispute correlationId (new_dispute e customerId so dto (next_id (db s))) s)"

definition dispute_conflict :: "app_error \<Rightarrow> app_error" where
  "dispute_conflict err =
     (if isUniqueViolation err
      then ConflictException ''An active dispute already exists for this seller order'' else err)"

definition create_dispute ::
  "env \<Rightarrow> uuid \<Rightarrow> uuid \<Rightarrow> CreateDisputeDto \<Rightarrow> uuid \<Rightarrow> sys \<Rightarrow> DisputeView result \<times> sys" where
  "create_dispute e customerId sellerOrderId dto correlationId s =
     (case transaction (runCreateDispute e customerId sellerOrderId dto correlationId) s of
        (Inl err, s1) \<Rightarrow> (Inl (dispute_conflict err), s1)
      | (Inr row, s1) \<Rightarrow>
          (findCustomerById customerId (dp_id row) (db s1), increment ''disputes_opened_total'' s1))"

section \<open>The seller's answer and the admin's status changes\<close>

definition record_dispute_changed :: "uuid \<Rightarrow> (string \<times> json) list \<Rightarrow> uuid \<Rightarrow> sys \<Rightarrow> sys" where
  "record_dispute_changed i extra =
     outbox_record ''DISPUTE_STATUS_CHANGED'' ''Dispute'' i ((''disputeId'', JId i) # extra)"

definition runSellerRespond :: "uuid \<Rightarrow> uuid \<Rightarrow> string \<Rightarrow> uuid \<Rightarrow> sys \<Rightarrow> Dispute result \<times> sys" where
  "runSellerRespond sellerProfileId i response correlationId s =
     (case find (\<lambda>r. dp_id r = i \<and> dp_sellerProfileId r = sellerProfileId) (disputes (db s)) of
        None \<Rightarrow> (Inl (NotFoundException ''Dispute not found''), s)
      | Some row \<Rightarrow>
          if dp_status row \<notin> {DisputeStatus.OPEN, UNDER_REVIEW}
          then (Inl (ConflictException ''Resolved disputes cannot be changed by the seller''), s)
          else (Inr (row\<lparr>dp_sellerResponse := Some (js_trim response)\<rparr>),
                record_dispute_changed i [] correlationId
                  (upd_db (save_dispute (row\<lparr>dp_sellerResponse := Some (js_trim response)\<rparr>)) s)))"

definition sellerRespond :: "uuid \<Rightarrow> uuid \<Rightarrow> string \<Rightarrow> uuid \<Rightarrow> sys \<Rightarrow> DisputeView result \<times> sys" where
  "sellerRespond sellerProfileId i response correlationId s =
     (case transaction (runSellerRespond sellerProfileId i response correlationId) s of
        (Inl err, s1) \<Rightarrow> (Inl err, s1)
      | (Inr row, s1) \<Rightarrow> (findSellerById sellerProfileId (dp_id row) (db s1), s1))"

definition status_changed :: "env \<Rightarrow> uuid \<Rightarrow> DisputeStatus \<Rightarrow> Dispute \<Rightarrow> Dispute" where
  "status_changed e adminId status row =
     (if status = CLOSED
      then row\<lparr>dp_status := status, dp_resolvedByUserId := Some adminId, dp_resolvedAt := Some (now e)\<rparr>
      else row\<lparr>dp_status := status\<rparr>)"

definition runUpdateDispute ::
  "env \<Rightarrow> uuid \<Rightarrow> uuid \<Rightarrow> DisputeStatus \<Rightarrow> uuid \<Rightarrow> sys \<Rightarrow> unit result \<times> sys" where
  "runUpdateDispute e adminId i status correlationId s =
     (case by_id dp_id i (disputes (db s)) of
        None \<Rightarrow> (Inl (NotFoundException ''Dispute not found''), s)
      | Some row \<Rightarrow>
          if status \<notin> {UNDER_REVIEW, CLOSED}
          then (Inl (BadRequestException ''Use the resolution endpoint for a customer/seller resolution''), s)
          else (case assertDisputeTransition (dp_status row) status of
                  Inl err \<Rightarrow> (Inl err, s)
                | Inr _ \<Rightarrow>
                    (Inr (), record_dispute_changed i [(''status'', JDisputeStatus status)] correlationId
                       (upd_db (save_dispute (status_changed e adminId status row)) s))))"

definition updateDisputeStatus ::
  "env \<Rightarrow> uuid \<Rightarrow> uuid \<Rightarrow> DisputeStatus \<Rightarrow> uuid \<Rightarrow> sys \<Rightarrow> DisputeView result \<times> sys" where
  "updateDisputeStatus e adminId i status correlationId s =
     (case transaction (runUpdateDispute e adminId i status correlationId) s of
        (Inl err, s1) \<Rightarrow> (Inl err, s1)
      | (Inr _, s1) \<Rightarrow> (findAdminById i (db s1), s1))"

section \<open>Resolution\<close>

definition resolved_row :: "env \<Rightarrow> uuid \<Rightarrow> ResolveDisputeDto \<Rightarrow> DisputeStatus \<Rightarrow> Dispute \<Rightarrow> Dispute" where
  "resolved_row e adminId dto target row =
     row\<lparr>dp_status := target, dp_adminResolution := Some (js_trim (rdd_adminResolution dto)),
         dp_resolvedByUserId := Some adminId, dp_resolvedAt := Some (now e)\<rparr>"

definition finish_resolve ::
  "env \<Rightarrow> uuid \<Rightarrow> ResolveDisputeDto \<Rightarrow> DisputeStatus \<Rightarrow> Dispute \<Rightarrow> uuid \<Rightarrow> RefundOutcome option \<Rightarrow> sys \<Rightarrow>
   (Dispute \<times> RefundOutcome option) result \<times> sys" where
  "finish_resolve e adminId dto target row correlationId refundOutcome s =
     (Inr (resolved_row e adminId dto target row, refundOutcome),
      outbox_record ''DISPUTE_RESOLVED'' ''Dispute'' (dp_id row)
        [(''disputeId'', JId (dp_id row)), (''status'', JDisputeStatus target),
         (''refundId'', case refundOutcome of None \<Rightarrow> JNull | Some out \<Rightarrow> JId (rf_id (ro_refund out)))]
        correlationId
        (upd_db (save_dispute (resolved_row e adminId dto target row)) s))"

definition runResolve ::
  "env \<Rightarrow> uuid \<Rightarrow> uuid \<Rightarrow> ResolveDisputeDto \<Rightarrow> string option \<Rightarrow> uuid \<Rightarrow> sys \<Rightarrow>
   (Dispute \<times> RefundOutcome option) result \<times> sys" where
  "runResolve e adminId i dto key correlationId s =
     (case by_id dp_id i (disputes (db s)) of
        None \<Rightarrow> (Inl (NotFoundException ''Dispute not found''), s)
      | Some row \<Rightarrow>
          if dp_status row \<in> {RESOLVED_CUSTOMER, RESOLVED_SELLER, CLOSED} then (Inr (row, None), s)
          else let target = (if rdd_outcome dto = CUSTOMER then RESOLVED_CUSTOMER else RESOLVED_SELLER) in
     (case assertDisputeTransition (dp_status row) target of
        Inl err \<Rightarrow> (Inl err, s)
      | Inr _ \<Rightarrow>
     (case rdd_refund dto of
        None \<Rightarrow> finish_resolve e adminId dto target row correlationId None s
      | Some refund \<Rightarrow>
          if rdd_outcome dto \<noteq> CUSTOMER
          then (Inl (BadRequestException ''A refund is only valid for a customer-favor resolution''), s)
          else (case createRefundInTransaction e (dp_sellerOrderId row) refund
                       (case key of Some k \<Rightarrow> k | None \<Rightarrow> []) adminId correlationId (Some (dp_id row)) s of
                  (Inl err, s1) \<Rightarrow> (Inl err, s1)
                | (Inr out, s1) \<Rightarrow> finish_resolve e adminId dto target row correlationId (Some out) s1))))"

definition after_resolve :: "RefundOutcome option \<Rightarrow> sys \<Rightarrow> unit result \<times> sys" where
  "after_resolve refundOutcome s =
     (case refundOutcome of None \<Rightarrow> (Inr (), s) | Some out \<Rightarrow> afterCommittedRefund out s)"

definition resolve_dispute ::
  "env \<Rightarrow> uuid \<Rightarrow> uuid \<Rightarrow> ResolveDisputeDto \<Rightarrow> string option \<Rightarrow> uuid \<Rightarrow> sys \<Rightarrow> DisputeView result \<times> sys" where
  "resolve_dispute e adminId i dto key correlationId s =
     (if rdd_refund dto \<noteq> None \<and> (key = None \<or> key = Some [])
      then (Inl (BadRequestException ''Idempotency-Key header is required when resolution includes a refund''), s)
      else (case transaction (runResolve e adminId i dto key correlationId) s of
              (Inl err, s1) \<Rightarrow> (Inl err, s1)
            | (Inr result, s1) \<Rightarrow>
                (case after_resolve (snd result) s1 of
                   (Inl err, s2) \<Rightarrow> (Inl err, s2)
                 | (Inr _, s2) \<Rightarrow> (findAdminById i (db s2), increment ''disputes_resolved_total'' s2))))"

section \<open>The invariant of the disputes\<close>

definition disputes_ok :: "database \<Rightarrow> bool" where
  "disputes_ok d \<longleftrightarrow> distinct (map dp_id (disputes d)) \<and> (\<forall>x \<in> set (disputes d). dp_id x < next_id d) \<and>
     (\<forall>x \<in> set (disputes d). \<forall>y \<in> set (disputes d).
        isActiveDispute (dp_status x) \<and> isActiveDispute (dp_status y) \<and>
        dp_sellerOrderId x = dp_sellerOrderId y \<longrightarrow> x = y)"

text \<open>What a step may do to a dispute: answer it, resolve it, move its status; never what it is about.\<close>

definition dispute_kept :: "Dispute \<Rightarrow> Dispute \<Rightarrow> bool" where
  "dispute_kept x x' \<longleftrightarrow> dp_id x' = dp_id x \<and> dp_sellerOrderId x' = dp_sellerOrderId x \<and>
     dp_customerId x' = dp_customerId x \<and> dp_sellerProfileId x' = dp_sellerProfileId x \<and>
     dp_reason x' = dp_reason x \<and> dp_description x' = dp_description x"

definition dispute_path :: "database \<Rightarrow> database \<Rightarrow> bool" where
  "dispute_path d d' \<longleftrightarrow> (\<forall>i x. by_id dp_id i (disputes d) = Some x \<longrightarrow>
     (\<exists>x'. by_id dp_id i (disputes d') = Some x' \<and> dispute_kept x x' \<and>
           (\<lambda>s t. t \<in> set (ALLOWED s))\<^sup>*\<^sup>* (dp_status x) (dp_status x')))"

lemma dispute_kept_refl [simp]: "dispute_kept x x"
  by (simp add: dispute_kept_def)

lemma dispute_path_same [simp]: "disputes d' = disputes d \<Longrightarrow> dispute_path d d'"
  by (auto simp: dispute_path_def)

lemma dispute_path_trans:
  assumes "dispute_path d d'" "dispute_path d' d''"
  shows "dispute_path d d''"
  unfolding dispute_path_def
proof (intro allI impI)
  fix i x assume x: "by_id dp_id i (disputes d) = Some x"
  let ?R = "(\<lambda>s t. t \<in> set (ALLOWED s))\<^sup>*\<^sup>*"
  obtain x' where x': "by_id dp_id i (disputes d') = Some x'" "dispute_kept x x'" "?R (dp_status x) (dp_status x')"
    using assms(1) x by (auto simp: dispute_path_def)
  obtain x'' where x'': "by_id dp_id i (disputes d'') = Some x''" "dispute_kept x' x''" "?R (dp_status x') (dp_status x'')"
    using assms(2) x'(1) by (auto simp: dispute_path_def)
  show "\<exists>x''. by_id dp_id i (disputes d'') = Some x'' \<and> dispute_kept x x'' \<and> ?R (dp_status x) (dp_status x'')"
    using x' x'' rtranclp_trans [OF x'(3) x''(3)] by (auto simp: dispute_kept_def)
qed

lemma put_dispute:
  assumes ok: "disputes_ok d" and row: "by_id dp_id i (disputes d) = Some x" and kept: "dispute_kept x x'"
    and st: "dp_status x' = dp_status x \<or> dp_status x' \<in> set (ALLOWED (dp_status x))"
    and d': "disputes d' = put_row dp_id x' (disputes d)" "next_id d \<le> next_id d'"
  shows "disputes_ok d' \<and> dispute_path d d'"
proof
  have x: "x \<in> set (disputes d)" "dp_id x = i" using by_id_SomeD [OF row] by auto
  have act: "isActiveDispute (dp_status x') \<Longrightarrow> isActiveDispute (dp_status x)"
    using st by (cases "dp_status x") (auto simp: isActiveDispute_def)
  have mem: "y = x' \<or> (y \<in> set (disputes d) \<and> dp_id y \<noteq> i)" if "y \<in> set (disputes d')" for y
    using set_put_rowD [of y dp_id x'] that d'(1) kept x(2) by (auto simp: dispute_kept_def)
  have uniq: "y = z" if y: "y \<in> set (disputes d')" and z: "z \<in> set (disputes d')"
    and a: "isActiveDispute (dp_status y)" "isActiveDispute (dp_status z)" "dp_sellerOrderId y = dp_sellerOrderId z" for y z
  proof -
    have other: "\<not> (isActiveDispute (dp_status w) \<and> dp_sellerOrderId w = dp_sellerOrderId x')"
      if w: "w \<in> set (disputes d)" "dp_id w \<noteq> i" and "isActiveDispute (dp_status x')" for w
      using ok w x act that(3) kept unfolding disputes_ok_def dispute_kept_def by metis
    show ?thesis
      using mem [OF y] mem [OF z] other [of y] other [of z] a ok unfolding disputes_ok_def by metis
  qed
  have "dp_id y < next_id d'" if "y \<in> set (disputes d')" for y
    using mem [OF that] ok x kept d'(2) by (fastforce simp: disputes_ok_def dispute_kept_def)
  moreover have "distinct (map dp_id (disputes d'))"
    using ok by (simp add: d'(1) keys_put_row disputes_ok_def)
  ultimately show "disputes_ok d'" using uniq unfolding disputes_ok_def by blast
  show "dispute_path d d'"
    unfolding dispute_path_def
  proof (intro allI impI)
    fix j y assume y: "by_id dp_id j (disputes d) = Some y"
    let ?R = "(\<lambda>s t. t \<in> set (ALLOWED s))\<^sup>*\<^sup>*"
    show "\<exists>y'. by_id dp_id j (disputes d') = Some y' \<and> dispute_kept y y' \<and> ?R (dp_status y) (dp_status y')"
    proof (cases "j = i")
      case True
      then have "y = x" using y row by simp
      moreover have "by_id dp_id j (disputes d') = Some x'"
        unfolding d'(1) by (rule by_id_put_row_same [OF y]) (use True x(2) kept in \<open>simp add: dispute_kept_def\<close>)
      moreover have "?R (dp_status x) (dp_status x')" using st by (auto intro: r_into_rtranclp)
      ultimately show ?thesis using kept by blast
    next
      case False
      then have "by_id dp_id j (disputes d') = Some y"
        using y x(2) kept by (simp add: d'(1) by_id_put_row_other dispute_kept_def)
      then show ?thesis by auto
    qed
  qed
qed

lemma insert_dispute_kept:
  assumes ok: "disputes_ok d" and ins: "insert_dispute x d = Inr d'" and x: "dp_id x = next_id d"
  shows "disputes_ok d' \<and> dispute_path d d'"
proof
  have none: "\<not> (\<exists>y \<in> set (disputes d). dp_sellerOrderId y = dp_sellerOrderId x \<and> isActiveDispute (dp_status y))"
    and d': "d' = d\<lparr>next_id := next_id d + 1, disputes := disputes d @ [x]\<rparr>"
    using ins by (auto simp: insert_dispute_def split: if_splits)
  have "dp_id x \<notin> dp_id ` set (disputes d)" using ok x by (auto simp: disputes_ok_def)
  then show "disputes_ok d'" using ok none x by (auto simp: disputes_ok_def d' less_Suc_eq)
  show "dispute_path d d'" by (auto simp: dispute_path_def d' by_id_append)
qed

section \<open>Every interleaving with the orders\<close>

datatype dispute_op =
    OpenDispute uuid uuid CreateDisputeDto uuid
  | AnswerDispute uuid uuid string uuid
  | UpdateDispute uuid uuid DisputeStatus uuid
  | ResolveDispute uuid uuid ResolveDisputeDto "string option" uuid
  | OrderOp order_op

fun run_dispute_op :: "env \<Rightarrow> dispute_op \<Rightarrow> sys \<Rightarrow> sys" where
  "run_dispute_op e (OpenDispute u i dto c) s = snd (create_dispute e u i dto c s)"
| "run_dispute_op e (AnswerDispute sp i t c) s = snd (sellerRespond sp i t c s)"
| "run_dispute_op e (UpdateDispute a i st c) s = snd (updateDisputeStatus e a i st c s)"
| "run_dispute_op e (ResolveDispute a i dto k c) s = snd (resolve_dispute e a i dto k c s)"
| "run_dispute_op e (OrderOp op') s = run_order_op e op' s"

inductive dispute_step :: "sys \<Rightarrow> sys \<Rightarrow> bool" where
  run: "dispute_step s (run_dispute_op e op' s)"

inductive_cases dispute_stepE: "dispute_step s s'"

definition dispute_step_ok :: "database \<Rightarrow> database \<Rightarrow> bool" where
  "dispute_step_ok d d' \<longleftrightarrow>
     (disputes_ok d \<and> books_ok d \<and> refunds_ok d \<longrightarrow>
      disputes_ok d' \<and> books_ok d' \<and> refunds_ok d' \<and> dispute_path d d')"

lemma dispute_step_refl [simp]: "dispute_step_ok d d"
  by (simp add: dispute_step_ok_def)

lemma dispute_step_trans: "dispute_step_ok d d' \<Longrightarrow> dispute_step_ok d' d'' \<Longrightarrow> dispute_step_ok d d''"
  unfolding dispute_step_ok_def using dispute_path_trans by metis

text \<open>A step that writes the disputes table and leaves the order tables alone.\<close>

definition same_orders :: "database \<Rightarrow> database \<Rightarrow> bool" where
  "same_orders d d' \<longleftrightarrow> same_books d d' \<and> refunds d' = refunds d"

lemma same_orders_ok: "same_orders d d' \<Longrightarrow> books_ok d \<Longrightarrow> refunds_ok d \<Longrightarrow> books_ok d' \<and> refunds_ok d'"
  using same_books_ok refunds_ok_kept [of d d' "[]"]
  by (auto simp: same_orders_def same_books_def books_frame_def)

lemma dispute_write:
  assumes "same_orders d d'" "disputes_ok d \<Longrightarrow> disputes_ok d' \<and> dispute_path d d'"
  shows "dispute_step_ok d d'"
  using assms same_orders_ok by (simp add: dispute_step_ok_def)

lemma dispute_put_step:
  assumes "same_orders d d'" "by_id dp_id i (disputes d) = Some x" "dispute_kept x x'"
    "dp_status x' = dp_status x \<or> dp_status x' \<in> set (ALLOWED (dp_status x))"
    "disputes d' = put_row dp_id x' (disputes d)"
  shows "dispute_step_ok d d'"
  by (rule dispute_write [OF assms(1)]) (rule put_dispute [OF _ assms(2-5)], auto simp: assms(1) [unfolded same_orders_def same_books_def])


section \<open>Order operations leave the disputes alone\<close>

lemma runUpdate_disputes:
  "disputes (db (snd (runUpdateStatus a i t c s))) = disputes (db s) \<and>
   next_id (db s) \<le> next_id (db (snd (runUpdateStatus a i t c s)))"
proof -
  have le: "next_id (db x) \<le> next_id (db (recomputeParentOrderStatus j c (record_status_change so t c x)))" for x j so
    using recompute_frame(9) [of "record_status_change so t c x" j c] by simp
  show ?thesis
    by (auto simp: runUpdateStatus_def split: sum.splits intro!: order_trans [OF _ le])
qed

lemma runCancel_disputes:
  "disputes (db (snd (runCancelSellerOrder a i c s))) = disputes (db s) \<and>
   next_id (db s) \<le> next_id (db (snd (runCancelSellerOrder a i c s)))"
proof -
  have r: "disputes (db (snd (restore_items c items s))) = disputes (db s) \<and>
      next_id (db s) \<le> next_id (db (snd (restore_items c items s)))" for items
    using restore_items_run [of c items s] by (simp add: same_order_rows_def)
  have f: "disputes (db (finish_cancel so c x)) = disputes (db x) \<and> next_id (db x) \<le> next_id (db (finish_cancel so c x))" for so x
    by (auto simp: finish_cancel_def reverse_ledger_def intro!: order_trans [OF _ recompute_frame(9)])
  show ?thesis
    using r [of "items_of i (db s)"] f
    by (auto simp: runCancelSellerOrder_def split: sum.split prod.split)
       (metis order_trans snd_conv)
qed

lemma start_disputes [simp]:
  "disputes (db (snd (startProcessing i c s))) = disputes (db s)"
  by (simp add: startProcessing_def transaction_def runStartProcessing_def split: option.split)

lemma deliver_disputes:
  "disputes (db (snd (handle_seller_order_job j s))) = disputes (db s) \<and>
   next_id (db s) \<le> next_id (db (snd (handle_seller_order_job j s)))"
proof -
  obtain x t i c where j: "j = (x, t, i, c)" by (cases j)
  let ?d = "dispatch_seller_order t i c s"
  have "disputes (db (snd ?d)) = disputes (db s) \<and> next_id (db s) \<le> next_id (db (snd ?d))"
    using startProcessing_frame [of i c s] by (simp add: dispatch_seller_order_def)
  then show ?thesis
    by (cases ?d) (auto simp: j process_seller_order_event_def consume_def db_recordQueueJob markProcessed_def split: sum.splits)
qed

lemma refund_disputes:
  "disputes (db (snd (createRefund e i dto k u c s))) = disputes (db s) \<and>
   next_id (db s) \<le> next_id (db (snd (createRefund e i dto k u c s)))"
proof -
  obtain r s' where run: "createRefund e i dto k u c s = (r, s')" by fastforce
  then show ?thesis
  proof (cases rule: createRefund_cases)
    case (refunded k' out s1)
    from refunded(3) show ?thesis
      by (rule createRefund_Inr) (simp add: run refunded(5))
  qed (simp add: run)
qed

lemma order_op_disputes:
  "disputes (db (run_order_op e op' s)) = disputes (db s) \<and> next_id (db s) \<le> next_id (db (run_order_op e op' s))"
proof (cases op')
  case (UpdateStatus a i t c)
  show ?thesis
    using runUpdate_disputes [of a i t c s] by (simp add: UpdateStatus updateStatus_def transaction_def split_beta split: sum.split)
next
  case (CancelSellerOrder a i c)
  show ?thesis
    using runCancel_disputes [of a i c s]
    by (simp add: CancelSellerOrder cancel_seller_order_def transaction_def split_beta split: sum.split)
qed (simp_all add: deliver_disputes refund_disputes)


section \<open>What each operation does to the dispute\<close>

lemma disputes_ok_mono:
  "disputes_ok d \<Longrightarrow> disputes d' = disputes d \<Longrightarrow> next_id d \<le> next_id d' \<Longrightarrow> disputes_ok d'"
  by (auto simp: disputes_ok_def dest: order.strict_trans2)

lemma find_unique:
  "distinct (map dp_id t) \<Longrightarrow> by_id dp_id i t = Some x \<Longrightarrow> P x \<Longrightarrow> find (\<lambda>r. dp_id r = i \<and> P r) t = Some x"
  by (induction t) (auto simp: by_id_def split: if_splits dest!: find_SomeD)

lemma find_by_id:
  assumes "distinct (map dp_id t)" "find (\<lambda>r. dp_id r = i \<and> P r) t = Some x"
  shows "by_id dp_id i t = Some x" "P x"
  using assms by_id_unique [of dp_id t x] find_SomeD [OF assms(2)] by auto

text \<open>A dispute row rewritten in place, with an event.\<close>

lemma record_changed_frame [simp]:
  "disputes (db (record_dispute_changed i x c s)) = disputes (db s)"
  "same_orders (db s) (db (record_dispute_changed i x c s))"
  "effects (record_dispute_changed i x c s) = effects s"
  by (simp_all add: record_dispute_changed_def same_orders_def same_books_def)

lemma same_orders_trans: "same_orders d d' \<Longrightarrow> same_orders d' d'' \<Longrightarrow> same_orders d d''"
  by (auto simp: same_orders_def same_books_def)

lemma save_dispute_frame [simp]:
  "disputes (save_dispute x d) = put_row dp_id x (disputes d)" "same_orders d (save_dispute x d)"
  "products (save_dispute x d) = products d" "refunds (save_dispute x d) = refunds d"
  by (simp_all add: save_dispute_def same_orders_def same_books_def)

lemma create_dispute_Inr:
  assumes "runCreateDispute e u j dto c s = (Inr row, s')"
  obtains so where "by_id so_id j (seller_orders (db s)) = Some so" "so_status so \<in> set ELIGIBLE_STATUSES"
    "map_option ord_buyerId (by_id ord_id (so_orderId so) (orders (db s))) = Some u"
    "row = new_dispute e u so dto (next_id (db s))" "disputes (db s') = disputes (db s) @ [row]"
    "same_orders (db s) (db s')" "effects s' = effects s"
    "\<exists>d. insert_dispute row (db s) = Inr d \<and> next_id d \<le> next_id (db s') \<and> disputes (db s') = disputes d"
proof -
  obtain so where so: "by_id so_id j (seller_orders (db s)) = Some so"
    using assms by (auto simp: runCreateDispute_def split: option.splits)
  show thesis
    by (rule that [OF so])
      (use assms so in \<open>auto simp: runCreateDispute_def open_dispute_def insert_dispute_def same_orders_def same_books_def split: if_splits sum.splits\<close>)
qed

lemma create_dispute_step: "dispute_step_ok (db s) (db (snd (create_dispute e u j dto c s)))"
proof (cases "runCreateDispute e u j dto c s")
  case (Pair r s1)
  show ?thesis
  proof (cases r)
    case (Inl err)
    with Pair show ?thesis by (simp add: create_dispute_def transaction_def)
  next
    case (Inr row)
    with Pair have run: "runCreateDispute e u j dto c s = (Inr row, s1)" by simp
    then show ?thesis
    proof (cases rule: create_dispute_Inr)
      case (1 so)
      obtain d where d: "insert_dispute row (db s) = Inr d" "next_id d \<le> next_id (db s1)" "disputes (db s1) = disputes d"
        using 1(8) by blast
      have "dispute_step_ok (db s) (db s1)"
      proof (rule dispute_write [OF 1(6)])
        assume ok: "disputes_ok (db s)"
        have "dp_id row = next_id (db s)" by (simp add: 1(4) new_dispute_def)
        from insert_dispute_kept [OF ok d(1) this] disputes_ok_mono [OF _ d(3,2)] d(3)
        show "disputes_ok (db s1) \<and> dispute_path (db s) (db s1)" by (auto simp: dispute_path_def)
      qed
      with run show ?thesis by (simp add: create_dispute_def transaction_def)
    qed
  qed
qed

lemma respond_Inr:
  assumes "runSellerRespond sp i t c s = (Inr row', s')" "distinct (map dp_id (disputes (db s)))"
  obtains row where "by_id dp_id i (disputes (db s)) = Some row" "dp_sellerProfileId row = sp"
    "isActiveDispute (dp_status row)" "row' = row\<lparr>dp_sellerResponse := Some (js_trim t)\<rparr>"
    "disputes (db s') = put_row dp_id row' (disputes (db s))" "same_orders (db s) (db s')" "effects s' = effects s"
proof -
  obtain row where row: "find (\<lambda>r. dp_id r = i \<and> dp_sellerProfileId r = sp) (disputes (db s)) = Some row"
    using assms by (auto simp: runSellerRespond_def split: option.splits)
  show thesis
    by (rule that [of row])
      (use assms row find_by_id [OF assms(2) row] in
        \<open>auto simp: runSellerRespond_def isActiveDispute_def split: if_splits intro!: same_orders_trans [OF _ record_changed_frame(2)]\<close>)
qed

lemma updateDispute_Inr:
  assumes "runUpdateDispute e a i st c s = (Inr x, s')"
  obtains row where "by_id dp_id i (disputes (db s)) = Some row" "st = UNDER_REVIEW \<or> st = CLOSED"
    "st = dp_status row \<or> st \<in> set (ALLOWED (dp_status row))"
    "disputes (db s') = put_row dp_id (status_changed e a st row) (disputes (db s))"
    "same_orders (db s) (db s')" "effects s' = effects s"
proof -
  obtain row where row: "by_id dp_id i (disputes (db s)) = Some row"
    using assms by (auto simp: runUpdateDispute_def split: option.splits)
  show thesis
    by (rule that [OF row])
      (use assms row in \<open>auto simp: runUpdateDispute_def assertDisputeTransition_def split: if_splits
         intro!: same_orders_trans [OF _ record_changed_frame(2)]\<close>)
qed

lemma status_changed_kept [simp]:
  "dispute_kept row (status_changed e a st row)" "dp_status (status_changed e a st row) = st"
  "dp_id (status_changed e a st row) = dp_id row"
  by (simp_all add: status_changed_def dispute_kept_def)

lemma respond_step: "dispute_step_ok (db s) (db (snd (sellerRespond sp i t c s)))"
proof (cases "disputes_ok (db s)")
  case True
  then have dist: "distinct (map dp_id (disputes (db s)))" by (simp add: disputes_ok_def)
  show ?thesis
  proof (cases "runSellerRespond sp i t c s")
    case (Pair r s1)
    show ?thesis
    proof (cases r)
      case (Inl err)
      with Pair show ?thesis by (simp add: sellerRespond_def transaction_def)
    next
      case (Inr row')
      from Pair [unfolded Inr] dist have "dispute_step_ok (db s) (db s1)"
        by (rule respond_Inr) (rule dispute_put_step [of _ _ i], auto simp: dispute_kept_def)
      with Pair Inr show ?thesis by (simp add: sellerRespond_def transaction_def)
    qed
  qed
qed (simp add: dispute_step_ok_def)

lemma update_step: "dispute_step_ok (db s) (db (snd (updateDisputeStatus e a i st c s)))"
proof (cases "runUpdateDispute e a i st c s")
  case (Pair r s1)
  show ?thesis
  proof (cases r)
    case (Inl err)
    with Pair show ?thesis by (simp add: updateDisputeStatus_def transaction_def)
  next
    case (Inr x)
    from Pair [unfolded Inr] have "dispute_step_ok (db s) (db s1)"
      by (rule updateDispute_Inr) (rule dispute_put_step [of _ _ i], auto)
    with Pair Inr show ?thesis by (simp add: updateDisputeStatus_def transaction_def)
  qed
qed


section \<open>Resolution\<close>

definition resolution_target :: "ResolveDisputeDto \<Rightarrow> DisputeStatus" where
  "resolution_target dto = (if rdd_outcome dto = CUSTOMER then RESOLVED_CUSTOMER else RESOLVED_SELLER)"

lemma finish_resolve_run:
  assumes "finish_resolve e a dto target row c out s = (r, s')"
  shows "r = Inr (resolved_row e a dto target row, out)"
    "disputes (db s') = put_row dp_id (resolved_row e a dto target row) (disputes (db s))"
    "same_orders (db s) (db s')" "effects s' = effects s" "products (db s') = products (db s)"
  using assms by (auto simp: finish_resolve_def same_orders_def same_books_def save_dispute_def)

lemma active_status: "isActiveDispute st \<longleftrightarrow> st \<notin> {RESOLVED_CUSTOMER, RESOLVED_SELLER, CLOSED}"
  by (cases st) (simp_all add: isActiveDispute_def)

lemma target_allowed: "isActiveDispute st \<Longrightarrow> assertDisputeTransition st (resolution_target dto) = Inr ()"
  by (cases st) (simp_all add: isActiveDispute_def assertDisputeTransition_def resolution_target_def)

text \<open>The refund that the resolution carries, or none; \<open>t\<close> is the state after it.\<close>

lemma runResolve_Inr:
  assumes run: "runResolve e a i dto key c s = (Inr res, s')"
  obtains (settled) row where "by_id dp_id i (disputes (db s)) = Some row" "\<not> isActiveDispute (dp_status row)"
      "res = (row, None)" "s' = s"
    | (plain) row where "by_id dp_id i (disputes (db s)) = Some row" "isActiveDispute (dp_status row)"
      "rdd_refund dto = None"
      "finish_resolve e a dto (resolution_target dto) row c None s = (Inr res, s')"
    | (refunding) row rd out t where "by_id dp_id i (disputes (db s)) = Some row" "isActiveDispute (dp_status row)"
      "rdd_refund dto = Some rd" "rdd_outcome dto = CUSTOMER"
      "createRefundInTransaction e (dp_sellerOrderId row) rd (case key of Some k \<Rightarrow> k | None \<Rightarrow> []) a c (Some i) s
         = (Inr out, t)"
      "finish_resolve e a dto (resolution_target dto) row c (Some out) t = (Inr res, s')"
proof -
  obtain row where row: "by_id dp_id i (disputes (db s)) = Some row"
    using run by (auto simp: runResolve_def split: option.splits)
  show thesis
  proof (cases "isActiveDispute (dp_status row)")
    case False
    with row run show ?thesis by (intro settled [of row]) (auto simp: runResolve_def active_status)
  next
    case act: True
    let ?k = "case key of Some k \<Rightarrow> k | None \<Rightarrow> []"
    have go: "runResolve e a i dto key c s = (case rdd_refund dto of
        None \<Rightarrow> finish_resolve e a dto (resolution_target dto) row c None s
      | Some refund \<Rightarrow>
          if rdd_outcome dto \<noteq> CUSTOMER
          then (Inl (BadRequestException ''A refund is only valid for a customer-favor resolution''), s)
          else (case createRefundInTransaction e (dp_sellerOrderId row) refund ?k a c (Some i) s of
                  (Inl err, s1) \<Rightarrow> (Inl err, s1)
                | (Inr out, s1) \<Rightarrow> finish_resolve e a dto (resolution_target dto) row c (Some out) s1))"
    proof -
      have "dp_status row \<notin> {RESOLVED_CUSTOMER, RESOLVED_SELLER, CLOSED}" using act by (simp add: active_status)
      moreover have "dp_id row = i" using by_id_SomeD [OF row] by simp
      ultimately show ?thesis
        unfolding runResolve_def row resolution_target_def [of dto, symmetric] by (simp add: target_allowed [OF act] Let_def split: option.split)
    qed
    show ?thesis
    proof (cases "rdd_refund dto")
      case None
      with go run show ?thesis by (intro plain [OF row act]) simp_all
    next
      case (Some rd)
      with go run have cust: "rdd_outcome dto = CUSTOMER" by (auto split: if_splits)
      obtain x t where x: "createRefundInTransaction e (dp_sellerOrderId row) rd ?k a c (Some i) s = (x, t)" by fastforce
      with go run Some cust obtain out where "x = Inr out" by (cases x) auto
      with x go run Some cust show ?thesis by (intro refunding [OF row act Some cust]) simp_all
    qed
  qed
qed

lemma resolved_row_kept [simp]:
  "dispute_kept row (resolved_row e a dto t row)" "dp_status (resolved_row e a dto t row) = t"
  "dp_id (resolved_row e a dto t row) = dp_id row"
  "dp_sellerOrderId (resolved_row e a dto t row) = dp_sellerOrderId row"
  by (simp_all add: resolved_row_def dispute_kept_def)

lemma target_moves: "isActiveDispute st \<Longrightarrow> resolution_target dto \<in> set (ALLOWED st)"
  by (cases st) (simp_all add: isActiveDispute_def resolution_target_def)

lemma finish_resolve_step:
  assumes "finish_resolve e a dto (resolution_target dto) row c out s = (r, s')"
    "by_id dp_id i (disputes (db s)) = Some row" "isActiveDispute (dp_status row)"
  shows "dispute_step_ok (db s) (db s')"
  by (rule dispute_put_step [OF finish_resolve_run(3) [OF assms(1)] assms(2) _ _ finish_resolve_run(2) [OF assms(1)]])
     (simp_all add: target_moves [OF assms(3)])

lemma runResolve_step:
  assumes "runResolve e a i dto key c s = (Inr res, s')"
  shows "dispute_step_ok (db s) (db s')"
  using assms
proof (cases rule: runResolve_Inr)
  case (refunding row rd out t)
  have same: "disputes (db t) = disputes (db s)" "next_id (db s) \<le> next_id (db t)"
    using refunding(5) by (auto elim!: createRefund_Inr)
  have "dispute_step_ok (db s) (db t)"
    using createRefund_ok [OF refunding(5)] disputes_ok_mono [OF _ same]
    by (simp add: dispute_step_ok_def same)
  moreover have "dispute_step_ok (db t) (db s')"
    by (rule finish_resolve_step [where i = i, OF refunding(6) _ refunding(2)]) (simp add: same refunding(1))
  ultimately show ?thesis by (rule dispute_step_trans)
next
  case (plain row)
  show ?thesis by (rule finish_resolve_step [OF plain(4,1,2)])
qed simp

lemma after_resolve_run:
  assumes "runResolve e a i dto key c s = (Inr res, s')"
  shows "fst (after_resolve (snd res) t) = Inr () \<and> db (snd (after_resolve (snd res) t)) = db t"
  using assms
proof (cases rule: runResolve_Inr)
  case (refunding row rd out u)
  obtain g where "rf_amount (ro_refund out) = formatCentsToMoney g"
    using createRefund_money [OF refunding(5)] by blast
  from afterCommitted_run [OF this] show ?thesis
    using finish_resolve_run(1) [OF refunding(6)] by (simp add: after_resolve_def)
next
  case (plain row)
  then show ?thesis using finish_resolve_run(1) [OF plain(4)] by (simp add: after_resolve_def)
qed (simp add: after_resolve_def)

text \<open>A resolution request either ran its transaction to the end or left the tables alone.\<close>

lemma resolve_cases:
  assumes "resolve_dispute e a i dto key c s = (r, s')"
  obtains (ran) res t where "runResolve e a i dto key c s = (Inr res, t)" "db s' = db t"
      "r = findAdminById i (db t)" "rdd_refund dto \<noteq> None \<Longrightarrow> key \<noteq> None \<and> key \<noteq> Some []"
    | (refused) err where "r = Inl err" "db s' = db s"
        "rdd_refund dto \<noteq> None \<and> (key = None \<or> key = Some []) \<or> fst (runResolve e a i dto key c s) = Inl err"
proof (cases "rdd_refund dto \<noteq> None \<and> (key = None \<or> key = Some [])")
  case True
  with assms show thesis by (intro refused) (auto simp: resolve_dispute_def)
next
  case False
  obtain x t where run: "runResolve e a i dto key c s = (x, t)" by fastforce
  show thesis
  proof (cases x)
    case (Inl err)
    have "resolve_dispute e a i dto key c s = (Inl err, t\<lparr>db := db s\<rparr>)"
      unfolding resolve_dispute_def if_not_P [OF False] using run Inl by (simp add: transaction_def)
    with assms run Inl show ?thesis by (intro refused [of err]) auto
  next
    case (Inr res)
    obtain t2 where t2: "after_resolve (snd res) t = (Inr (), t2)" "db t2 = db t"
      using after_resolve_run [OF run [unfolded Inr], of t] by (cases "after_resolve (snd res) t") auto
    have "resolve_dispute e a i dto key c s = (findAdminById i (db t2), increment ''disputes_resolved_total'' t2)"
      unfolding resolve_dispute_def if_not_P [OF False] using run Inr t2 by (simp add: transaction_def)
    with assms False run Inr t2 show ?thesis by (intro ran [of res t]) auto
  qed
qed

lemma resolve_step: "dispute_step_ok (db s) (db (snd (resolve_dispute e a i dto key c s)))"
proof -
  obtain r s' where run: "resolve_dispute e a i dto key c s = (r, s')" by fastforce
  then show ?thesis
    by (cases rule: resolve_cases) (simp_all add: run runResolve_step)
qed

section \<open>Interleavings\<close>

lemma order_op_step: "dispute_step_ok (db s) (db (run_order_op e op' s))"
  using run_order_op_ok [of s e op'] order_op_disputes [of e op' s]
    disputes_ok_mono [of "db s" "db (run_order_op e op' s)"]
  by (simp add: dispute_step_ok_def orders_step_ok_def)

lemma run_dispute_op_ok: "dispute_step_ok (db s) (db (run_dispute_op e op' s))"
  by (cases op') (simp_all add: create_dispute_step respond_step update_step resolve_step order_op_step)

lemma dispute_steps_ok: "dispute_step\<^sup>*\<^sup>* s s' \<Longrightarrow> dispute_step_ok (db s) (db s')"
  by (induction rule: rtranclp_induct) (auto elim!: dispute_stepE intro: dispute_step_trans run_dispute_op_ok)

definition active_disputes :: "uuid \<Rightarrow> database \<Rightarrow> Dispute list" where
  "active_disputes j d = filter (\<lambda>x. dp_sellerOrderId x = j \<and> isActiveDispute (dp_status x)) (disputes d)"

lemma one_active: "disputes_ok d \<Longrightarrow> length (active_disputes j d) \<le> 1"
proof -
  assume ok: "disputes_ok d"
  have all: "\<And>x y. x \<in> set (active_disputes j d) \<Longrightarrow> y \<in> set (active_disputes j d) \<Longrightarrow> x = y"
    using ok by (auto simp: active_disputes_def disputes_ok_def)
  have dist: "distinct (active_disputes j d)"
    using ok by (auto simp: active_disputes_def disputes_ok_def distinct_map)
  show ?thesis
  proof (cases "active_disputes j d")
    case (Cons x xs)
    have "xs = []"
    proof (cases xs)
      case (Cons y ys)
      then have "x = y" using all [of x y] \<open>active_disputes j d = x # xs\<close> by simp
      then show ?thesis using dist \<open>active_disputes j d = x # xs\<close> Cons by simp
    qed simp
    then show ?thesis using Cons by simp
  qed simp
qed

text \<open>
  C15: However customers, sellers and admins interleave their requests on disputes with those on
  orders and refunds, a seller order has at most one open dispute, a dispute stays about what it was
  opened about, its status only moves forward along the policy and is final once closed, and the
  books and refunds stay consistent although a resolution can carry a refund.
\<close>
theorem disputes_stay_safe:
  assumes steps: "dispute_step\<^sup>*\<^sup>* s s'" and ok: "disputes_ok (db s)" "books_ok (db s)" "refunds_ok (db s)"
    and row: "by_id dp_id i (disputes (db s)) = Some x"
  shows "disputes_ok (db s') \<and> books_ok (db s') \<and> refunds_ok (db s') \<and>
         length (active_disputes j (db s')) \<le> 1 \<and>
         (\<exists>x'. by_id dp_id i (disputes (db s')) = Some x' \<and> dispute_kept x x' \<and>
               dispute_rank (dp_status x) \<le> dispute_rank (dp_status x') \<and>
               (dp_status x = CLOSED \<longrightarrow> dp_status x' = CLOSED))"
proof -
  have st: "disputes_ok (db s')" "books_ok (db s')" "refunds_ok (db s')" "dispute_path (db s) (db s')"
    using dispute_steps_ok [OF steps] ok by (simp_all add: dispute_step_ok_def)
  obtain x' where x': "by_id dp_id i (disputes (db s')) = Some x'" "dispute_kept x x'"
    and path: "(\<lambda>s t. t \<in> set (ALLOWED s))\<^sup>*\<^sup>* (dp_status x) (dp_status x')"
    using st(4) row by (auto simp: dispute_path_def)
  have "dispute_rank (dp_status x) \<le> dispute_rank (dp_status x')"
    using rtranclpD [OF path] dispute_machine.path_forward by (auto dest: less_imp_le)
  moreover have "dp_status x = CLOSED \<longrightarrow> dp_status x' = CLOSED"
    using dispute_machine.final_stays [OF path] by auto
  ultimately show ?thesis using st x' one_active by blast
qed


section \<open>One decision, and errors without a trace\<close>

lemma find_exists: "x \<in> set t \<Longrightarrow> P x \<Longrightarrow> \<exists>y. find P t = Some y"
  by (cases "find P t") (auto simp: find_None_iff)

lemma findOne_found: "x \<in> set (disputes d) \<Longrightarrow> P x \<Longrightarrow> \<not> is_error (findOne_dispute P c d)"
  using find_exists [of x "disputes d" P] by (auto simp: findOne_dispute_def)

lemma in_put_row: "by_id k i t = Some x \<Longrightarrow> k x' = k x \<Longrightarrow> x' \<in> set (put_row k x' t)"
  by (auto simp: put_row_def dest: by_id_SomeD)

lemma findAdmin_put:
  assumes "by_id dp_id i t = Some x" "dp_id x' = i" "disputes d = put_row dp_id x' t"
  shows "findAdminById i d = Inr (dispute_toView x' True True d)" "by_id dp_id i (disputes d) = Some x'"
  using by_id_put_row_same [of dp_id i t x x'] assms
  by (simp_all add: findAdminById_def findOne_dispute_def by_id_def)

lemma settled_again:
  assumes "by_id dp_id i (disputes (db s)) = Some x" "\<not> isActiveDispute (dp_status x)"
    "\<not> (rdd_refund dto \<noteq> None \<and> (key = None \<or> key = Some []))"
  shows "resolve_dispute e a i dto key c s = (findAdminById i (db s), increment ''disputes_resolved_total'' s)"
proof -
  have "runResolve e a i dto key c s = (Inr (x, None), s)"
    using assms(1,2) by (simp add: runResolve_def active_status)
  then show ?thesis
    unfolding resolve_dispute_def if_not_P [OF assms(3)] by (simp add: transaction_def after_resolve_def)
qed

text \<open>
  A resolution that succeeds on an open dispute gives it the status of its outcome and the
  admin's words; it carries exactly the refund it was asked for, linked to the dispute, and only for
  the customer. Resolving it again, whatever the second request says, writes nothing and shows the
  first decision, but is counted as one more resolved dispute.
\<close>
theorem resolve_decides_once:
  assumes row: "by_id dp_id i (disputes (db s)) = Some row" "isActiveDispute (dp_status row)"
    and run: "resolve_dispute e a i dto key c s = (Inr v, s')"
    and again: "\<not> (rdd_refund dto' \<noteq> None \<and> (key' = None \<or> key' = Some []))"
  shows "dv_status v = resolution_target dto \<and> dv_adminResolution v = Some (js_trim (rdd_adminResolution dto)) \<and>
         (case rdd_refund dto of
            None \<Rightarrow> refunds (db s') = refunds (db s)
          | Some rd \<Rightarrow> rdd_outcome dto = CUSTOMER \<and>
              (\<exists>x. refunds (db s') = refunds (db s) @ [x] \<and> rf_disputeId x = Some i \<and>
                   rf_sellerOrderId x = dp_sellerOrderId row \<and>
                   rf_sellerOrderItemId x = rd_sellerOrderItemId rd \<and> rf_quantity x = rd_quantity rd)) \<and>
         resolve_dispute e' a' i dto' key' c' s' = (Inr v, increment ''disputes_resolved_total'' s')"
  using run
proof (cases rule: resolve_cases)
  case (ran res t)
  let ?row = "resolved_row e a dto (resolution_target dto) row"
  have id: "dp_id ?row = i" using by_id_SomeD [OF row(1)] by simp
  have main: "disputes (db t) = put_row dp_id ?row (disputes (db s)) \<and>
      (case rdd_refund dto of
            None \<Rightarrow> refunds (db t) = refunds (db s)
          | Some rd \<Rightarrow> rdd_outcome dto = CUSTOMER \<and>
              (\<exists>x. refunds (db t) = refunds (db s) @ [x] \<and> rf_disputeId x = Some i \<and>
                   rf_sellerOrderId x = dp_sellerOrderId row \<and>
                   rf_sellerOrderItemId x = rd_sellerOrderItemId rd \<and> rf_quantity x = rd_quantity rd))"
    using ran(1)
  proof (cases rule: runResolve_Inr)
    case (settled row')
    then show ?thesis using row by simp
  next
    case (plain row')
    have "row' = row" using plain(1) row(1) by simp
    then show ?thesis
      using finish_resolve_run(2,3) [OF plain(4)] plain(3) by (simp add: same_orders_def)
  next
    case (refunding row' rd out u)
    have eq: "row' = row" using refunding(1) row(1) by simp
    note f = finish_resolve_run(2,3) [OF refunding(6)]
    have "disputes (db u) = disputes (db s) \<and> refunds (db u) = refunds (db s) @ [ro_refund out] \<and>
        rf_disputeId (ro_refund out) = Some i \<and> rf_sellerOrderId (ro_refund out) = dp_sellerOrderId row \<and>
        rf_sellerOrderItemId (ro_refund out) = rd_sellerOrderItemId rd \<and> rf_quantity (ro_refund out) = rd_quantity rd"
      using refunding(5) eq by (auto elim!: createRefund_Inr simp: new_refund_def)
    with f eq refunding(3,4) show ?thesis by (simp add: same_orders_def)
  qed
  note found = findAdmin_put [OF row(1) id conjunct1 [OF main]]
  have v: "v = dispute_toView ?row True True (db t)" using ran(3) found(1) by simp
  have "\<not> isActiveDispute (dp_status ?row)" by (simp add: resolution_target_def isActiveDispute_def)
  then have "resolve_dispute e' a' i dto' key' c' s' = (Inr v, increment ''disputes_resolved_total'' s')"
    using settled_again [OF _ _ again, of i s' ?row e' a' c'] found v ran(2) by simp
  moreover have "dv_status v = resolution_target dto" "dv_adminResolution v = Some (js_trim (rdd_adminResolution dto))"
    by (simp_all add: v dispute_toView_def resolved_row_def)
  ultimately show ?thesis unfolding ran(2) using main by blast
qed simp

lemma resolved_present:
  assumes "runResolve e a i dto key c s = (Inr res, t)"
  shows "\<exists>x. x \<in> set (disputes (db t)) \<and> dp_id x = i"
  using assms
proof (cases rule: runResolve_Inr)
  case (settled row)
  then show ?thesis by (auto dest: by_id_SomeD)
next
  case (plain row)
  have "dp_id row = i" using by_id_SomeD [OF plain(1)] by simp
  then show ?thesis
    using finish_resolve_run(2) [OF plain(4)] in_put_row [OF plain(1)] resolved_row_kept(3) by metis
next
  case (refunding row rd out u)
  have "dp_id row = i" using by_id_SomeD [OF refunding(1)] by simp
  moreover have "disputes (db u) = disputes (db s)" using refunding(5) by (auto elim!: createRefund_Inr)
  ultimately show ?thesis
    using finish_resolve_run(2) [OF refunding(6)] in_put_row [OF refunding(1)] resolved_row_kept(3) by metis
qed

text \<open>
  A request on a dispute that is answered with an error has changed no row: neither the refund
  that a resolution began, nor a dispute, nor an outbox event survives it.
\<close>
theorem dispute_errors_roll_back:
  "(is_error (fst (create_dispute e u j cdto c s)) \<longrightarrow> db (snd (create_dispute e u j cdto c s)) = db s) \<and>
   (is_error (fst (sellerRespond sp i t c s)) \<longrightarrow> db (snd (sellerRespond sp i t c s)) = db s) \<and>
   (is_error (fst (updateDisputeStatus e a i st c s)) \<longrightarrow> db (snd (updateDisputeStatus e a i st c s)) = db s) \<and>
   (is_error (fst (resolve_dispute e a i dto key c s)) \<longrightarrow> db (snd (resolve_dispute e a i dto key c s)) = db s)"
proof (intro conjI impI)
  assume bad: "is_error (fst (create_dispute e u j cdto c s))"
  obtain r s1 where run: "runCreateDispute e u j cdto c s = (r, s1)" by fastforce
  show "db (snd (create_dispute e u j cdto c s)) = db s"
  proof (cases r)
    case (Inr row)
    have "row \<in> set (disputes (db s1)) \<and> dp_customerId row = u"
      using run [unfolded Inr] by (auto elim!: create_dispute_Inr simp: new_dispute_def)
    then have "\<not> is_error (findCustomerById u (dp_id row) (db s1))"
      unfolding findCustomerById_def by (intro findOne_found [of row]) auto
    then show ?thesis using bad run Inr by (simp add: create_dispute_def transaction_def)
  qed (simp add: create_dispute_def transaction_def run)
next
  assume bad: "is_error (fst (sellerRespond sp i t c s))"
  obtain r s1 where run: "runSellerRespond sp i t c s = (r, s1)" by fastforce
  show "db (snd (sellerRespond sp i t c s)) = db s"
  proof (cases r)
    case (Inr row')
    obtain row where row: "find (\<lambda>r. dp_id r = i \<and> dp_sellerProfileId r = sp) (disputes (db s)) = Some row"
      using run Inr by (auto simp: runSellerRespond_def split: option.splits)
    have "row' = row\<lparr>dp_sellerResponse := Some (js_trim t)\<rparr> \<and> disputes (db s1) = put_row dp_id row' (disputes (db s))"
      using run Inr row by (auto simp: runSellerRespond_def split: if_splits)
    then have "row' \<in> set (disputes (db s1)) \<and> dp_sellerProfileId row' = sp"
      using find_SomeD [OF row] by (auto simp: put_row_def)
    then have "\<not> is_error (findSellerById sp (dp_id row') (db s1))"
      unfolding findSellerById_def by (intro findOne_found [of row']) auto
    then show ?thesis using bad run Inr by (simp add: sellerRespond_def transaction_def)
  qed (simp add: sellerRespond_def transaction_def run)
next
  assume bad: "is_error (fst (updateDisputeStatus e a i st c s))"
  obtain r s1 where run: "runUpdateDispute e a i st c s = (r, s1)" by fastforce
  show "db (snd (updateDisputeStatus e a i st c s)) = db s"
  proof (cases r)
    case (Inr x)
    from run [unfolded Inr] have "\<not> is_error (findAdminById i (db s1))"
    proof (cases rule: updateDispute_Inr)
      case (1 row)
      have "dp_id (status_changed e a st row) = i" using by_id_SomeD [OF 1(1)] by simp
      then show ?thesis using findAdmin_put(1) [OF 1(1) _ 1(4)] by simp
    qed
    then show ?thesis using bad run Inr by (simp add: updateDisputeStatus_def transaction_def)
  qed (simp add: updateDisputeStatus_def transaction_def run)
next
  assume bad: "is_error (fst (resolve_dispute e a i dto key c s))"
  obtain r s' where run: "resolve_dispute e a i dto key c s = (r, s')" by fastforce
  then show "db (snd (resolve_dispute e a i dto key c s)) = db s"
  proof (cases rule: resolve_cases)
    case (ran res t)
    obtain x where "x \<in> set (disputes (db t)) \<and> dp_id x = i"
      using resolved_present [OF ran(1)] by blast
    then have "\<not> is_error (findAdminById i (db t))"
      unfolding findAdminById_def by (intro findOne_found [of x]) auto
    then show ?thesis using bad run ran(3) by simp
  qed (simp add: run)
qed

section \<open>What the views show\<close>

text \<open>
  The detail view of a dispute shows for each item of the seller order how many units were
  refunded; every list of disputes shows zero there, because its query does not load the refunds.
\<close>
theorem dispute_lists_hide_refunds:
  assumes ok: "refunds_ok d" and detail: "findOne_dispute P b d = Inr v" "dv_sellerOrder v = Some order"
  shows "map iv_refundedQuantity (dov_items order)
           = map (\<lambda>item. alreadyRefundedQty (soi_id item) d) (items_of (dov_id order) d) \<and>
         list_all (\<lambda>w. list_all (\<lambda>x. iv_refundedQuantity x = 0)
             (case dv_sellerOrder w of None \<Rightarrow> [] | Some x \<Rightarrow> dov_items x))
           (pg_items (list_disputes Q query b' d))"
proof
  obtain row :: Dispute and so where so: "by_id so_id (dp_sellerOrderId row) (seller_orders d) = Some so"
    and order: "order = \<lparr>dov_id = so_id so, dov_status = so_status so, dov_createdAt = so_createdAt so,
        dov_items = map (dispute_item_view (refunds_of (so_id so) d)) (items_of (so_id so) d)\<rparr>"
  proof -
    obtain row where "v = dispute_toView row b True d"
      using detail(1) by (auto simp: findOne_dispute_def split: option.splits)
    then show thesis
      using that [of row] detail(2)
      by (cases "by_id so_id (dp_sellerOrderId row) (seller_orders d)") (simp_all add: dispute_toView_def)
  qed
  have "iv_refundedQuantity (dispute_item_view (refunds_of (so_id so) d) item) = alreadyRefundedQty (soi_id item) d"
    if item: "item \<in> set (items_of (so_id so) d)" for item
  proof -
    have mine: "item \<in> set (seller_order_items d)" "soi_sellerOrderId item = so_id so"
      using item by (auto simp: items_of_def)
    have "rf_sellerOrderId r = so_id so \<and> rf_status r = RefundStatus.COMPLETED"
      if r: "r \<in> set (refunds d)" "rf_sellerOrderItemId r = soi_id item" for r
    proof -
      have "refund_of_item d r" using ok r by (simp add: refunds_ok_def)
      then obtain x where x: "x \<in> set (seller_order_items d)" "soi_id x = soi_id item" "soi_sellerOrderId x = rf_sellerOrderId r"
        and st: "rf_status r = RefundStatus.COMPLETED"
        using r(2) by (auto simp: refund_of_item_def)
      have "x = item" using same_row [OF _ x(1) mine(1) x(2)] ok by (simp add: refunds_ok_def refund_ids_ok_def)
      then show ?thesis using x(3) mine(2) st by simp
    qed
    then have "filter (\<lambda>r. rf_sellerOrderItemId r = soi_id item) (refunds_of (so_id so) d) = priorRefunds (soi_id item) d"
      unfolding refunds_of_def priorRefunds_def filter_filter by (intro filter_cong) auto
    then show ?thesis by (simp add: dispute_item_view_def alreadyRefundedQty_def)
  qed
  then show "map iv_refundedQuantity (dov_items order)
      = map (\<lambda>item. alreadyRefundedQty (soi_id item) d) (items_of (dov_id order) d)"
    by (simp add: order)
  have "list_all (\<lambda>x. iv_refundedQuantity x = 0)
      (case dv_sellerOrder (dispute_toView r b' False d) of None \<Rightarrow> [] | Some x \<Rightarrow> dov_items x)" for r
    by (auto simp: dispute_toView_def dispute_item_view_def list_all_iff split: option.split)
  then show "list_all (\<lambda>w. list_all (\<lambda>x. iv_refundedQuantity x = 0)
      (case dv_sellerOrder w of None \<Rightarrow> [] | Some x \<Rightarrow> dov_items x)) (pg_items (list_disputes Q query b' d))"
    by (auto simp: list_disputes_def paginated_def Let_def list_all_iff)
qed

section \<open>Concrete disputes\<close>

definition delivered_sys :: sys where
  "delivered_sys = start_sys (order_db\<lparr>seller_orders := map (\<lambda>so. so\<lparr>so_status := SellerOrderStatus.DELIVERED\<rparr>)
     (seller_orders order_db)\<rparr>)"

definition opened :: "DisputeView result \<times> sys" where
  "opened = create_dispute (sample_env 9) 8 31 \<lparr>cdd_reason = ''broken'', cdd_description = ''one mug''\<rparr> 3 delivered_sys"

definition resolve_dto :: ResolveDisputeDto where
  "resolve_dto = \<lparr>rdd_outcome = CUSTOMER, rdd_adminResolution = ''refund one'', rdd_refund = Some (refund_dto 1)\<rparr>"

definition opened_id :: uuid where
  "opened_id = dp_id (last (disputes (db (snd opened))))"

definition opened_row :: Dispute where
  "opened_row = last (disputes (db (snd opened)))"

definition decided :: "DisputeView result \<times> sys" where
  "decided = resolve_dispute (sample_env 10) 99 opened_id resolve_dto (Some ''k1'') 4 (snd opened)"

definition decided_view :: DisputeView where
  "decided_view = (case fst decided of Inr v \<Rightarrow> v | Inl e \<Rightarrow> undefined)"

definition greedy :: "DisputeView result \<times> sys" where
  "greedy = resolve_dispute (sample_env 10) 99 opened_id (resolve_dto\<lparr>rdd_refund := Some (refund_dto 5)\<rparr>)
     (Some ''k1'') 4 (snd opened)"

lemma opened_ok: "disputes_ok (db (snd opened))" "books_ok (db (snd opened))" "refunds_ok (db (snd opened))"
  "by_id dp_id opened_id (disputes (db (snd opened))) = Some opened_row" "isActiveDispute (dp_status opened_row)"
  by code_simp+

lemma decided_run: "decided = (Inr decided_view, snd decided)"
proof -
  have "\<not> is_error (fst decided)" by code_simp
  then show ?thesis by (auto simp: not_is_error_iff decided_view_def prod_eq_iff)
qed

lemma decided_again: "\<not> (rdd_refund resolve_dto \<noteq> None \<and> (Some ''k2'' = None \<or> Some ''k2'' = Some []))"
  by simp

theorem disputes_stay_safe_witness:
  "refunds_ok (db (snd decided)) \<and> length (active_disputes 31 (db (snd decided))) \<le> 1"
proof -
  have "dispute_step\<^sup>*\<^sup>* (snd opened) (snd decided)"
    using dispute_step.run [of "snd opened" "sample_env 10" "ResolveDispute 99 opened_id resolve_dto (Some ''k1'') 4"]
    by (simp add: decided_def r_into_rtranclp)
  from disputes_stay_safe [OF this opened_ok(1-4)] show ?thesis by blast
qed

theorem resolve_decides_once_witness:
  "dv_status decided_view = RESOLVED_CUSTOMER \<and>
   fst (resolve_dispute (sample_env 11) 98 opened_id (resolve_dto\<lparr>rdd_outcome := SELLER\<rparr>) (Some ''k2'') 5 (snd decided))
     = Inr decided_view"
proof -
  have "resolution_target resolve_dto = RESOLVED_CUSTOMER" by code_simp
  then show ?thesis
    using resolve_decides_once [OF opened_ok(4,5) decided_run [unfolded decided_def],
        of "resolve_dto\<lparr>rdd_outcome := SELLER\<rparr>" "Some ''k2''" "sample_env 11" 98 5]
    by (simp add: decided_def)
qed

theorem dispute_errors_roll_back_witness: "is_error (fst greedy) \<and> db (snd greedy) = db (snd opened)"
proof -
  have "is_error (fst greedy)" by code_simp
  then show ?thesis
    using dispute_errors_roll_back [where e = "sample_env 10" and a = 99 and i = opened_id and
        dto = "resolve_dto\<lparr>rdd_refund := Some (refund_dto 5)\<rparr>" and key = "Some ''k1''" and c = 4 and s = "snd opened"]
    by (simp add: greedy_def)
qed

theorem dispute_lists_hide_refunds_witness:
  "map iv_refundedQuantity (dov_items (the (dv_sellerOrder decided_view))) = [1] \<and>
   list_all (\<lambda>w. list_all (\<lambda>x. iv_refundedQuantity x = 0)
       (case dv_sellerOrder w of None \<Rightarrow> [] | Some x \<Rightarrow> dov_items x))
     (pg_items (listAdmin \<lparr>page = 1, pageSize = 20, dq_status = None\<rparr> (db (snd decided))))"
proof -
  have ok: "refunds_ok (db (snd decided))" by code_simp
  have "findAdminById opened_id (db (snd decided)) = Inr decided_view" by code_simp
  moreover have "dv_sellerOrder decided_view = Some (the (dv_sellerOrder decided_view))" by code_simp
  moreover have "map (\<lambda>item. alreadyRefundedQty (soi_id item) (db (snd decided)))
      (items_of (dov_id (the (dv_sellerOrder decided_view))) (db (snd decided))) = [1]" by code_simp
  ultimately show ?thesis
    using dispute_lists_hide_refunds [OF ok, folded findAdminById_def] unfolding findAdminById_def listAdmin_def by metis
qed

end
