(* ===== verification/Cart.thy ===== *)
theory Cart
  imports Checkout
begin

text \<open>
  The cart (\<open>modules/cart/cart.service.ts\<close>). Its requests are not transactions: they read, decide and
  write one row, so another request can run in between. The argument \<open>meanwhile\<close> of a request is
  what other requests do to the database between its last read and its write; for an add there is
  one such argument for each attempt, because an insert that meets the unique index on
  (cart, product) starts again.
\<close>

section \<open>Reading the cart\<close>

record CartItemView =
  cv_productId :: uuid
  cv_productName :: string
  cv_imageUrl :: "string option"
  cv_unitPrice :: string
  cv_quantity :: int
  cv_lineTotal :: string
  cv_availableStock :: int

record CartSellerGroup =
  cg_sellerProfileId :: uuid
  cg_storeName :: string
  cg_items :: "CartItemView list"
  cg_subtotal :: string

record CartView =
  cw_sellers :: "CartSellerGroup list"
  cw_itemCount :: int
  cw_totalAmount :: string

definition cart_purchasable :: "Product \<Rightarrow> bool" where
  "cart_purchasable p \<longleftrightarrow> pr_isPublished p \<and> pr_type p = ProductType.FIXED_PRICE \<and> pr_price p \<noteq> None"

definition purchasable_items :: "uuid \<Rightarrow> database \<Rightarrow> (CartItem \<times> Product) list" where
  "purchasable_items cartId d =
     List.map_filter (\<lambda>item. case by_id pr_id (ci_productId item) (products d) of
          None \<Rightarrow> None
        | Some p \<Rightarrow> if cart_purchasable p then Some (item, p) else None)
       (filter (\<lambda>item. ci_cartId item = cartId) (cart_items d))"

definition cart_item_view :: "CartItem \<Rightarrow> Product \<Rightarrow> string \<Rightarrow> int \<Rightarrow> CartItemView" where
  "cart_item_view item product price unitPriceCents =
     \<lparr>cv_productId = pr_id product, cv_productName = pr_name product,
      cv_imageUrl = (case pr_imageUrls product of [] \<Rightarrow> None | u # us \<Rightarrow> Some u),
      cv_unitPrice = price, cv_quantity = ci_quantity item,
      cv_lineTotal = formatCentsToMoney (multiplyCentsByQuantity unitPriceCents (ci_quantity item)),
      cv_availableStock = pr_stockQuantity product\<rparr>"

definition cart_line :: "database \<Rightarrow> CartItem \<times> Product \<Rightarrow> (uuid \<times> string \<times> CartItemView) result" where
  "cart_line d x =
     (case by_id sp_id (pr_sellerProfileId (snd x)) (seller_profiles d) of
        None \<Rightarrow> Inl (PlainError ''TypeError'')
      | Some sellerProfile \<Rightarrow>
     (case pr_price (snd x) of
        None \<Rightarrow> Inl (PlainError ''TypeError'')
      | Some price \<Rightarrow>
          rbind (parseMoneyToCents price) (\<lambda>c.
            Inr (pr_sellerProfileId (snd x), sp_storeName sellerProfile,
                 cart_item_view (fst x) (snd x) price c))))"

definition cart_group :: "uuid \<times> (string \<times> CartItemView) list \<Rightarrow> CartSellerGroup result" where
  "cart_group g =
     rbind (rmap (\<lambda>x. parseMoneyToCents (cv_lineTotal (snd x))) (snd g)) (\<lambda>lineTotals.
       Inr \<lparr>cg_sellerProfileId = fst g,
            cg_storeName = (case snd g of [] \<Rightarrow> [] | x # xs \<Rightarrow> fst x),
            cg_items = map snd (snd g), cg_subtotal = formatCentsToMoney (sumCents lineTotals)\<rparr>)"

definition cart_view :: "CartSellerGroup list \<Rightarrow> CartView result" where
  "cart_view sellers =
     rbind (rmap (\<lambda>g. parseMoneyToCents (cg_subtotal g)) sellers) (\<lambda>subtotals.
       Inr \<lparr>cw_sellers = sellers,
            cw_itemCount = foldl (\<lambda>count g. count + foldl (\<lambda>sum i. sum + cv_quantity i) 0 (cg_items g)) 0 sellers,
            cw_totalAmount = formatCentsToMoney (sumCents subtotals)\<rparr>)"

definition cart_groups :: "(uuid \<times> string \<times> CartItemView) list \<Rightarrow> (uuid \<times> (string \<times> CartItemView) list) list" where
  "cart_groups lines = foldl (\<lambda>gs x. add_to_group (fst x) (snd x) gs) [] lines"

definition buildView :: "uuid \<Rightarrow> database \<Rightarrow> CartView result" where
  "buildView cartId d =
     rbind (rmap (cart_line d) (purchasable_items cartId d)) (\<lambda>lines.
     rbind (rmap cart_group (cart_groups lines)) cart_view)"

section \<open>Writing rows\<close>

definition insert_cart :: "uuid \<Rightarrow> database \<Rightarrow> (Cart \<times> database) result" where
  "insert_cart userId d =
     (if \<exists>c \<in> set (carts d). cart_userId c = userId then Inl UniqueViolation
      else Inr (\<lparr>cart_id = next_id d, cart_userId = userId\<rparr>,
                d\<lparr>next_id := next_id d + 1, carts := carts d @ [\<lparr>cart_id = next_id d, cart_userId = userId\<rparr>]\<rparr>))"

definition is_cart_item :: "uuid \<Rightarrow> uuid \<Rightarrow> CartItem \<Rightarrow> bool" where
  "is_cart_item cartId productId i \<longleftrightarrow> ci_cartId i = cartId \<and> ci_productId i = productId"

definition insert_cart_item :: "CartItem \<Rightarrow> database \<Rightarrow> database result" where
  "insert_cart_item row d =
     (if \<exists>i \<in> set (cart_items d). is_cart_item (ci_cartId row) (ci_productId row) i then Inl UniqueViolation
      else Inr (d\<lparr>cart_items := cart_items d @ [row]\<rparr>))"

definition insert_new_item :: "uuid \<Rightarrow> uuid \<Rightarrow> int \<Rightarrow> database \<Rightarrow> database result" where
  "insert_new_item cartId productId quantity d =
     insert_cart_item \<lparr>ci_id = next_id d, ci_cartId = cartId, ci_productId = productId, ci_quantity = quantity\<rparr>
       (d\<lparr>next_id := next_id d + 1\<rparr>)"

text \<open>
  \<open>repository.save\<close> of a loaded row whose quantity was set: an update of that column, or an insert of
  the row if it is no longer there.
\<close>

definition save_quantity :: "CartItem \<Rightarrow> database \<Rightarrow> database result" where
  "save_quantity row d =
     (if \<exists>i \<in> set (cart_items d). ci_id i = ci_id row
      then Inr (d\<lparr>cart_items := map (\<lambda>i. if ci_id i = ci_id row then i\<lparr>ci_quantity := ci_quantity row\<rparr> else i)
                                  (cart_items d)\<rparr>)
      else insert_cart_item row d)"

section \<open>The requests\<close>

definition getOrCreateCart :: "(sys \<Rightarrow> sys) \<Rightarrow> uuid \<Rightarrow> sys \<Rightarrow> Cart result \<times> sys" where
  "getOrCreateCart meanwhile userId s =
     (case find (\<lambda>c. cart_userId c = userId) (carts (db s)) of
        Some cart \<Rightarrow> (Inr cart, s)
      | None \<Rightarrow>
     (case insert_cart userId (db (meanwhile s)) of
        Inr (cart, d) \<Rightarrow> (Inr cart, (meanwhile s)\<lparr>db := d\<rparr>)
      | Inl err \<Rightarrow>
          if isUniqueViolation err
          then (case find (\<lambda>c. cart_userId c = userId) (carts (db (meanwhile s))) of
                  Some cart \<Rightarrow> (Inr cart, meanwhile s)
                | None \<Rightarrow> (Inl err, meanwhile s))
          else (Inl err, meanwhile s)))"

definition getPurchasableProduct :: "uuid \<Rightarrow> database \<Rightarrow> Product result" where
  "getPurchasableProduct productId d =
     (case by_id pr_id productId (products d) of
        None \<Rightarrow> Inl (NotFoundException ''Product not found'')
      | Some product \<Rightarrow>
          if \<not> pr_isPublished product then Inl (NotFoundException ''Product not found'')
          else if pr_type product \<noteq> ProductType.FIXED_PRICE \<or> pr_price product = None
          then Inl (BadRequestException ''Auction products cannot be added to the cart'')
          else Inr product)"

definition assertWithinStock :: "Product \<Rightarrow> int \<Rightarrow> unit result" where
  "assertWithinStock product requestedQuantity =
     (if requestedQuantity > pr_stockQuantity product
      then Inl (ConflictException ''Only a limited number of units is available'') else Inr ())"

definition with_cart :: "uuid \<Rightarrow> (Cart \<Rightarrow> sys \<Rightarrow> 'a result \<times> sys) \<Rightarrow> sys \<Rightarrow> 'a result \<times> sys" where
  "with_cart userId f s =
     (case getOrCreateCart (\<lambda>x. x) userId s of
        (Inl err, s1) \<Rightarrow> (Inl err, s1)
      | (Inr cart, s1) \<Rightarrow> f cart s1)"

definition getCartView :: "uuid \<Rightarrow> sys \<Rightarrow> CartView result \<times> sys" where
  "getCartView userId = with_cart userId (\<lambda>cart s. (buildView (cart_id cart) (db s), s))"

text \<open>The write of an add: \<open>None\<close> stands for the retry after a lost race.\<close>

definition write_add ::
  "uuid \<Rightarrow> uuid \<Rightarrow> CartItem option \<Rightarrow> int \<Rightarrow> sys \<Rightarrow> CartView result option \<times> sys" where
  "write_add cartId productId existing nextQuantity s =
     (case existing of
        Some row \<Rightarrow>
          (case save_quantity (row\<lparr>ci_quantity := nextQuantity\<rparr>) (db s) of
             Inl err \<Rightarrow> (Some (Inl err), s)
           | Inr d \<Rightarrow> (Some (buildView cartId d), s\<lparr>db := d\<rparr>))
      | None \<Rightarrow>
          (case insert_new_item cartId productId nextQuantity (db s) of
             Inl err \<Rightarrow> (if isUniqueViolation err then None else Some (Inl err), s)
           | Inr d \<Rightarrow> (Some (buildView cartId d), s\<lparr>db := d\<rparr>)))"

definition next_quantity :: "CartItem option \<Rightarrow> int \<Rightarrow> int" where
  "next_quantity existing quantity = (case existing of None \<Rightarrow> 0 | Some i \<Rightarrow> ci_quantity i) + quantity"

definition add_attempt ::
  "(sys \<Rightarrow> sys) \<Rightarrow> uuid \<Rightarrow> int \<Rightarrow> Cart \<Rightarrow> sys \<Rightarrow> CartView result option \<times> sys" where
  "add_attempt meanwhile productId quantity cart s =
     (case getPurchasableProduct productId (db s) of
        Inl err \<Rightarrow> (Some (Inl err), s)
      | Inr product \<Rightarrow>
     (let existing = find (is_cart_item (cart_id cart) productId) (cart_items (db s)) in
      case assertWithinStock product (next_quantity existing quantity) of
        Inl err \<Rightarrow> (Some (Inl err), s)
      | Inr _ \<Rightarrow>
          write_add (cart_id cart) productId existing (next_quantity existing quantity) (meanwhile s)))"

definition or_retry ::
  "(sys \<Rightarrow> CartView result \<times> sys) \<Rightarrow> CartView result option \<times> sys \<Rightarrow> CartView result \<times> sys" where
  "or_retry again r = (case fst r of None \<Rightarrow> again (snd r) | Some x \<Rightarrow> (x, snd r))"

fun addItem :: "(sys \<Rightarrow> sys) list \<Rightarrow> uuid \<Rightarrow> uuid \<Rightarrow> int \<Rightarrow> sys \<Rightarrow> CartView result \<times> sys" where
  "addItem [] userId productId quantity s =
     with_cart userId (\<lambda>cart s1.
       or_retry (\<lambda>s2. (Inl UniqueViolation, s2)) (add_attempt (\<lambda>x. x) productId quantity cart s1)) s"
| "addItem (meanwhile # ms) userId productId quantity s =
     with_cart userId (\<lambda>cart s1.
       or_retry (addItem ms userId productId quantity) (add_attempt meanwhile productId quantity cart s1)) s"

declare addItem.simps [simp del]

definition updateItemQuantity ::
  "(sys \<Rightarrow> sys) \<Rightarrow> uuid \<Rightarrow> uuid \<Rightarrow> int \<Rightarrow> sys \<Rightarrow> CartView result \<times> sys" where
  "updateItemQuantity meanwhile userId productId quantity =
     with_cart userId (\<lambda>cart s.
       case find (is_cart_item (cart_id cart) productId) (cart_items (db s)) of
         None \<Rightarrow> (Inl (NotFoundException ''Product is not in your cart''), s)
       | Some item \<Rightarrow>
      (case getPurchasableProduct productId (db s) of
         Inl err \<Rightarrow> (Inl err, s)
       | Inr product \<Rightarrow>
      (case assertWithinStock product quantity of
         Inl err \<Rightarrow> (Inl err, s)
       | Inr _ \<Rightarrow>
      (case save_quantity (item\<lparr>ci_quantity := quantity\<rparr>) (db (meanwhile s)) of
         Inl err \<Rightarrow> (Inl err, meanwhile s)
       | Inr d \<Rightarrow> (buildView (cart_id cart) d, (meanwhile s)\<lparr>db := d\<rparr>)))))"

definition delete_cart_items :: "(CartItem \<Rightarrow> bool) \<Rightarrow> database \<Rightarrow> database" where
  "delete_cart_items P d = d\<lparr>cart_items := filter (\<lambda>i. \<not> P i) (cart_items d)\<rparr>"

definition removeItem :: "uuid \<Rightarrow> uuid \<Rightarrow> sys \<Rightarrow> CartView result \<times> sys" where
  "removeItem userId productId =
     with_cart userId (\<lambda>cart s.
       let s1 = upd_db (delete_cart_items (is_cart_item (cart_id cart) productId)) s
       in (buildView (cart_id cart) (db s1), s1))"

definition clearCart :: "uuid \<Rightarrow> sys \<Rightarrow> CartView result \<times> sys" where
  "clearCart userId =
     with_cart userId (\<lambda>cart s.
       let s1 = upd_db (delete_cart_items (\<lambda>i. ci_cartId i = cart_id cart)) s
       in (buildView (cart_id cart) (db s1), s1))"

section \<open>Carts stay well formed\<close>

text \<open>
  One cart per customer, one row per product in a cart, at least one unit in a row. A request keeps
  this whatever runs between its reads and its write, as long as that keeps it too.
\<close>

definition cart_ok :: "database \<Rightarrow> bool" where
  "cart_ok d \<longleftrightarrow> distinct (map cart_id (carts d)) \<and> distinct (map cart_userId (carts d)) \<and>
     (\<forall>c \<in> set (carts d). cart_id c < next_id d) \<and>
     distinct (map ci_id (cart_items d)) \<and> distinct (map (\<lambda>i. (ci_cartId i, ci_productId i)) (cart_items d)) \<and>
     (\<forall>i \<in> set (cart_items d). ci_id i < next_id d \<and> 1 \<le> ci_quantity i)"

definition carts_kept :: "sys \<Rightarrow> sys \<Rightarrow> bool" where
  "carts_kept s s' \<longleftrightarrow> (cart_ok (db s) \<longrightarrow> cart_ok (db s')) \<and> next_id (db s) \<le> next_id (db s')"

lemma carts_kept_refl [simp]: "carts_kept s s"
  by (simp add: carts_kept_def)

lemma carts_kept_trans: "carts_kept s s' \<Longrightarrow> carts_kept s' s'' \<Longrightarrow> carts_kept s s''"
  by (auto simp: carts_kept_def)

lemma insert_cart_ok:
  "insert_cart u d = Inr (c, d') \<Longrightarrow> cart_ok d \<Longrightarrow> cart_ok d' \<and> next_id d \<le> next_id d'"
  by (fastforce simp: insert_cart_def cart_ok_def split: if_splits)

lemma insert_cart_item_ok:
  assumes "insert_cart_item row d = Inr d'" "cart_ok d" "1 \<le> ci_quantity row" "ci_id row < next_id d"
    "ci_id row \<notin> ci_id ` set (cart_items d)"
  shows "cart_ok d'"
  using assms by (fastforce simp: insert_cart_item_def is_cart_item_def cart_ok_def split: if_splits)

lemma insert_new_item_ok:
  assumes "insert_new_item c p q d = Inr d'" "cart_ok d" "1 \<le> q"
  shows "cart_ok d' \<and> next_id d \<le> next_id d'"
proof -
  let ?d = "d\<lparr>next_id := next_id d + 1\<rparr>"
  have "cart_ok ?d" using assms(2) by (auto simp: cart_ok_def less_Suc_eq)
  moreover have "next_id d \<notin> ci_id ` set (cart_items d)" using assms(2) by (auto simp: cart_ok_def)
  ultimately have "cart_ok d'"
    using insert_cart_item_ok [OF assms(1) [unfolded insert_new_item_def]] assms(3) by simp
  moreover have "next_id d' = next_id d + 1"
    using assms(1) by (auto simp: insert_new_item_def insert_cart_item_def split: if_splits)
  ultimately show ?thesis by simp
qed

lemma set_quantity_keys:
  "map ci_id (map (\<lambda>i. if P i then i\<lparr>ci_quantity := n\<rparr> else i) is) = map ci_id is"
  "map (\<lambda>i. (ci_cartId i, ci_productId i)) (map (\<lambda>i. if P i then i\<lparr>ci_quantity := n\<rparr> else i) is)
     = map (\<lambda>i. (ci_cartId i, ci_productId i)) is"
  by (induction "is") auto

lemma save_quantity_ok:
  assumes save: "save_quantity row d = Inr d'" and ok: "cart_ok d" and row: "1 \<le> ci_quantity row" "ci_id row < next_id d"
  shows "cart_ok d' \<and> next_id d \<le> next_id d'"
proof (cases "\<exists>i \<in> set (cart_items d). ci_id i = ci_id row")
  case True
  then have d': "d' = d\<lparr>cart_items := map (\<lambda>i. if ci_id i = ci_id row then i\<lparr>ci_quantity := ci_quantity row\<rparr> else i) (cart_items d)\<rparr>"
    using save by (simp add: save_quantity_def)
  show ?thesis
    using ok row unfolding d' cart_ok_def by (auto simp: set_quantity_keys simp del: map_map)
next
  case False
  then have "insert_cart_item row d = Inr d'" using save by (simp add: save_quantity_def)
  moreover from this have "next_id d' = next_id d" by (auto simp: insert_cart_item_def split: if_splits)
  moreover have "ci_id row \<notin> ci_id ` set (cart_items d)" using False by (auto dest: sym)
  ultimately show ?thesis using insert_cart_item_ok [of row d d'] ok row by simp
qed

lemma getOrCreateCart_kept:
  assumes "carts_kept s (meanwhile s)"
  shows "carts_kept s (snd (getOrCreateCart meanwhile u s))"
proof (cases "find (\<lambda>c. cart_userId c = u) (carts (db s))")
  case None
  show ?thesis
  proof (cases "insert_cart u (db (meanwhile s))")
    case (Inr x)
    obtain c d where x: "x = (c, d)" by (cases x)
    have "next_id (db (meanwhile s)) \<le> next_id d"
      using Inr x by (auto simp: insert_cart_def split: if_splits)
    then show ?thesis
      using None Inr x assms insert_cart_ok [of u "db (meanwhile s)" c d]
      by (auto simp: getOrCreateCart_def carts_kept_def)
  qed (use None assms in \<open>auto simp: getOrCreateCart_def split: option.split\<close>)
qed (simp add: getOrCreateCart_def)

lemma with_cart_kept:
  assumes "\<And>c t. carts_kept t (snd (f c t))"
  shows "carts_kept s (snd (with_cart u f s))"
proof -
  obtain r t where g: "getOrCreateCart (\<lambda>x. x) u s = (r, t)" by fastforce
  have "carts_kept s t" using getOrCreateCart_kept [of s "\<lambda>x. x" u] g by simp
  then show ?thesis
    using g assms carts_kept_trans by (cases r) (auto simp: with_cart_def)
qed

lemma cart_items_kept:
  assumes "cart_ok (db s)" "find P (cart_items (db s)) = Some row"
  shows "ci_id row < next_id (db s)" "1 \<le> ci_quantity row"
  using assms find_SomeD [OF assms(2)] by (auto simp: cart_ok_def)

lemma add_attempt_kept:
  assumes m: "carts_kept s (meanwhile s)" and q: "1 \<le> q"
  shows "carts_kept s (snd (add_attempt meanwhile p q cart s))"
proof -
  let ?e = "find (is_cart_item (cart_id cart) p) (cart_items (db s))"
  let ?n = "next_quantity ?e q"
  have w: "carts_kept s (snd (write_add (cart_id cart) p ?e ?n (meanwhile s)))"
  proof (cases "?e")
    case None
    have "cart_ok d \<and> next_id (db (meanwhile s)) \<le> next_id d"
      if "insert_new_item (cart_id cart) p q (db (meanwhile s)) = Inr d" "cart_ok (db (meanwhile s))" for d
      using insert_new_item_ok [OF that q] .
    moreover have "next_id (db (meanwhile s)) \<le> next_id d"
      if "insert_new_item (cart_id cart) p q (db (meanwhile s)) = Inr d" for d
      using that by (auto simp: insert_new_item_def insert_cart_item_def split: if_splits)
    ultimately show ?thesis
      using None m by (fastforce simp: write_add_def next_quantity_def carts_kept_def split: sum.split)
  next
    case (Some row)
    let ?row = "row\<lparr>ci_quantity := ci_quantity row + q\<rparr>"
    have "cart_ok d" if d: "save_quantity ?row (db (meanwhile s)) = Inr d" and ok: "cart_ok (db s)" for d
    proof -
      note r = cart_items_kept [OF ok Some]
      show ?thesis using save_quantity_ok [OF d] m ok r q by (auto simp: carts_kept_def)
    qed
    moreover have "next_id (db (meanwhile s)) \<le> next_id d" if "save_quantity ?row (db (meanwhile s)) = Inr d" for d
      using that by (auto simp: save_quantity_def insert_cart_item_def split: if_splits)
    ultimately show ?thesis
      using Some m by (fastforce simp: write_add_def next_quantity_def carts_kept_def split: sum.split)
  qed
  then show ?thesis by (auto simp: add_attempt_def Let_def split: sum.split)
qed

lemma addItem_kept:
  "(\<And>m t. m \<in> set ms \<Longrightarrow> carts_kept t (m t)) \<Longrightarrow> 1 \<le> q \<Longrightarrow> carts_kept s (snd (addItem ms u p q s))"
proof (induction ms arbitrary: s)
  case Nil
  show ?case
    unfolding addItem.simps
  proof (rule with_cart_kept)
    fix c t
    show "carts_kept t (snd (or_retry (\<lambda>s2. (Inl UniqueViolation, s2)) (add_attempt (\<lambda>x. x) p q c t)))"
      using add_attempt_kept [of t "\<lambda>x. x" q p c] Nil(2) by (auto simp: or_retry_def split: option.split)
  qed
next
  case (Cons m ms)
  show ?case
    unfolding addItem.simps
  proof (rule with_cart_kept)
    fix c t
    have "carts_kept t (snd (add_attempt m p q c t))"
      using add_attempt_kept Cons.prems by simp
    moreover have "carts_kept x (snd (addItem ms u p q x))" for x
      using Cons by simp
    ultimately show "carts_kept t (snd (or_retry (addItem ms u p q) (add_attempt m p q c t)))"
      using carts_kept_trans by (auto simp: or_retry_def split: option.split)
  qed
qed

lemma delete_kept: "carts_kept s (upd_db (delete_cart_items P) s)"
  by (auto simp: carts_kept_def cart_ok_def delete_cart_items_def upd_db_def
      distinct_map inj_on_def)

lemma update_kept:
  assumes "\<And>t. carts_kept t (meanwhile t)" "1 \<le> q"
  shows "carts_kept s (snd (updateItemQuantity meanwhile u p q s))"
  unfolding updateItemQuantity_def
proof (rule with_cart_kept)
  fix c t
  show "carts_kept t (snd (case find (is_cart_item (cart_id c) p) (cart_items (db t)) of
         None \<Rightarrow> (Inl (NotFoundException ''Product is not in your cart''), t)
       | Some item \<Rightarrow>
      (case getPurchasableProduct p (db t) of
         Inl err \<Rightarrow> (Inl err, t)
       | Inr product \<Rightarrow>
      (case assertWithinStock product q of
         Inl err \<Rightarrow> (Inl err, t)
       | Inr _ \<Rightarrow>
      (case save_quantity (item\<lparr>ci_quantity := q\<rparr>) (db (meanwhile t)) of
         Inl err \<Rightarrow> (Inl err, meanwhile t)
       | Inr d \<Rightarrow> (buildView (cart_id c) d, (meanwhile t)\<lparr>db := d\<rparr>))))))"
  proof (cases "find (is_cart_item (cart_id c) p) (cart_items (db t))")
    case (Some item)
    have "cart_ok d" if "save_quantity (item\<lparr>ci_quantity := q\<rparr>) (db (meanwhile t)) = Inr d" "cart_ok (db t)" for d
      using save_quantity_ok [OF that(1)] cart_items_kept [OF that(2) Some] assms(1) [of t] assms(2) that(2)
      by (auto simp: carts_kept_def)
    moreover have "next_id (db (meanwhile t)) \<le> next_id d"
      if "save_quantity (item\<lparr>ci_quantity := q\<rparr>) (db (meanwhile t)) = Inr d" for d
      using that by (auto simp: save_quantity_def insert_cart_item_def split: if_splits)
    ultimately show ?thesis
      using Some assms(1) [of t] by (fastforce simp: carts_kept_def split: sum.split)
  qed simp
qed

text \<open>
  C16: Whatever other requests do between the reads and the write of a cart request, as long as they
  keep the carts well formed, so does the request: one cart per customer, one row per product in a
  cart, never a row without units, and no id used twice.
\<close>
theorem cart_requests_keep_carts:
  assumes ok: "cart_ok (db s)" and pos: "1 \<le> q"
    and others: "\<And>m t. m \<in> set ms \<Longrightarrow> carts_kept t (m t)" "\<And>t. carts_kept t (meanwhile t)"
  shows "cart_ok (db (snd (addItem ms u p q s))) \<and> cart_ok (db (snd (updateItemQuantity meanwhile u p q s))) \<and>
         cart_ok (db (snd (getOrCreateCart meanwhile u s))) \<and> cart_ok (db (snd (getCartView u s))) \<and>
         cart_ok (db (snd (removeItem u p s))) \<and> cart_ok (db (snd (clearCart u s)))"
proof -
  have "carts_kept s (snd (getCartView u s))"
    unfolding getCartView_def by (rule with_cart_kept) simp
  moreover have "carts_kept s (snd (removeItem u p s))" "carts_kept s (snd (clearCart u s))"
    unfolding removeItem_def clearCart_def by (rule with_cart_kept, simp add: Let_def delete_kept)+
  ultimately show ?thesis
    using ok addItem_kept [of ms q s u p, OF _ pos] others(1) update_kept [OF others(2) pos]
      getOrCreateCart_kept [of s meanwhile u] others(2)
    by (simp add: carts_kept_def)
qed

section \<open>Two adds at once\<close>

lemma unique_item:
  assumes "cart_ok d" "x \<in> set (cart_items d)" "is_cart_item c p x"
  shows "find (is_cart_item c p) (cart_items d) = Some x"
proof -
  obtain y where y: "find (is_cart_item c p) (cart_items d) = Some y"
    using assms(2,3) by (cases "find (is_cart_item c p) (cart_items d)") (auto simp: find_None_iff)
  have "distinct (map (\<lambda>i. (ci_cartId i, ci_productId i)) (cart_items d))" using assms(1) by (simp add: cart_ok_def)
  then have "inj_on (\<lambda>i. (ci_cartId i, ci_productId i)) (set (cart_items d))" by (simp add: distinct_map)
  then have "y = x" using find_SomeD [OF y] assms(2,3) by (auto simp: is_cart_item_def inj_on_def)
  with y show ?thesis by simp
qed

definition cart_units :: "uuid \<Rightarrow> uuid \<Rightarrow> database \<Rightarrow> int" where
  "cart_units c p d = (case find (is_cart_item c p) (cart_items d) of None \<Rightarrow> 0 | Some i \<Rightarrow> ci_quantity i)"

lemma find_set_quantity:
  "find (is_cart_item c p) (map (\<lambda>i. if ci_id i = k then i\<lparr>ci_quantity := n\<rparr> else i) is)
     = map_option (\<lambda>i. if ci_id i = k then i\<lparr>ci_quantity := n\<rparr> else i) (find (is_cart_item c p) is)"
  by (induction "is") (auto simp: is_cart_item_def)

text \<open>An add of a product already in the cart, whatever its row's quantity is by then.\<close>

lemma write_add_row:
  assumes "find (is_cart_item c p) (cart_items (db s)) = Some x" "ci_id x = ci_id row"
  obtains r s' where "write_add c p (Some row) n s = (Some r, s')" "cart_units c p (db s') = n"
    "find (is_cart_item c p) (cart_items (db s')) = Some (x\<lparr>ci_quantity := n\<rparr>)"
    "carts (db s') = carts (db s)" "products (db s') = products (db s)"
proof -
  have "\<exists>i \<in> set (cart_items (db s)). ci_id i = ci_id row" using find_SomeD [OF assms(1)] assms(2) by blast
  then show thesis
    using assms
    by (intro that [of "buildView c ((db s)\<lparr>cart_items := map (\<lambda>i. if ci_id i = ci_id row then i\<lparr>ci_quantity := n\<rparr> else i) (cart_items (db s))\<rparr>)"
          "s\<lparr>db := (db s)\<lparr>cart_items := map (\<lambda>i. if ci_id i = ci_id row then i\<lparr>ci_quantity := n\<rparr> else i) (cart_items (db s))\<rparr>\<rparr>"])
      (simp_all add: write_add_def save_quantity_def cart_units_def find_set_quantity del: map_map cong: if_cong)
qed

lemma write_add_new:
  assumes "find (is_cart_item c p) (cart_items (db s)) = None"
  obtains r s' x where "write_add c p None n s = (Some r, s')" "cart_units c p (db s') = n"
    "find (is_cart_item c p) (cart_items (db s')) = Some x" "ci_quantity x = n"
    "carts (db s') = carts (db s)" "products (db s') = products (db s)"
proof -
  let ?x = "\<lparr>ci_id = next_id (db s), ci_cartId = c, ci_productId = p, ci_quantity = n\<rparr>"
  let ?d = "(db s)\<lparr>next_id := next_id (db s) + 1, cart_items := cart_items (db s) @ [?x]\<rparr>"
  have "\<not> (\<exists>i \<in> set (cart_items (db s)). is_cart_item c p i)" using assms by (auto simp: find_None_iff)
  then show thesis
    using assms
    by (intro that [of "buildView c ?d" "s\<lparr>db := ?d\<rparr>" ?x])
      (auto simp: write_add_def insert_new_item_def insert_cart_item_def cart_units_def find_append is_cart_item_def)
qed

lemma write_add_lost:
  assumes "find (is_cart_item c p) (cart_items (db s)) = Some x"
  shows "write_add c p None n s = (None, s)"
proof -
  have "\<exists>i \<in> set (cart_items (db s)). is_cart_item c p i" using find_SomeD [OF assms] by blast
  then show ?thesis by (simp add: write_add_def insert_new_item_def insert_cart_item_def)
qed

definition addable :: "uuid \<Rightarrow> uuid \<Rightarrow> int \<Rightarrow> Cart \<Rightarrow> sys \<Rightarrow> bool" where
  "addable u p n cart s \<longleftrightarrow> find (\<lambda>c. cart_userId c = u) (carts (db s)) = Some cart \<and>
     (\<exists>product. getPurchasableProduct p (db s) = Inr product \<and> n \<le> pr_stockQuantity product)"

lemma add_attempt_runs:
  assumes "addable u p (cart_units (cart_id cart) p (db s) + q) cart s"
  shows "add_attempt m p q cart s
     = write_add (cart_id cart) p (find (is_cart_item (cart_id cart) p) (cart_items (db s)))
         (cart_units (cart_id cart) p (db s) + q) (m s)"
    "with_cart u f s = f cart s"
  using assms
  by (auto simp: add_attempt_def addable_def assertWithinStock_def next_quantity_def cart_units_def with_cart_def
      getOrCreateCart_def Let_def split: option.split)

lemma addItem_alone:
  assumes "addable u p (cart_units (cart_id cart) p (db s) + q) cart s"
  obtains x where "find (is_cart_item (cart_id cart) p) (cart_items (db (snd (addItem [] u p q s)))) = Some x"
    "ci_quantity x = cart_units (cart_id cart) p (db s) + q"
    "\<forall>y \<in> set_option (find (is_cart_item (cart_id cart) p) (cart_items (db s))). ci_id x = ci_id y"
    "cart_units (cart_id cart) p (db (snd (addItem [] u p q s))) = cart_units (cart_id cart) p (db s) + q"
    "carts (db (snd (addItem [] u p q s))) = carts (db s)" "products (db (snd (addItem [] u p q s))) = products (db s)"
proof -
  let ?c = "cart_id cart" and ?n = "cart_units (cart_id cart) p (db s) + q"
  note run = add_attempt_runs [OF assms]
  show thesis
  proof (cases "find (is_cart_item ?c p) (cart_items (db s))")
    case None
    obtain r s' x where w: "write_add ?c p None ?n s = (Some r, s')" "cart_units ?c p (db s') = ?n"
      "find (is_cart_item ?c p) (cart_items (db s')) = Some x" "ci_quantity x = ?n"
      "carts (db s') = carts (db s)" "products (db s') = products (db s)"
      by (rule write_add_new [OF None])
    have "snd (addItem [] u p q s) = s'" using None w(1) by (simp add: run or_retry_def addItem.simps)
    then show ?thesis using that [of x] w None by simp
  next
    case (Some y)
    obtain r s' where w: "write_add ?c p (Some y) ?n s = (Some r, s')" "cart_units ?c p (db s') = ?n"
      "find (is_cart_item ?c p) (cart_items (db s')) = Some (y\<lparr>ci_quantity := ?n\<rparr>)"
      "carts (db s') = carts (db s)" "products (db s') = products (db s)"
      by (rule write_add_row [OF Some refl])
    have "snd (addItem [] u p q s) = s'" using Some w(1) by (simp add: run or_retry_def addItem.simps)
    then show ?thesis using that [of "y\<lparr>ci_quantity := ?n\<rparr>"] w Some by simp
  qed
qed

lemma addable_cong:
  "carts (db s') = carts (db s) \<Longrightarrow> products (db s') = products (db s) \<Longrightarrow> addable u p n cart s' = addable u p n cart s"
  by (simp add: addable_def getPurchasableProduct_def)

lemma addable_less: "addable u p n cart s \<Longrightarrow> m \<le> n \<Longrightarrow> addable u p m cart s"
  by (auto simp: addable_def)

text \<open>
  Two requests of a customer that add the same product at the same time. If the product was not
  in the cart yet, the unique index sends the slower one back and both quantities count. If it was,
  the slower one overwrites the quantity it had read before, and the other's units are lost. One
  after the other, the requests always count both.
\<close>
theorem concurrent_adds:
  assumes enough: "addable u p (cart_units (cart_id cart) p (db s) + q + q') cart s" and pos: "0 \<le> q" "0 \<le> q'"
  shows "cart_units (cart_id cart) p (db (snd (addItem [] u p q (snd (addItem [] u p q' s)))))
           = cart_units (cart_id cart) p (db s) + q + q' \<and>
         cart_units (cart_id cart) p (db (snd (addItem [\<lambda>t. snd (addItem [] u p q' t)] u p q s)))
           = (case find (is_cart_item (cart_id cart) p) (cart_items (db s)) of
                None \<Rightarrow> q' + q
              | Some i \<Rightarrow> ci_quantity i + q)"
proof -
  let ?c = "cart_id cart" and ?n = "cart_units (cart_id cart) p (db s)" and ?t = "snd (addItem [] u p q' s)"
  have a': "addable u p (?n + q') cart s" and a: "addable u p (?n + q) cart s"
    using enough pos by (auto intro: addable_less)
  obtain x where x: "find (is_cart_item ?c p) (cart_items (db ?t)) = Some x" "ci_quantity x = ?n + q'"
    and same: "\<forall>y \<in> set_option (find (is_cart_item ?c p) (cart_items (db s))). ci_id x = ci_id y"
    and t: "cart_units ?c p (db ?t) = ?n + q'" "carts (db ?t) = carts (db s)" "products (db ?t) = products (db s)"
    by (rule addItem_alone [OF a'])
  have at: "addable u p (cart_units ?c p (db ?t) + q) cart ?t"
    using enough unfolding t(1) addable_cong [OF t(2,3)] by (simp add: ac_simps)
  have seq: "cart_units ?c p (db (snd (addItem [] u p q ?t))) = ?n + q + q'"
    by (rule addItem_alone [OF at]) (simp add: t(1))
  note run = add_attempt_runs [OF a]
  moreover have "cart_units ?c p (db (snd (addItem [\<lambda>t. snd (addItem [] u p q' t)] u p q s)))
      = (case find (is_cart_item ?c p) (cart_items (db s)) of None \<Rightarrow> q' + q | Some i \<Rightarrow> ci_quantity i + q)"
  proof (cases "find (is_cart_item ?c p) (cart_items (db s))")
    case None
    have "addItem [\<lambda>t. snd (addItem [] u p q' t)] u p q s = addItem [] u p q ?t"
      using None write_add_lost [OF x(1)] by (simp add: run or_retry_def addItem.simps(2))
    then show ?thesis using seq None by (simp add: cart_units_def)
  next
    case (Some y)
    obtain r s' where w: "write_add ?c p (Some y) (?n + q) ?t = (Some r, s')" "cart_units ?c p (db s') = ?n + q"
      using write_add_row [OF x(1), of y "?n + q"] same Some by (metis option.set_intros)
    have "addItem [\<lambda>t. snd (addItem [] u p q' t)] u p q s = (r, s')"
      using Some w(1) by (simp add: run or_retry_def addItem.simps(2))
    then show ?thesis using w(2) Some by (simp add: cart_units_def)
  qed
  ultimately show ?thesis using seq by blast
qed

section \<open>The cart page and the checkout\<close>

definition lines_units :: "(CartItem \<times> Product) list \<Rightarrow> int" where
  "lines_units xs = sum_list (map (\<lambda>x. ci_quantity (fst x)) xs)"

lemma cart_lines_view:
  "rmap (cart_line d) xs = Inr ls \<Longrightarrow>
   map (\<lambda>l. cents (cv_lineTotal (snd (snd l)))) ls = map line_cents xs \<and>
   map (\<lambda>l. cv_quantity (snd (snd l))) ls = map (\<lambda>x. ci_quantity (fst x)) xs"
proof (induction xs arbitrary: ls)
  case (Cons x xs)
  then obtain l ls' where l: "cart_line d x = Inr l" "rmap (cart_line d) xs = Inr ls'" "ls = l # ls'"
    by (auto simp: rbind_Inr_iff)
  have "cents (cv_lineTotal (snd (snd l))) = line_cents x \<and> cv_quantity (snd (snd l)) = ci_quantity (fst x)"
    using l(1)
    by (auto simp: cart_line_def cart_item_view_def line_cents_def lineTotalCents_def rbind_Inr_iff
        split: option.splits)
  then show ?case using Cons.IH [OF l(2)] l(3) by simp
qed simp

lemma cart_groups_sum:
  "sum_list (map (\<lambda>g. sum_list (map f (snd g))) (cart_groups ls)) = (sum_list (map (\<lambda>l. f (snd l)) ls) :: int)"
proof -
  have "sum_list (map (\<lambda>g. sum_list (map f (snd g))) (foldl (\<lambda>gs x. add_to_group (fst x) (snd x) gs) gs ls))
      = sum_list (map (\<lambda>g. sum_list (map f (snd g))) gs) + sum_list (map (\<lambda>l. f (snd l)) ls)" for gs
    by (induction ls arbitrary: gs) (simp_all add: sum_add_to_group)
  then show ?thesis by (simp add: cart_groups_def)
qed

lemma foldl_sum: "foldl (\<lambda>n x. n + f x) a xs = a + (sum_list (map f xs) :: int)"
  by (induction xs arbitrary: a) auto

lemma rmap_moneys: "rmap (\<lambda>x. parseMoneyToCents (f x)) xs = Inr cs \<Longrightarrow> cs = map (\<lambda>x. cents (f x)) xs"
  by (induction xs arbitrary: cs) (auto simp: rbind_Inr_iff cents_parse)

lemma cart_group_view:
  "cart_group g = Inr v \<Longrightarrow> cents (cg_subtotal v) = sum_list (map (\<lambda>x. cents (cv_lineTotal (snd x))) (snd g)) \<and>
     map cv_quantity (cg_items v) = map (\<lambda>x. cv_quantity (snd x)) (snd g)"
  by (auto simp: cart_group_def rbind_Inr_iff dest!: rmap_moneys)

lemma cart_groups_view:
  "rmap cart_group gs = Inr vs \<Longrightarrow>
   map (\<lambda>v. cents (cg_subtotal v)) vs = map (\<lambda>g. sum_list (map (\<lambda>x. cents (cv_lineTotal (snd x))) (snd g))) gs \<and>
   map (\<lambda>v. sum_list (map cv_quantity (cg_items v))) vs = map (\<lambda>g. sum_list (map (\<lambda>x. cv_quantity (snd x)) (snd g))) gs"
  by (induction gs arbitrary: vs) (auto simp: rbind_Inr_iff dest!: cart_group_view)

text \<open>The page adds up: total and number of units over the lines it shows.\<close>

lemma buildView_totals:
  assumes "buildView c d = Inr v"
  shows "cents (cw_totalAmount v) = sum_list (map line_cents (purchasable_items c d))"
    "cw_itemCount v = lines_units (purchasable_items c d)"
    "cents (cw_totalAmount v) = sum_list (map (\<lambda>g. cents (cg_subtotal g)) (cw_sellers v))"
proof -
  obtain ls vs where ls: "rmap (cart_line d) (purchasable_items c d) = Inr ls"
    and vs: "rmap cart_group (cart_groups ls) = Inr vs" and v: "cart_view vs = Inr v"
    using assms by (auto simp: buildView_def rbind_Inr_iff)
  note L = cart_lines_view [OF ls] and G = cart_groups_view [OF vs]
  have tot: "cents (cw_totalAmount v) = sum_list (map (\<lambda>v. cents (cg_subtotal v)) vs)" "cw_sellers v = vs"
    "cw_itemCount v = sum_list (map (\<lambda>g. sum_list (map cv_quantity (cg_items g))) vs)"
    using v by (auto simp: cart_view_def rbind_Inr_iff foldl_sum dest!: rmap_moneys)
  show "cents (cw_totalAmount v) = sum_list (map (\<lambda>g. cents (cg_subtotal g)) (cw_sellers v))"
    by (simp add: tot)
  have "sum_list (map (\<lambda>g. sum_list (map (\<lambda>x. cents (cv_lineTotal (snd x))) (snd g))) (cart_groups ls))
      = sum_list (map line_cents (purchasable_items c d))"
    unfolding cart_groups_sum using L by simp
  then show "cents (cw_totalAmount v) = sum_list (map line_cents (purchasable_items c d))"
    using G tot by simp
  have "sum_list (map (\<lambda>g. sum_list (map (\<lambda>x. cv_quantity (snd x)) (snd g))) (cart_groups ls))
      = lines_units (purchasable_items c d)"
    unfolding cart_groups_sum lines_units_def using L by simp
  then show "cw_itemCount v = lines_units (purchasable_items c d)"
    using G tot by simp
qed

lemma purchasable_all:
  assumes "\<And>i. i \<in> set is \<Longrightarrow> \<exists>p. by_id pr_id (ci_productId i) (products d) = Some p \<and> cart_purchasable p"
  shows "map fst (List.map_filter (\<lambda>item. case by_id pr_id (ci_productId item) (products d) of
          None \<Rightarrow> None | Some p \<Rightarrow> if cart_purchasable p then Some (item, p) else None) is) = is"
  using assms by (induction "is") (fastforce simp: map_filter_simps)+

lemma purchasable_products:
  "x \<in> set (purchasable_items c d) \<Longrightarrow> by_id pr_id (ci_productId (fst x)) (products d) = Some (snd x)"
  by (auto simp: purchasable_items_def map_filter_def split: option.splits if_splits)

lemma shown_line:
  assumes "rmap (cart_line d) xs = Inr ls" "x \<in> set xs" "by_id pr_id (ci_productId (fst x)) (products d) = Some (snd x)"
  shows "line_cents x = item_value d (fst x)"
proof -
  obtain l where "cart_line d x = Inr l"
    using assms(1,2) by (induction xs arbitrary: ls) (auto simp: rbind_Inr_iff)
  then have "\<exists>c. lineTotalCents (fst x, snd x) = Inr c"
    by (auto simp: cart_line_def lineTotalCents_def rbind_Inr_iff split: option.splits)
  then show ?thesis using line_cents_value [of "fst x" "snd x"] assms(3) by auto
qed

lemma assertPurchasable_ok:
  "rmap assertPurchasable xs = Inr ys \<Longrightarrow> x \<in> set xs \<Longrightarrow> \<exists>p. snd x = Some p \<and> cart_purchasable p"
  by (induction xs arbitrary: ys)
    (auto simp: rbind_Inr_iff assertPurchasable_def cart_purchasable_def split: option.splits if_splits)

lemma runCheckout_purchasable:
  assumes run: "runCheckoutTransaction e u k corr dto s = (Inr out, s')" and i: "i \<in> set (user_cart u (db s))"
  shows "\<exists>p. by_id pr_id (ci_productId i) (products (db s)) = Some p \<and> cart_purchasable p"
proof -
  obtain d1 where d1: "claim_key (u, k) (db s) = Inr d1"
    using run by (auto simp: runCheckoutTransaction_def split: sum.splits)
  have d1f: "carts d1 = carts (db s)" "cart_items d1 = cart_items (db s)" "products d1 = products (db s)"
    using d1 by (auto simp: claim_key_def split: if_splits)
  obtain cart where cart: "find (\<lambda>c. cart_userId c = u) (carts (db s)) = Some cart"
    using i by (cases "find (\<lambda>c. cart_userId c = u) (carts (db s))") (auto simp: user_cart_def)
  have ne: "load_cart_items (cart_id cart) d1 \<noteq> []" using run d1 cart d1f by (auto simp: runCheckoutTransaction_def)
  obtain lines where "rmap assertPurchasable (load_cart_items (cart_id cart) d1) = Inr lines"
    using run d1 cart d1f ne by (auto simp: runCheckoutTransaction_def Let_def split: sum.splits)
  moreover have "(i, by_id pr_id (ci_productId i) (products (db s))) \<in> set (load_cart_items (cart_id cart) d1)"
    using i cart d1f by (auto simp: load_cart_items_def user_cart_def)
  ultimately show ?thesis by (auto dest: assertPurchasable_ok)
qed

text \<open>
  C17: What the cart page shows is what the checkout charges: when a checkout right after looking at
  the cart succeeds, its total is the total of the page, which is the sum of the page's subtotals, and
  the page's number of units is what the checkout takes from stock. The page does not show products
  that are no longer for sale; a checkout of such a cart does not succeed.
\<close>
theorem cart_page_is_charged:
  assumes ok: "books_ok (db s)" and dist: "distinct (map pr_id (products (db s)))"
    and page: "getCartView u s = (Inr v, s1)" and run: "checkout e u key corr dto s1 = (Inr r, s2)"
    and new: "\<not> cr_replayed r"
  shows "cents (cr_totalAmount r) = cents (cw_totalAmount v) \<and>
         cents (cw_totalAmount v) = sum_list (map (\<lambda>g. cents (cg_subtotal g)) (cw_sellers v)) \<and>
         cw_itemCount v = sum_list (map ci_quantity (user_cart u (db s1))) \<and>
         list_all (\<lambda>i. \<exists>p. by_id pr_id (ci_productId i) (products (db s1)) = Some p \<and> cart_purchasable p)
           (user_cart u (db s1))"
proof -
  obtain cart where g: "getOrCreateCart (\<lambda>x. x) u s = (Inr cart, s1)" "buildView (cart_id cart) (db s1) = Inr v"
    using page by (auto simp: getCartView_def with_cart_def split: prod.splits sum.splits)
  have books: "books_ok (db s1)" "distinct (map pr_id (products (db s1)))"
    using g(1) ok dist same_books_ok [of "db s" "db s1"]
    by (auto simp: getOrCreateCart_def insert_cart_def same_books_def split: option.splits if_splits sum.splits)
  have cart: "find (\<lambda>c. cart_userId c = u) (carts (db s1)) = Some cart"
    using g(1) by (auto simp: getOrCreateCart_def insert_cart_def find_append split: option.splits if_splits sum.splits)
  let ?items = "user_cart u (db s1)" and ?shown = "purchasable_items (cart_id cart) (db s1)"
  from run show ?thesis
  proof (cases rule: checkout_Inr_cases)
    case (ran k out t)
    have all: "\<exists>p. by_id pr_id (ci_productId i) (products (db s1)) = Some p \<and> cart_purchasable p"
      if "i \<in> set ?items" for i
      using runCheckout_purchasable [OF ran(2)] that by simp
    have shown: "map fst ?shown = ?items"
      unfolding purchasable_items_def using purchasable_all [of ?items "db s1"] all cart by (simp add: user_cart_def)
    obtain c where "rmap (cart_line (db s1)) ?shown = Inr c"
      using g(2) by (auto simp: buildView_def rbind_Inr_iff)
    then have "line_cents x = item_value (db s1) (fst x)" if "x \<in> set ?shown" for x
      using shown_line that purchasable_products [OF that] by blast
    then have "map line_cents ?shown = map (item_value (db s1)) (map fst ?shown)" by simp
    then have "sum_list (map line_cents ?shown) = sum_list (map (item_value (db s1)) ?items)" by (simp add: shown)
    moreover have "cents (ord_totalAmount (to_order out)) = sum_list (map (item_value (db s1)) ?items)"
      using ran(2) books
      by (rule runCheckout_Inr [of e u k corr dto "increment ''checkout_attempts_total'' s1" out t, simplified])
    moreover have "lines_units ?shown = sum_list (map ci_quantity ?items)"
      by (simp add: lines_units_def shown [symmetric] comp_def)
    ultimately show ?thesis
      using buildView_totals [OF g(2)] ran(3) all by (simp add: checkout_toResult_def list_all_iff)
  qed (use new in simp)
qed

section \<open>A concrete cart\<close>

definition shop :: sys where
  "shop = start_sys shop_db"

definition shop_page :: CartView where
  "shop_page = (case fst (getCartView 8 shop) of Inr v \<Rightarrow> v | Inl e \<Rightarrow> undefined)"

theorem cart_requests_keep_carts_witness:
  "cart_ok (db (snd (addItem [\<lambda>t. snd (clearCart 8 t)] 8 20 1 shop)))"
proof -
  have kept: "carts_kept t (snd (clearCart 8 t))" for t
    unfolding clearCart_def by (rule with_cart_kept) (simp add: Let_def delete_kept)
  have "cart_ok (db shop)" by code_simp
  then show ?thesis
    using cart_requests_keep_carts [of shop 1 "[\<lambda>t. snd (clearCart 8 t)]" "\<lambda>x. x"] kept by simp
qed

theorem concurrent_adds_witness:
  "cart_units 30 20 (db (snd (addItem [\<lambda>t. snd (addItem [] 8 20 1 t)] 8 20 1 shop))) = 4 \<and>
   cart_units 30 22 (db (snd (addItem [\<lambda>t. snd (addItem [] 8 22 3 t)] 8 22 2 shop))) = 5"
proof -
  let ?cart = "\<lparr>cart_id = 30, cart_userId = 8\<rparr>"
  have row: "find (is_cart_item 30 20) (cart_items (db shop)) = Some \<lparr>ci_id = 32, ci_cartId = 30, ci_productId = 20, ci_quantity = 3\<rparr>"
    "find (is_cart_item 30 22) (cart_items (db shop)) = None"
    by code_simp+
  have cart: "find (\<lambda>c. cart_userId c = 8) (carts (db shop)) = Some ?cart" by code_simp
  have "getPurchasableProduct 20 (db shop) = Inr (shop_product 20 1 ''3.33'' 5)"
    "getPurchasableProduct 22 (db shop) = Inr (shop_product 22 1 ''0.50'' 9)" by code_simp+
  then have "addable 8 20 (cart_units (cart_id ?cart) 20 (db shop) + 1 + 1) ?cart shop"
    "addable 8 22 (cart_units (cart_id ?cart) 22 (db shop) + 2 + 3) ?cart shop"
    using cart row by (simp_all add: addable_def cart_units_def shop_product_def)
  from concurrent_adds [OF this(1)] concurrent_adds [OF this(2)] row show ?thesis by simp
qed

theorem cart_page_is_charged_witness:
  "cents (cw_totalAmount shop_page) = cents (cr_totalAmount shop_result) \<and> cw_itemCount shop_page = 4"
proof -
  have "\<not> is_error (fst (getCartView 8 shop))" by code_simp
  moreover have "snd (getCartView 8 shop) = shop"
    by (simp add: getCartView_def with_cart_def getOrCreateCart_def shop_def start_sys_def shop_db_def)
  ultimately have page: "getCartView 8 shop = (Inr shop_page, shop)"
    by (auto simp: not_is_error_iff shop_page_def prod_eq_iff)
  have "sum_list (map ci_quantity (user_cart 8 (db shop))) = 4" by code_simp
  then show ?thesis
    using cart_page_is_charged [OF shop_ok [folded shop_def] page shop_runs(1) [unfolded shop_checkout_def, folded shop_def] shop_runs(2)]
    by simp
qed

end
