(* ===== verification/Seller_Auctions.thy ===== *)
theory Seller_Auctions
  imports Auction_Lifecycle Order_Views
begin

text \<open>
  Auctions as their seller manages them (\<open>seller-auctions.service.ts\<close>) and as an admin reads them
  (\<open>admin-auctions.service.ts\<close>). An update reads the auction and counts its bids before its
  transaction starts and without a lock; the argument \<open>meanwhile\<close> is what other requests do in
  between. The entity has a version column, but \<open>save\<close> does not compare it.
\<close>

section \<open>Reads\<close>

definition isEditable :: "Auction \<Rightarrow> nat \<Rightarrow> bool" where
  "isEditable auction bidCount \<longleftrightarrow>
     bidCount = 0 \<and> (au_status auction = AuctionStatus.SCHEDULED \<or> au_status auction = AuctionStatus.ACTIVE)"

definition findOwned :: "uuid \<Rightarrow> uuid \<Rightarrow> database \<Rightarrow> (Auction \<times> Product) result" where
  "findOwned i sellerProfileId d =
     (case by_id au_id i (auctions d) of
        None \<Rightarrow> Inl (NotFoundException ''Auction not found'')
      | Some auction \<Rightarrow>
     (case by_id pr_id (au_productId auction) (products d) of
        None \<Rightarrow> Inl (NotFoundException ''Auction not found'')
      | Some product \<Rightarrow>
          if pr_sellerProfileId product \<noteq> sellerProfileId
          then Inl (NotFoundException ''Auction not found'') else Inr (auction, product)))"

definition bid_count :: "uuid \<Rightarrow> database \<Rightarrow> nat" where
  "bid_count auctionId d = length (auction_bids auctionId d)"

definition owned_view :: "env \<Rightarrow> database \<Rightarrow> Auction \<times> Product \<Rightarrow> AuctionSellerView result" where
  "owned_view e d x =
     toSellerView e (fst x) (snd x) (bid_count (au_id (fst x)) d)
       (isEditable (fst x) (bid_count (au_id (fst x)) d))"

definition auction_findMine :: "env \<Rightarrow> uuid \<Rightarrow> database \<Rightarrow> AuctionSellerView list result" where
  "auction_findMine e sellerProfileId d =
     rmap (owned_view e d)
       (List.map_filter (\<lambda>a. case by_id pr_id (au_productId a) (products d) of
            None \<Rightarrow> None
          | Some p \<Rightarrow> if pr_sellerProfileId p = sellerProfileId then Some (a, p) else None)
         (rev (auctions d)))"

definition auction_findMineById :: "env \<Rightarrow> uuid \<Rightarrow> uuid \<Rightarrow> database \<Rightarrow> AuctionSellerView result" where
  "auction_findMineById e i sellerProfileId d = rbind (findOwned i sellerProfileId d) (owned_view e d)"

text \<open>The admin's reads count any auction without bids as editable.\<close>

definition admin_auction_view :: "env \<Rightarrow> database \<Rightarrow> Auction \<Rightarrow> AuctionSellerView result" where
  "admin_auction_view e d auction =
     (case by_id pr_id (au_productId auction) (products d) of
        None \<Rightarrow> Inl (PlainError ''TypeError'')
      | Some product \<Rightarrow>
          toSellerView e auction product (bid_count (au_id auction) d) (bid_count (au_id auction) d = 0))"

definition admin_auctions_findAll ::
  "env \<Rightarrow> OrderListQueryDto \<Rightarrow> database \<Rightarrow> AuctionSellerView PaginatedResult result" where
  "admin_auctions_findAll e query d =
     rbind (rmap (admin_auction_view e d) (page_of query (rev (auctions d))))
       (\<lambda>views. Inr (paginated query (auctions d) views))"

definition admin_auctions_findById :: "env \<Rightarrow> uuid \<Rightarrow> database \<Rightarrow> AuctionSellerView result" where
  "admin_auctions_findById e i d =
     (case by_id au_id i (auctions d) of
        None \<Rightarrow> Inl (NotFoundException ''Auction not found'')
      | Some auction \<Rightarrow> admin_auction_view e d auction)"

section \<open>Creating an auction\<close>

record CreateAuctionDto =
  ca'_productId :: uuid
  ca'_startPrice :: string
  ca'_minBidIncrement :: string
  ca'_startsAt :: time
  ca'_endsAt :: time

definition positive_money :: "string option \<Rightarrow> bool result" where
  "positive_money amount =
     (case amount of None \<Rightarrow> Inr True | Some t \<Rightarrow> rbind (parseMoneyToCents t) (\<lambda>c. Inr (0 < c)))"

text \<open>\<open>parse a <= 0 || parse b <= 0\<close>: the second amount is parsed only if the first is positive.\<close>

definition assertPositive :: "string option \<Rightarrow> string option \<Rightarrow> unit result" where
  "assertPositive startPrice minBidIncrement =
     rbind (positive_money startPrice) (\<lambda>a.
     rbind (if a then positive_money minBidIncrement else Inr False) (\<lambda>b.
     if b then Inr () else Inl (BadRequestException ''startPrice and minBidIncrement must both be greater than zero'')))"

definition initial_status :: "env \<Rightarrow> time \<Rightarrow> AuctionStatus" where
  "initial_status e startsAt = (if startsAt \<le> now e then AuctionStatus.ACTIVE else AuctionStatus.SCHEDULED)"

definition new_auction :: "env \<Rightarrow> CreateAuctionDto \<Rightarrow> uuid \<Rightarrow> Auction" where
  "new_auction e dto i =
     \<lparr>au_id = i, au_productId = ca'_productId dto, au_startPrice = ca'_startPrice dto,
      au_currentPrice = ca'_startPrice dto, au_minBidIncrement = ca'_minBidIncrement dto,
      au_startsAt = ca'_startsAt dto, au_endsAt = ca'_endsAt dto, au_winnerId = None,
      au_winningBidId = None, au_purchaseWindowEndsAt = None, au_finalizedAt = None,
      au_status = initial_status e (ca'_startsAt dto)\<rparr>"

text \<open>The unique index on \<open>productId\<close>.\<close>

definition insert_auction :: "env \<Rightarrow> Auction \<Rightarrow> database \<Rightarrow> database result" where
  "insert_auction e auction d =
     (if \<exists>a \<in> set (auctions d). au_productId a = au_productId auction then Inl UniqueViolation
      else Inr (d\<lparr>next_id := next_id d + 1, auctions := auctions d @ [stored_auction e auction]\<rparr>))"

definition runCreateAuction :: "env \<Rightarrow> CreateAuctionDto \<Rightarrow> uuid \<Rightarrow> sys \<Rightarrow> Auction result \<times> sys" where
  "runCreateAuction e dto correlationId s =
     (case insert_auction e (new_auction e dto (next_id (db s))) (db s) of
        Inl err \<Rightarrow> (Inl err, s)
      | Inr d \<Rightarrow>
          (Inr (new_auction e dto (next_id (db s))),
           recordProductProjectionEvent (new_auction e dto (next_id (db s))) correlationId
             (outbox_record ''AUCTION_CREATED'' ''Auction'' (next_id (db s))
                [(''auctionId'', JId (next_id (db s))), (''productId'', JId (ca'_productId dto))]
                correlationId (s\<lparr>db := d\<rparr>))))"

definition check_new_auction :: "env \<Rightarrow> uuid \<Rightarrow> CreateAuctionDto \<Rightarrow> database \<Rightarrow> Product result" where
  "check_new_auction e sellerProfileId dto d =
     (case find (\<lambda>p. pr_id p = ca'_productId dto \<and> pr_sellerProfileId p = sellerProfileId) (products d) of
        None \<Rightarrow> Inl (NotFoundException ''Product not found'')
      | Some product \<Rightarrow>
          if pr_type product \<noteq> ProductType.AUCTION
          then Inl (BadRequestException ''Only AUCTION-type products can have an auction'')
          else if ca'_endsAt dto \<le> ca'_startsAt dto
          then Inl (BadRequestException ''endsAt must be after startsAt'')
          else if ca'_endsAt dto \<le> now e
          then Inl (BadRequestException ''endsAt must be in the future'')
          else rbind (assertPositive (Some (ca'_startPrice dto)) (Some (ca'_minBidIncrement dto)))
                 (\<lambda>u. Inr product))"

definition auction_conflict :: "app_error \<Rightarrow> app_error" where
  "auction_conflict err =
     (if isUniqueViolation err then ConflictException ''This product already has an auction'' else err)"

definition create_auction ::
  "env \<Rightarrow> uuid \<Rightarrow> CreateAuctionDto \<Rightarrow> uuid \<Rightarrow> sys \<Rightarrow> AuctionSellerView result \<times> sys" where
  "create_auction e sellerProfileId dto correlationId s =
     (case check_new_auction e sellerProfileId dto (db s) of
        Inl err \<Rightarrow> (Inl err, s)
      | Inr product \<Rightarrow>
     (case transaction (runCreateAuction e dto correlationId) s of
        (Inl err, s1) \<Rightarrow> (Inl (auction_conflict err), s1)
      | (Inr auction, s1) \<Rightarrow>
          (toSellerView e auction product 0 True,
           invalidate_auction (pr_id product)
             (scheduleFinalization e (au_id auction) (ca'_endsAt dto) correlationId s1))))"

section \<open>Editing an auction\<close>

record UpdateAuctionDto =
  ua_startPrice :: "string option"
  ua_minBidIncrement :: "string option"
  ua_startsAt :: "time option"
  ua_endsAt :: "time option"

definition or_else :: "'a option \<Rightarrow> 'a \<Rightarrow> 'a" where
  "or_else new old = (case new of None \<Rightarrow> old | Some x \<Rightarrow> x)"

definition edited_auction :: "env \<Rightarrow> UpdateAuctionDto \<Rightarrow> Auction \<Rightarrow> Auction" where
  "edited_auction e dto auction =
     auction\<lparr>au_startPrice := or_else (ua_startPrice dto) (au_startPrice auction),
       au_currentPrice := or_else (ua_startPrice dto) (au_currentPrice auction),
       au_minBidIncrement := or_else (ua_minBidIncrement dto) (au_minBidIncrement auction),
       au_startsAt := or_else (ua_startsAt dto) (au_startsAt auction),
       au_endsAt := or_else (ua_endsAt dto) (au_endsAt auction),
       au_status := initial_status e (or_else (ua_startsAt dto) (au_startsAt auction))\<rparr>"

definition check_edit :: "uuid \<Rightarrow> uuid \<Rightarrow> UpdateAuctionDto \<Rightarrow> database \<Rightarrow> (Auction \<times> Product) result" where
  "check_edit i sellerProfileId dto d =
     (case findOwned i sellerProfileId d of
        Inl err \<Rightarrow> Inl err
      | Inr x \<Rightarrow>
          if \<not> isEditable (fst x) (bid_count i d)
          then Inl (ConflictException ''This auction can no longer be edited'')
          else if or_else (ua_endsAt dto) (au_endsAt (fst x)) \<le> or_else (ua_startsAt dto) (au_startsAt (fst x))
          then Inl (BadRequestException ''endsAt must be after startsAt'')
          else rbind (assertPositive (ua_startPrice dto) (ua_minBidIncrement dto)) (\<lambda>u. Inr x))"

definition runUpdateAuction :: "env \<Rightarrow> Auction \<Rightarrow> uuid \<Rightarrow> sys \<Rightarrow> sys" where
  "runUpdateAuction e edited correlationId s =
     recordProductProjectionEvent edited correlationId
       (record_auction_event ''AUCTION_UPDATED'' edited [] correlationId (upd_db (save_auction e edited) s))"

definition after_edit :: "env \<Rightarrow> Auction \<Rightarrow> Auction \<Rightarrow> uuid \<Rightarrow> sys \<Rightarrow> sys" where
  "after_edit e old edited correlationId s =
     invalidate_auction (au_productId edited)
       (if au_endsAt edited \<noteq> au_endsAt old
        then rescheduleFinalization e (au_id old) (au_endsAt edited) correlationId s else s)"

definition update_auction ::
  "(sys \<Rightarrow> sys) \<Rightarrow> env \<Rightarrow> uuid \<Rightarrow> uuid \<Rightarrow> UpdateAuctionDto \<Rightarrow> uuid \<Rightarrow> sys \<Rightarrow> AuctionSellerView result \<times> sys" where
  "update_auction meanwhile e i sellerProfileId dto correlationId s =
     (case check_edit i sellerProfileId dto (db s) of
        Inl err \<Rightarrow> (Inl err, s)
      | Inr x \<Rightarrow>
          (toSellerView e (edited_auction e dto (fst x)) (snd x) (bid_count i (db s)) True,
           after_edit e (fst x) (edited_auction e dto (fst x)) correlationId
             (runUpdateAuction e (edited_auction e dto (fst x)) correlationId (meanwhile s))))"

definition seller_cancel_auction ::
  "env \<Rightarrow> uuid \<Rightarrow> uuid \<Rightarrow> uuid \<Rightarrow> sys \<Rightarrow> AuctionSellerView result \<times> sys" where
  "seller_cancel_auction e i sellerProfileId correlationId s =
     (case cancel_auction e (SellerActor sellerProfileId) i correlationId s of
        (Inl err, s1) \<Rightarrow> (Inl err, s1)
      | (Inr a, s1) \<Rightarrow> (auction_findMineById e i sellerProfileId (db s1), s1))"

section \<open>What is accepted\<close>

definition pos_money :: "string \<Rightarrow> bool" where
  "pos_money t \<longleftrightarrow> is_money t \<and> 0 < cents t"

lemma positive_money_Inr: "positive_money a = Inr True \<Longrightarrow> \<forall>t \<in> set_option a. pos_money t"
  by (auto simp: positive_money_def pos_money_def is_money_def rbind_Inr_iff cents_parse split: option.splits)

lemma assertPositive_Inr:
  "assertPositive a b = Inr u \<Longrightarrow> (\<forall>t \<in> set_option a. pos_money t) \<and> (\<forall>t \<in> set_option b. pos_money t)"
  unfolding assertPositive_def rbind_Inr_iff
  using positive_money_Inr [of a] positive_money_Inr [of b] by (auto split: if_splits)

lemma stored_ok:
  assumes "numeric_ok e" "pos_money (au_startPrice a)" "is_money (au_currentPrice a)" "pos_money (au_minBidIncrement a)"
    "au_winnerId a = None" "au_winningBidId a = None" "cents (au_currentPrice a) = cents (au_startPrice a)"
    "auction_bids (au_id a) d = []"
  shows "auction_ok d (stored_auction e a)"
  using assms by (simp add: auction_ok_def bid_chain_def stored_auction_def pos_money_def)

text \<open>Ids of auctions come from the counter, and bids refer to auctions that exist.\<close>

definition auction_ids_ok :: "database \<Rightarrow> bool" where
  "auction_ids_ok d \<longleftrightarrow> (\<forall>a \<in> set (auctions d). au_id a < next_id d) \<and>
     (\<forall>b \<in> set (bids d). bid_auctionId b < next_id d) \<and> distinct (map au_productId (auctions d))"

lemma auction_bids_cong: "bids d' = bids d \<Longrightarrow> auction_bids i d' = auction_bids i d"
  by (simp add: auction_bids_def)

lemma auction_ok_cong: "bids d' = bids d \<Longrightarrow> auction_ok d' a = auction_ok d a"
  by (simp add: auction_ok_def auction_bids_def)

lemma runCreate_Inr:
  assumes "runCreateAuction e dto c s = (Inr a, s')"
  shows "a = new_auction e dto (next_id (db s))" "auctions (db s') = auctions (db s) @ [stored_auction e a]"
    "\<not> (\<exists>x \<in> set (auctions (db s)). au_productId x = ca'_productId dto)" "bids (db s') = bids (db s)"
    "next_id (db s) < next_id (db s')" "products (db s') = products (db s)" "effects s' = effects s"
proof -
  let ?new = "new_auction e dto (next_id (db s))"
  obtain d where d: "insert_auction e ?new (db s) = Inr d"
    using assms by (cases "insert_auction e ?new (db s)") (simp_all add: runCreateAuction_def)
  have none: "\<not> (\<exists>x \<in> set (auctions (db s)). au_productId x = ca'_productId dto)"
    and d': "d = (db s)\<lparr>next_id := next_id (db s) + 1, auctions := auctions (db s) @ [stored_auction e ?new]\<rparr>"
    using d by (auto simp: insert_auction_def new_auction_def split: if_splits)
  show "\<not> (\<exists>x \<in> set (auctions (db s)). au_productId x = ca'_productId dto)" by (rule none)
  show "a = ?new" "auctions (db s') = auctions (db s) @ [stored_auction e a]" "bids (db s') = bids (db s)"
    "next_id (db s) < next_id (db s')" "products (db s') = products (db s)" "effects s' = effects s"
    using assms by (auto simp: runCreateAuction_def d d')
qed

text \<open>
  An auction a seller creates is ready for its first bid: its product is one of his auction
  products and had no auction, the terms are the ones he asked for, the status is ACTIVE exactly if
  the start has come, the first bid must reach the start price, and the bidding tables stay
  consistent. A finalization job is queued for its end.
\<close>
theorem created_auction_opens:
  assumes inv: "bidding_inv (db s)" "auction_ids_ok (db s)" and num: "numeric_ok e"
    and run: "create_auction e sp dto c s = (Inr v, s')"
  shows "bidding_inv (db s') \<and> auction_ids_ok (db s') \<and>
         (\<exists>a. auctions (db s') = auctions (db s) @ [a] \<and> au_id a = av_id v \<and> au_productId a = ca'_productId dto \<and>
              cents (au_startPrice a) = cents (ca'_startPrice dto) \<and>
              cents (au_minBidIncrement a) = cents (ca'_minBidIncrement dto) \<and>
              au_startsAt a = ca'_startsAt dto \<and> au_endsAt a = ca'_endsAt dto \<and> now e < au_endsAt a \<and>
              (au_status a = AuctionStatus.ACTIVE \<longleftrightarrow> ca'_startsAt dto \<le> now e)) \<and>
         cents (av_minNextBid v) = cents (ca'_startPrice dto) \<and> av_isEditable v \<and>
         QueueAddAuctionJob (FinalizeJobId (av_id v)) FINALIZE (av_id v) (max 0 (ca'_endsAt dto - now e)) c
           \<in> set (effects s')"
proof -
  obtain product where chk: "check_new_auction e sp dto (db s) = Inr product"
    using run by (auto simp: create_auction_def split: sum.splits)
  have terms: "now e < ca'_endsAt dto" "pos_money (ca'_startPrice dto)" "pos_money (ca'_minBidIncrement dto)"
    using chk assertPositive_Inr [of "Some (ca'_startPrice dto)" "Some (ca'_minBidIncrement dto)"]
    by (auto simp: check_new_auction_def rbind_Inr_iff split: option.splits if_splits)
  obtain a s1 where cr: "runCreateAuction e dto c s = (Inr a, s1)"
    and v: "toSellerView e a product 0 True = Inr v"
    and s': "s' = invalidate_auction (pr_id product) (scheduleFinalization e (au_id a) (ca'_endsAt dto) c s1)"
    using run chk by (auto simp: create_auction_def transaction_def split: prod.splits sum.splits)
  note C = runCreate_Inr [OF cr]
  have db: "db s' = db s1" by (simp add: s' scheduleFinalization_def)
  let ?a = "stored_auction e a"
  have fresh: "auction_bids (au_id a) (db s) = []"
    using inv(2) by (auto simp: C(1) new_auction_def auction_ids_ok_def auction_bids_def filter_empty_conv)
  have ok: "auction_ok (db s) ?a"
    by (rule stored_ok [OF num]) (use terms fresh in \<open>simp_all add: C(1) new_auction_def pos_money_def\<close>)
  have id: "au_id a = next_id (db s)" by (simp add: C(1) new_auction_def)
  have "au_id ?a \<notin> au_id ` set (auctions (db s))" using inv(2) by (auto simp: id auction_ids_ok_def)
  then have "bidding_inv (db s1)"
    using inv(1) ok C(2,4,5) by (fastforce simp: bidding_inv_def auction_ok_cong [OF C(4)])
  moreover have "auction_ids_ok (db s1)"
    using inv(2) C(2-5) id by (fastforce simp: auction_ids_ok_def C(1) new_auction_def)
  moreover have "av_id v = next_id (db s)" "cents (av_minNextBid v) = cents (ca'_startPrice dto)" "av_isEditable v"
    using v terms(2)
    by (auto simp: toSellerView_def toPublicView_def min_next_bid_cents_def rbind_Inr_iff C(1) new_auction_def
        AuctionPublicView.defs cents_parse)
  moreover have "QueueAddAuctionJob (FinalizeJobId (au_id a)) FINALIZE (au_id a) (max 0 (ca'_endsAt dto - now e)) c \<in> set (effects s')"
    by (simp add: s' invalidate_auction_def scheduleFinalization_def addDelayedJob_def Let_def)
  moreover have "auctions (db s1) = auctions (db s) @ [?a]" by (rule C(2))
  moreover have "au_productId ?a = ca'_productId dto" "cents (au_startPrice ?a) = cents (ca'_startPrice dto)"
    "cents (au_minBidIncrement ?a) = cents (ca'_minBidIncrement dto)" "au_startsAt ?a = ca'_startsAt dto"
    "au_endsAt ?a = ca'_endsAt dto" "au_status ?a = AuctionStatus.ACTIVE \<longleftrightarrow> ca'_startsAt dto \<le> now e"
    using terms num by (simp_all add: C(1) new_auction_def stored_auction_def initial_status_def pos_money_def)
  ultimately show ?thesis
    using terms(1) id unfolding db by (metis stored_auction_frame(1))
qed

section \<open>Edits\<close>

lemma check_edit_Inr:
  assumes "check_edit i sp dto d = Inr x"
  shows "by_id au_id i (auctions d) = Some (fst x)" "au_id (fst x) = i" "auction_bids i d = []"
    "au_status (fst x) = AuctionStatus.SCHEDULED \<or> au_status (fst x) = AuctionStatus.ACTIVE"
    "\<forall>t \<in> set_option (ua_startPrice dto). pos_money t" "\<forall>t \<in> set_option (ua_minBidIncrement dto). pos_money t"
    "au_startsAt (edited_auction e dto (fst x)) < au_endsAt (edited_auction e dto (fst x))"
    "by_id pr_id (au_productId (fst x)) (products d) = Some (snd x)" "pr_sellerProfileId (snd x) = sp"
proof -
  have own: "findOwned i sp d = Inr x" and ed: "isEditable (fst x) (bid_count i d)"
    and pos: "assertPositive (ua_startPrice dto) (ua_minBidIncrement dto) = Inr ()"
    and time: "\<not> or_else (ua_endsAt dto) (au_endsAt (fst x)) \<le> or_else (ua_startsAt dto) (au_startsAt (fst x))"
    using assms by (auto simp: check_edit_def rbind_Inr_iff split: sum.splits if_splits)
  show row: "by_id au_id i (auctions d) = Some (fst x)"
    and "by_id pr_id (au_productId (fst x)) (products d) = Some (snd x)" "pr_sellerProfileId (snd x) = sp"
    using own by (auto simp: findOwned_def split: option.splits if_splits)
  show "au_id (fst x) = i" using by_id_SomeD [OF row] by simp
  show "auction_bids i d = []" "au_status (fst x) = AuctionStatus.SCHEDULED \<or> au_status (fst x) = AuctionStatus.ACTIVE"
    using ed by (auto simp: isEditable_def bid_count_def)
  show "\<forall>t \<in> set_option (ua_startPrice dto). pos_money t" "\<forall>t \<in> set_option (ua_minBidIncrement dto). pos_money t"
    using assertPositive_Inr [OF pos] by auto
  show "au_startsAt (edited_auction e dto (fst x)) < au_endsAt (edited_auction e dto (fst x))"
    using time by (simp add: edited_auction_def)
qed

lemma update_Inr:
  assumes "update_auction meanwhile e i sp dto c s = (r, s')" "check_edit i sp dto (db s) = Inr x"
  shows "auctions (db s') = put_row au_id (stored_auction e (edited_auction e dto (fst x))) (auctions (db (meanwhile s)))"
    "bids (db s') = bids (db (meanwhile s))" "next_id (db (meanwhile s)) \<le> next_id (db s')"
    "r = toSellerView e (edited_auction e dto (fst x)) (snd x) (bid_count i (db s)) True"
  using assms
  by (auto simp: update_auction_def after_edit_def runUpdateAuction_def save_auction_def rescheduleFinalization_def
      scheduleFinalization_def)

lemma edited_frame [simp]:
  "au_id (edited_auction e dto a) = au_id a" "au_winnerId (edited_auction e dto a) = au_winnerId a"
  "au_winningBidId (edited_auction e dto a) = au_winningBidId a"
  "au_productId (edited_auction e dto a) = au_productId a"
  by (simp_all add: edited_auction_def)

lemma edited_ok:
  assumes ok: "auction_ok d a" "auction_bids (au_id a) d = []" and num: "numeric_ok e" and start: "pos_money (au_startPrice a)"
    and pos: "\<forall>t \<in> set_option (ua_startPrice dto). pos_money t" "\<forall>t \<in> set_option (ua_minBidIncrement dto). pos_money t"
  shows "auction_ok d (stored_auction e (edited_auction e dto a))"
  by (rule stored_ok [OF num])
    (use assms in \<open>auto simp: auction_ok_def bid_chain_def edited_auction_def or_else_def pos_money_def split: option.splits\<close>)

text \<open>
  A seller can edit his auction only while nobody has bid on it and it has not been decided; the
  edit then applies the terms that were sent and keeps the others, and the bidding tables stay
  consistent. The status follows from the start time alone, so an active auction can be moved back
  to SCHEDULED and one whose end has passed is opened again.
\<close>
theorem edit_only_before_bids:
  assumes inv: "bidding_inv (db s)" and num: "numeric_ok e"
    and row: "by_id au_id i (auctions (db s)) = Some a" "pos_money (au_startPrice a)"
    and run: "update_auction (\<lambda>t. t) e i sp dto c s = (r, s')"
  shows "bidding_inv (db s') \<and> bids (db s') = bids (db s) \<and>
         (if is_error (check_edit i sp dto (db s)) then is_error r \<and> db s' = db s
          else auction_bids i (db s) = [] \<and>
               (au_status a = AuctionStatus.SCHEDULED \<or> au_status a = AuctionStatus.ACTIVE) \<and>
               auctions (db s') = put_row au_id (stored_auction e (edited_auction e dto a)) (auctions (db s)) \<and>
               au_status (edited_auction e dto a) = initial_status e (au_startsAt (edited_auction e dto a)))"
proof (cases "check_edit i sp dto (db s)")
  case (Inl err)
  then show ?thesis using run inv by (auto simp: update_auction_def)
next
  case (Inr x)
  note K = check_edit_Inr [OF Inr] and U = update_Inr [OF run Inr]
  have x: "fst x = a" using K(1) row(1) by simp
  have ida: "au_id a = i" using K(2) x by simp
  have aok: "auction_ok (db s) a" using bidding_inv_auction [OF inv row(1)] .
  have ok: "auction_ok (db s) (stored_auction e (edited_auction e dto a))"
    by (rule edited_ok [OF aok _ num row(2) K(5,6)]) (simp add: ida K(3))
  have "auction_ok (db s') y" if "y \<in> set (auctions (db s'))" for y
    using that ok inv set_put_rowD [of y au_id "stored_auction e (edited_auction e dto a)" "auctions (db s)"]
    unfolding auction_ok_cong [OF U(2)] U(1) x by (auto simp: bidding_inv_def)
  moreover have "map au_id (auctions (db s')) = map au_id (auctions (db s))" using U(1) by (simp add: keys_put_row)
  ultimately have "bidding_inv (db s')"
    using inv U(2,3) by (fastforce simp: bidding_inv_def)
  then show ?thesis using Inr K(3,4) U x by (simp add: edited_auction_def)
qed

text \<open>
  An edit does not lock the auction it has read. If the first bid arrives after the edit has
  counted the bids, the edit overwrites what the bid wrote: the bid stays in the table, but the
  auction has no leader, its price is the start price again, the next bidder only has to reach the
  start price, and the bidding tables are inconsistent.
\<close>
theorem edit_loses_concurrent_bid:
  assumes inv: "bidding_inv (db s)" and num: "numeric_ok e" "numeric_ok e'"
    and row: "by_id au_id i (auctions (db s)) = Some a" "pos_money (au_startPrice a)"
    and bid: "placeBid e' u i key corr amount s = (Inr b, sb)"
    and run: "update_auction (\<lambda>t. snd (placeBid e' u i key corr amount t)) e i sp dto c s = (Inr w, s')"
  shows "\<exists>a' x. by_id au_id i (auctions (db s')) = Some a' \<and> auction_bids i (db s') = [x] \<and>
           bid_id x = ba_bidId b \<and> au_winnerId a' = None \<and> au_winningBidId a' = None \<and>
           cents (au_currentPrice a') = cents (au_startPrice a') \<and>
           min_next_bid_cents a' (au_winnerId a' \<noteq> None) = Inr (cents (au_startPrice a')) \<and>
           \<not> bidding_inv (db s')"
proof -
  obtain x where chk: "check_edit i sp dto (db s) = Inr x"
    using run by (auto simp: update_auction_def split: sum.splits)
  note K = check_edit_Inr [OF chk] and U = update_Inr [OF run chk]
  have x: "fst x = a" using K(1) row(1) by simp
  have ida: "au_id a = i" using K(2) x by simp
  obtain y where y: "bids (db sb) = bids (db s) @ [y]" "bid_auctionId y = i" "bid_id y = ba_bidId b"
    and ids: "map au_id (auctions (db sb)) = map au_id (auctions (db s))"
    using inv num(2)
  proof (cases rule: placeBid_cases [of s e' u i key corr amount])
    case (replayed k a r v s')
    then have "r \<in> set (auction_bids i (db s))"
      by (auto simp: auction_bids_def is_bid_claim_def dest: find_SomeD)
    then show ?thesis using K(3) by simp
  next
    case (recorded k a2 act out v s2 s1)
    note R = record_bid_ok [OF recorded(5)]
    have "by_id au_id i (auctions (db s)) = Some a2" by (rule recorded(2))
    then have "au_id a2 = i" by (auto dest: by_id_SomeD)
    then show ?thesis
      using recorded(6-8) bid R(1,2,3) by (intro that) (auto simp: fresh_bid_def keys_put_row)
  qed (use bid in simp)
  have sb: "snd (placeBid e' u i key corr amount s) = sb" by (simp add: bid)
  let ?a = "stored_auction e (edited_auction e dto a)"
  have aok: "auction_ok (db s) a" using bidding_inv_auction [OF inv row(1)] .
  have ok: "auction_ok (db s) ?a"
    by (rule edited_ok [OF aok _ num(1) row(2) K(5,6)]) (simp add: ida K(3))
  obtain z where z: "by_id au_id i (auctions (db sb)) = Some z"
  proof -
    have "i \<in> set (map au_id (auctions (db sb)))"
      unfolding ids using by_id_SomeD [OF row(1)] by auto
    then show thesis using that by (cases "by_id au_id i (auctions (db sb))") (auto simp: by_id_None_iff)
  qed
  have a': "by_id au_id i (auctions (db s')) = Some ?a"
    unfolding U(1) sb x by (rule by_id_put_row_same [OF z]) (simp add: ida)
  have bids: "auction_bids i (db s') = [y]"
    using U(2) sb y K(3) by (simp add: auction_bids_def)
  have chain: "bid_chain ?a []" using ok K(3) by (simp add: auction_ok_def ida)
  then have lead: "au_winnerId ?a = None" "au_winningBidId ?a = None" "cents (au_currentPrice ?a) = cents (au_startPrice ?a)"
    by (simp_all only: bid_chain_def list.case)
  have "\<not> bidding_inv (db s')"
    using bidding_inv_auction [OF _ a'] lead(1) bids ida by (auto simp: auction_ok_def bid_chain_def)
  moreover have "min_next_bid_cents ?a (au_winnerId ?a \<noteq> None) = Inr (cents (au_startPrice ?a))"
    using min_next_cents [OF ok] lead(1) by simp
  ultimately show ?thesis using a' bids lead y(3) by blast
qed

section \<open>Concrete auctions\<close>

definition auction_dto :: CreateAuctionDto where
  "auction_dto = \<lparr>ca'_productId = 2, ca'_startPrice = ''10.00'', ca'_minBidIncrement = ''1.00'',
     ca'_startsAt = 0, ca'_endsAt = 1000\<rparr>"

definition created :: "AuctionSellerView result \<times> sys" where
  "created = create_auction (sample_env 5) 1 auction_dto 0 (start_sys (sample_db\<lparr>auctions := []\<rparr>))"

definition created_view :: AuctionSellerView where
  "created_view = (case fst created of Inr v \<Rightarrow> v | Inl e \<Rightarrow> undefined)"

definition new_terms :: UpdateAuctionDto where
  "new_terms = \<lparr>ua_startPrice = Some ''20.00'', ua_minBidIncrement = None, ua_startsAt = Some 50, ua_endsAt = None\<rparr>"

definition raced :: "AuctionSellerView result \<times> sys" where
  "raced = update_auction (\<lambda>t. snd (placeBid (sample_env 5) 8 3 (Some ''k1'') 0 ''12.00'' t)) (sample_env 5) 3 1
     new_terms 0 (start_sys sample_db)"

definition raced_view :: AuctionSellerView where
  "raced_view = (case fst raced of Inr v \<Rightarrow> v | Inl e \<Rightarrow> undefined)"

lemma created_run: "created = (Inr created_view, snd created)"
proof -
  have "\<not> is_error (fst created)" by code_simp
  then show ?thesis by (auto simp: not_is_error_iff created_view_def prod_eq_iff)
qed

lemma raced_run: "raced = (Inr raced_view, snd raced)"
proof -
  have "\<not> is_error (fst raced)" by code_simp
  then show ?thesis by (auto simp: not_is_error_iff raced_view_def prod_eq_iff)
qed

theorem created_auction_opens_witness:
  "bidding_inv (db (snd created)) \<and> cents (av_minNextBid created_view) = 1000"
proof -
  have "bidding_inv (db (start_sys (sample_db\<lparr>auctions := []\<rparr>)))"
    "auction_ids_ok (db (start_sys (sample_db\<lparr>auctions := []\<rparr>)))" "cents (ca'_startPrice auction_dto) = 1000"
    by code_simp+
  then show ?thesis
    using created_auction_opens [OF _ _ sample_numeric_ok created_run [unfolded created_def]] unfolding created_def by simp
qed

theorem edit_only_before_bids_witness:
  "bidding_inv (db (snd (update_auction (\<lambda>t. t) (sample_env 5) 3 1 new_terms 0 (start_sys sample_db))))"
proof -
  have row: "by_id au_id 3 (auctions (db (start_sys sample_db))) = Some sample_auction"
    "pos_money (au_startPrice sample_auction)" by code_simp+
  have inv: "bidding_inv (db (start_sys sample_db))" by (simp add: start_sys_def)
  show ?thesis
    using edit_only_before_bids [OF inv sample_numeric_ok row prod.collapse [symmetric], of 5 1 new_terms 0] by simp
qed

theorem edit_loses_concurrent_bid_witness:
  "\<not> bidding_inv (db (snd raced))"
proof -
  have row: "by_id au_id 3 (auctions (db (start_sys sample_db))) = Some sample_auction"
    "pos_money (au_startPrice sample_auction)" by code_simp+
  have inv: "bidding_inv (db (start_sys sample_db))" by (simp add: start_sys_def)
  show ?thesis
    using edit_loses_concurrent_bid [OF inv sample_numeric_ok sample_numeric_ok row sample_bid_ok [unfolded sample_bid_def]
        raced_run [unfolded raced_def]] unfolding raced_def by blast
qed

end
