(* ===== verification/Outbox.thy ===== *)
theory Outbox
  imports Seller_Orders
begin

text \<open>
  The relay from the outbox table to the queues (\<open>modules/outbox/outbox-publisher.service.ts\<close>). The
  flag \<open>isPolling\<close> keeps a process from polling twice at once; polls of several processes are told
  apart by the rows the others have locked.
\<close>

section \<open>The relay\<close>

definition BATCH_SIZE' :: nat where
  "BATCH_SIZE' = 20"

definition queuesByAggregateType :: "string \<Rightarrow> string list option" where
  "queuesByAggregateType t =
     (if t = ''Product'' then Some [''search-sync'', ''realtime'']
      else if t = ''Category'' then Some [''search-sync'']
      else if t = ''SellerOrder'' then Some [''seller-order-processing'', ''realtime'']
      else if t = ''Order'' then Some [''notifications'', ''realtime'']
      else if t = ''Refund'' then Some [''notifications'', ''realtime'']
      else if t = ''Dispute'' then Some [''notifications'', ''realtime'']
      else if t = ''Auction'' then Some [''notifications'', ''realtime'']
      else if t = ''SellerApplication'' then Some [''notifications'']
      else None)"

definition save_outbox :: "OutboxEvent \<Rightarrow> database \<Rightarrow> database" where
  "save_outbox x d = d\<lparr>outbox_events := put_row ob_id x (outbox_events d)\<rparr>"

interpretation outbox_repo: repository ob_id outbox_events save_outbox "\<lambda>x. x"
  by unfold_locales (simp_all add: save_outbox_def)

text \<open>
  \<open>redis q event\<close> is the outcome of adding the job to queue \<open>q\<close>: the message of the rejection, or
  None. All adds of an event are started together, so some can succeed although another fails.
\<close>

type_synonym queue_outcome = "string \<Rightarrow> OutboxEvent \<Rightarrow> string option"

definition add_jobs :: "queue_outcome \<Rightarrow> string list \<Rightarrow> OutboxEvent \<Rightarrow> sys \<Rightarrow> sys" where
  "add_jobs redis queues event s =
     fold (\<lambda>q. emit (QueueAddOutboxJob q event)) (filter (\<lambda>q. redis q event = None) queues) s"

definition attempt_failed :: "string \<Rightarrow> OutboxEvent \<Rightarrow> OutboxEvent" where
  "attempt_failed message event =
     event\<lparr>ob_attempts := ob_attempts event + 1, ob_lastError := Some message\<rparr>"

definition published :: "env \<Rightarrow> OutboxEvent \<Rightarrow> OutboxEvent" where
  "published e event = event\<lparr>ob_status := OutboxStatus.PUBLISHED, ob_publishedAt := Some (now e)\<rparr>"

definition publish_event :: "queue_outcome \<Rightarrow> env \<Rightarrow> OutboxEvent \<Rightarrow> sys \<Rightarrow> sys" where
  "publish_event redis e event s =
     (case queuesByAggregateType (ob_aggregateType event) of
        None \<Rightarrow> upd_db (save_outbox (attempt_failed ''No queue routed for aggregateType'' event)) s
      | Some queues \<Rightarrow>
          (case find (\<lambda>q. redis q event \<noteq> None) queues of
             None \<Rightarrow> upd_db (save_outbox (published e event)) (add_jobs redis queues event s)
           | Some q \<Rightarrow>
               upd_db (save_outbox (attempt_failed (case redis q event of None \<Rightarrow> [] | Some m \<Rightarrow> m) event))
                 (add_jobs redis queues event s)))"

definition pending_batch :: "(uuid \<Rightarrow> bool) \<Rightarrow> database \<Rightarrow> OutboxEvent list" where
  "pending_batch locked d =
     take BATCH_SIZE' (filter (\<lambda>x. ob_status x = OutboxStatus.PENDING \<and> \<not> locked (ob_id x)) (outbox_events d))"

text \<open>
  One poll. \<open>commit\<close> is the outcome of the commit: when it fails the rows are as before, but the jobs
  are in the queues; the error is only logged.
\<close>

definition poll :: "queue_outcome \<Rightarrow> env \<Rightarrow> (uuid \<Rightarrow> bool) \<Rightarrow> unit result \<Rightarrow> sys \<Rightarrow> sys" where
  "poll redis e locked commit s =
     snd (transaction (\<lambda>t. (commit, fold (publish_event redis e) (pending_batch locked (db t)) t)) s)"

section \<open>The relay refines a mailbox\<close>

text \<open>
  What the relay promises, without rows, batches and failures: events wait until they have been
  delivered to every queue of their kind; a delivery can happen more than once, and it stays.
\<close>

record mailbox =
  waiting :: "(uuid \<times> string) set"
  delivered :: "(string \<times> uuid) set"

inductive mailbox_step :: "mailbox \<Rightarrow> mailbox \<Rightarrow> bool" where
  deliver: "(i, t) \<in> waiting m \<Longrightarrow> queuesByAggregateType t = Some qs \<Longrightarrow> q \<in> set qs \<Longrightarrow>
     mailbox_step m (m\<lparr>delivered := insert (q, i) (delivered m)\<rparr>)"
| finish: "(i, t) \<in> waiting m \<Longrightarrow> queuesByAggregateType t = Some qs \<Longrightarrow> \<forall>q \<in> set qs. (q, i) \<in> delivered m \<Longrightarrow>
     mailbox_step m (m\<lparr>waiting := waiting m - {(i, t)}\<rparr>)"

inductive_cases mailbox_stepE: "mailbox_step m m'"

definition pending_events :: "database \<Rightarrow> OutboxEvent list" where
  "pending_events d = filter (\<lambda>x. ob_status x = OutboxStatus.PENDING) (outbox_events d)"

definition mailbox_of :: "sys \<Rightarrow> mailbox" where
  "mailbox_of s =
     \<lparr>waiting = (\<lambda>x. (ob_id x, ob_aggregateType x)) ` set (pending_events (db s)),
      delivered = {(q, ob_id x) |q x. QueueAddOutboxJob q x \<in> set (effects s)}\<rparr>"

definition outbox_ids_ok :: "database \<Rightarrow> bool" where
  "outbox_ids_ok d \<longleftrightarrow> distinct (map ob_id (outbox_events d))"

lemma add_jobs_run:
  "db (add_jobs redis qs x s) = db s"
  "effects (add_jobs redis qs x s) = effects s @ map (\<lambda>q. QueueAddOutboxJob q x) (filter (\<lambda>q. redis q x = None) qs)"
proof -
  have "db (fold (\<lambda>q. emit (QueueAddOutboxJob q x)) ps t) = db t \<and>
      effects (fold (\<lambda>q. emit (QueueAddOutboxJob q x)) ps t) = effects t @ map (\<lambda>q. QueueAddOutboxJob q x) ps" for ps t
    by (induction ps arbitrary: t) auto
  then show "db (add_jobs redis qs x s) = db s"
    "effects (add_jobs redis qs x s) = effects s @ map (\<lambda>q. QueueAddOutboxJob q x) (filter (\<lambda>q. redis q x = None) qs)"
    by (simp_all add: add_jobs_def)
qed

lemma save_outbox_frame [simp]:
  "outbox_events (save_outbox x d) = put_row ob_id x (outbox_events d)"
  by (simp add: save_outbox_def)

lemma deliver_all:
  assumes "(i, t) \<in> waiting m" "queuesByAggregateType t = Some qs" "set ps \<subseteq> set qs"
  shows "mailbox_step\<^sup>*\<^sup>* m (m\<lparr>delivered := delivered m \<union> (\<lambda>q. (q, i)) ` set ps\<rparr>)"
  using assms(3)
proof (induction ps rule: rev_induct)
  case (snoc q ps)
  let ?m = "m\<lparr>delivered := delivered m \<union> (\<lambda>q. (q, i)) ` set ps\<rparr>"
  have "mailbox_step\<^sup>*\<^sup>* m ?m" using snoc by simp
  moreover have "mailbox_step ?m (?m\<lparr>delivered := insert (q, i) (delivered ?m)\<rparr>)"
    by (rule mailbox_step.deliver) (use assms(1,2) snoc.prems in auto)
  moreover have "?m\<lparr>delivered := insert (q, i) (delivered ?m)\<rparr>
      = m\<lparr>delivered := delivered m \<union> (\<lambda>q. (q, i)) ` set (ps @ [q])\<rparr>" by simp
  ultimately show ?case by (metis rtranclp.rtrancl_into_rtrancl)
qed simp

text \<open>A row rewritten with its status kept still waits; rewritten as published it is gone.\<close>

lemma waiting_put:
  assumes dist: "distinct (map ob_id rows)" and x: "x \<in> set rows" "ob_status x = OutboxStatus.PENDING"
    and y: "ob_id y = ob_id x" "ob_aggregateType y = ob_aggregateType x"
  shows "(\<lambda>z. (ob_id z, ob_aggregateType z)) ` set (filter (\<lambda>z. ob_status z = OutboxStatus.PENDING) (put_row ob_id y rows))
     = (if ob_status y = OutboxStatus.PENDING
        then (\<lambda>z. (ob_id z, ob_aggregateType z)) ` set (filter (\<lambda>z. ob_status z = OutboxStatus.PENDING) rows)
        else (\<lambda>z. (ob_id z, ob_aggregateType z)) ` set (filter (\<lambda>z. ob_status z = OutboxStatus.PENDING) rows)
          - {(ob_id x, ob_aggregateType x)})"
proof -
  let ?f = "\<lambda>z. (ob_id z, ob_aggregateType z)" and ?P = "\<lambda>z. ob_status z = OutboxStatus.PENDING"
  let ?W = "set (filter ?P rows)"
  have eq: "z = x" if "z \<in> set rows" "ob_id z = ob_id x" for z
    using same_row [OF dist that(1) x(1) that(2)] .
  have "set (put_row ob_id y rows) = (\<lambda>z. if z = x then y else z) ` set rows"
    unfolding put_row_def set_map by (rule image_cong [OF refl]) (use eq y(1) in metis)
  also have "\<dots> = insert y (set rows - {x})" using x(1) by auto
  finally have "set (put_row ob_id y rows) = insert y (set rows - {x})" .
  then have new: "set (filter ?P (put_row ob_id y rows)) = (if ?P y then insert y (?W - {x}) else ?W - {x})"
    unfolding set_filter by auto
  have fy: "?f y = ?f x" using y by simp
  have W: "insert x (?W - {x}) = ?W" using x by (simp add: insert_absorb)
  have old: "?f ` ?W = insert (?f x) (?f ` (?W - {x}))"
    using image_insert [of ?f x "?W - {x}"] unfolding W .
  have gone: "?f x \<notin> ?f ` (?W - {x})"
  proof
    assume "?f x \<in> ?f ` (?W - {x})"
    then obtain z where "z \<in> ?W - {x}" "?f x = ?f z" by (rule imageE) blast
    then show False using eq [of z] by simp
  qed
  show ?thesis
  proof (cases "?P y")
    case True
    have "?f ` insert y (?W - {x}) = ?f ` ?W" unfolding image_insert fy old ..
    then show ?thesis using True new by simp
  next
    case False
    have "?f ` (?W - {x}) = ?f ` ?W - {?f x}" unfolding old by (rule Diff_insert_absorb [OF gone, symmetric])
    then show ?thesis using False new by simp
  qed
qed

lemma publish_rows:
  "\<exists>y. outbox_events (db (publish_event redis e x s)) = put_row ob_id y (outbox_events (db s)) \<and>
     ob_id y = ob_id x \<and> ob_aggregateType y = ob_aggregateType x"
  by (auto simp: publish_event_def add_jobs_run upd_db_def attempt_failed_def published_def split: option.split)

lemma publish_refines:
  assumes ids: "outbox_ids_ok (db s)" and x: "x \<in> set (outbox_events (db s))" "ob_status x = OutboxStatus.PENDING"
  shows "mailbox_step\<^sup>*\<^sup>* (mailbox_of s) (mailbox_of (publish_event redis e x s))"
proof (cases "queuesByAggregateType (ob_aggregateType x)")
  case None
  have "mailbox_of (publish_event redis e x s) = mailbox_of s"
    using None x waiting_put [OF ids [unfolded outbox_ids_ok_def] x]
    by (simp add: publish_event_def mailbox_of_def pending_events_def upd_db_def attempt_failed_def)
  then show ?thesis by simp
next
  case (Some qs)
  let ?i = "ob_id x" and ?t = "ob_aggregateType x" and ?m = "mailbox_of s"
  let ?ps = "filter (\<lambda>q. redis q x = None) qs"
  let ?sent = "?m\<lparr>delivered := delivered ?m \<union> (\<lambda>q. (q, ?i)) ` set ?ps\<rparr>"
  have w: "(?i, ?t) \<in> waiting ?m" using x by (auto simp: mailbox_of_def pending_events_def)
  have sent: "mailbox_step\<^sup>*\<^sup>* ?m ?sent" by (rule deliver_all [OF w Some]) auto
  have eff: "{(q, ob_id z) |q z. QueueAddOutboxJob q z \<in> set (effects (publish_event redis e x s))}
      = delivered ?m \<union> (\<lambda>q. (q, ?i)) ` set ?ps"
    using Some by (auto simp: publish_event_def upd_db_def add_jobs_run mailbox_of_def split: option.split)
  note put = waiting_put [OF ids [unfolded outbox_ids_ok_def] x]
  show ?thesis
  proof (cases "find (\<lambda>q. redis q x \<noteq> None) qs")
    case None
    have all: "\<forall>q \<in> set qs. (q, ?i) \<in> delivered ?sent" using None by (auto simp: find_None_iff)
    have "mailbox_of (publish_event redis e x s) = ?sent\<lparr>waiting := waiting ?sent - {(?i, ?t)}\<rparr>"
      using Some None eff put [of "published e x"] x
      by (simp add: mailbox_of_def pending_events_def publish_event_def upd_db_def add_jobs_run published_def)
    moreover have "mailbox_step ?sent (?sent\<lparr>waiting := waiting ?sent - {(?i, ?t)}\<rparr>)"
      by (rule mailbox_step.finish [OF _ Some all]) (simp add: w)
    ultimately show ?thesis using sent by (metis rtranclp.rtrancl_into_rtrancl)
  next
    case f: (Some q)
    have "mailbox_of (publish_event redis e x s) = ?sent"
      using Some f eff put [of "attempt_failed (case redis q x of None \<Rightarrow> [] | Some m \<Rightarrow> m) x"] x
      by (simp add: mailbox_of_def pending_events_def publish_event_def upd_db_def add_jobs_run attempt_failed_def)
    then show ?thesis using sent by simp
  qed
qed

lemma publish_ids: "outbox_ids_ok (db s) \<Longrightarrow> outbox_ids_ok (db (publish_event redis e x s))"
  using publish_rows [of redis e x s] by (auto simp: outbox_ids_ok_def keys_put_row)

lemma publish_keeps_others:
  assumes "y \<in> set (outbox_events (db s))" "ob_id y \<noteq> ob_id x"
  shows "y \<in> set (outbox_events (db (publish_event redis e x s)))"
  using publish_rows [of redis e x s] assms by (force simp: put_row_def)

lemma batch_refines:
  assumes "outbox_ids_ok (db s)" "distinct (map ob_id xs)"
    "\<And>x. x \<in> set xs \<Longrightarrow> x \<in> set (outbox_events (db s)) \<and> ob_status x = OutboxStatus.PENDING"
  shows "mailbox_step\<^sup>*\<^sup>* (mailbox_of s) (mailbox_of (fold (publish_event redis e) xs s))"
  using assms
proof (induction xs arbitrary: s)
  case (Cons x xs)
  let ?s = "publish_event redis e x s"
  have "mailbox_step\<^sup>*\<^sup>* (mailbox_of s) (mailbox_of ?s)"
    using publish_refines Cons.prems by simp
  moreover have "mailbox_step\<^sup>*\<^sup>* (mailbox_of ?s) (mailbox_of (fold (publish_event redis e) xs ?s))"
  proof (rule Cons.IH)
    show "outbox_ids_ok (db ?s)" using publish_ids Cons.prems(1) .
    fix y assume y: "y \<in> set xs"
    have "ob_id y \<noteq> ob_id x" using Cons.prems(2) y by (auto simp: image_iff)
    then show "y \<in> set (outbox_events (db ?s)) \<and> ob_status y = OutboxStatus.PENDING"
      using publish_keeps_others Cons.prems(3) y by simp
  qed (use Cons.prems(2) in simp)
  ultimately show ?case by simp
qed simp

lemma pending_batch_rows:
  assumes "outbox_ids_ok d"
  shows "distinct (map ob_id (pending_batch locked d))"
    "x \<in> set (pending_batch locked d) \<Longrightarrow> x \<in> set (outbox_events d) \<and> ob_status x = OutboxStatus.PENDING"
proof -
  show "distinct (map ob_id (pending_batch locked d))"
    using assms by (simp add: pending_batch_def outbox_ids_ok_def distinct_map_filter take_map [symmetric])
  show "x \<in> set (pending_batch locked d) \<Longrightarrow> x \<in> set (outbox_events d) \<and> ob_status x = OutboxStatus.PENDING"
    by (auto simp: pending_batch_def dest: in_set_takeD)
qed

text \<open>When the commit fails only the deliveries remain.\<close>

lemma deliveries_remain:
  "mailbox_step\<^sup>*\<^sup>* m m' \<Longrightarrow>
   mailbox_step\<^sup>*\<^sup>* m (m\<lparr>delivered := delivered m'\<rparr>) \<and> waiting m' \<subseteq> waiting m \<and> delivered m \<subseteq> delivered m'"
proof (induction rule: rtranclp_induct)
  case (step m' m'')
  from step(2) show ?case
  proof (cases rule: mailbox_stepE [consumes 1, case_names deliver finish])
    case (deliver i t qs q)
    have "mailbox_step (m\<lparr>delivered := delivered m'\<rparr>)
        ((m\<lparr>delivered := delivered m'\<rparr>)\<lparr>delivered := insert (q, i) (delivered (m\<lparr>delivered := delivered m'\<rparr>))\<rparr>)"
      by (rule mailbox_step.deliver) (use deliver step.IH in auto)
    then show ?thesis using deliver step.IH by (auto intro: rtranclp.rtrancl_into_rtrancl)
  next
    case (finish i t qs)
    then show ?thesis using step.IH by auto
  qed
qed simp

text \<open>
  C21: The relay implements a mailbox that loses nothing: whatever queue refuses a job, whichever rows
  other instances have locked, and even if the commit at the end of a poll fails, a poll only delivers
  waiting events to queues of their kind and takes an event out of the waiting ones after it has been
  delivered to all of them. So an event is waiting or everywhere; it can arrive twice, never not at all.
\<close>
theorem relay_refines_mailbox:
  assumes "outbox_ids_ok (db s)"
  shows "mailbox_step\<^sup>*\<^sup>* (mailbox_of s) (mailbox_of (poll redis e locked commit s)) \<and>
         outbox_ids_ok (db (poll redis e locked commit s))"
proof -
  let ?t = "fold (publish_event redis e) (pending_batch locked (db s)) s"
  note rows = pending_batch_rows [OF assms, where locked = locked]
  have ref: "mailbox_step\<^sup>*\<^sup>* (mailbox_of s) (mailbox_of ?t)"
    by (rule batch_refines [OF assms rows(1)]) (use rows(2) in simp)
  have ids: "outbox_ids_ok (db (fold (publish_event redis e) xs u))" if "outbox_ids_ok (db u)" for xs u
    using that by (induction xs arbitrary: u) (simp_all add: publish_ids)
  show ?thesis
  proof (cases commit)
    case (Inl err)
    have "mailbox_of (?t\<lparr>db := db s\<rparr>) = (mailbox_of s)\<lparr>delivered := delivered (mailbox_of ?t)\<rparr>"
      by (simp add: mailbox_of_def)
    then show ?thesis using Inl deliveries_remain [OF ref] assms by (simp add: poll_def transaction_def)
  next
    case (Inr u)
    then show ?thesis using ref ids [OF assms] by (simp add: poll_def transaction_def)
  qed
qed

section \<open>The relay empties the outbox\<close>

lemma pending_save:
  assumes ids: "outbox_ids_ok d" and p: "pending_events d = x # r"
    and y: "ob_id y = ob_id x" "ob_status y \<noteq> OutboxStatus.PENDING"
  shows "pending_events (save_outbox y d) = r"
proof -
  let ?P = "\<lambda>z. ob_status z = OutboxStatus.PENDING"
  have put: "filter ?P (put_row ob_id y rows) = filter (\<lambda>z. ob_id z \<noteq> ob_id y) (filter ?P rows)" for rows
    using y(2) by (induction rows) (auto simp: put_row_def)
  have "pending_events (save_outbox y d) = filter (\<lambda>z. ob_id z \<noteq> ob_id x) (pending_events d)"
    unfolding pending_events_def save_outbox_frame put y(1) ..
  then have "pending_events (save_outbox y d) = filter (\<lambda>z. ob_id z \<noteq> ob_id x) (x # r)"
    unfolding p .
  moreover have "distinct (map ob_id (x # r))"
    using ids p [symmetric] by (simp add: outbox_ids_ok_def pending_events_def distinct_map_filter)
  moreover have "filter (\<lambda>z. ob_id z \<noteq> ob_id x) r = r" if "distinct (map ob_id (x # r))"
    by (rule filter_True) (use that in \<open>metis distinct.simps(2) image_eqI list.simps(9) set_map\<close>)
  ultimately show ?thesis by simp
qed

lemma publish_up:
  assumes "\<And>q z. redis q z = None" "queuesByAggregateType (ob_aggregateType x) \<noteq> None"
  shows "db (publish_event redis e x s) = save_outbox (published e x) (db s)"
proof -
  obtain qs where "queuesByAggregateType (ob_aggregateType x) = Some qs" using assms(2) by auto
  moreover have "find (\<lambda>q. redis q x \<noteq> None) qs = None" using assms(1) by (simp add: find_None_iff)
  ultimately show ?thesis by (simp add: publish_event_def upd_db_def add_jobs_run)
qed

lemma drain_batch:
  assumes up: "\<And>q z. redis q z = None"
  shows "outbox_ids_ok (db s) \<Longrightarrow> pending_events (db s) = xs @ ys \<Longrightarrow>
    list_all (\<lambda>x. queuesByAggregateType (ob_aggregateType x) \<noteq> None) xs \<Longrightarrow>
    pending_events (db (fold (publish_event redis e) xs s)) = ys \<and>
    outbox_ids_ok (db (fold (publish_event redis e) xs s))"
proof (induction xs arbitrary: s)
  case (Cons x xs)
  let ?s = "publish_event redis e x s"
  have "pending_events (db ?s) = xs @ ys"
    using publish_up [OF up] Cons.prems
    by (auto intro!: pending_save simp: published_def)
  then show ?case using Cons.IH [of ?s] publish_ids [OF Cons.prems(1)] Cons.prems(3) by simp
qed simp

lemma poll_up:
  assumes "\<And>q z. redis q z = None" "outbox_ids_ok (db s)"
    "list_all (\<lambda>x. queuesByAggregateType (ob_aggregateType x) \<noteq> None) (pending_events (db s))"
  shows "pending_events (db (poll redis e (\<lambda>i. False) (Inr ()) s)) = drop BATCH_SIZE' (pending_events (db s)) \<and>
    outbox_ids_ok (db (poll redis e (\<lambda>i. False) (Inr ()) s))"
proof -
  let ?xs = "take BATCH_SIZE' (pending_events (db s))"
  have "list_all (\<lambda>x. queuesByAggregateType (ob_aggregateType x) \<noteq> None) ?xs"
    using assms(3) by (auto simp: list_all_iff dest: in_set_takeD)
  then show ?thesis
    using drain_batch [OF assms(1,2), where xs = ?xs and ys = "drop BATCH_SIZE' (pending_events (db s))" and e = e]
    by (simp add: poll_def transaction_def pending_batch_def pending_events_def)
qed

text \<open>
  While the queues take jobs and no other instance holds rows, the relay empties the outbox in the
  order the events were written: every poll publishes the first twenty waiting events, so after n polls
  what still waits is the list of waiting events without its first 20 * n.
\<close>
theorem outbox_drains:
  assumes up: "\<And>q x. redis q x = None" and ids: "outbox_ids_ok (db s)"
    and routed: "list_all (\<lambda>x. queuesByAggregateType (ob_aggregateType x) \<noteq> None) (pending_events (db s))"
  shows "pending_events (db ((poll redis e (\<lambda>i. False) (Inr ()) ^^ n) s)) = drop (20 * n) (pending_events (db s))"
proof -
  let ?p = "poll redis e (\<lambda>i. False) (Inr ())"
  have "pending_events (db ((?p ^^ n) s)) = drop (20 * n) (pending_events (db s)) \<and> outbox_ids_ok (db ((?p ^^ n) s))"
  proof (induction n)
    case (Suc n)
    have "list_all (\<lambda>x. queuesByAggregateType (ob_aggregateType x) \<noteq> None) (pending_events (db ((?p ^^ n) s)))"
      using routed Suc by (auto simp: list_all_iff dest: in_set_dropD)
    then show ?case
      using poll_up [OF up, where s = "(?p ^^ n) s" and e = e] Suc by (simp add: BATCH_SIZE'_def add.commute)
  qed (simp add: ids)
  then show ?thesis ..
qed

section \<open>Witnesses\<close>

definition outbox_row :: "uuid \<Rightarrow> string \<Rightarrow> OutboxEvent" where
  "outbox_row i t = \<lparr>ob_id = i, ob_eventType = ''STOCK_CHANGED'', ob_aggregateType = t, ob_aggregateId = 70 + i,
     ob_payload = [], ob_correlationId = 90, ob_publishedAt = None, ob_status = OutboxStatus.PENDING,
     ob_attempts = 0, ob_lastError = None\<rparr>"

definition relay_sys :: sys where
  "relay_sys = start_sys (empty_db\<lparr>next_id := 50,
     outbox_events := [outbox_row 1 ''Product'', outbox_row 2 ''Category'', outbox_row 3 ''Auction'']\<rparr>)"

definition realtime_down :: queue_outcome where
  "realtime_down q x = (if q = ''realtime'' then Some ''down'' else None)"

lemma relay_sys_ok [simp]: "outbox_ids_ok (db relay_sys)"
  by (simp add: outbox_ids_ok_def relay_sys_def start_sys_def outbox_row_def)

lemma relay_refines_mailbox_witness:
  "mailbox_step\<^sup>*\<^sup>* (mailbox_of relay_sys)
     (mailbox_of (poll realtime_down (sample_env 5) (\<lambda>i. False) (Inr ()) relay_sys)) \<and>
   map ob_id (pending_events (db (poll realtime_down (sample_env 5) (\<lambda>i. False) (Inr ()) relay_sys))) = [1, 3]"
proof -
  have "map ob_id (pending_events (db (poll realtime_down (sample_env 5) (\<lambda>i. False) (Inr ()) relay_sys))) = [1, 3]"
    by code_simp
  then show ?thesis using relay_refines_mailbox [OF relay_sys_ok] by simp
qed

lemma outbox_drains_witness:
  "pending_events (db ((poll (\<lambda>q x. None) (sample_env 5) (\<lambda>i. False) (Inr ()) ^^ 2) relay_sys)) = []"
proof -
  have "list_all (\<lambda>x. queuesByAggregateType (ob_aggregateType x) \<noteq> None) (pending_events (db relay_sys))"
    "length (pending_events (db relay_sys)) = 3" by code_simp+
  then show ?thesis
    using outbox_drains [where redis = "\<lambda>q x. None" and e = "sample_env 5" and n = 2 and s = relay_sys] by simp
qed

end
