(* ===== verification/Dead_Letters.thy ===== *)
theory Dead_Letters
  imports Store
begin

text \<open>
  Jobs that exhausted their attempts (\<open>modules/outbox/dead-letter.service.ts\<close>) and the listener that
  records them and follows their replays (\<open>dead-letter-listener.service.ts\<close>). Every instance of the
  application runs the listener and is told about every job that failed or completed, so one failure is
  handled once per instance. What Redis still knows of a job is an argument of the listener.
\<close>

section \<open>Jobs\<close>

record Job =
  jb_id :: job_id
  jb_name :: string
  jb_data :: "(string \<times> json) list"
  jb_attempts :: "int option"
  jb_attemptsMade :: int
  jb_finishedOn :: "time option"

text \<open>The ids in the data of a job are texts; a field of another type is read as absent.\<close>

definition id_field :: "string \<Rightarrow> (string \<times> json) list \<Rightarrow> uuid option" where
  "id_field name data = (case map_of data name of Some (JId i) \<Rightarrow> Some i | _ \<Rightarrow> None)"

definition text_field :: "string \<Rightarrow> (string \<times> json) list \<Rightarrow> string option" where
  "text_field name data = (case map_of data name of Some (JStr t) \<Rightarrow> Some t | _ \<Rightarrow> None)"

definition MONITORED_QUEUES :: "string list" where
  "MONITORED_QUEUES =
     [''search-sync'', ''seller-order-processing'', ''notifications'', ''realtime'', ''auction-finalization'']"

definition getQueue :: "string \<Rightarrow> string option" where
  "getQueue name = (if name \<in> set MONITORED_QUEUES then Some name else None)"

text \<open>
  The column \<open>correlationId\<close> takes uuids; of the ids of jobs only those of outbox jobs are, and the
  insert of another text fails.
\<close>

fun uuid_of_job :: "job_id \<Rightarrow> uuid option" where
  "uuid_of_job (OutboxJobId i) = Some i"
| "uuid_of_job _ = None"

record RecordDeadLetterInput =
  ri_originalQueue :: string
  ri_jobId :: job_id
  ri_outboxEventId :: "uuid option"
  ri_eventType :: string
  ri_aggregateType :: "string option"
  ri_aggregateId :: "uuid option"
  ri_payload :: "(string \<times> json) list"
  ri_attemptsMade :: int
  ri_failureReason :: string
  ri_correlationId :: "uuid option"

section \<open>The service\<close>

definition is_recorded :: "string \<Rightarrow> job_id \<Rightarrow> database \<Rightarrow> bool" where
  "is_recorded queueName jobId d \<longleftrightarrow>
     (\<exists>x \<in> set (dead_letters d). dl_originalQueue x = queueName \<and> dl_jobId x = jobId)"

definition new_dead_letter :: "env \<Rightarrow> RecordDeadLetterInput \<Rightarrow> uuid \<Rightarrow> uuid \<Rightarrow> DeadLetterEvent" where
  "new_dead_letter e input correlationId i =
     \<lparr>dl_id = i, dl_originalQueue = ri_originalQueue input, dl_jobId = ri_jobId input,
       dl_outboxEventId = ri_outboxEventId input, dl_eventType = ri_eventType input,
       dl_aggregateType = ri_aggregateType input, dl_aggregateId = ri_aggregateId input,
       dl_payload = ri_payload input, dl_attemptsMade = ri_attemptsMade input,
       dl_failureReason = ri_failureReason input, dl_correlationId = correlationId,
       dl_failedAt = now e, dl_status = DeadLetterStatus.PENDING, dl_replayedAt = None\<rparr>"

definition insert_dead_letter ::
  "env \<Rightarrow> RecordDeadLetterInput \<Rightarrow> sys \<Rightarrow> DeadLetterEvent result \<times> sys" where
  "insert_dead_letter e input s =
     (case ri_correlationId input of
        None \<Rightarrow> (Inl (PlainError ''invalid input syntax for type uuid''), s)
      | Some c \<Rightarrow>
          if is_recorded (ri_originalQueue input) (ri_jobId input) (db s) then (Inl UniqueViolation, s)
          else (Inr (new_dead_letter e input c (next_id (db s))),
                upd_db (\<lambda>d. d\<lparr>next_id := next_id d + 1,
                  dead_letters := dead_letters d @ [new_dead_letter e input c (next_id d)]\<rparr>) s))"

definition record_dead_letter ::
  "env \<Rightarrow> RecordDeadLetterInput \<Rightarrow> sys \<Rightarrow> DeadLetterEvent option result \<times> sys" where
  "record_dead_letter e input s =
     (case insert_dead_letter e input s of
        (Inl err, s1) \<Rightarrow> (if isUniqueViolation err then Inr None else Inl err, s1)
      | (Inr entry, s1) \<Rightarrow> (Inr (Some entry), increment ''queue_dead_letter_total'' s1))"

definition list_dead_letters :: "DeadLetterStatus option \<Rightarrow> database \<Rightarrow> DeadLetterEvent list" where
  "list_dead_letters status d =
     sort_key (\<lambda>x. - dl_failedAt x)
       (filter (\<lambda>x. case status of None \<Rightarrow> True | Some st \<Rightarrow> dl_status x = st) (dead_letters d))"

definition find_dead_letter :: "uuid \<Rightarrow> database \<Rightarrow> DeadLetterEvent option" where
  "find_dead_letter i d = by_id dl_id i (dead_letters d)"

definition findReplayingByOutboxEventId :: "string \<Rightarrow> uuid \<Rightarrow> database \<Rightarrow> DeadLetterEvent option" where
  "findReplayingByOutboxEventId originalQueue outboxEventId d =
     find (\<lambda>x. dl_originalQueue x = originalQueue \<and> dl_outboxEventId x = Some outboxEventId \<and>
               dl_status x = REPLAYING) (dead_letters d)"

definition update_dead_letter :: "uuid \<Rightarrow> (DeadLetterEvent \<Rightarrow> DeadLetterEvent) \<Rightarrow> database \<Rightarrow> database" where
  "update_dead_letter i f d =
     d\<lparr>dead_letters := map (\<lambda>x. if dl_id x = i then f x else x) (dead_letters d)\<rparr>"

definition markReplayFailed :: "uuid \<Rightarrow> sys \<Rightarrow> sys" where
  "markReplayFailed i s =
     increment ''queue_replay_failures_total''
       (upd_db (update_dead_letter i (\<lambda>x. x\<lparr>dl_status := REPLAY_FAILED\<rparr>)) s)"

definition markReplayed :: "env \<Rightarrow> uuid \<Rightarrow> sys \<Rightarrow> sys" where
  "markReplayed e i s =
     upd_db (update_dead_letter i (\<lambda>x. x\<lparr>dl_status := REPLAYED, dl_replayedAt := Some (now e)\<rparr>)) s"

text \<open>\<open>added\<close> is the outcome of adding the job to its queue.\<close>

definition replay :: "env \<Rightarrow> unit result \<Rightarrow> uuid \<Rightarrow> sys \<Rightarrow> DeadLetterEvent result \<times> sys" where
  "replay e added i s =
     (case find_dead_letter i (db s) of
        None \<Rightarrow> (Inl (NotFoundException ''Dead-letter entry not found''), s)
      | Some entry \<Rightarrow>
          (case getQueue (dl_originalQueue entry) of
             None \<Rightarrow> (Inl (NotFoundException ''No queue registered''), s)
           | Some queue \<Rightarrow>
               let s1 = increment ''queue_replay_total''
                          (upd_db (update_dead_letter i (\<lambda>x. x\<lparr>dl_status := REPLAYING\<rparr>)) s)
               in case added of
                    Inl err \<Rightarrow> (Inl err, s1)
                  | Inr _ \<Rightarrow>
                      (case find_dead_letter i (db s1) of
                         None \<Rightarrow> Inl (PlainError ''EntityNotFoundError'')
                       | Some row \<Rightarrow> Inr row,
                       emit (QueueAddReplayJob queue (dl_eventType entry) (dl_payload entry)
                               (ReplayJobId i (now e))) s1)))"

section \<open>The listener\<close>

definition exhausted :: "Job \<Rightarrow> bool" where
  "exhausted job \<longleftrightarrow> jb_finishedOn job \<noteq> None \<and>
     (case jb_attempts job of None \<Rightarrow> 1 | Some n \<Rightarrow> n) \<le> jb_attemptsMade job"

definition dead_letter_input :: "string \<Rightarrow> job_id \<Rightarrow> string \<Rightarrow> Job \<Rightarrow> RecordDeadLetterInput" where
  "dead_letter_input queueName jobId failedReason job =
     \<lparr>ri_originalQueue = queueName, ri_jobId = jobId,
       ri_outboxEventId = id_field ''outboxEventId'' (jb_data job),
       ri_eventType = (case text_field ''eventType'' (jb_data job) of Some t \<Rightarrow> t | None \<Rightarrow> jb_name job),
       ri_aggregateType = text_field ''aggregateType'' (jb_data job),
       ri_aggregateId = id_field ''aggregateId'' (jb_data job), ri_payload = jb_data job,
       ri_attemptsMade = jb_attemptsMade job, ri_failureReason = failedReason,
       ri_correlationId = (case id_field ''correlationId'' (jb_data job) of
                             Some c \<Rightarrow> Some c | None \<Rightarrow> uuid_of_job jobId)\<rparr>"

definition replaying_entry :: "string \<Rightarrow> Job \<Rightarrow> database \<Rightarrow> DeadLetterEvent option" where
  "replaying_entry queueName job d =
     (case id_field ''outboxEventId'' (jb_data job) of
        None \<Rightarrow> None
      | Some x \<Rightarrow> findReplayingByOutboxEventId queueName x d)"

definition handleFailed ::
  "env \<Rightarrow> (job_id \<Rightarrow> Job option) \<Rightarrow> string \<Rightarrow> job_id \<Rightarrow> string \<Rightarrow> sys \<Rightarrow> unit result \<times> sys" where
  "handleFailed e getJob queueName jobId failedReason s =
     (case getJob jobId of
        None \<Rightarrow> (Inr (), s)
      | Some job \<Rightarrow>
          if \<not> exhausted job then (Inr (), s)
          else (case replaying_entry queueName job (db s) of
                  Some replaying \<Rightarrow> (Inr (), markReplayFailed (dl_id replaying) s)
                | None \<Rightarrow>
                    (case record_dead_letter e (dead_letter_input queueName jobId failedReason job) s of
                       (Inl err, s1) \<Rightarrow> (Inl err, s1)
                     | (Inr _, s1) \<Rightarrow> (Inr (), s1))))"

definition handleCompleted ::
  "env \<Rightarrow> (job_id \<Rightarrow> Job option) \<Rightarrow> string \<Rightarrow> job_id \<Rightarrow> sys \<Rightarrow> unit result \<times> sys" where
  "handleCompleted e getJob queueName jobId s =
     (case getJob jobId of
        None \<Rightarrow> (Inr (), s)
      | Some job \<Rightarrow>
          (case replaying_entry queueName job (db s) of
             None \<Rightarrow> (Inr (), s)
           | Some replaying \<Rightarrow>
               (Inr (), increment ''queue_replay_succeeded_total'' (markReplayed e (dl_id replaying) s))))"

text \<open>Everything the listener can do, in any order, on any instance, with whatever Redis still knows.\<close>

inductive listener_step :: "sys \<Rightarrow> sys \<Rightarrow> bool" where
  failed: "listener_step s (snd (handleFailed e getJob queueName jobId failedReason s))"
| completed: "listener_step s (snd (handleCompleted e getJob queueName jobId s))"

inductive_cases listener_stepE: "listener_step s s'"

section \<open>What the rows go through\<close>

definition dead_letters_ok :: "database \<Rightarrow> bool" where
  "dead_letters_ok d \<longleftrightarrow>
     distinct (map dl_id (dead_letters d)) \<and> (\<forall>x \<in> set (dead_letters d). dl_id x < next_id d) \<and>
     distinct (map (\<lambda>x. (dl_originalQueue x, dl_jobId x)) (dead_letters d))"

lemma update_dead_letter_rows [simp]:
  "dead_letters (update_dead_letter i f d) = map (\<lambda>x. if dl_id x = i then f x else x) (dead_letters d)"
  "next_id (update_dead_letter i f d) = next_id d"
  by (simp_all add: update_dead_letter_def)

lemma update_dead_letter_ok:
  assumes "dead_letters_ok d" "\<And>x. dl_id (f x) = dl_id x"
    "\<And>x. dl_originalQueue (f x) = dl_originalQueue x" "\<And>x. dl_jobId (f x) = dl_jobId x"
  shows "dead_letters_ok (update_dead_letter i f d)"
proof -
  have "map dl_id (map (\<lambda>x. if dl_id x = i then f x else x) xs) = map dl_id xs"
    "map (\<lambda>x. (dl_originalQueue x, dl_jobId x)) (map (\<lambda>x. if dl_id x = i then f x else x) xs)
       = map (\<lambda>x. (dl_originalQueue x, dl_jobId x)) xs" for xs
    by (induction xs) (auto simp: assms(2-4))
  then show ?thesis using assms(1,2) by (auto simp: dead_letters_ok_def simp del: map_map)
qed

lemma find_dead_letter_update:
  assumes "\<And>x. dl_id (f x) = dl_id x"
  shows "find_dead_letter j (update_dead_letter i f d)
     = (if j = i then map_option f (find_dead_letter j d) else find_dead_letter j d)"
proof -
  have "find (\<lambda>x. dl_id x = j) (map (\<lambda>x. if dl_id x = i then f x else x) xs)
     = (if j = i then map_option f (find (\<lambda>x. dl_id x = j) xs) else find (\<lambda>x. dl_id x = j) xs)" for xs
    by (induction xs) (auto simp: assms)
  then show ?thesis by (simp add: find_dead_letter_def by_id_def)
qed

lemma record_dead_letter_cases:
  "record_dead_letter e input s =
     (case ri_correlationId input of
        None \<Rightarrow> (Inl (PlainError ''invalid input syntax for type uuid''), s)
      | Some c \<Rightarrow>
          if is_recorded (ri_originalQueue input) (ri_jobId input) (db s) then (Inr None, s)
          else (Inr (Some (new_dead_letter e input c (next_id (db s)))),
                increment ''queue_dead_letter_total''
                  (upd_db (\<lambda>d. d\<lparr>next_id := next_id d + 1,
                     dead_letters := dead_letters d @ [new_dead_letter e input c (next_id d)]\<rparr>) s)))"
  by (simp add: record_dead_letter_def insert_dead_letter_def split: option.split)

lemma replaying_entry_SomeD:
  "replaying_entry q job d = Some x \<Longrightarrow>
   x \<in> set (dead_letters d) \<and> dl_status x = REPLAYING \<and> dl_originalQueue x = q \<and>
   dl_outboxEventId x = id_field ''outboxEventId'' (jb_data job) \<and> dl_outboxEventId x \<noteq> None"
  by (auto simp: replaying_entry_def findReplayingByOutboxEventId_def split: option.splits dest!: find_SomeD)

lemma record_dead_letter_ok:
  assumes "dead_letters_ok (db s)"
  shows "dead_letters_ok (db (snd (record_dead_letter e input s)))"
  using assms
  by (force simp: record_dead_letter_cases dead_letters_ok_def is_recorded_def new_dead_letter_def split: option.split)

lemma listener_ok:
  assumes "listener_step s s'" "dead_letters_ok (db s)"
  shows "dead_letters_ok (db s')"
  using assms(1)
proof (cases rule: listener_stepE [consumes 1, case_names failed completed])
  case (failed e getJob q j reason)
  then show ?thesis
    using assms(2) record_dead_letter_ok [OF assms(2)]
    by (auto simp: handleFailed_def markReplayFailed_def update_dead_letter_ok split: option.split prod.split sum.split)
       (metis snd_conv)+
next
  case (completed e getJob q j)
  then show ?thesis
    using assms(2) by (auto simp: handleCompleted_def markReplayed_def update_dead_letter_ok split: option.split)
qed

text \<open>What a dead letter is for: finding the job again and adding it to its queue again.\<close>

definition job_part :: "DeadLetterEvent \<Rightarrow> uuid \<times> string \<times> job_id \<times> string \<times> (string \<times> json) list" where
  "job_part x = (dl_id x, dl_originalQueue x, dl_jobId x, dl_eventType x, dl_payload x)"

definition keeps_jobs :: "sys \<Rightarrow> sys \<Rightarrow> bool" where
  "keeps_jobs s s' \<longleftrightarrow> job_part ` set (dead_letters (db s)) \<subseteq> job_part ` set (dead_letters (db s'))"

lemma keeps_jobs_refl: "keeps_jobs s s"
  by (simp add: keeps_jobs_def)

lemma keeps_jobs_update:
  assumes "\<And>x. job_part (f x) = job_part x"
  shows "job_part ` set (map (\<lambda>x. if dl_id x = i then f x else x) xs) = job_part ` set xs"
proof -
  have "job_part (if dl_id x = i then f x else x) = job_part x" for x by (simp add: assms)
  then show ?thesis by (simp only: set_map image_image)
qed

lemma keeps_jobs_record: "keeps_jobs s (snd (record_dead_letter e input s))"
  by (auto simp: keeps_jobs_def record_dead_letter_cases split: option.split)

lemma handleFailed_keeps: "keeps_jobs s (snd (handleFailed e getJob q j reason s))"
proof (cases "getJob j")
  case (Some job)
  let ?r = "record_dead_letter e (dead_letter_input q j reason job) s"
  have "snd (case ?r of (Inl err, s1) \<Rightarrow> (Inl err, s1) | (Inr _, s1) \<Rightarrow> (Inr (), s1)) = snd ?r"
    by (simp split: prod.split sum.split)
  moreover have "keeps_jobs s (markReplayFailed i s)" for i
    using keeps_jobs_update [of "\<lambda>x. x\<lparr>dl_status := REPLAY_FAILED\<rparr>"]
    by (simp add: keeps_jobs_def markReplayFailed_def job_part_def)
  ultimately show ?thesis
    using Some keeps_jobs_record by (simp add: handleFailed_def keeps_jobs_refl split: option.split)
qed (simp add: handleFailed_def keeps_jobs_refl)

lemma listener_keeps_jobs: "listener_step\<^sup>*\<^sup>* s s' \<Longrightarrow> keeps_jobs s s'"
proof (induction rule: rtranclp_induct)
  case (step t u)
  from step(2) have "keeps_jobs t u"
  proof (cases rule: listener_stepE [consumes 1, case_names failed completed])
    case (failed e getJob q j reason)
    then show ?thesis using handleFailed_keeps by simp
  next
    case (completed e getJob q j)
    then show ?thesis
      using keeps_jobs_update [of "\<lambda>x. x\<lparr>dl_status := REPLAYED, dl_replayedAt := Some (now e)\<rparr>"]
      by (simp add: handleCompleted_def markReplayed_def keeps_jobs_def job_part_def split: option.split)
  qed
  then show ?case using step.IH by (auto simp: keeps_jobs_def)
qed (simp add: keeps_jobs_def)

text \<open>
  C22: A job that used up its attempts is not lost. When the listener has handled its failure without
  an error, there is a dead letter of its queue that is either the job's own or the one whose replay it
  was, now REPLAY_FAILED; and whatever the listener handles afterwards, every dead letter stays, with
  the queue, event type and payload a replay needs.
\<close>
theorem exhausted_job_is_kept:
  assumes run: "handleFailed e getJob q j reason s = (Inr (), s')"
    and job: "getJob j = Some job" "exhausted job"
    and later: "listener_step\<^sup>*\<^sup>* s' s''"
  shows "(\<exists>x \<in> set (dead_letters (db s')). dl_originalQueue x = q \<and>
            (dl_jobId x = j \<or> dl_status x = REPLAY_FAILED \<and> dl_outboxEventId x \<noteq> None \<and>
               dl_outboxEventId x = id_field ''outboxEventId'' (jb_data job))) \<and>
         job_part ` set (dead_letters (db s)) \<subseteq> job_part ` set (dead_letters (db s')) \<and>
         job_part ` set (dead_letters (db s')) \<subseteq> job_part ` set (dead_letters (db s''))"
proof -
  have "\<exists>x \<in> set (dead_letters (db s')). dl_originalQueue x = q \<and>
            (dl_jobId x = j \<or> dl_status x = REPLAY_FAILED \<and> dl_outboxEventId x \<noteq> None \<and>
               dl_outboxEventId x = id_field ''outboxEventId'' (jb_data job))"
  proof (cases "replaying_entry q job (db s)")
    case None
    then have rec: "snd (record_dead_letter e (dead_letter_input q j reason job) s) = s'"
      "fst (record_dead_letter e (dead_letter_input q j reason job) s) = Inr r \<or>
       (\<exists>r. fst (record_dead_letter e (dead_letter_input q j reason job) s) = Inr r)" for r
      using run job by (auto simp: handleFailed_def split: prod.splits sum.splits)
    then show ?thesis
      by (force simp: record_dead_letter_cases dead_letter_input_def is_recorded_def new_dead_letter_def
          split: option.splits if_splits)
  next
    case (Some x)
    then have s': "s' = markReplayFailed (dl_id x) s" using run job by (simp add: handleFailed_def)
    show ?thesis
      using replaying_entry_SomeD [OF Some] by (intro bexI [of _ "x\<lparr>dl_status := REPLAY_FAILED\<rparr>"])
        (auto simp: s' markReplayFailed_def image_iff)
  qed
  moreover have "keeps_jobs s s'" using handleFailed_keeps [of s e getJob q j reason] run by simp
  moreover have "keeps_jobs s' s''" using listener_keeps_jobs [OF later] .
  ultimately show ?thesis by (simp add: keeps_jobs_def)
qed

section \<open>Replays without an event\<close>

lemma listener_ignores:
  assumes "listener_step s s'" "dead_letters_ok (db s)"
    "find_dead_letter i (db s) = Some x" "dl_outboxEventId x = None"
  shows "find_dead_letter i (db s') = Some x"
proof -
  have other: "dl_id y \<noteq> i" if "replaying_entry q job (db s) = Some y" for q job y
  proof
    assume "dl_id y = i"
    with replaying_entry_SomeD [OF that] assms(2) have "find_dead_letter i (db s) = Some y"
      unfolding find_dead_letter_def dead_letters_ok_def by (metis by_id_unique)
    with assms(3,4) replaying_entry_SomeD [OF that] show False by auto
  qed
  have rec: "find_dead_letter i (db (snd (record_dead_letter e input s))) = Some x" for e input
    using assms(3) by (auto simp: record_dead_letter_cases find_dead_letter_def by_id_append split: option.split)
  from assms(1) show ?thesis
  proof (cases rule: listener_stepE [consumes 1, case_names failed completed])
    case (failed e getJob q j reason)
    then show ?thesis
      using assms(3) other rec [of e "dead_letter_input q j reason (the (getJob j))"]
      by (auto simp: handleFailed_def markReplayFailed_def find_dead_letter_update split: option.split prod.split sum.split)
  next
    case (completed e getJob q j)
    then show ?thesis
      using assms(3) other
      by (auto simp: handleCompleted_def markReplayed_def find_dead_letter_update split: option.split)
  qed
qed

text \<open>
  The listener finds the entry of a replayed job by the outbox event in the job's data. The jobs of
  the auction queue carry none, so replaying one of their dead letters puts it into REPLAYING for good:
  whatever the listener is told afterwards, also that the replay completed or failed, it stays there.
\<close>
theorem replay_without_event_never_ends:
  assumes ok: "dead_letters_ok (db s)"
    and x: "find_dead_letter i (db s) = Some x" "dl_outboxEventId x = None" "getQueue (dl_originalQueue x) = Some q"
    and run: "replay e added i s = (r, s')" and later: "listener_step\<^sup>*\<^sup>* s' s''"
  shows "find_dead_letter i (db s'') = Some (x\<lparr>dl_status := REPLAYING\<rparr>)"
proof -
  have d: "db s' = update_dead_letter i (\<lambda>x. x\<lparr>dl_status := REPLAYING\<rparr>) (db s)"
    using run x by (auto simp: replay_def Let_def split: sum.splits)
  have start: "dead_letters_ok (db s')" "find_dead_letter i (db s') = Some (x\<lparr>dl_status := REPLAYING\<rparr>)"
    using x ok by (simp_all add: d update_dead_letter_ok find_dead_letter_update)
  from later have "dead_letters_ok (db s'') \<and> find_dead_letter i (db s'') = Some (x\<lparr>dl_status := REPLAYING\<rparr>)"
  proof (induction rule: rtranclp_induct)
    case (step t u)
    then show ?case using listener_ok listener_ignores x(2) by simp
  qed (use start in simp)
  then show ?thesis ..
qed

section \<open>One failure, two instances\<close>

text \<open>
  Every instance of the application hears of a failed replay. The first that handles it marks the
  entry REPLAY_FAILED; the second no longer finds a REPLAYING entry and records the replay job as a
  failure of its own, so the same event is in the dead letters twice, the second time as PENDING.
\<close>
theorem failed_replay_recorded_twice:
  assumes ok: "dead_letters_ok (db s)"
    and x: "replaying_entry q job (db s) = Some x"
    and only: "list_all (\<lambda>y. dl_originalQueue y = q \<and> dl_outboxEventId y = dl_outboxEventId x \<and>
                     dl_status y = REPLAYING \<longrightarrow> dl_id y = dl_id x) (dead_letters (db s))"
    and job: "getJob j = Some job" "exhausted job" "\<not> is_recorded q j (db s)"
    and corr: "id_field ''correlationId'' (jb_data job) = Some c"
  shows "dead_letters (db (snd (handleFailed e getJob q j reason (snd (handleFailed e getJob q j reason s)))))
         = map (\<lambda>y. if dl_id y = dl_id x then y\<lparr>dl_status := REPLAY_FAILED\<rparr> else y) (dead_letters (db s)) @
           [new_dead_letter e (dead_letter_input q j reason job) c (next_id (db s))]"
proof -
  obtain v where "dl_outboxEventId x = Some v" using replaying_entry_SomeD [OF x] by blast
  then have v: "id_field ''outboxEventId'' (jb_data job) = Some v" "dl_outboxEventId x = Some v"
    using replaying_entry_SomeD [OF x] by simp_all
  let ?s = "markReplayFailed (dl_id x) s"
  have first: "snd (handleFailed e getJob q j reason s) = ?s" using x job by (simp add: handleFailed_def)
  have "replaying_entry q job (db ?s) = None"
    using only v
    by (auto simp: replaying_entry_def findReplayingByOutboxEventId_def find_None_iff markReplayFailed_def list_all_iff)
  moreover have "\<not> is_recorded q j (db ?s)" using job(3) by (auto simp: is_recorded_def markReplayFailed_def)
  ultimately have "snd (handleFailed e getJob q j reason ?s)
      = snd (record_dead_letter e (dead_letter_input q j reason job) ?s)"
    using job by (simp add: handleFailed_def split: prod.split sum.split)
  then show ?thesis
    using \<open>\<not> is_recorded q j (db ?s)\<close> corr
    by (simp add: first record_dead_letter_cases dead_letter_input_def markReplayFailed_def)
qed

section \<open>Witnesses\<close>

definition lost_job :: Job where
  "lost_job = \<lparr>jb_id = ReplayJobId 40 5, jb_name = ''ORDER_CREATED'',
     jb_data = [(''outboxEventId'', JId 30), (''eventType'', JStr ''ORDER_CREATED''), (''correlationId'', JId 90)],
     jb_attempts = Some 5, jb_attemptsMade = 5, jb_finishedOn = Some 9\<rparr>"

definition dead_letter_row :: "uuid \<Rightarrow> string \<Rightarrow> job_id \<Rightarrow> uuid option \<Rightarrow> DeadLetterStatus \<Rightarrow> DeadLetterEvent" where
  "dead_letter_row i q j x st = \<lparr>dl_id = i, dl_originalQueue = q, dl_jobId = j, dl_outboxEventId = x,
     dl_eventType = ''ORDER_CREATED'', dl_aggregateType = None, dl_aggregateId = None, dl_payload = [],
     dl_attemptsMade = 5, dl_failureReason = ''timeout'', dl_correlationId = 90, dl_failedAt = 3,
     dl_status = st, dl_replayedAt = None\<rparr>"

definition dead_sys :: sys where
  "dead_sys = start_sys (empty_db\<lparr>next_id := 50,
     dead_letters := [dead_letter_row 40 ''notifications'' (OutboxJobId 30) (Some 30) REPLAYING,
       dead_letter_row 41 ''auction-finalization'' (FinalizeJobId 3) None DeadLetterStatus.PENDING]\<rparr>)"

definition one_job :: "job_id \<Rightarrow> Job option" where
  "one_job j = (if j = ReplayJobId 40 5 then Some lost_job else None)"

lemma dead_sys_ok [simp]: "dead_letters_ok (db dead_sys)"
  by (simp add: dead_letters_ok_def dead_sys_def start_sys_def dead_letter_row_def)

lemma exhausted_job_is_kept_witness:
  "\<exists>x \<in> set (dead_letters (db (snd (handleFailed (sample_env 9) one_job ''notifications'' (ReplayJobId 40 5) [] dead_sys)))).
     dl_originalQueue x = ''notifications'' \<and>
     (dl_jobId x = ReplayJobId 40 5 \<or> dl_status x = REPLAY_FAILED \<and> dl_outboxEventId x \<noteq> None \<and>
        dl_outboxEventId x = id_field ''outboxEventId'' (jb_data lost_job))"
proof -
  have "fst (handleFailed (sample_env 9) one_job ''notifications'' (ReplayJobId 40 5) [] dead_sys) = Inr ()"
    by code_simp
  moreover have "one_job (ReplayJobId 40 5) = Some lost_job" "exhausted lost_job" by code_simp+
  ultimately show ?thesis
    using exhausted_job_is_kept [OF prod_eqI _ _ rtranclp.rtrancl_refl] by (metis fst_conv snd_conv prod.collapse)
qed

lemma replay_without_event_never_ends_witness:
  "find_dead_letter 41 (db (snd (handleCompleted (sample_env 9) one_job ''auction-finalization'' (ReplayJobId 41 7)
       (snd (replay (sample_env 7) (Inr ()) 41 dead_sys)))))
   = Some (dead_letter_row 41 ''auction-finalization'' (FinalizeJobId 3) None REPLAYING)"
proof -
  have "find_dead_letter 41 (db dead_sys)
      = Some (dead_letter_row 41 ''auction-finalization'' (FinalizeJobId 3) None DeadLetterStatus.PENDING)"
    "getQueue ''auction-finalization'' = Some ''auction-finalization''" by code_simp+
  then show ?thesis
    using replay_without_event_never_ends [OF dead_sys_ok _ _ _ prod.collapse [symmetric]
        r_into_rtranclp [where r = listener_step, OF listener_step.completed]]
    by (simp add: dead_letter_row_def)
qed

lemma failed_replay_recorded_twice_witness:
  "length (dead_letters (db (snd (handleFailed (sample_env 9) one_job ''notifications'' (ReplayJobId 40 5) []
     (snd (handleFailed (sample_env 9) one_job ''notifications'' (ReplayJobId 40 5) [] dead_sys)))))) = 3"
proof -
  let ?x = "dead_letter_row 40 ''notifications'' (OutboxJobId 30) (Some 30) REPLAYING"
  have "replaying_entry ''notifications'' lost_job (db dead_sys) = Some ?x"
    "list_all (\<lambda>y. dl_originalQueue y = ''notifications'' \<and> dl_outboxEventId y = dl_outboxEventId ?x \<and>
       dl_status y = REPLAYING \<longrightarrow> dl_id y = dl_id ?x) (dead_letters (db dead_sys))"
    "one_job (ReplayJobId 40 5) = Some lost_job" "exhausted lost_job"
    "\<not> is_recorded ''notifications'' (ReplayJobId 40 5) (db dead_sys)"
    "id_field ''correlationId'' (jb_data lost_job) = Some 90"
    "length (dead_letters (db dead_sys)) = 2" by code_simp+
  then show ?thesis
    using failed_replay_recorded_twice [OF dead_sys_ok, of "''notifications''" lost_job ?x one_job "ReplayJobId 40 5" 90 "sample_env 9" "[]"]
    by simp
qed

end
