(* ===== verification/Slug.thy ===== *)
theory Slug
  imports Money
begin

text \<open>
  The texts of the catalogue: \<open>common/utils/slug.ts\<close> (and the copy of \<open>slugify\<close> in
  \<open>modules/sellers/utils/slug.ts\<close>). Strings are lists of code units below 256, as in theory Money.
\<close>

section \<open>Lower case\<close>

definition lower_char :: "char \<Rightarrow> char" where
  "lower_char c =
     (if 65 \<le> code c \<and> code c \<le> 90 \<or> 192 \<le> code c \<and> code c \<le> 222 \<and> code c \<noteq> 215
      then char_of (code c + 32) else c)"

definition js_lower :: "string \<Rightarrow> string" where
  "js_lower s = map lower_char s"

section \<open>slugify\<close>

definition is_slug_char :: "char \<Rightarrow> bool" where
  "is_slug_char c \<longleftrightarrow> 97 \<le> code c \<and> code c \<le> 122 \<or> is_digit c"

text \<open>\<open>replace(/[^a-z0-9]+/g, '-')\<close>: a hyphen for every run of other characters.\<close>

function hyphenate :: "string \<Rightarrow> string" where
  "hyphenate [] = []"
| "hyphenate (c # cs) =
     (if is_slug_char c then c # hyphenate cs
      else CHR ''-'' # hyphenate (dropWhile (\<lambda>x. \<not> is_slug_char x) cs))"
  by pat_completeness auto

termination
  by (relation "measure length") (auto simp: le_imp_less_Suc length_dropWhile_le)

text \<open>\<open>replace(/^-+|-+$/g, '')\<close>.\<close>

definition strip_hyphens :: "string \<Rightarrow> string" where
  "strip_hyphens s = rev (dropWhile (\<lambda>c. c = CHR ''-'') (rev (dropWhile (\<lambda>c. c = CHR ''-'') s)))"

definition slugify :: "string \<Rightarrow> string" where
  "slugify value = take 80 (strip_hyphens (hyphenate (js_lower (js_trim value))))"

section \<open>generateUniqueSlug\<close>

text \<open>\<open>taken\<close> are the slugs the table holds while the loop asks for its candidates.\<close>

definition numbered :: "string \<Rightarrow> nat \<Rightarrow> string" where
  "numbered baseSlug suffix = baseSlug @ ''-'' @ show_nat suffix"

lemma show_nat_inj: "show_nat m = show_nat n \<Longrightarrow> m = n"
  by (metis digits_val_show_nat of_nat_eq_iff)

lemma numbered_inject [simp]: "numbered b m = numbered b n \<longleftrightarrow> m = n"
  by (auto simp: numbered_def dest: show_nat_inj)

lemma numbered_not_base [simp]: "numbered b n \<noteq> b" "b \<noteq> numbered b n"
  by (simp_all add: numbered_def)

definition ahead :: "string list \<Rightarrow> string \<Rightarrow> nat \<Rightarrow> string set" where
  "ahead taken baseSlug suffix = {t \<in> set taken. \<exists>n \<ge> suffix. t = numbered baseSlug n}"

lemma ahead_Suc: "ahead taken b (Suc n) = ahead taken b n - {numbered b n}"
  by (auto simp: ahead_def Suc_le_eq order_le_less)

lemma finite_ahead [simp]: "finite (ahead taken b n)"
  by (simp add: ahead_def)

function slug_loop :: "string list \<Rightarrow> string \<Rightarrow> string \<Rightarrow> nat \<Rightarrow> string" where
  "slug_loop taken baseSlug candidate suffix =
     (if candidate \<in> set taken then slug_loop taken baseSlug (numbered baseSlug suffix) (Suc suffix)
      else candidate)"
  by pat_completeness auto

text \<open>
  The loop ends: every round either finds its next candidate free, or uses up one of the finitely many
  taken slugs that are numbered from the current suffix on.
\<close>

termination
proof (relation "measure (\<lambda>(taken, b, c, n). 2 * card (ahead taken b n) + (if c \<in> set taken then 1 else 0))")
  fix taken :: "string list" and b c :: string and n :: nat
  assume c: "c \<in> set taken"
  have used: "Suc (card (ahead taken b (Suc n))) = card (ahead taken b n)" if "numbered b n \<in> set taken"
    unfolding ahead_Suc using that by (intro card_Suc_Diff1) (auto simp: ahead_def)
  have free: "ahead taken b (Suc n) = ahead taken b n" if "numbered b n \<notin> set taken"
    unfolding ahead_Suc using that by (auto simp: ahead_def)
  show "((taken, b, numbered b n, Suc n), taken, b, c, n)
      \<in> measure (\<lambda>(taken, b, c, n). 2 * card (ahead taken b n) + (if c \<in> set taken then 1 else 0))"
    using c used free by (cases "numbered b n \<in> set taken") auto
qed simp

declare slug_loop.simps [simp del]

definition generateUniqueSlug :: "string \<Rightarrow> string list \<Rightarrow> string" where
  "generateUniqueSlug base taken =
     (let baseSlug = (if slugify base = [] then ''item'' else slugify base)
      in slug_loop taken baseSlug baseSlug 2)"

section \<open>What a slug looks like\<close>

definition no_double_hyphen :: "string \<Rightarrow> bool" where
  "no_double_hyphen s \<longleftrightarrow> successively (\<lambda>a b. \<not> (a = CHR ''-'' \<and> b = CHR ''-'')) s"

lemma hyphen_no_slug_char [simp]: "\<not> is_slug_char (CHR ''-'')"
  by (simp add: is_slug_char_def is_digit_def code_def)

lemma hyphenate_chars: "list_all (\<lambda>c. is_slug_char c \<or> c = CHR ''-'') (hyphenate s)"
  by (induction s rule: hyphenate.induct) auto

lemma hd_hyphenate_slug:
  "s \<noteq> [] \<Longrightarrow> is_slug_char (hd s) \<Longrightarrow> hyphenate s \<noteq> [] \<and> is_slug_char (hd (hyphenate s))"
  by (cases s) auto

lemma hyphenate_no_double: "no_double_hyphen (hyphenate s)"
proof (induction s rule: hyphenate.induct)
  case (2 c cs)
  show ?case
  proof (cases "is_slug_char c")
    case True
    then have "c \<noteq> CHR ''-''" by auto
    then show ?thesis using 2(1) True by (auto simp: no_double_hyphen_def successively_Cons)
  next
    case False
    let ?r = "dropWhile (\<lambda>x. \<not> is_slug_char x) cs"
    have "?r = [] \<or> is_slug_char (hd ?r)" using hd_dropWhile [of "\<lambda>x. \<not> is_slug_char x" cs] by auto
    then have "hyphenate ?r = [] \<or> hd (hyphenate ?r) \<noteq> CHR ''-''"
      using hd_hyphenate_slug [of ?r] by fastforce
    then show ?thesis using 2(2) False by (auto simp: no_double_hyphen_def successively_Cons)
  qed
qed (simp add: no_double_hyphen_def)

lemma successively_take: "successively P s \<Longrightarrow> successively P (take n s)"
  by (metis append_take_drop_id successively_append_iff)

lemma successively_drop: "successively P s \<Longrightarrow> successively P (drop n s)"
  by (metis append_take_drop_id successively_append_iff)

lemma dropWhile_drop: "\<exists>n. dropWhile P s = drop n s"
  by (metis dropWhile_eq_drop)

lemma rev_drop_rev: "rev (drop k (rev d)) = take (length d - k) d"
  by (simp add: rev_drop)

lemma strip_part: "\<exists>m n. strip_hyphens s = take m (drop n s)"
proof -
  obtain n where n: "dropWhile (\<lambda>c. c = CHR ''-'') s = drop n s" using dropWhile_drop by metis
  obtain k where k: "dropWhile (\<lambda>c. c = CHR ''-'') (rev (drop n s)) = drop k (rev (drop n s))"
    using dropWhile_drop by metis
  have "strip_hyphens s = take (length (drop n s) - k) (drop n s)"
    unfolding strip_hyphens_def n k by (rule rev_drop_rev)
  then show ?thesis by blast
qed

lemma strip_hd: "strip_hyphens s \<noteq> [] \<Longrightarrow> hd (strip_hyphens s) \<noteq> CHR ''-''"
proof -
  assume ne: "strip_hyphens s \<noteq> []"
  let ?d = "dropWhile (\<lambda>c. c = CHR ''-'') s"
  obtain k where "dropWhile (\<lambda>c. c = CHR ''-'') (rev ?d) = drop k (rev ?d)" using dropWhile_drop by metis
  then have part: "strip_hyphens s = take (length ?d - k) ?d"
    by (simp only: strip_hyphens_def rev_drop_rev)
  with ne have "hd (strip_hyphens s) = hd ?d" "?d \<noteq> []" by (auto simp: hd_take)
  then show ?thesis using hd_dropWhile [of "\<lambda>c. c = CHR ''-''" s] by simp
qed

lemma strip_last: "strip_hyphens s \<noteq> [] \<Longrightarrow> last (strip_hyphens s) \<noteq> CHR ''-''"
  unfolding strip_hyphens_def
  using hd_dropWhile [of "\<lambda>c. c = CHR ''-''" "rev (dropWhile (\<lambda>c. c = CHR ''-'') s)"] by (simp add: last_rev)

text \<open>Lower case again changes nothing, and neither do the other steps on a slug.\<close>

lemma slug_char_code: "is_slug_char c \<or> c = CHR ''-'' \<Longrightarrow> lower_char c = c \<and> \<not> is_ws c"
  by (auto simp: is_slug_char_def is_digit_def lower_char_def is_ws_def code_def)

lemma js_lower_slug: "list_all (\<lambda>c. is_slug_char c \<or> c = CHR ''-'') s \<Longrightarrow> js_lower s = s"
  by (induction s) (auto simp: js_lower_def slug_char_code)

lemma js_trim_slug: "list_all (\<lambda>c. is_slug_char c \<or> c = CHR ''-'') s \<Longrightarrow> js_trim s = s"
proof -
  assume s: "list_all (\<lambda>c. is_slug_char c \<or> c = CHR ''-'') s"
  then have "dropWhile is_ws s = s" by (cases s) (auto simp: slug_char_code)
  moreover have "dropWhile is_ws (rev s) = rev s"
    using s by (cases s rule: rev_cases) (auto simp: slug_char_code list_all_iff)
  ultimately show ?thesis by (simp add: js_trim_def)
qed

lemma hyphenate_id:
  "list_all (\<lambda>c. is_slug_char c \<or> c = CHR ''-'') s \<Longrightarrow> no_double_hyphen s \<Longrightarrow> hyphenate s = s"
proof (induction s rule: hyphenate.induct)
  case (2 c cs)
  show ?case
  proof (cases "is_slug_char c")
    case True
    then show ?thesis using 2 by (auto simp: no_double_hyphen_def successively_Cons)
  next
    case False
    then have c: "c = CHR ''-''" using 2(3) by simp
    have "dropWhile (\<lambda>x. \<not> is_slug_char x) cs = cs"
      using 2(3,4) c by (cases cs) (auto simp: no_double_hyphen_def)
    then show ?thesis using 2 False c by (auto simp: no_double_hyphen_def successively_Cons)
  qed
qed simp

definition slug_like :: "string \<Rightarrow> bool" where
  "slug_like s \<longleftrightarrow> list_all (\<lambda>c. is_slug_char c \<or> c = CHR ''-'') s \<and> no_double_hyphen s \<and>
     length s \<le> 80 \<and> (case s of [] \<Rightarrow> True | c # _ \<Rightarrow> c \<noteq> CHR ''-'') \<and>
     (length s < 80 \<longrightarrow> s = [] \<or> last s \<noteq> CHR ''-'')"

lemma strip_slug:
  assumes "case s of [] \<Rightarrow> True | c # _ \<Rightarrow> c \<noteq> CHR ''-''" "no_double_hyphen s"
  shows "strip_hyphens s = (if s \<noteq> [] \<and> last s = CHR ''-'' then butlast s else s)"
proof (cases s rule: rev_cases)
  case (snoc r c)
  have d: "dropWhile (\<lambda>c. c = CHR ''-'') s = s" using assms(1) by (cases s) auto
  have "dropWhile (\<lambda>c. c = CHR ''-'') (rev s) = (if c = CHR ''-'' then rev r else rev s)"
  proof (cases "c = CHR ''-''")
    case True
    have "r = [] \<or> last r \<noteq> CHR ''-''" using assms snoc True by (auto simp: no_double_hyphen_def successively_append_iff)
    then have "dropWhile (\<lambda>c. c = CHR ''-'') (rev r) = rev r" by (cases r rule: rev_cases) auto
    then show ?thesis using snoc True by simp
  qed (simp add: snoc)
  then show ?thesis unfolding strip_hyphens_def d using snoc by simp
qed (simp add: strip_hyphens_def)

lemma slugify_slug: "slug_like (slugify s)"
proof -
  let ?h = "hyphenate (js_lower (js_trim s))" and ?t = "strip_hyphens (hyphenate (js_lower (js_trim s)))"
  obtain m n where t: "?t = take m (drop n ?h)" using strip_part by metis
  have "list_all (\<lambda>c. is_slug_char c \<or> c = CHR ''-'') (slugify s)"
    using hyphenate_chars [of "js_lower (js_trim s)"]
    by (auto simp: slugify_def t list_all_iff dest!: in_set_takeD in_set_dropD)
  moreover have "no_double_hyphen (slugify s)"
    using hyphenate_no_double [of "js_lower (js_trim s)"]
    by (simp add: no_double_hyphen_def slugify_def t successively_take successively_drop)
  moreover have "case slugify s of [] \<Rightarrow> True | c # _ \<Rightarrow> c \<noteq> CHR ''-''"
    using strip_hd [of ?h] by (auto simp: slugify_def split: list.split) (metis hd_take list.sel(1) list.simps(3) take_eq_Nil zero_less_numeral)
  moreover have "length (slugify s) < 80 \<longrightarrow> slugify s = [] \<or> last (slugify s) \<noteq> CHR ''-''"
    using strip_last [of ?h] by (auto simp: slugify_def)
  ultimately show ?thesis by (simp add: slug_like_def slugify_def)
qed

text \<open>
  A slug is made of lower case letters, digits and single hyphens, is at most 80 characters long
  and does not begin with a hyphen; making a slug of a slug gives it back, unless cutting it off after
  80 characters left a hyphen at its end, which the second pass removes.
\<close>
theorem slugify_shape:
  "slug_like (slugify s) \<and>
   slugify (slugify s) =
     (if slugify s \<noteq> [] \<and> last (slugify s) = CHR ''-'' then butlast (slugify s) else slugify s)"
proof -
  let ?s = "slugify s"
  have s: "list_all (\<lambda>c. is_slug_char c \<or> c = CHR ''-'') ?s" "no_double_hyphen ?s" "length ?s \<le> 80"
    "case ?s of [] \<Rightarrow> True | c # _ \<Rightarrow> c \<noteq> CHR ''-''"
    using slugify_slug [of s] by (simp_all add: slug_like_def)
  have "slugify ?s = take 80 (strip_hyphens ?s)"
    unfolding slugify_def [of ?s] by (simp add: js_trim_slug js_lower_slug hyphenate_id s)
  also have "\<dots> = (if ?s \<noteq> [] \<and> last ?s = CHR ''-'' then butlast ?s else ?s)"
    unfolding strip_slug [OF s(4,2)] using s(3) by auto
  finally show ?thesis using slugify_slug by blast
qed

section \<open>The first free candidate\<close>

definition candidate :: "string \<Rightarrow> nat \<Rightarrow> string" where
  "candidate baseSlug n = (if n < 2 then baseSlug else numbered baseSlug n)"

lemma slug_loop_candidate:
  "slug_loop taken b c n = d \<Longrightarrow> c = candidate b (n - 1) \<Longrightarrow> 2 \<le> n \<Longrightarrow>
   \<exists>k \<ge> n - 1. d = candidate b k \<and> d \<notin> set taken \<and> (\<forall>j. n - 1 \<le> j \<and> j < k \<longrightarrow> candidate b j \<in> set taken)"
proof (induction taken b c n rule: slug_loop.induct)
  case (1 taken b c n)
  show ?case
  proof (cases "c \<in> set taken")
    case True
    have "slug_loop taken b (numbered b n) (Suc n) = d" using 1(2) True by (simp add: slug_loop.simps [of taken b c])
    moreover have "numbered b n = candidate b (Suc n - 1)" using 1(4) by (simp add: candidate_def)
    ultimately obtain k where k: "Suc n - 1 \<le> k" "d = candidate b k" "d \<notin> set taken"
      "\<forall>j. Suc n - 1 \<le> j \<and> j < k \<longrightarrow> candidate b j \<in> set taken"
      using 1(1) [OF True] 1(4) by auto
    have "candidate b j \<in> set taken" if "n - 1 \<le> j" "j < k" for j
      using k(4) that True 1(3) by (cases "j = n - 1") auto
    then show ?thesis using k by (intro exI [of _ k]) auto
  next
    case False
    then have "d = c" using 1(2) by (simp add: slug_loop.simps)
    then show ?thesis using False 1(3) by (intro exI [of _ "n - 1"]) auto
  qed
qed

lemma candidate_inject: "0 < i \<Longrightarrow> 0 < j \<Longrightarrow> candidate b i = candidate b j \<longleftrightarrow> i = j"
  by (auto simp: candidate_def)

text \<open>
  C23: The search for a free slug ends, whatever slugs the table holds, and asks at most one question
  more than there are slugs: the answer is the first of the base, base-2, base-3, ... that is not taken.
  An empty base is called item.
\<close>
theorem unique_slug_is_first_free:
  "\<exists>k. 1 \<le> k \<and> k \<le> Suc (card (set taken)) \<and>
     generateUniqueSlug s taken = candidate (if slugify s = [] then ''item'' else slugify s) k \<and>
     generateUniqueSlug s taken \<notin> set taken \<and>
     candidate (if slugify s = [] then ''item'' else slugify s) ` {1..<k} \<subseteq> set taken"
proof -
  let ?b = "if slugify s = [] then ''item'' else slugify s"
  obtain k where k: "1 \<le> k" "generateUniqueSlug s taken = candidate ?b k" "candidate ?b k \<notin> set taken"
    "\<forall>j. 1 \<le> j \<and> j < k \<longrightarrow> candidate ?b j \<in> set taken"
    using slug_loop_candidate [of taken ?b ?b 2 "generateUniqueSlug s taken"]
    by (auto simp: generateUniqueSlug_def Let_def candidate_def)
  have sub: "candidate ?b ` {1..<k} \<subseteq> set taken" using k(4) by auto
  have "card {1..<k} = card (candidate ?b ` {1..<k})"
    by (rule card_image [symmetric]) (auto simp: inj_on_def candidate_inject)
  also have "\<dots> \<le> card (set taken)" by (rule card_mono [OF _ sub]) simp
  finally have "k \<le> Suc (card (set taken))" by simp
  then show ?thesis using k sub by auto
qed

end
