(* ===== verification/Accounts.thy ===== *)
theory Accounts
  imports Store Slug
begin

text \<open>
  Accounts and sessions: \<open>modules/users/users.service.ts\<close>, \<open>modules/auth\<close> (registration, login, rotation of
  refresh tokens, Google sign-in) and the guards of \<open>common/guards\<close>. Hashing, signing and random tokens are
  code of libraries: they are the fields of \<open>crypto\<close> and an argument of the requests that draw a token.
  A request draws at most one refresh token, and the clock is read once per request.
\<close>

section \<open>Libraries\<close>

record JwtPayload =
  jwt_sub :: uuid
  jwt_email :: string
  jwt_role :: UserRole

record crypto =
  bcrypt_hash :: "string \<Rightarrow> string"
  bcrypt_compare :: "string \<Rightarrow> string \<Rightarrow> bool"
  sha256_hex :: "string \<Rightarrow> string"
  signAsync :: "JwtPayload \<Rightarrow> string"
  verifyAsync :: "time \<Rightarrow> string \<Rightarrow> JwtPayload option"
  refreshExpiresIn :: string

section \<open>Durations\<close>

definition UNIT_MS :: "char \<Rightarrow> int option" where
  "UNIT_MS u =
     (if u = CHR ''s'' then Some 1000 else if u = CHR ''m'' then Some 60000
      else if u = CHR ''h'' then Some 3600000 else if u = CHR ''d'' then Some 86400000 else None)"

definition parseDurationToMs :: "string \<Rightarrow> int result" where
  "parseDurationToMs duration =
     (let t = js_trim duration
      in if t = [] \<or> butlast t = [] \<or> \<not> list_all is_digit (butlast t)
         then Inl (PlainError ''Invalid duration format'')
         else (case UNIT_MS (last t) of
                 None \<Rightarrow> Inl (PlainError ''Invalid duration format'')
               | Some ms \<Rightarrow> Inr (digits_val (butlast t) * ms)))"

section \<open>Users\<close>

definition normalizeEmail :: "string \<Rightarrow> string" where
  "normalizeEmail email = js_lower (js_trim email)"

record CreateUserInput =
  cu_email :: string
  cu_passwordHash :: "string option"
  cu_firstName :: string
  cu_lastName :: string
  cu_role :: UserRole
  cu_isEmailVerified :: "bool option"

definition findUserById :: "uuid \<Rightarrow> database \<Rightarrow> User result" where
  "findUserById i d =
     (case by_id us_id i (users d) of None \<Rightarrow> Inl (NotFoundException ''User not found'') | Some u \<Rightarrow> Inr u)"

definition findByEmail :: "string \<Rightarrow> database \<Rightarrow> User option" where
  "findByEmail email d = find (\<lambda>u. us_email u = normalizeEmail email) (users d)"

definition new_user :: "CreateUserInput \<Rightarrow> uuid \<Rightarrow> User" where
  "new_user input i =
     \<lparr>us_id = i, us_email = normalizeEmail (cu_email input), us_passwordHash = cu_passwordHash input,
       us_firstName = cu_firstName input, us_lastName = cu_lastName input, us_role = cu_role input,
       us_isEmailVerified = (case cu_isEmailVerified input of Some b \<Rightarrow> b | None \<Rightarrow> False),
       us_isActive = True\<rparr>"

definition create_user :: "CreateUserInput \<Rightarrow> sys \<Rightarrow> User result \<times> sys" where
  "create_user input s =
     (if \<exists>u \<in> set (users (db s)). us_email u = normalizeEmail (cu_email input) then (Inl UniqueViolation, s)
      else (Inr (new_user input (next_id (db s))),
            upd_db (\<lambda>d. d\<lparr>next_id := next_id d + 1, users := users d @ [new_user input (next_id d)]\<rparr>) s))"

definition update_user :: "uuid \<Rightarrow> (User \<Rightarrow> User) \<Rightarrow> database \<Rightarrow> database" where
  "update_user i f d = d\<lparr>users := map (\<lambda>u. if us_id u = i then f u else u) (users d)\<rparr>"

definition setRole :: "uuid \<Rightarrow> UserRole \<Rightarrow> sys \<Rightarrow> sys" where
  "setRole i role s = upd_db (update_user i (\<lambda>u. u\<lparr>us_role := role\<rparr>)) s"

record SyncSeedAdminInput =
  ss_email :: string
  ss_passwordHash :: string
  ss_firstName :: string
  ss_lastName :: string

record SyncSeedAdminResult =
  sr_user :: User
  sr_created :: bool
  sr_profileChanged :: bool

definition profile_changed :: "SyncSeedAdminInput \<Rightarrow> User \<Rightarrow> bool" where
  "profile_changed input u \<longleftrightarrow> us_role u \<noteq> ADMIN \<or> us_firstName u \<noteq> ss_firstName input \<or>
     us_lastName u \<noteq> ss_lastName input \<or> \<not> us_isEmailVerified u"

definition seed_user :: "SyncSeedAdminInput \<Rightarrow> User \<Rightarrow> User" where
  "seed_user input u = u\<lparr>us_role := ADMIN, us_passwordHash := Some (ss_passwordHash input),
     us_firstName := ss_firstName input, us_lastName := ss_lastName input, us_isEmailVerified := True\<rparr>"

definition syncSeedAdmin :: "SyncSeedAdminInput \<Rightarrow> sys \<Rightarrow> SyncSeedAdminResult result \<times> sys" where
  "syncSeedAdmin input s =
     (case findByEmail (normalizeEmail (ss_email input)) (db s) of
        None \<Rightarrow>
          (case create_user \<lparr>cu_email = normalizeEmail (ss_email input), cu_passwordHash = Some (ss_passwordHash input),
                  cu_firstName = ss_firstName input, cu_lastName = ss_lastName input, cu_role = ADMIN,
                  cu_isEmailVerified = Some True\<rparr> s of
             (Inl err, s1) \<Rightarrow> (Inl err, s1)
           | (Inr u, s1) \<Rightarrow> (Inr \<lparr>sr_user = u, sr_created = True, sr_profileChanged = True\<rparr>, s1))
      | Some existing \<Rightarrow>
          let s1 = upd_db (update_user (us_id existing) (seed_user input)) s
          in (rbind (findUserById (us_id existing) (db s1))
                (\<lambda>u. Inr \<lparr>sr_user = u, sr_created = False, sr_profileChanged = profile_changed input existing\<rparr>), s1))"

section \<open>Tokens\<close>

record RequestMeta =
  rq_userAgent :: "string option"
  rq_ipAddress :: "string option"

record IssuedTokens =
  it_accessToken :: string
  it_refreshToken :: string

definition new_token :: "crypto \<Rightarrow> string \<Rightarrow> time \<Rightarrow> User \<Rightarrow> RequestMeta \<Rightarrow> uuid \<Rightarrow> RefreshToken" where
  "new_token c plain expiresAt user meta i =
     \<lparr>rt_id = i, rt_userId = us_id user, rt_tokenHash = sha256_hex c plain, rt_expiresAt = expiresAt,
       rt_revokedAt = None, rt_userAgent = rq_userAgent meta, rt_ipAddress = rq_ipAddress meta\<rparr>"

text \<open>\<open>plain\<close> is the token drawn from \<open>randomBytes(32)\<close>.\<close>

definition issueTokens :: "crypto \<Rightarrow> env \<Rightarrow> string \<Rightarrow> User \<Rightarrow> RequestMeta \<Rightarrow> sys \<Rightarrow> IssuedTokens result \<times> sys" where
  "issueTokens c e plain user meta s =
     (case parseDurationToMs (refreshExpiresIn c) of
        Inl err \<Rightarrow> (Inl err, s)
      | Inr ms \<Rightarrow>
          if \<exists>t \<in> set (refresh_tokens (db s)). rt_tokenHash t = sha256_hex c plain then (Inl UniqueViolation, s)
          else (Inr \<lparr>it_accessToken = signAsync c \<lparr>jwt_sub = us_id user, jwt_email = us_email user, jwt_role = us_role user\<rparr>,
                      it_refreshToken = plain\<rparr>,
                upd_db (\<lambda>d. d\<lparr>next_id := next_id d + 1,
                  refresh_tokens := refresh_tokens d @ [new_token c plain (now e + ms) user meta (next_id d)]\<rparr>) s))"

definition getRefreshCookieMaxAgeMs :: "crypto \<Rightarrow> int result" where
  "getRefreshCookieMaxAgeMs c = parseDurationToMs (refreshExpiresIn c)"

definition revoke :: "env \<Rightarrow> (RefreshToken \<Rightarrow> bool) \<Rightarrow> database \<Rightarrow> database" where
  "revoke e P d =
     d\<lparr>refresh_tokens := map (\<lambda>t. if P t then t\<lparr>rt_revokedAt := Some (now e)\<rparr> else t) (refresh_tokens d)\<rparr>"

definition with_tokens :: "crypto \<Rightarrow> env \<Rightarrow> string \<Rightarrow> RequestMeta \<Rightarrow> User \<Rightarrow> sys \<Rightarrow> (User \<times> IssuedTokens) result \<times> sys" where
  "with_tokens c e plain meta user s =
     (case issueTokens c e plain user meta s of
        (Inl err, s1) \<Rightarrow> (Inl err, s1)
      | (Inr tokens, s1) \<Rightarrow> (Inr (user, tokens), s1))"

section \<open>Registration and login\<close>

record RegisterDto =
  rg_email :: string
  rg_password :: string
  rg_firstName :: string
  rg_lastName :: string

text \<open>Hashing the password takes a while; \<open>meanwhile\<close> is what other requests do between the look-up of
  the address and the insert.\<close>

definition register ::
  "crypto \<Rightarrow> env \<Rightarrow> (sys \<Rightarrow> sys) \<Rightarrow> string \<Rightarrow> RegisterDto \<Rightarrow> RequestMeta \<Rightarrow> sys \<Rightarrow> (User \<times> IssuedTokens) result \<times> sys" where
  "register c e meanwhile plain dto meta s =
     (if findByEmail (rg_email dto) (db s) \<noteq> None
      then (Inl (ConflictException ''An account with this email already exists''), s)
      else (case create_user \<lparr>cu_email = rg_email dto, cu_passwordHash = Some (bcrypt_hash c (rg_password dto)),
                   cu_firstName = rg_firstName dto, cu_lastName = rg_lastName dto, cu_role = CUSTOMER,
                   cu_isEmailVerified = None\<rparr> (meanwhile s) of
              (Inl err, s1) \<Rightarrow> (Inl err, s1)
            | (Inr user, s1) \<Rightarrow> with_tokens c e plain meta user s1))"

definition password_matches :: "crypto \<Rightarrow> string \<Rightarrow> User \<Rightarrow> bool" where
  "password_matches c password user \<longleftrightarrow>
     (case us_passwordHash user of None \<Rightarrow> False | Some h \<Rightarrow> h \<noteq> [] \<and> bcrypt_compare c password h)"

definition login ::
  "crypto \<Rightarrow> env \<Rightarrow> string \<Rightarrow> string \<Rightarrow> string \<Rightarrow> RequestMeta \<Rightarrow> sys \<Rightarrow> (User \<times> IssuedTokens) result \<times> sys" where
  "login c e plain email password meta s =
     (case findByEmail email (db s) of
        None \<Rightarrow> (Inl (UnauthorizedException ''Invalid email or password''), s)
      | Some user \<Rightarrow>
          if \<not> password_matches c password user then (Inl (UnauthorizedException ''Invalid email or password''), s)
          else with_tokens c e plain meta user s)"

section \<open>Rotation of refresh tokens\<close>

definition find_token :: "crypto \<Rightarrow> string \<Rightarrow> database \<Rightarrow> RefreshToken option" where
  "find_token c plain d = find (\<lambda>t. rt_tokenHash t = sha256_hex c plain) (refresh_tokens d)"

definition no_longer_valid :: "env \<Rightarrow> RefreshToken \<Rightarrow> bool" where
  "no_longer_valid e t \<longleftrightarrow> rt_revokedAt t \<noteq> None \<or> rt_expiresAt t < now e"

text \<open>The body of the transaction; \<open>token\<close> is the presented token, \<open>plain\<close> the one drawn to replace it.\<close>

definition runRefresh ::
  "crypto \<Rightarrow> env \<Rightarrow> string \<Rightarrow> string \<Rightarrow> RequestMeta \<Rightarrow> sys \<Rightarrow> (User \<times> IssuedTokens) result \<times> sys" where
  "runRefresh c e token plain meta s =
     (case find_token c token (db s) of
        None \<Rightarrow> (Inl (UnauthorizedException ''Invalid refresh token''), s)
      | Some existing \<Rightarrow>
          if no_longer_valid e existing
          then (Inl (UnauthorizedException ''Refresh token is no longer valid''),
                if rt_revokedAt existing \<noteq> None
                then upd_db (revoke e (\<lambda>t. rt_userId t = rt_userId existing)) s else s)
          else (case by_id us_id (rt_userId existing) (users (db s)) of
                  None \<Rightarrow> (Inl (UnauthorizedException ''Invalid refresh token''), s)
                | Some user \<Rightarrow>
                    with_tokens c e plain meta user (upd_db (revoke e (\<lambda>t. rt_id t = rt_id existing)) s)))"

definition refresh ::
  "crypto \<Rightarrow> env \<Rightarrow> string \<Rightarrow> string \<Rightarrow> RequestMeta \<Rightarrow> sys \<Rightarrow> (User \<times> IssuedTokens) result \<times> sys" where
  "refresh c e token plain meta = transaction (runRefresh c e token plain meta)"

definition logout :: "crypto \<Rightarrow> env \<Rightarrow> string \<Rightarrow> sys \<Rightarrow> sys" where
  "logout c e token s = upd_db (revoke e (\<lambda>t. rt_tokenHash t = sha256_hex c token)) s"

section \<open>Google sign-in\<close>

record GoogleProfileInput =
  gi_googleId :: string
  gi_email :: string
  gi_emailVerified :: bool
  gi_firstName :: string
  gi_lastName :: string

text \<open>What the provider sends: the addresses with their flag, and the names it knows.\<close>

record GoogleProfile =
  gp_id :: string
  gp_emails :: "(string \<times> bool option) list"
  gp_givenName :: "string option"
  gp_familyName :: "string option"
  gp_displayName :: "string option"

definition validate_google :: "GoogleProfile \<Rightarrow> GoogleProfileInput result" where
  "validate_google p =
     (case gp_emails p of
        [] \<Rightarrow> Inl (PlainError ''Google profile did not include an email address'')
      | (email, verified) # _ \<Rightarrow>
          if email = [] then Inl (PlainError ''Google profile did not include an email address'')
          else Inr \<lparr>gi_googleId = gp_id p, gi_email = email, gi_emailVerified = (verified = Some True),
                 gi_firstName = (case gp_givenName p of Some n \<Rightarrow> n
                                 | None \<Rightarrow> (case gp_displayName p of Some n \<Rightarrow> n | None \<Rightarrow> ''Google'')),
                 gi_lastName = (case gp_familyName p of Some n \<Rightarrow> n | None \<Rightarrow> ''User'')\<rparr>)"

definition link_google :: "GoogleProfileInput \<Rightarrow> User \<Rightarrow> sys \<Rightarrow> User result \<times> sys" where
  "link_google profile user s =
     (if \<exists>x \<in> set (auth_identities (db s)). ai_provider x = GOOGLE \<and> ai_providerUserId x = gi_googleId profile
      then (Inl UniqueViolation, s)
      else (Inr user,
            upd_db (\<lambda>d. d\<lparr>next_id := next_id d + 1, auth_identities := auth_identities d @
              [\<lparr>ai_id = next_id d, ai_userId = us_id user, ai_provider = GOOGLE,
                ai_providerUserId = gi_googleId profile\<rparr>]\<rparr>) s))"

definition findOrCreateFromGoogleProfile :: "GoogleProfileInput \<Rightarrow> sys \<Rightarrow> User result \<times> sys" where
  "findOrCreateFromGoogleProfile profile s =
     (case find (\<lambda>x. ai_provider x = GOOGLE \<and> ai_providerUserId x = gi_googleId profile) (auth_identities (db s)) of
        Some existingIdentity \<Rightarrow> (findUserById (ai_userId existingIdentity) (db s), s)
      | None \<Rightarrow>
          if \<not> gi_emailVerified profile
          then (Inl (UnauthorizedException ''Google account email is not verified''), s)
          else (case findByEmail (gi_email profile) (db s) of
                  Some user \<Rightarrow> link_google profile user s
                | None \<Rightarrow>
                    (case create_user \<lparr>cu_email = gi_email profile, cu_passwordHash = None,
                            cu_firstName = gi_firstName profile, cu_lastName = gi_lastName profile,
                            cu_role = CUSTOMER, cu_isEmailVerified = Some True\<rparr> s of
                       (Inl err, s1) \<Rightarrow> (Inl err, s1)
                     | (Inr user, s1) \<Rightarrow> link_google profile user s1)))"

section \<open>Guards\<close>

definition starts_with :: "string \<Rightarrow> string \<Rightarrow> bool" where
  "starts_with p s \<longleftrightarrow> take (length p) s = p"

definition extractToken :: "string option \<Rightarrow> string option" where
  "extractToken header =
     (case header of
        None \<Rightarrow> None
      | Some h \<Rightarrow>
          if \<not> starts_with ''Bearer '' h then None
          else let t = js_trim (drop (length ''Bearer '') h) in if t = [] then None else Some t)"

text \<open>\<open>JwtAuthGuard\<close>: the user the request then carries, which is none on a public route.\<close>

definition jwt_canActivate :: "crypto \<Rightarrow> env \<Rightarrow> bool \<Rightarrow> string option \<Rightarrow> JwtPayload option result" where
  "jwt_canActivate c e isPublic header =
     (if isPublic then Inr None
      else (case extractToken header of
              None \<Rightarrow> Inl (UnauthorizedException ''Missing access token'')
            | Some token \<Rightarrow>
                (case verifyAsync c (now e) token of
                   None \<Rightarrow> Inl (UnauthorizedException ''Invalid or expired access token'')
                 | Some payload \<Rightarrow> Inr (Some payload))))"

definition roles_canActivate :: "UserRole list \<Rightarrow> JwtPayload option \<Rightarrow> unit result" where
  "roles_canActivate requiredRoles user =
     (if requiredRoles = [] then Inr ()
      else (case user of
              None \<Rightarrow> Inl (ForbiddenException ''You do not have permission to access this resource'')
            | Some u \<Rightarrow>
                if jwt_role u \<in> set requiredRoles then Inr ()
                else Inl (ForbiddenException ''You do not have permission to access this resource'')))"

text \<open>The guards in the order they are registered.\<close>

definition request_user :: "crypto \<Rightarrow> env \<Rightarrow> bool \<Rightarrow> UserRole list \<Rightarrow> string option \<Rightarrow> JwtPayload option result" where
  "request_user c e isPublic requiredRoles header =
     rbind (jwt_canActivate c e isPublic header)
       (\<lambda>user. rbind (roles_canActivate requiredRoles user) (\<lambda>_. Inr user))"

section \<open>What the account tables keep\<close>

text \<open>
  Every row of the account tables is well formed: an id of its own, an address in normal form that no
  other user has, a token of an existing user with a hash of its own, an identity of an existing user
  that is linked once.
\<close>

definition accounts_ok :: "database \<Rightarrow> bool" where
  "accounts_ok d \<longleftrightarrow>
     distinct (map us_id (users d)) \<and> distinct (map us_email (users d)) \<and>
     (\<forall>u \<in> set (users d). us_id u < next_id d \<and> normalizeEmail (us_email u) = us_email u) \<and>
     distinct (map rt_id (refresh_tokens d)) \<and> distinct (map rt_tokenHash (refresh_tokens d)) \<and>
     (\<forall>t \<in> set (refresh_tokens d). rt_id t < next_id d \<and> rt_userId t \<in> us_id ` set (users d)) \<and>
     distinct (map (\<lambda>x. (ai_provider x, ai_providerUserId x)) (auth_identities d)) \<and>
     (\<forall>x \<in> set (auth_identities d). ai_userId x \<in> us_id ` set (users d))"

text \<open>No token is ever deleted, changes hands or is valid again after it was revoked.\<close>

definition token_kept :: "RefreshToken \<Rightarrow> RefreshToken \<Rightarrow> bool" where
  "token_kept t t' \<longleftrightarrow> rt_id t' = rt_id t \<and> rt_userId t' = rt_userId t \<and> rt_tokenHash t' = rt_tokenHash t \<and>
     rt_expiresAt t' = rt_expiresAt t \<and> (rt_revokedAt t \<noteq> None \<longrightarrow> rt_revokedAt t' \<noteq> None)"

definition tokens_kept :: "RefreshToken list \<Rightarrow> RefreshToken list \<Rightarrow> bool" where
  "tokens_kept ts ts' \<longleftrightarrow> (\<forall>t \<in> set ts. \<exists>t' \<in> set ts'. token_kept t t')"

definition sessions_kept :: "sys \<Rightarrow> sys \<Rightarrow> bool" where
  "sessions_kept s s' \<longleftrightarrow> (accounts_ok (db s) \<longrightarrow> accounts_ok (db s')) \<and>
     tokens_kept (refresh_tokens (db s)) (refresh_tokens (db s'))"

lemma token_kept_refl [simp]: "token_kept t t"
  by (simp add: token_kept_def)

lemma tokens_kept_simps [simp]:
  "tokens_kept ts ts" "tokens_kept ts (ts @ us)"
  "tokens_kept ts (map (\<lambda>t. if P t then t\<lparr>rt_revokedAt := Some n\<rparr> else t) ts)"
proof -
  show "tokens_kept ts ts" "tokens_kept ts (ts @ us)" by (auto simp: tokens_kept_def intro: token_kept_refl)
  have "token_kept t (if P t then t\<lparr>rt_revokedAt := Some n\<rparr> else t)" for t by (simp add: token_kept_def)
  then show "tokens_kept ts (map (\<lambda>t. if P t then t\<lparr>rt_revokedAt := Some n\<rparr> else t) ts)"
    unfolding tokens_kept_def set_map by blast
qed

lemma sessions_kept_refl [simp]: "sessions_kept s s"
  by (simp add: sessions_kept_def)

lemma sessions_kept_trans: "sessions_kept s t \<Longrightarrow> sessions_kept t u \<Longrightarrow> sessions_kept s u"
  unfolding sessions_kept_def tokens_kept_def token_kept_def by metis

lemma lower_char_idem: "lower_char (lower_char c) = lower_char c" "is_ws (lower_char c) = is_ws c"
  by (auto simp: lower_char_def is_ws_def code_def)

lemma js_lower_idem [simp]: "js_lower (js_lower s) = js_lower s"
  by (simp add: js_lower_def lower_char_idem)

lemma dropWhile_ws_lower: "dropWhile is_ws (js_lower s) = js_lower (dropWhile is_ws s)"
  by (induction s) (auto simp: js_lower_def lower_char_idem)

lemma js_trim_lower: "js_trim (js_lower s) = js_lower (js_trim s)"
proof -
  have "rev (js_lower x) = js_lower (rev x)" for x by (simp add: js_lower_def rev_map)
  then show ?thesis by (simp add: js_trim_def dropWhile_ws_lower)
qed

lemma js_trim_idem [simp]: "js_trim (js_trim s) = js_trim s"
proof -
  have rs: "dropWhile is_ws (rev (dropWhile is_ws (rev x))) = rev (dropWhile is_ws (rev x))"
    if "x = [] \<or> \<not> is_ws (hd x)" for x
  proof (cases "dropWhile is_ws (rev x) = []")
    case False
    obtain k where k: "dropWhile is_ws (rev x) = drop k (rev x)" using dropWhile_drop by metis
    have "rev (dropWhile is_ws (rev x)) = take (length x - k) x" unfolding k by (rule rev_drop_rev)
    with False that show ?thesis by (cases x) (auto simp: take_Cons' simp del: dropWhile_eq_Nil_conv)
  next
    case True
    then show ?thesis by (simp only: True rev.simps dropWhile.simps)
  qed
  have "dropWhile is_ws s = [] \<or> \<not> is_ws (hd (dropWhile is_ws s))" using hd_dropWhile by blast
  from rs [OF this] show ?thesis by (simp add: js_trim_def)
qed

lemma normalizeEmail_idem [simp]: "normalizeEmail (normalizeEmail m) = normalizeEmail m"
  by (simp add: normalizeEmail_def js_trim_lower)

lemma find_email_None: "findByEmail m d = None \<longleftrightarrow> normalizeEmail m \<notin> us_email ` set (users d)"
  by (auto simp: findByEmail_def find_None_iff image_iff)

lemma create_user_kept: "sessions_kept s (snd (create_user input s))"
  by (auto simp: create_user_def sessions_kept_def accounts_ok_def new_user_def less_SucI)

lemma create_user_member: "fst (create_user input s) = Inr u \<Longrightarrow> u \<in> set (users (db (snd (create_user input s))))"
  by (auto simp: create_user_def split: if_splits)

lemma update_user_rows:
  assumes "\<And>u. us_id (f u) = us_id u" "\<And>u. us_email (f u) = us_email u"
  shows "map us_id (users (update_user i f d)) = map us_id (users d)"
    "map us_email (users (update_user i f d)) = map us_email (users d)"
    "us_id ` set (users (update_user i f d)) = us_id ` set (users d)"
    "us_email ` set (users (update_user i f d)) = us_email ` set (users d)"
proof -
  have "map us_id (map (\<lambda>u. if us_id u = i then f u else u) xs) = map us_id xs"
    "map us_email (map (\<lambda>u. if us_id u = i then f u else u) xs) = map us_email xs" for xs
    by (induction xs) (auto simp: assms)
  then show maps: "map us_id (users (update_user i f d)) = map us_id (users d)"
    "map us_email (users (update_user i f d)) = map us_email (users d)"
    by (simp_all add: update_user_def del: map_map)
  show "us_id ` set (users (update_user i f d)) = us_id ` set (users d)"
    "us_email ` set (users (update_user i f d)) = us_email ` set (users d)"
    using maps by (metis list.set_map)+
qed

lemma users_ok_iff:
  "(\<forall>u \<in> set us. us_id u < n \<and> normalizeEmail (us_email u) = us_email u) \<longleftrightarrow>
     (\<forall>i \<in> us_id ` set us. i < n) \<and> (\<forall>m \<in> us_email ` set us. normalizeEmail m = m)"
  by auto

lemma update_user_kept:
  assumes "\<And>u. us_id (f u) = us_id u" "\<And>u. us_email (f u) = us_email u"
  shows "sessions_kept s (upd_db (update_user i f) s)"
proof -
  have "accounts_ok (update_user i f d) \<longleftrightarrow> accounts_ok d" for d
    unfolding accounts_ok_def users_ok_iff update_user_rows [of f, OF assms]
    by (simp add: update_user_def)
  moreover have "refresh_tokens (update_user i f d) = refresh_tokens d" for d by (simp add: update_user_def)
  ultimately show ?thesis by (simp add: sessions_kept_def)
qed

lemma issueTokens_kept:
  "us_id u \<in> us_id ` set (users (db s)) \<Longrightarrow> sessions_kept s (snd (issueTokens c e plain u meta s))"
  by (auto simp: issueTokens_def sessions_kept_def accounts_ok_def new_token_def less_SucI split: sum.split)

lemma snd_with_tokens: "snd (with_tokens c e plain meta u s) = snd (issueTokens c e plain u meta s)"
  by (simp add: with_tokens_def split: prod.split sum.split)

lemma revoke_rows: "refresh_tokens (revoke e P d) = map (\<lambda>t. if P t then t\<lparr>rt_revokedAt := Some (now e)\<rparr> else t) (refresh_tokens d)"
  by (simp add: revoke_def)

lemma revoke_frame [simp]:
  "users (revoke e P d) = users d" "next_id (revoke e P d) = next_id d"
  "auth_identities (revoke e P d) = auth_identities d"
  "map rt_id (refresh_tokens (revoke e P d)) = map rt_id (refresh_tokens d)"
  "map rt_tokenHash (refresh_tokens (revoke e P d)) = map rt_tokenHash (refresh_tokens d)"
  by (auto simp: revoke_def)

lemma revoke_kept: "sessions_kept s (upd_db (revoke e P) s)"
proof -
  have "accounts_ok (revoke e P d)" if "accounts_ok d" for d
  proof -
    have "\<forall>t \<in> set (refresh_tokens (revoke e P d)). rt_id t < next_id d \<and> rt_userId t \<in> us_id ` set (users d)"
      using that by (auto simp: accounts_ok_def revoke_rows)
    then show ?thesis using that by (simp add: accounts_ok_def)
  qed
  moreover have "tokens_kept (refresh_tokens (db s)) (refresh_tokens (revoke e P (db s)))" by (simp add: revoke_rows)
  ultimately show ?thesis by (simp add: sessions_kept_def)
qed

lemma runRefresh_kept: "sessions_kept s (snd (runRefresh c e token plain meta s))"
proof -
  have "sessions_kept s (snd (with_tokens c e plain meta u (upd_db (revoke e P) s)))"
    if "by_id us_id i (users (db s)) = Some u" for i u P
    unfolding snd_with_tokens using by_id_SomeD [OF that]
    by (intro sessions_kept_trans [OF revoke_kept issueTokens_kept]) auto
  then show ?thesis by (simp add: runRefresh_def revoke_kept split: option.split)
qed

lemma transaction_kept: "sessions_kept s (snd (f s)) \<Longrightarrow> sessions_kept s (snd (transaction f s))"
  by (cases "f s"; cases "fst (f s)") (auto simp: transaction_def sessions_kept_def)

lemma register_kept:
  assumes "\<And>t. sessions_kept t (m t)"
  shows "sessions_kept s (snd (register c e m plain dto meta s))"
proof -
  have "sessions_kept t (snd (case create_user i t of (Inl err, s1) \<Rightarrow> (Inl err, s1)
      | (Inr user, s1) \<Rightarrow> with_tokens c e plain meta user s1))" for i t
    using create_user_kept [of t i] create_user_member [of i t]
    by (cases "create_user i t"; cases "fst (create_user i t)")
      (auto simp: snd_with_tokens intro: sessions_kept_trans [OF _ issueTokens_kept])
  then show ?thesis using sessions_kept_trans [OF assms] by (simp add: register_def)
qed

lemma login_kept: "sessions_kept s (snd (login c e plain m p meta s))"
  by (auto simp: login_def findByEmail_def snd_with_tokens dest!: find_SomeD intro!: issueTokens_kept split: option.split)

lemma link_google_kept: "us_id u \<in> us_id ` set (users (db s)) \<Longrightarrow> sessions_kept s (snd (link_google p u s))"
  by (auto simp: link_google_def sessions_kept_def accounts_ok_def less_SucI)

lemma google_kept: "sessions_kept s (snd (findOrCreateFromGoogleProfile p s))"
proof -
  have "sessions_kept t (snd (case create_user i t of (Inl err, s1) \<Rightarrow> (Inl err, s1)
      | (Inr user, s1) \<Rightarrow> link_google p user s1))" for i t
    using create_user_kept [of t i] create_user_member [of i t]
    by (cases "create_user i t"; cases "fst (create_user i t)")
      (auto intro: sessions_kept_trans [OF _ link_google_kept])
  then show ?thesis
    by (auto simp: findOrCreateFromGoogleProfile_def findByEmail_def dest!: find_SomeD intro!: link_google_kept split: option.split)
qed

lemma seed_kept: "sessions_kept s (snd (syncSeedAdmin input s))"
  using create_user_kept
  by (auto simp: syncSeedAdmin_def Let_def seed_user_def intro!: update_user_kept split: option.split prod.split sum.split)
     (metis snd_conv)+

text \<open>Every request on accounts, in any order; a registration can have others in between.\<close>

inductive account_step :: "sys \<Rightarrow> sys \<Rightarrow> bool" where
  registers: "account_step s (snd (register c e (\<lambda>t. t) plain dto meta s))"
| overtaken: "(\<And>t. account_step t (m t)) \<Longrightarrow> account_step s (snd (register c e m plain dto meta s))"
| logs_in: "account_step s (snd (login c e plain email password meta s))"
| refreshes: "account_step s (snd (refresh c e token plain meta s))"
| logs_out: "account_step s (logout c e token s)"
| google: "account_step s (snd (findOrCreateFromGoogleProfile profile s))"
| issues: "us_id u \<in> us_id ` set (users (db s)) \<Longrightarrow> account_step s (snd (issueTokens c e plain u meta s))"
| seeds: "account_step s (snd (syncSeedAdmin input s))"
| sets_role: "account_step s (setRole i role s)"

lemma account_step_kept: "account_step s s' \<Longrightarrow> sessions_kept s s'"
proof (induction rule: account_step.induct)
  case (registers s c e plain dto meta)
  show ?case by (rule register_kept) simp
next
  case (overtaken m s c e plain dto meta)
  then show ?case by (intro register_kept) simp
next
  case (refreshes s c e token plain meta)
  show ?case unfolding refresh_def by (rule transaction_kept [OF runRefresh_kept])
next
  case (logs_out s c e token)
  show ?case unfolding logout_def by (rule revoke_kept)
next
  case (sets_role s i role)
  show ?case unfolding setRole_def by (rule update_user_kept) simp_all
qed (simp_all add: login_kept google_kept issueTokens_kept seed_kept)

lemma account_steps_kept: "account_step\<^sup>*\<^sup>* s s' \<Longrightarrow> sessions_kept s s'"
  by (induction rule: rtranclp_induct) (auto intro: sessions_kept_trans account_step_kept)

lemma with_tokens_Inr: "with_tokens c e plain meta u s = (Inr r, s') \<Longrightarrow> fst r = u \<and> it_refreshToken (snd r) = plain \<and>
   (\<exists>ms. parseDurationToMs (refreshExpiresIn c) = Inr ms \<and>
     refresh_tokens (db s') = refresh_tokens (db s) @ [new_token c plain (now e + ms) u meta (next_id (db s))] \<and>
     users (db s') = users (db s) \<and> it_accessToken (snd r) = signAsync c \<lparr>jwt_sub = us_id u, jwt_email = us_email u, jwt_role = us_role u\<rparr>)"
  by (auto simp: with_tokens_def issueTokens_def split: prod.splits sum.splits if_splits)

lemma revoked_refused:
  assumes "find_token c token (db s) = Some t" "rt_revokedAt t \<noteq> None"
  shows "refresh c e token plain meta s = (Inl (UnauthorizedException ''Refresh token is no longer valid''), s)"
  using assms by (simp add: refresh_def transaction_def runRefresh_def no_longer_valid_def upd_db_def)

lemma find_token_kept:
  assumes "accounts_ok (db s)" "accounts_ok (db s')" "sessions_kept s s'"
    "t \<in> set (refresh_tokens (db s))" "rt_tokenHash t = sha256_hex c token" "rt_revokedAt t \<noteq> None"
  shows "\<exists>t'. find_token c token (db s') = Some t' \<and> rt_revokedAt t' \<noteq> None"
proof -
  obtain t' where t': "t' \<in> set (refresh_tokens (db s'))" "token_kept t t'"
    using assms(3,4) by (auto simp: sessions_kept_def tokens_kept_def)
  have "find_token c token (db s') = Some t'"
  proof -
    have "find (\<lambda>x. rt_tokenHash x = rt_tokenHash t') xs = Some t'"
      if "distinct (map rt_tokenHash xs)" "t' \<in> set xs" for xs
      using that by (induction xs) (auto simp: image_iff)
    then show ?thesis using assms(2,5) t' by (simp add: find_token_def accounts_ok_def token_kept_def)
  qed
  then show ?thesis using t'(2) assms(6) by (auto simp: token_kept_def)
qed

text \<open>
  C18: A refresh token is exchanged once. A successful refresh is for the user the token was issued to; it
  revokes this token and no other, and adds one new, unrevoked token of the user; and from then on,
  whatever requests come in between, presenting the old token is answered with 401.
\<close>
theorem refresh_token_used_once:
  assumes ok: "accounts_ok (db s)" and run: "refresh c e token plain meta s = (Inr r, s')"
    and later: "account_step\<^sup>*\<^sup>* s' s''"
  shows "(\<exists>t. find_token c token (db s) = Some t \<and> rt_revokedAt t = None \<and> now e \<le> rt_expiresAt t \<and>
            rt_userId t = us_id (fst r) \<and>
            (\<exists>n. refresh_tokens (db s') =
                   map (\<lambda>x. if rt_id x = rt_id t then x\<lparr>rt_revokedAt := Some (now e)\<rparr> else x) (refresh_tokens (db s)) @ [n] \<and>
                 rt_userId n = us_id (fst r) \<and> rt_revokedAt n = None \<and> rt_tokenHash n = sha256_hex c plain)) \<and>
         refresh c e' token plain' meta' s'' = (Inl (UnauthorizedException ''Refresh token is no longer valid''), s'')"
proof -
  have body: "runRefresh c e token plain meta s = (Inr r, s')" using run by (simp add: refresh_def transaction_Inr)
  obtain t where t: "find_token c token (db s) = Some t" "\<not> no_longer_valid e t"
    using body by (auto simp: runRefresh_def split: option.splits if_splits)
  obtain u where u: "by_id us_id (rt_userId t) (users (db s)) = Some u"
    "with_tokens c e plain meta u (upd_db (revoke e (\<lambda>x. rt_id x = rt_id t)) s) = (Inr r, s')"
    using body t by (auto simp: runRefresh_def split: option.splits)
  from with_tokens_Inr [OF u(2)] obtain ms where n: "fst r = u"
    "refresh_tokens (db s') = map (\<lambda>x. if rt_id x = rt_id t then x\<lparr>rt_revokedAt := Some (now e)\<rparr> else x) (refresh_tokens (db s)) @
       [new_token c plain (now e + ms) u meta (next_id (db s))]"
    by (auto simp: revoke_rows)
  have mem: "t \<in> set (refresh_tokens (db s))" "rt_tokenHash t = sha256_hex c token"
    using find_SomeD [OF t(1) [unfolded find_token_def]] by auto
  have kept: "sessions_kept s s'"
    using runRefresh_kept [of s c e token plain meta] body by simp
  then have ok': "accounts_ok (db s')" using ok by (simp add: sessions_kept_def)
  have old: "t\<lparr>rt_revokedAt := Some (now e)\<rparr> \<in> set (refresh_tokens (db s'))" using mem(1) by (force simp: n(2))
  have "accounts_ok (db s'')" using ok' account_steps_kept [OF later] by (simp add: sessions_kept_def)
  from find_token_kept [OF ok' this account_steps_kept [OF later] old, of c token] mem(2)
  obtain t'' where "find_token c token (db s'') = Some t''" "rt_revokedAt t'' \<noteq> None" by auto
  from revoked_refused [OF this]
  have "refresh c e' token plain' meta' s'' = (Inl (UnauthorizedException ''Refresh token is no longer valid''), s'')" .
  moreover have "rt_userId t = us_id u" using by_id_SomeD [OF u(1)] by simp
  ultimately show ?thesis
    using t n by (auto simp: no_longer_valid_def new_token_def)
qed

text \<open>
  C19: Detecting the reuse of a token has no effect. When a revoked token is presented again, the update
  that revokes all tokens of its user is part of the transaction that then throws, so it is rolled back:
  the answer is 401, nothing is written, and another token of the user is still exchanged exactly as
  if the reuse had not happened.
\<close>
theorem reuse_revokes_nothing:
  assumes reused: "find_token c token (db s) = Some t" "rt_revokedAt t \<noteq> None"
    and other: "find_token c token' (db s) = Some t'" "rt_userId t' = rt_userId t" "\<not> no_longer_valid e' t'"
    and user: "by_id us_id (rt_userId t') (users (db s)) = Some u"
    and fresh: "find_token c plain' (db s) = None" "parseDurationToMs (refreshExpiresIn c) = Inr ms"
  shows "refresh c e token plain meta s = (Inl (UnauthorizedException ''Refresh token is no longer valid''), s) \<and>
         \<not> is_error (fst (refresh c e' token' plain' meta' (snd (refresh c e token plain meta s))))"
proof -
  note no = revoked_refused [OF reused, of e plain meta]
  have "\<not> (\<exists>x \<in> set (refresh_tokens (revoke e' P (db s))). rt_tokenHash x = sha256_hex c plain')" for P
    using fresh(1) by (auto simp: find_token_def find_None_iff revoke_rows)
  then have "\<exists>r s'. runRefresh c e' token' plain' meta' s = (Inr r, s')"
    using other user fresh(2) by (simp add: runRefresh_def with_tokens_def issueTokens_def)
  then have "\<not> is_error (fst (refresh c e' token' plain' meta' s))"
    by (auto simp: refresh_def transaction_def)
  then show ?thesis by (simp add: no)
qed

text \<open>
  C20: Whatever requests are interleaved, the account tables stay well formed: one account per address
  whatever its case and surrounding blanks, every token and every linked identity belongs to an existing
  user, and no token hash or identity occurs twice. An address that has an account cannot be registered
  again.
\<close>
theorem accounts_stay_well_formed:
  assumes "accounts_ok (db s)" and "account_step\<^sup>*\<^sup>* s s'"
    and "normalizeEmail (rg_email dto) \<in> us_email ` set (users (db s'))"
  shows "accounts_ok (db s') \<and>
         register c e meanwhile plain dto meta s' = (Inl (ConflictException ''An account with this email already exists''), s')"
  using account_steps_kept [OF assms(2)] assms(1,3) find_email_None [of "rg_email dto" "db s'"]
  by (auto simp: sessions_kept_def register_def)

section \<open>Who may make a request\<close>

text \<open>
  A route that is not public is reached only with a valid access token in a Bearer header, and one
  with required roles only if the role in the token is among them; the account itself, its current role
  or whether it was deactivated, is not looked at. A public route with required roles is reached by nobody.
\<close>
theorem guards_admit_iff:
  "request_user c e isPublic roles header = Inr user \<longleftrightarrow>
     (if isPublic then user = None \<and> roles = []
      else \<exists>h p. header = Some h \<and> starts_with ''Bearer '' h \<and> js_trim (drop 7 h) \<noteq> [] \<and>
             verifyAsync c (now e) (js_trim (drop 7 h)) = Some p \<and> user = Some p \<and>
             (roles = [] \<or> jwt_role p \<in> set roles))"
proof -
  have "length ''Bearer '' = 7" by simp
  then show ?thesis
    unfolding request_user_def jwt_canActivate_def roles_canActivate_def extractToken_def Let_def
    by (auto simp del: list.size split: option.splits if_splits)
qed

section \<open>Witnesses\<close>

definition plain_crypto :: crypto where
  "plain_crypto = \<lparr>bcrypt_hash = (\<lambda>p. p), bcrypt_compare = (\<lambda>p h. p = h), sha256_hex = (\<lambda>t. t),
     signAsync = (\<lambda>p. jwt_email p), verifyAsync = (\<lambda>t s. None), refreshExpiresIn = ''7d''\<rparr>"

definition jane :: User where
  "jane = \<lparr>us_id = 1, us_email = ''jane@example.com'', us_passwordHash = Some ''pw'', us_firstName = ''Jane'',
     us_lastName = ''Doe'', us_role = CUSTOMER, us_isEmailVerified = False, us_isActive = True\<rparr>"

definition token_row :: "uuid \<Rightarrow> string \<Rightarrow> time option \<Rightarrow> RefreshToken" where
  "token_row i h r = \<lparr>rt_id = i, rt_userId = 1, rt_tokenHash = h, rt_expiresAt = 900, rt_revokedAt = r,
     rt_userAgent = None, rt_ipAddress = None\<rparr>"

definition session_sys :: sys where
  "session_sys = start_sys (empty_db\<lparr>next_id := 10, users := [jane],
     refresh_tokens := [token_row 2 ''a'' (Some 3), token_row 4 ''b'' None]\<rparr>)"

definition no_meta :: RequestMeta where
  "no_meta = \<lparr>rq_userAgent = None, rq_ipAddress = None\<rparr>"

definition jane_again :: RegisterDto where
  "jane_again = \<lparr>rg_email = '' Jane@Example.com'', rg_password = ''pw2'', rg_firstName = ''J'', rg_lastName = ''D''\<rparr>"

lemma session_sys_ok [simp]: "accounts_ok (db session_sys)"
  by code_simp

lemma refresh_token_used_once_witness:
  "refresh plain_crypto (sample_env 8) ''b'' ''d'' no_meta
     (snd (refresh plain_crypto (sample_env 5) ''b'' ''c'' no_meta session_sys))
   = (Inl (UnauthorizedException ''Refresh token is no longer valid''),
      snd (refresh plain_crypto (sample_env 5) ''b'' ''c'' no_meta session_sys))"
proof -
  let ?run = "refresh plain_crypto (sample_env 5) ''b'' ''c'' no_meta session_sys"
  have "\<not> is_error (fst ?run)" by code_simp
  then obtain r where "?run = (Inr r, snd ?run)" by (auto simp: not_is_error_iff prod_eq_iff)
  from refresh_token_used_once [OF session_sys_ok this rtranclp.rtrancl_refl] show ?thesis by blast
qed

lemma reuse_revokes_nothing_witness:
  "\<not> is_error (fst (refresh plain_crypto (sample_env 8) ''b'' ''d'' no_meta
     (snd (refresh plain_crypto (sample_env 5) ''a'' ''c'' no_meta session_sys))))"
proof -
  have "find_token plain_crypto ''a'' (db session_sys) = Some (token_row 2 ''a'' (Some 3))"
    "rt_revokedAt (token_row 2 ''a'' (Some 3)) \<noteq> None"
    "find_token plain_crypto ''b'' (db session_sys) = Some (token_row 4 ''b'' None)"
    "rt_userId (token_row 4 ''b'' None) = rt_userId (token_row 2 ''a'' (Some 3))"
    "\<not> no_longer_valid (sample_env 8) (token_row 4 ''b'' None)"
    "by_id us_id (rt_userId (token_row 4 ''b'' None)) (users (db session_sys)) = Some jane"
    "find_token plain_crypto ''d'' (db session_sys) = None"
    "parseDurationToMs (refreshExpiresIn plain_crypto) = Inr 604800000" by code_simp+
  from reuse_revokes_nothing [OF this] show ?thesis by blast
qed

lemma accounts_stay_well_formed_witness:
  "register plain_crypto (sample_env 5) (\<lambda>t. t) ''c'' jane_again no_meta session_sys
   = (Inl (ConflictException ''An account with this email already exists''), session_sys)"
proof -
  have "normalizeEmail (rg_email jane_again) \<in> us_email ` set (users (db session_sys))" by code_simp
  from accounts_stay_well_formed [OF session_sys_ok rtranclp.rtrancl_refl this] show ?thesis by blast
qed

end
