(* ===== verification/Catalog.thy ===== *)
theory Catalog
  imports Auction_Checkout Slug
begin

text \<open>
  Categories and products: \<open>modules/categories/categories.service.ts\<close> and \<open>modules/products/products.service.ts\<close>.
  Reads and writes of a request are not one transaction; \<open>meanwhile\<close> is what other requests do between
  the last read and the write, for an insert once per attempt. While the free slug is searched the table
  is taken as constant. A cached value is an argument of the reads that look into Redis; what they store
  there is the second component of their result.
\<close>

section \<open>Retries of an insert\<close>

definition MAX_SLUG_ATTEMPTS :: nat where
  "MAX_SLUG_ATTEMPTS = 5"

text \<open>
  One attempt: a free slug is searched, then the row is inserted in a transaction of its own; a violated
  unique index starts the next attempt. The first argument counts the attempts that are left.
\<close>

fun with_unique_slug ::
  "nat \<Rightarrow> string \<Rightarrow> (nat \<Rightarrow> sys \<Rightarrow> sys) \<Rightarrow> (database \<Rightarrow> string list) \<Rightarrow> string \<Rightarrow>
   (string \<Rightarrow> sys \<Rightarrow> 'a result \<times> sys) \<Rightarrow> sys \<Rightarrow> 'a result \<times> sys" where
  "with_unique_slug 0 message meanwhile slugs name ins s = (Inl (ConflictException message), s)"
| "with_unique_slug (Suc n) message meanwhile slugs name ins s =
     (case ins (generateUniqueSlug name (slugs (db s))) (meanwhile n s) of
        (Inl err, s1) \<Rightarrow>
          if isUniqueViolation err then with_unique_slug n message meanwhile slugs name ins s1
          else (Inl err, s1)
      | (Inr x, s1) \<Rightarrow> (Inr x, s1))"

section \<open>Categories\<close>

record CreateCategoryDto =
  cc_name :: string
  cc_parentId :: "uuid option"
  cc_iconUrl :: "string option"
  cc_sortOrder :: "int option"
  cc_isActive :: "bool option"

record UpdateCategoryDto =
  uc_name :: "string option"
  uc_parentId :: "uuid option"
  uc_iconUrl :: "string option"
  uc_sortOrder :: "int option"
  uc_isActive :: "bool option"

definition categories_findAll :: "Category list option \<Rightarrow> database \<Rightarrow> Category list \<times> Category list option" where
  "categories_findAll cached d =
     (case cached of
        Some cs \<Rightarrow> (cs, None)
      | None \<Rightarrow> let cs = sort_key ca_sortOrder (filter ca_isActive (categories d)) in (cs, Some cs))"

definition find_category :: "uuid \<Rightarrow> database \<Rightarrow> Category result" where
  "find_category i d =
     (case by_id ca_id i (categories d) of
        None \<Rightarrow> Inl (NotFoundException ''Category not found'') | Some c \<Rightarrow> Inr c)"

definition assertNameAvailable :: "string \<Rightarrow> uuid option \<Rightarrow> database \<Rightarrow> unit result" where
  "assertNameAvailable name excludingId d =
     (case find (\<lambda>c. ca_name c = name) (categories d) of
        None \<Rightarrow> Inr ()
      | Some existing \<Rightarrow>
          if Some (ca_id existing) \<noteq> excludingId then Inl (ConflictException ''Category name is already in use'')
          else Inr ())"

definition parent_exists :: "Category \<Rightarrow> Category list \<Rightarrow> bool" where
  "parent_exists c cs \<longleftrightarrow> (\<forall>i \<in> set_option (ca_parentId c). i \<in> ca_id ` set cs)"

text \<open>The unique indexes on name and slug, and the foreign key of the parent, which may be the row itself.\<close>

definition category_conflict :: "Category \<Rightarrow> Category list \<Rightarrow> bool" where
  "category_conflict c cs \<longleftrightarrow>
     (\<exists>x \<in> set cs. ca_id x \<noteq> ca_id c \<and> (ca_name x = ca_name c \<or> ca_slug x = ca_slug c))"

definition new_category :: "CreateCategoryDto \<Rightarrow> string \<Rightarrow> uuid \<Rightarrow> Category" where
  "new_category dto slug i =
     \<lparr>ca_id = i, ca_name = cc_name dto, ca_slug = slug, ca_parentId = cc_parentId dto, ca_iconUrl = cc_iconUrl dto,
       ca_sortOrder = (case cc_sortOrder dto of None \<Rightarrow> 0 | Some n \<Rightarrow> n),
       ca_isActive = (case cc_isActive dto of None \<Rightarrow> True | Some b \<Rightarrow> b)\<rparr>"

definition insert_category :: "CreateCategoryDto \<Rightarrow> string \<Rightarrow> sys \<Rightarrow> Category result \<times> sys" where
  "insert_category dto slug s =
     (let c = new_category dto slug (next_id (db s))
      in if category_conflict c (categories (db s)) then (Inl UniqueViolation, s)
         else if \<not> parent_exists c (categories (db s)) then (Inl (PlainError ''violates foreign key constraint''), s)
         else (Inr c, upd_db (\<lambda>d. d\<lparr>next_id := next_id d + 1, categories := categories d @ [c]\<rparr>) s))"

definition create_category ::
  "(nat \<Rightarrow> sys \<Rightarrow> sys) \<Rightarrow> CreateCategoryDto \<Rightarrow> sys \<Rightarrow> Category result \<times> sys" where
  "create_category meanwhile dto s =
     (case assertNameAvailable (cc_name dto) None (db s) of
        Inl err \<Rightarrow> (Inl err, s)
      | Inr _ \<Rightarrow>
          (case with_unique_slug MAX_SLUG_ATTEMPTS ''Category could not be created: name or slug already in use''
                  meanwhile (\<lambda>d. map ca_slug (categories d)) (cc_name dto) (insert_category dto) s of
             (Inl err, s1) \<Rightarrow> (Inl err, s1)
           | (Inr c, s1) \<Rightarrow> (Inr c, emit RedisIncrSearchVersion (emit RedisDelCategories s1))))"

definition or_keep :: "'a option \<Rightarrow> 'a \<Rightarrow> 'a" where
  "or_keep new old = (case new of None \<Rightarrow> old | Some x \<Rightarrow> x)"

definition merge_category :: "UpdateCategoryDto \<Rightarrow> Category \<Rightarrow> Category" where
  "merge_category dto c = c\<lparr>ca_name := or_keep (uc_name dto) (ca_name c),
     ca_parentId := (case uc_parentId dto of None \<Rightarrow> ca_parentId c | Some i \<Rightarrow> Some i),
     ca_iconUrl := (case uc_iconUrl dto of None \<Rightarrow> ca_iconUrl c | Some u \<Rightarrow> Some u),
     ca_sortOrder := or_keep (uc_sortOrder dto) (ca_sortOrder c),
     ca_isActive := or_keep (uc_isActive dto) (ca_isActive c)\<rparr>"

text \<open>
  \<open>manager.save\<close> of an entity that was read earlier: every column that differs from the row as it is now
  is written, and the row is inserted again if it is gone.
\<close>

definition put_or_insert :: "('r \<Rightarrow> uuid) \<Rightarrow> 'r \<Rightarrow> 'r list \<Rightarrow> 'r list" where
  "put_or_insert k r t = (if k r \<in> k ` set t then put_row k r t else t @ [r])"

definition save_category :: "Category \<Rightarrow> sys \<Rightarrow> Category result \<times> sys" where
  "save_category c s =
     (if category_conflict c (categories (db s)) then (Inl UniqueViolation, s)
      else if \<not> parent_exists c (put_or_insert ca_id c (categories (db s)))
      then (Inl (PlainError ''violates foreign key constraint''), s)
      else (Inr c, upd_db (\<lambda>d. d\<lparr>categories := put_or_insert ca_id c (categories d)\<rparr>) s))"

definition runUpdateCategory :: "Category \<Rightarrow> uuid \<Rightarrow> sys \<Rightarrow> Category result \<times> sys" where
  "runUpdateCategory c correlationId s =
     (case save_category c s of
        (Inl err, s1) \<Rightarrow> (Inl err, s1)
      | (Inr saved, s1) \<Rightarrow>
          (Inr saved, outbox_record ''CATEGORY_UPDATED'' ''Category'' (ca_id saved)
             [(''categoryId'', JId (ca_id saved))] correlationId s1))"

definition update_category ::
  "(sys \<Rightarrow> sys) \<Rightarrow> uuid \<Rightarrow> UpdateCategoryDto \<Rightarrow> uuid \<Rightarrow> sys \<Rightarrow> Category result \<times> sys" where
  "update_category meanwhile i dto correlationId s =
     (case rbind (find_category i (db s)) (\<lambda>c.
             if uc_name dto \<noteq> None \<and> or_keep (uc_name dto) (ca_name c) \<noteq> [] \<and> or_keep (uc_name dto) (ca_name c) \<noteq> ca_name c
             then rbind (assertNameAvailable (or_keep (uc_name dto) (ca_name c)) (Some i) (db s)) (\<lambda>_. Inr c)
             else Inr c) of
        Inl err \<Rightarrow> (Inl err, s)
      | Inr c \<Rightarrow>
          (case transaction (runUpdateCategory (merge_category dto c) correlationId) (meanwhile s) of
             (Inl err, s1) \<Rightarrow> (Inl err, s1)
           | (Inr saved, s1) \<Rightarrow> (Inr saved, emit RedisIncrSearchVersion (emit RedisDelCategories s1))))"

text \<open>Deleting a category is refused by the foreign key of its products; its children lose their parent.\<close>

definition runDeleteCategory :: "uuid \<Rightarrow> uuid \<Rightarrow> sys \<Rightarrow> unit result \<times> sys" where
  "runDeleteCategory i correlationId s =
     (if \<exists>p \<in> set (products (db s)). pr_categoryId p = i
      then (Inl (PlainError ''violates foreign key constraint''), s)
      else (Inr (), outbox_record ''CATEGORY_DELETED'' ''Category'' i [(''categoryId'', JId i)] correlationId
             (upd_db (\<lambda>d. d\<lparr>categories := map (\<lambda>c. if ca_parentId c = Some i then c\<lparr>ca_parentId := None\<rparr> else c)
                              (filter (\<lambda>c. ca_id c \<noteq> i) (categories d))\<rparr>) s)))"

definition delete_category :: "(sys \<Rightarrow> sys) \<Rightarrow> uuid \<Rightarrow> uuid \<Rightarrow> sys \<Rightarrow> unit result \<times> sys" where
  "delete_category meanwhile i correlationId s =
     (case find_category i (db s) of
        Inl err \<Rightarrow> (Inl err, s)
      | Inr c \<Rightarrow>
          if length (filter (\<lambda>p. pr_categoryId p = i) (products (db s))) > 0
          then (Inl (ConflictException ''Category has products and cannot be deleted''), s)
          else (case transaction (runDeleteCategory i correlationId) (meanwhile s) of
                  (Inl err, s1) \<Rightarrow> (Inl err, s1)
                | (Inr _, s1) \<Rightarrow> (Inr (), emit RedisIncrSearchVersion (emit RedisDelCategories s1))))"

section \<open>Products\<close>

record CreateProductDto =
  cp_name :: string
  cp_description :: "string option"
  cp_categoryId :: uuid
  cp_type :: ProductType
  cp_price :: "string option"
  cp_stockQuantity :: int
  cp_imageUrls :: "string list option"
  cp_isPublished :: "bool option"

record UpdateProductDto =
  up_name :: "string option"
  up_description :: "string option"
  up_categoryId :: "uuid option"
  up_type :: "ProductType option"
  up_price :: "string option"
  up_stockQuantity :: "int option"
  up_imageUrls :: "string list option"
  up_isPublished :: "bool option"

definition findPublicById :: "Product option \<Rightarrow> uuid \<Rightarrow> database \<Rightarrow> Product result \<times> Product option" where
  "findPublicById cached i d =
     (case cached of
        Some p \<Rightarrow> (Inr p, None)
      | None \<Rightarrow>
          (case find (\<lambda>p. pr_id p = i \<and> pr_isPublished p) (products d) of
             None \<Rightarrow> (Inl (NotFoundException ''Product not found''), None)
           | Some p \<Rightarrow> (Inr p, Some p)))"

definition findOwnedList :: "uuid \<Rightarrow> database \<Rightarrow> Product list" where
  "findOwnedList sellerProfileId d = rev (filter (\<lambda>p. pr_sellerProfileId p = sellerProfileId) (products d))"

definition findOwnedById :: "uuid \<Rightarrow> uuid \<Rightarrow> database \<Rightarrow> Product result" where
  "findOwnedById i sellerProfileId d =
     (case find (\<lambda>p. pr_id p = i \<and> pr_sellerProfileId p = sellerProfileId) (products d) of
        None \<Rightarrow> Inl (NotFoundException ''Product not found'') | Some p \<Rightarrow> Inr p)"

definition assertCategoryExists :: "uuid \<Rightarrow> database \<Rightarrow> unit result" where
  "assertCategoryExists i d =
     (if i \<in> ca_id ` set (categories d) then Inr () else Inl (BadRequestException ''Category does not exist''))"

definition stored_product :: "env \<Rightarrow> Product \<Rightarrow> Product" where
  "stored_product e p = p\<lparr>pr_price := map_option (numeric2 e) (pr_price p)\<rparr>"

definition new_product :: "uuid \<Rightarrow> CreateProductDto \<Rightarrow> string \<Rightarrow> uuid \<Rightarrow> Product" where
  "new_product sellerProfileId dto slug i =
     \<lparr>pr_id = i, pr_sellerProfileId = sellerProfileId, pr_categoryId = cp_categoryId dto, pr_name = cp_name dto,
       pr_slug = slug, pr_description = cp_description dto, pr_type = cp_type dto, pr_price = cp_price dto,
       pr_stockQuantity = cp_stockQuantity dto,
       pr_imageUrls = (case cp_imageUrls dto of None \<Rightarrow> [] | Some us \<Rightarrow> us),
       pr_isPublished = (case cp_isPublished dto of None \<Rightarrow> True | Some b \<Rightarrow> b),
       pr_ratingAverage = ''0.00'', pr_ratingCount = 0\<rparr>"

definition save_product :: "env \<Rightarrow> Product \<Rightarrow> sys \<Rightarrow> Product result \<times> sys" where
  "save_product e p s =
     (if \<exists>x \<in> set (products (db s)). pr_id x \<noteq> pr_id p \<and> pr_slug x = pr_slug p then (Inl UniqueViolation, s)
      else if pr_categoryId p \<notin> ca_id ` set (categories (db s))
      then (Inl (PlainError ''violates foreign key constraint''), s)
      else (Inr p, upd_db (\<lambda>d. d\<lparr>products := put_or_insert pr_id (stored_product e p) (products d)\<rparr>) s))"

definition record_product :: "string \<Rightarrow> uuid \<Rightarrow> Product result \<times> sys \<Rightarrow> Product result \<times> sys" where
  "record_product eventType correlationId r =
     (case r of
        (Inl err, s1) \<Rightarrow> (Inl err, s1)
      | (Inr saved, s1) \<Rightarrow>
          (Inr saved, outbox_record eventType ''Product'' (pr_id saved) [(''productId'', JId (pr_id saved))] correlationId s1))"

text \<open>The id of a new row is drawn by the database when the row is inserted.\<close>

definition runCreateProduct ::
  "env \<Rightarrow> uuid \<Rightarrow> CreateProductDto \<Rightarrow> uuid \<Rightarrow> string \<Rightarrow> sys \<Rightarrow> Product result \<times> sys" where
  "runCreateProduct e sellerProfileId dto correlationId slug s =
     record_product ''PRODUCT_CREATED'' correlationId
       (save_product e (new_product sellerProfileId dto slug (next_id (db s)))
         (upd_db (\<lambda>d. d\<lparr>next_id := next_id d + 1\<rparr>) s))"

definition createForSeller ::
  "env \<Rightarrow> (nat \<Rightarrow> sys \<Rightarrow> sys) \<Rightarrow> uuid \<Rightarrow> CreateProductDto \<Rightarrow> uuid \<Rightarrow> sys \<Rightarrow> Product result \<times> sys" where
  "createForSeller e meanwhile sellerProfileId dto correlationId s =
     (case assertCategoryExists (cp_categoryId dto) (db s) of
        Inl err \<Rightarrow> (Inl err, s)
      | Inr _ \<Rightarrow>
          (case with_unique_slug MAX_SLUG_ATTEMPTS ''Could not generate a unique slug'' meanwhile
                  (\<lambda>d. map pr_slug (products d)) (cp_name dto)
                  (\<lambda>slug. transaction (runCreateProduct e sellerProfileId dto correlationId slug)) s of
             (Inl err, s1) \<Rightarrow> (Inl err, s1)
           | (Inr p, s1) \<Rightarrow> (Inr p, emit RedisIncrSearchVersion s1)))"

definition merge_product :: "UpdateProductDto \<Rightarrow> Product \<Rightarrow> Product" where
  "merge_product dto p = p\<lparr>pr_name := or_keep (up_name dto) (pr_name p),
     pr_description := (case up_description dto of None \<Rightarrow> pr_description p | Some t \<Rightarrow> Some t),
     pr_categoryId := or_keep (up_categoryId dto) (pr_categoryId p),
     pr_type := or_keep (up_type dto) (pr_type p),
     pr_price := (case up_price dto of None \<Rightarrow> pr_price p | Some t \<Rightarrow> Some t),
     pr_stockQuantity := or_keep (up_stockQuantity dto) (pr_stockQuantity p),
     pr_imageUrls := or_keep (up_imageUrls dto) (pr_imageUrls p),
     pr_isPublished := or_keep (up_isPublished dto) (pr_isPublished p)\<rparr>"

definition updateOwned ::
  "env \<Rightarrow> (sys \<Rightarrow> sys) \<Rightarrow> uuid \<Rightarrow> uuid \<Rightarrow> UpdateProductDto \<Rightarrow> uuid \<Rightarrow> sys \<Rightarrow> Product result \<times> sys" where
  "updateOwned e meanwhile i sellerProfileId dto correlationId s =
     (case rbind (findOwnedById i sellerProfileId (db s)) (\<lambda>p.
             case up_categoryId dto of
               None \<Rightarrow> Inr p
             | Some c \<Rightarrow> rbind (assertCategoryExists c (db s)) (\<lambda>_. Inr p)) of
        Inl err \<Rightarrow> (Inl err, s)
      | Inr existing \<Rightarrow>
          (case transaction (\<lambda>t. record_product ''PRODUCT_UPDATED'' correlationId
                               (save_product e (merge_product dto existing) t)) (meanwhile s) of
             (Inl err, s1) \<Rightarrow> (Inl err, s1)
           | (Inr saved, s1) \<Rightarrow> (Inr saved, emit RedisIncrSearchVersion (emit (RedisDelProduct i) s1))))"

text \<open>
  What the foreign keys do when a product row is deleted: its auction with the bids, its cart items and
  its reviews go with it, and the items of past orders forget which product they were.
\<close>

definition cascade_product :: "uuid \<Rightarrow> database \<Rightarrow> database" where
  "cascade_product i d =
     d\<lparr>products := filter (\<lambda>p. pr_id p \<noteq> i) (products d),
       bids := filter (\<lambda>b. \<not> (\<exists>a \<in> set (auctions d). au_id a = bid_auctionId b \<and> au_productId a = i)) (bids d),
       auctions := filter (\<lambda>a. au_productId a \<noteq> i) (auctions d),
       cart_items := filter (\<lambda>x. ci_productId x \<noteq> i) (cart_items d),
       reviews := filter (\<lambda>x. rv_productId x \<noteq> i) (reviews d),
       seller_order_items := map (\<lambda>x. if soi_productId x = Some i then x\<lparr>soi_productId := None\<rparr> else x)
                               (seller_order_items d)\<rparr>"

definition deleteOwned :: "uuid \<Rightarrow> uuid \<Rightarrow> uuid \<Rightarrow> sys \<Rightarrow> unit result \<times> sys" where
  "deleteOwned i sellerProfileId correlationId s =
     (case findOwnedById i sellerProfileId (db s) of
        Inl err \<Rightarrow> (Inl err, s)
      | Inr existing \<Rightarrow>
          (Inr (), emit RedisIncrSearchVersion (emit (RedisDelProduct i)
             (outbox_record ''PRODUCT_DELETED'' ''Product'' i [(''productId'', JId i)] correlationId
               (upd_db (cascade_product i) s)))))"

definition findManyByCategory :: "uuid \<Rightarrow> database \<Rightarrow> Product list" where
  "findManyByCategory categoryId d = filter (\<lambda>p. pr_categoryId p = categoryId) (products d)"

section \<open>What the tables of the catalogue keep\<close>

definition categories_ok :: "Category list \<Rightarrow> uuid \<Rightarrow> bool" where
  "categories_ok cs n \<longleftrightarrow>
     distinct (map ca_id cs) \<and> distinct (map ca_name cs) \<and> distinct (map ca_slug cs) \<and>
     (\<forall>c \<in> set cs. ca_id c < n \<and> parent_exists c cs)"

definition products_ok :: "Product list \<Rightarrow> uuid set \<Rightarrow> uuid \<Rightarrow> bool" where
  "products_ok ps cats n \<longleftrightarrow>
     distinct (map pr_id ps) \<and> distinct (map pr_slug ps) \<and>
     (\<forall>p \<in> set ps. pr_id p < n \<and> pr_categoryId p \<in> cats)"

definition catalog_ok :: "database \<Rightarrow> bool" where
  "catalog_ok d \<longleftrightarrow> categories_ok (categories d) (next_id d) \<and>
     products_ok (products d) (ca_id ` set (categories d)) (next_id d)"

lemma categories_ok_mono: "categories_ok cs n \<Longrightarrow> n \<le> m \<Longrightarrow> categories_ok cs m"
  by (auto simp: categories_ok_def)

lemma products_ok_mono: "products_ok ps cats n \<Longrightarrow> cats \<subseteq> cats' \<Longrightarrow> n \<le> m \<Longrightarrow> products_ok ps cats' m"
  by (fastforce simp: products_ok_def)

lemma set_put_or_insert: "set (put_or_insert k r t) = insert r {x \<in> set t. k x \<noteq> k r}"
proof (cases "k r \<in> k ` set t")
  case True
  then show ?thesis by (auto simp: put_or_insert_def put_row_def)
next
  case False
  then have "x \<in> set t \<Longrightarrow> k x \<noteq> k r" for x by (metis imageI)
  then show ?thesis using False by (auto simp: put_or_insert_def)
qed

lemma keys_put_or_insert: "k ` set (put_or_insert k r t) = insert (k r) (k ` set t)"
  by (auto simp: set_put_or_insert)

lemma distinct_put_or_insert:
  assumes "distinct (map k t)" "distinct (map f t)" "\<And>x. x \<in> set t \<Longrightarrow> k x \<noteq> k r \<Longrightarrow> f x \<noteq> f r"
  shows "distinct (map f (put_or_insert k r t))"
proof -
  have "distinct (map f (put_row k r t))"
    using assms
  proof (induction t)
    case (Cons x t)
    show ?case
    proof (cases "k x = k r")
      case True
      then have "put_row k r t = t" using Cons.prems(1) by (intro put_row_absent) auto
      then have "put_row k r (x # t) = r # t" using True by (simp add: put_row_def)
      moreover have "f r \<notin> f ` set t" using Cons.prems(1,3) True by (force simp: image_iff)
      ultimately show ?thesis using Cons.prems(2) by simp
    next
      case False
      have "f x \<noteq> f y" if "y \<in> set (put_row k r t)" for y
        using set_put_rowD [OF that] Cons.prems(2,3) False by auto
      then have "f x \<notin> f ` set (put_row k r t)" by blast
      moreover have "put_row k r (x # t) = x # put_row k r t" using False by (simp add: put_row_def)
      ultimately show ?thesis using Cons by simp
    qed
  qed (simp add: put_row_def)
  moreover have "distinct (map f (t @ [r]))" if "k r \<notin> k ` set t"
    using assms(2,3) that by (force simp: image_iff)
  ultimately show ?thesis by (simp add: put_or_insert_def)
qed

lemma categories_ok_put:
  assumes "categories_ok cs n" "\<not> category_conflict c cs" "ca_id c < m" "n \<le> m"
    "parent_exists c (put_or_insert ca_id c cs)"
  shows "categories_ok (put_or_insert ca_id c cs) m"
proof -
  have "distinct (map ca_id (put_or_insert ca_id c cs))" "distinct (map ca_name (put_or_insert ca_id c cs))"
    "distinct (map ca_slug (put_or_insert ca_id c cs))"
    using assms(1,2) by (auto intro!: distinct_put_or_insert simp: categories_ok_def category_conflict_def)
  moreover have "ca_id x < m \<and> parent_exists x (put_or_insert ca_id c cs)" if "x \<in> set cs" for x
    using assms(1,4) that by (auto simp: categories_ok_def parent_exists_def keys_put_or_insert)
  ultimately show ?thesis
    using assms(3,5) by (auto simp: categories_ok_def set_put_or_insert)
qed

lemma products_ok_put:
  assumes "products_ok ps cats n" "\<not> (\<exists>x \<in> set ps. pr_id x \<noteq> pr_id p \<and> pr_slug x = pr_slug p)"
    "pr_id p < n" "pr_categoryId p \<in> cats"
  shows "products_ok (put_or_insert pr_id p ps) cats n"
proof -
  have "distinct (map pr_id (put_or_insert pr_id p ps))" "distinct (map pr_slug (put_or_insert pr_id p ps))"
    using assms(1,2) by (auto intro!: distinct_put_or_insert simp: products_ok_def)
  then show ?thesis using assms(1,3,4) by (auto simp: products_ok_def set_put_or_insert)
qed

lemma products_ok_iff:
  "products_ok ps cats n \<longleftrightarrow> distinct (map pr_id ps) \<and> distinct (map pr_slug ps) \<and>
     (\<forall>i \<in> set (map pr_id ps). i < n) \<and> set (map pr_categoryId ps) \<subseteq> cats"
  by (auto simp: products_ok_def)

lemma products_ok_same:
  assumes "map (\<lambda>p. (pr_id p, pr_slug p, pr_categoryId p)) ps' = map (\<lambda>p. (pr_id p, pr_slug p, pr_categoryId p)) ps"
    "products_ok ps cats n"
  shows "products_ok ps' cats n"
proof -
  have "map pr_id ps' = map pr_id ps" "map pr_slug ps' = map pr_slug ps" "map pr_categoryId ps' = map pr_categoryId ps"
    using arg_cong [where f = "map fst", OF assms(1)] arg_cong [where f = "map (fst \<circ> snd)", OF assms(1)]
      arg_cong [where f = "map (snd \<circ> snd)", OF assms(1)] by (simp_all add: comp_def)
  then show ?thesis using assms(2) unfolding products_ok_iff by simp
qed

section \<open>Every operation keeps them\<close>

definition catalog_kept :: "sys \<Rightarrow> sys \<Rightarrow> bool" where
  "catalog_kept s s' \<longleftrightarrow> (catalog_ok (db s) \<longrightarrow> catalog_ok (db s')) \<and> next_id (db s) \<le> next_id (db s')"

text \<open>Requests of other services change neither ids nor slugs nor categories.\<close>

definition same_catalog :: "database \<Rightarrow> database \<Rightarrow> bool" where
  "same_catalog d d' \<longleftrightarrow> categories d' = categories d \<and> next_id d \<le> next_id d' \<and>
     map (\<lambda>p. (pr_id p, pr_slug p, pr_categoryId p)) (products d') =
     map (\<lambda>p. (pr_id p, pr_slug p, pr_categoryId p)) (products d)"

lemma catalog_kept_same: "same_catalog (db s) (db s') \<Longrightarrow> catalog_kept s s'"
proof -
  assume same: "same_catalog (db s) (db s')"
  then have "products_ok (products (db s')) cats n" if "products_ok (products (db s)) cats n" for cats n
    using products_ok_same that by (simp add: same_catalog_def)
  then show ?thesis
    using same categories_ok_mono products_ok_mono [OF _ order_refl]
    by (auto simp: same_catalog_def catalog_kept_def catalog_ok_def)
qed

lemma catalog_kept_refl [simp]: "catalog_kept s s"
  by (simp add: catalog_kept_def)

lemma catalog_kept_trans: "catalog_kept s t \<Longrightarrow> catalog_kept t u \<Longrightarrow> catalog_kept s u"
  by (auto simp: catalog_kept_def)

lemma kept_outbox: "catalog_kept s t \<Longrightarrow> catalog_kept s (outbox_record y g i p c t)"
  by (rule catalog_kept_trans) (auto intro!: catalog_kept_same simp: same_catalog_def)

lemma kept_emit [simp]: "catalog_kept s (emit x t) \<longleftrightarrow> catalog_kept s t"
  by (simp add: catalog_kept_def)

lemma kept_transaction:
  assumes "catalog_kept s t" "catalog_kept s (snd (f t))"
  shows "catalog_kept s (snd (transaction f t))"
  using assms by (cases "f t"; cases "fst (f t)") (auto simp: transaction_def catalog_kept_def)

lemma with_unique_slug_rel:
  assumes refl: "\<And>a. R a a" and trans: "\<And>a b c. R a b \<Longrightarrow> R b c \<Longrightarrow> R a c"
    and ins: "\<And>slug t. R t (snd (ins slug t))" and m: "\<And>n t. R t (m n t)"
  shows "R s (snd (with_unique_slug n message m slugs name ins s))"
proof (induction n arbitrary: s)
  case 0
  show ?case by (simp add: refl)
next
  case (Suc n)
  let ?r = "ins (generateUniqueSlug name (slugs (db s))) (m n s)"
  have r: "R s (snd ?r)" by (rule trans [OF m ins])
  moreover have "R s (snd (with_unique_slug n message m slugs name ins (snd ?r)))" by (rule trans [OF r Suc])
  ultimately show ?case by (auto split: prod.split sum.split)
qed

lemma with_unique_slug_kept:
  assumes "\<And>slug t. catalog_kept t (snd (ins slug t))" "\<And>n t. catalog_kept t (m n t)"
  shows "catalog_kept s (snd (with_unique_slug n message m slugs name ins s))"
  by (rule with_unique_slug_rel) (use assms in \<open>blast intro: catalog_kept_refl catalog_kept_trans\<close>)+

lemma save_product_ok:
  assumes "catalog_ok (db s)" "pr_id p < next_id (db s)"
  shows "catalog_ok (db (snd (save_product e p s)))"
proof -
  have "pr_id (stored_product e p) = pr_id p" "pr_slug (stored_product e p) = pr_slug p"
    "pr_categoryId (stored_product e p) = pr_categoryId p"
    by (simp_all add: stored_product_def)
  then show ?thesis
    using assms products_ok_put [of "products (db s)" _ _ "stored_product e p"]
    by (simp add: save_product_def catalog_ok_def)
qed

lemma save_product_next [simp]: "next_id (db (snd (save_product e p s))) = next_id (db s)"
  by (simp add: save_product_def)

lemma record_product_kept: "catalog_kept s (snd r) \<Longrightarrow> catalog_kept s (snd (record_product y c r))"
  by (auto simp: record_product_def kept_outbox split: prod.split sum.split)

lemma runCreateProduct_kept: "catalog_kept s (snd (runCreateProduct e sp dto c slug s))"
proof -
  let ?t = "upd_db (\<lambda>d. d\<lparr>next_id := next_id d + 1\<rparr>) s"
  have "catalog_kept s ?t" by (rule catalog_kept_same) (simp add: same_catalog_def)
  then have "catalog_kept s (snd (save_product e (new_product sp dto slug (next_id (db s))) ?t))"
    using save_product_ok [of ?t "new_product sp dto slug (next_id (db s))" e]
    by (simp add: catalog_kept_def new_product_def)
  then show ?thesis unfolding runCreateProduct_def by (rule record_product_kept)
qed

lemma snd_case_keep:
  "snd (case r of (Inl err, s1) \<Rightarrow> (Inl err, s1) | (Inr x, s1) \<Rightarrow> (Inr (g x), h x s1))
   = (case fst r of Inl err \<Rightarrow> snd r | Inr x \<Rightarrow> h x (snd r))"
  by (simp split: prod.split sum.split)

lemma createForSeller_kept:
  assumes "\<And>n t. catalog_kept t (m n t)"
  shows "catalog_kept s (snd (createForSeller e m sp dto c s))"
proof -
  have "catalog_kept s (snd (with_unique_slug n x m sl name (\<lambda>slug. transaction (runCreateProduct e sp dto c slug)) s))" for n x sl name
    by (intro with_unique_slug_kept kept_transaction runCreateProduct_kept assms catalog_kept_refl)
  then show ?thesis by (simp add: createForSeller_def snd_case_keep split: sum.split)
qed

lemma findOwned_row: "findOwnedById i sp d = Inr p \<Longrightarrow> p \<in> set (products d) \<and> pr_id p = i \<and> pr_sellerProfileId p = sp"
  by (auto simp: findOwnedById_def split: option.splits dest!: find_SomeD)

lemma updateOwned_kept:
  assumes "\<And>t. catalog_kept t (m t)"
  shows "catalog_kept s (snd (updateOwned e m i sp dto c s))"
proof (cases "findOwnedById i sp (db s)")
  case (Inr p)
  have "catalog_ok (db (snd (save_product e (merge_product dto p) (m s))))" if "catalog_ok (db s)"
    using assms [of s] findOwned_row [OF Inr] that
    by (intro save_product_ok) (auto simp: catalog_kept_def catalog_ok_def products_ok_def merge_product_def)
  then have "catalog_kept s (snd (save_product e (merge_product dto p) (m s)))"
    using assms [of s] by (simp add: catalog_kept_def)
  then have "catalog_kept s (snd (transaction (\<lambda>t. record_product ''PRODUCT_UPDATED'' c (save_product e (merge_product dto p) t)) (m s)))"
    by (intro kept_transaction assms record_product_kept)
  then show ?thesis
    by (simp add: updateOwned_def Inr assertCategoryExists_def snd_case_keep split: option.split sum.split)
qed (simp add: updateOwned_def)

lemma deleteOwned_kept: "catalog_kept s (snd (deleteOwned i sp c s))"
proof -
  have "catalog_ok (cascade_product i d)" if "catalog_ok d" for d
    using that by (auto simp: catalog_ok_def cascade_product_def products_ok_def distinct_map_filter)
  then have "catalog_kept s (upd_db (cascade_product i) s)"
    by (simp add: catalog_kept_def) (simp add: cascade_product_def)
  then show ?thesis by (simp add: deleteOwned_def kept_outbox split: sum.split)
qed

lemma catalog_ok_put_category:
  assumes "catalog_ok d" "\<not> category_conflict c (categories d)" "ca_id c < n" "next_id d \<le> n"
    "parent_exists c (put_or_insert ca_id c (categories d))"
  shows "catalog_ok (d\<lparr>next_id := n, categories := put_or_insert ca_id c (categories d)\<rparr>)"
  using assms categories_ok_put [of "categories d" "next_id d" c n]
    products_ok_mono [of "products d" "ca_id ` set (categories d)" "next_id d" _ n]
  by (auto simp: catalog_ok_def keys_put_or_insert)

lemma insert_category_kept: "catalog_kept s (snd (insert_category dto slug s))"
proof -
  let ?c = "new_category dto slug (next_id (db s))" and ?cs = "categories (db s)"
  have "catalog_ok ((db s)\<lparr>next_id := next_id (db s) + 1, categories := ?cs @ [?c]\<rparr>)"
    if "catalog_ok (db s)" "\<not> category_conflict ?c ?cs" "parent_exists ?c ?cs"
  proof -
    have "ca_id ?c \<notin> ca_id ` set ?cs" using that(1) by (auto simp: catalog_ok_def categories_ok_def new_category_def)
    then have "put_or_insert ca_id ?c ?cs = ?cs @ [?c]" by (simp add: put_or_insert_def)
    moreover have "parent_exists ?c (put_or_insert ca_id ?c ?cs)"
      using that(3) by (simp add: parent_exists_def keys_put_or_insert)
    moreover have "ca_id ?c = next_id (db s)" by (simp add: new_category_def)
    ultimately show ?thesis
      using catalog_ok_put_category [of "db s" ?c "next_id (db s) + 1"] that by simp
  qed
  then show ?thesis by (simp add: catalog_kept_def insert_category_def Let_def)
qed

lemma create_category_kept:
  assumes "\<And>n t. catalog_kept t (m n t)"
  shows "catalog_kept s (snd (create_category m dto s))"
proof -
  have "catalog_kept s (snd (with_unique_slug n x m sl name (insert_category dto) s))" for n x sl name
    by (intro with_unique_slug_kept insert_category_kept assms)
  then show ?thesis by (simp add: create_category_def snd_case_keep split: sum.split)
qed

lemma find_category_row: "find_category i d = Inr c \<Longrightarrow> c \<in> set (categories d) \<and> ca_id c = i"
  by (auto simp: find_category_def split: option.splits dest!: by_id_SomeD)

lemma save_category_ok:
  assumes "catalog_ok (db s)" "ca_id c < next_id (db s)"
  shows "catalog_ok (db (snd (save_category c s)))"
  using assms catalog_ok_put_category [of "db s" c "next_id (db s)"] by (simp add: save_category_def)

lemma update_category_kept:
  assumes "\<And>t. catalog_kept t (m t)"
  shows "catalog_kept s (snd (update_category m i dto c s))"
proof (cases "find_category i (db s)")
  case (Inr x)
  have "catalog_ok (db (snd (save_category (merge_category dto x) (m s))))" if "catalog_ok (db s)"
    using assms [of s] find_category_row [OF Inr] that
    by (intro save_category_ok) (auto simp: catalog_kept_def catalog_ok_def categories_ok_def merge_category_def)
  then have "catalog_kept s (snd (save_category (merge_category dto x) (m s)))"
    using assms [of s] by (simp add: catalog_kept_def save_category_def)
  then have "catalog_kept s (snd (runUpdateCategory (merge_category dto x) c (m s)))"
    by (auto simp: runUpdateCategory_def kept_outbox split: prod.split sum.split)
  then have "catalog_kept s (snd (transaction (runUpdateCategory (merge_category dto x) c) (m s)))"
    by (intro kept_transaction assms)
  then show ?thesis
    by (simp add: update_category_def Inr rbind_def snd_case_keep [where g = "\<lambda>x. x"] split: sum.split)
qed (simp add: update_category_def)

lemma delete_category_ok:
  assumes ok: "catalog_ok d" and free: "\<not> (\<exists>p \<in> set (products d). pr_categoryId p = i)"
  shows "catalog_ok (d\<lparr>categories := map (\<lambda>c. if ca_parentId c = Some i then c\<lparr>ca_parentId := None\<rparr> else c)
                        (filter (\<lambda>c. ca_id c \<noteq> i) (categories d))\<rparr>)"
proof -
  let ?f = "\<lambda>c. if ca_parentId c = Some i then c\<lparr>ca_parentId := None\<rparr> else c"
  let ?cs = "map ?f (filter (\<lambda>c. ca_id c \<noteq> i) (categories d))"
  have f: "ca_id (?f c) = ca_id c" "ca_name (?f c) = ca_name c" "ca_slug (?f c) = ca_slug c" for c by simp_all
  have maps: "map ca_id ?cs = map ca_id (filter (\<lambda>c. ca_id c \<noteq> i) (categories d))"
    "map ca_name ?cs = map ca_name (filter (\<lambda>c. ca_id c \<noteq> i) (categories d))"
    "map ca_slug ?cs = map ca_slug (filter (\<lambda>c. ca_id c \<noteq> i) (categories d))"
    by (simp_all add: comp_def f)
  have "ca_id ` set ?cs = ca_id ` set (filter (\<lambda>c. ca_id c \<noteq> i) (categories d))"
    using arg_cong [where f = set, OF maps(1)] by (simp only: set_map)
  then have ids: "ca_id ` set ?cs = ca_id ` set (categories d) - {i}" by auto
  have "ca_id c < next_id d \<and> parent_exists c ?cs" if c: "c \<in> set ?cs" for c
  proof -
    obtain c0 where c0: "c0 \<in> set (categories d)" "c = ?f c0" using c by auto
    then show ?thesis
      using ok unfolding parent_exists_def ids by (auto simp: catalog_ok_def categories_ok_def parent_exists_def)
  qed
  then have "categories_ok ?cs (next_id d)"
    using ok unfolding categories_ok_def maps by (simp add: catalog_ok_def categories_ok_def distinct_map_filter)
  moreover have "products_ok (products d) (ca_id ` set ?cs) (next_id d)"
    unfolding ids using ok free by (auto simp: catalog_ok_def products_ok_def)
  ultimately show ?thesis by (simp add: catalog_ok_def)
qed

lemma delete_category_kept:
  assumes "\<And>t. catalog_kept t (m t)"
  shows "catalog_kept s (snd (delete_category m i c s))"
proof -
  have "catalog_kept t (snd (runDeleteCategory i c t))" for t
  proof (cases "\<exists>p \<in> set (products (db t)). pr_categoryId p = i")
    case False
    let ?t = "upd_db (\<lambda>d. d\<lparr>categories := map (\<lambda>c. if ca_parentId c = Some i then c\<lparr>ca_parentId := None\<rparr> else c)
                        (filter (\<lambda>c. ca_id c \<noteq> i) (categories d))\<rparr>) t"
    have "catalog_kept t ?t" using delete_category_ok [OF _ False] by (simp add: catalog_kept_def)
    then have "catalog_kept t (outbox_record ''CATEGORY_DELETED'' ''Category'' i [(''categoryId'', JId i)] c ?t)"
      by (rule kept_outbox)
    then show ?thesis using False by (simp add: runDeleteCategory_def)
  qed (simp add: runDeleteCategory_def)
  then have "catalog_kept s (snd (transaction (runDeleteCategory i c) (m s)))"
    using assms by (blast intro: catalog_kept_trans kept_transaction)
  then show ?thesis by (simp add: delete_category_def snd_case_keep split: sum.split)
qed

section \<open>The catalogue under all interleavings\<close>

text \<open>
  Every request on categories and products, with any of them in between, and any request of another
  service (\<open>elsewhere\<close>): those change stock and ratings, but no id, slug or category.
\<close>

inductive catalog_step :: "sys \<Rightarrow> sys \<Rightarrow> bool" where
  elsewhere: "same_catalog (db s) (db s') \<Longrightarrow> catalog_step s s'"
| category_created: "(\<And>n t. catalog_step t (m n t)) \<Longrightarrow> catalog_step s (snd (create_category m cdto s))"
| category_updated: "(\<And>t. catalog_step t (m' t)) \<Longrightarrow> catalog_step s (snd (update_category m' i udto c s))"
| category_deleted: "(\<And>t. catalog_step t (m' t)) \<Longrightarrow> catalog_step s (snd (delete_category m' i c s))"
| product_created: "(\<And>n t. catalog_step t (m n t)) \<Longrightarrow> catalog_step s (snd (createForSeller e m sp pdto c s))"
| product_updated: "(\<And>t. catalog_step t (m' t)) \<Longrightarrow> catalog_step s (snd (updateOwned e m' i sp qdto c s))"
| product_deleted: "catalog_step s (snd (deleteOwned i sp c s))"

lemma catalog_step_kept: "catalog_step s s' \<Longrightarrow> catalog_kept s s'"
proof (induction rule: catalog_step.induct)
  case (elsewhere s s')
  then show ?case by (rule catalog_kept_same)
next
  case (category_created m s cdto)
  then show ?case by (intro create_category_kept) blast
next
  case (category_updated m' s i udto c)
  then show ?case by (intro update_category_kept) blast
next
  case (category_deleted m' s i c)
  then show ?case by (intro delete_category_kept) blast
next
  case (product_created m s e sp pdto c)
  then show ?case by (intro createForSeller_kept) blast
next
  case (product_updated m' s e i sp qdto c)
  then show ?case by (intro updateOwned_kept) blast
qed (rule deleteOwned_kept)

text \<open>
  C24: Whatever requests are interleaved, also between the check and the write of one, no two categories
  share an id, name or slug, no two products an id or slug, every product is in an existing category and
  every parent of a category exists.
\<close>
theorem catalog_stays_well_formed:
  assumes "catalog_ok (db s)" and "catalog_step\<^sup>*\<^sup>* s s'"
  shows "catalog_ok (db s')"
proof -
  have "catalog_kept s s'"
    using assms(2) by (induction rule: rtranclp_induct) (auto intro: catalog_kept_trans catalog_step_kept)
  then show ?thesis using assms(1) by (simp add: catalog_kept_def)
qed

section \<open>A new product\<close>

lemma unique_slug_not_taken: "generateUniqueSlug name used \<notin> set used"
proof -
  have "slug_loop used b c n \<notin> set used" for b c n
    by (induction used b c n rule: slug_loop.induct) (simp add: slug_loop.simps)
  then show ?thesis by (simp add: generateUniqueSlug_def Let_def)
qed

text \<open>
  A seller who adds a product without anybody interfering succeeds at the first attempt, exactly if
  the category exists: one row is added, with the terms that were sent and a slug nobody has, and
  one PRODUCT_CREATED event for it; otherwise nothing is written.
\<close>
theorem create_product_outcome:
  assumes ok: "catalog_ok (db s)" and run: "createForSeller e (\<lambda>n t. t) sp dto c s = (r, s')"
  shows "if cp_categoryId dto \<in> ca_id ` set (categories (db s))
         then \<exists>p. r = Inr p \<and> products (db s') = products (db s) @ [stored_product e p] \<and>
                p = new_product sp dto (pr_slug p) (pr_id p) \<and> pr_id p \<notin> pr_id ` set (products (db s)) \<and>
                pr_slug p = generateUniqueSlug (cp_name dto) (map pr_slug (products (db s))) \<and>
                pr_slug p \<notin> pr_slug ` set (products (db s)) \<and>
                map (\<lambda>x. (ob_eventType x, ob_aggregateType x, ob_aggregateId x)) (outbox_events (db s'))
                  = map (\<lambda>x. (ob_eventType x, ob_aggregateType x, ob_aggregateId x)) (outbox_events (db s)) @
                    [(''PRODUCT_CREATED'', ''Product'', pr_id p)]
         else r = Inl (BadRequestException ''Category does not exist'') \<and> s' = s"
proof (cases "cp_categoryId dto \<in> ca_id ` set (categories (db s))")
  case True
  let ?slug = "generateUniqueSlug (cp_name dto) (map pr_slug (products (db s)))" and ?i = "next_id (db s)"
  let ?p = "new_product sp dto ?slug ?i"
  have fresh: "?i \<notin> pr_id ` set (products (db s))" using ok by (auto simp: catalog_ok_def products_ok_def)
  have slug: "?slug \<notin> pr_slug ` set (products (db s))" using unique_slug_not_taken [of "cp_name dto" "map pr_slug (products (db s))"] by simp
  have p: "pr_id ?p = ?i" "pr_slug ?p = ?slug" "pr_categoryId ?p = cp_categoryId dto" by (simp_all add: new_product_def)
  have sp: "pr_id (stored_product e ?p) = ?i" by (simp add: stored_product_def p)
  have free: "\<not> (\<exists>x \<in> set (products (db s)). pr_id x \<noteq> ?i \<and> pr_slug x = ?slug)" using slug by force
  have "runCreateProduct e sp dto c ?slug s = (Inr ?p, outbox_record ''PRODUCT_CREATED'' ''Product'' ?i [(''productId'', JId ?i)] c
      (upd_db (\<lambda>d. d\<lparr>next_id := ?i + 1, products := products (db s) @ [stored_product e ?p]\<rparr>) s))"
    using free fresh True
    by (simp add: runCreateProduct_def record_product_def save_product_def put_or_insert_def p sp upd_db_def)
  then have "r = Inr ?p" "s' = emit RedisIncrSearchVersion (outbox_record ''PRODUCT_CREATED'' ''Product'' ?i [(''productId'', JId ?i)] c
      (upd_db (\<lambda>d. d\<lparr>next_id := ?i + 1, products := products (db s) @ [stored_product e ?p]\<rparr>) s))"
    using run True
    by (simp_all add: createForSeller_def assertCategoryExists_def MAX_SLUG_ATTEMPTS_def numeral_eq_Suc transaction_def)
  then show ?thesis
    using True fresh slug p by (intro if_P [THEN iffD2]) (auto simp: outbox_record_def)
next
  case False
  then show ?thesis using run by (simp add: createForSeller_def assertCategoryExists_def)
qed

section \<open>An edit writes back what it has read\<close>

text \<open>
  C25: An edit of a product writes back every column it has read. Whatever happened to the row in between,
  a purchase that took units, a refund that returned some or a new rating, the stock and the
  rating are those the edit had read, although the seller sent neither.
\<close>
theorem edit_restores_sold_stock:
  assumes own: "findOwnedById i sp (db s) = Inr p"
    and sent: "up_stockQuantity dto = None" "up_categoryId dto = None"
    and others: "catalog_ok (db (m s))" "by_id pr_id i (products (db (m s))) = Some q"
      "pr_slug q = pr_slug p" "pr_categoryId q = pr_categoryId p"
  shows "\<exists>r. by_id pr_id i (products (db (snd (updateOwned e m i sp dto c s)))) = Some r \<and>
           \<not> is_error (fst (updateOwned e m i sp dto c s)) \<and>
           pr_stockQuantity r = pr_stockQuantity p \<and> pr_ratingAverage r = pr_ratingAverage p \<and>
           pr_ratingCount r = pr_ratingCount p"
proof -
  let ?m = "merge_product dto p"
  have ids: "pr_id p = i" "pr_id q = i" "q \<in> set (products (db (m s)))"
    using findOwned_row [OF own] by_id_SomeD [OF others(2)] by auto
  have m: "pr_id ?m = i" "pr_slug ?m = pr_slug q" "pr_categoryId ?m = pr_categoryId q"
    "pr_stockQuantity ?m = pr_stockQuantity p" "pr_ratingAverage ?m = pr_ratingAverage p" "pr_ratingCount ?m = pr_ratingCount p"
    using sent others(3,4) ids by (simp_all add: merge_product_def or_keep_def)
  have "x = q" if "x \<in> set (products (db (m s)))" "pr_slug x = pr_slug q" for x
    using that others(1) ids(3) by (auto simp: catalog_ok_def products_ok_def distinct_map inj_on_def)
  then have free: "\<not> (\<exists>x \<in> set (products (db (m s))). pr_id x \<noteq> i \<and> pr_slug x = pr_slug q)" using ids by auto
  have cat: "pr_categoryId q \<in> ca_id ` set (categories (db (m s)))"
    using others(1) ids(3) by (auto simp: catalog_ok_def products_ok_def)
  have there: "i \<in> pr_id ` set (products (db (m s)))" by (rule image_eqI [of _ _ q]) (use ids in simp_all)
  have stored: "pr_id (stored_product e ?m) = i" by (simp add: stored_product_def m)
  have "save_product e ?m (m s) = (Inr ?m, upd_db (\<lambda>d. d\<lparr>products := put_row pr_id (stored_product e ?m) (products d)\<rparr>) (m s))"
    using free cat there by (simp add: save_product_def m put_or_insert_def stored upd_db_def)
  then have run: "fst (updateOwned e m i sp dto c s) = Inr ?m"
    "products (db (snd (updateOwned e m i sp dto c s))) = put_row pr_id (stored_product e ?m) (products (db (m s)))"
    by (simp_all add: updateOwned_def own sent transaction_def record_product_def)
  show ?thesis
    using by_id_put_row_same [OF others(2) stored] m
    by (intro exI [of _ "stored_product e ?m"]) (simp add: run stored_product_def)
qed

section \<open>Deleting a product\<close>

lemma auction_bids_cascade:
  assumes "distinct (map au_id (auctions d))" "a \<in> set (auctions d)" "au_productId a \<noteq> i"
  shows "auction_bids (au_id a) (cascade_product i d) = auction_bids (au_id a) d"
proof -
  have "\<not> (\<exists>x \<in> set (auctions d). au_id x = au_id a \<and> au_productId x = i)"
    using assms by (auto simp: distinct_map inj_on_def)
  then show ?thesis by (auto simp: auction_bids_def cascade_product_def intro!: filter_cong)
qed

lemma bidding_inv_cascade:
  assumes "bidding_inv d"
  shows "bidding_inv (cascade_product i d)"
proof -
  have "auction_ok (cascade_product i d) a" if "a \<in> set (auctions d)" "au_productId a \<noteq> i" for a
    using assms that auction_bids_cascade [of d a i] by (simp add: bidding_inv_def auction_ok_def)
  then show ?thesis
    using assms by (auto simp: bidding_inv_def distinct_map_filter) (auto simp: cascade_product_def distinct_map_filter)
qed

text \<open>
  A seller can delete a product whatever state its auction is in. The auction and all its bids are
  deleted with it, also when it is running or a winner has to pay; the winner's purchase is then refused
  and the finalization finds nothing. The other auctions stay consistent with their bids.
\<close>
theorem delete_product_erases_auction:
  assumes inv: "bidding_inv (db s)" and run: "deleteOwned i sp c s = (Inr (), s')"
    and a: "a \<in> set (auctions (db s))" "au_productId a = i"
    and new: "requireIdempotencyKey key = Inr k" "\<not> key_claimed (w, k) (db s)"
  shows "by_id au_id (au_id a) (auctions (db s')) = None \<and> auction_bids (au_id a) (db s') = [] \<and>
         bidding_inv (db s') \<and>
         fst (auction_checkout e w (au_id a) key corr dto s') = Inl (NotFoundException ''Auction not found'') \<and>
         auctions (db (snd (finalizeAuction e (au_id a) corr s'))) = auctions (db s')"
proof -
  have s': "auctions (db s') = auctions (cascade_product i (db s))" "bids (db s') = bids (cascade_product i (db s))"
    "checkout_keys (db s') = checkout_keys (db s)"
    using run by (auto simp: deleteOwned_def cascade_product_def split: sum.splits)
  have gone: "by_id au_id (au_id a) (auctions (db s')) = None"
  proof (rule ccontr)
    assume "by_id au_id (au_id a) (auctions (db s')) \<noteq> None"
    then obtain x where "by_id au_id (au_id a) (auctions (db s')) = Some x" by blast
    from by_id_SomeD [OF this] have "x \<in> set (auctions (db s))" "au_id x = au_id a" "au_productId x \<noteq> i"
      by (auto simp: s' cascade_product_def)
    then show False using inv a by (auto simp: bidding_inv_def distinct_map inj_on_def)
  qed
  have "auction_bids (au_id a) (db s') = []"
    using a by (auto simp: auction_bids_def s' cascade_product_def filter_empty_conv)
  moreover have "next_id (cascade_product i (db s)) \<le> next_id (db s')"
    using run by (auto simp: deleteOwned_def cascade_product_def split: sum.splits)
  then have "bidding_inv (db s')"
    using bidding_inv_cascade [OF inv, of i] s'(1,2)
    by (auto simp: bidding_inv_def auction_ok_def auction_bids_def intro: less_le_trans)
  moreover have "fst (auction_checkout e w (au_id a) key corr dto s') = Inl (NotFoundException ''Auction not found'')"
    using new gone s'(3)
    by (simp add: auction_checkout_def runAuctionCheckoutTransaction_def claim_key_def key_claimed_def transaction_def Let_def)
  ultimately show ?thesis using gone handlers_skip_missing(2) [OF gone] by blast
qed

section \<open>A small catalogue\<close>

definition catalog_db :: database where
  "catalog_db = sample_db\<lparr>categories := [\<lparr>ca_id = 0, ca_name = ''Home'', ca_slug = ''home'', ca_parentId = None,
     ca_iconUrl = None, ca_sortOrder = 0, ca_isActive = True\<rparr>]\<rparr>"

definition lamp_dto :: CreateProductDto where
  "lamp_dto = \<lparr>cp_name = ''Lamp'', cp_description = None, cp_categoryId = 0, cp_type = ProductType.FIXED_PRICE,
     cp_price = Some ''5.00'', cp_stockQuantity = 3, cp_imageUrls = None, cp_isPublished = None\<rparr>"

definition rename_dto :: UpdateProductDto where
  "rename_dto = \<lparr>up_name = Some ''Desk lamp'', up_description = None, up_categoryId = None, up_type = None,
     up_price = None, up_stockQuantity = None, up_imageUrls = None, up_isPublished = None\<rparr>"

text \<open>Another seller takes the same slug between the search and the first attempt.\<close>

definition same_name :: "nat \<Rightarrow> sys \<Rightarrow> sys" where
  "same_name n t = (if n = 4 then snd (createForSeller (sample_env 5) (\<lambda>k u. u) 4 lamp_dto 0 t) else t)"

lemma catalog_db_ok: "catalog_ok (db (start_sys catalog_db))"
  by code_simp

theorem catalog_stays_well_formed_witness:
  "catalog_ok (db (snd (createForSeller (sample_env 5) same_name 1 lamp_dto 0 (start_sys catalog_db))))"
proof -
  have same: "catalog_step t t" for t by (rule elsewhere) (simp add: same_catalog_def)
  then have "catalog_step t (same_name n t)" for n t by (simp add: same_name_def product_created)
  then have "catalog_step\<^sup>*\<^sup>* (start_sys catalog_db)
      (snd (createForSeller (sample_env 5) same_name 1 lamp_dto 0 (start_sys catalog_db)))"
    by (intro r_into_rtranclp product_created)
  from catalog_stays_well_formed [OF catalog_db_ok this] show ?thesis .
qed

theorem create_product_outcome_witness:
  "\<exists>p. products (db (snd (createForSeller (sample_env 5) (\<lambda>n t. t) 1 lamp_dto 0 (start_sys catalog_db))))
     = products catalog_db @ [stored_product (sample_env 5) p] \<and> pr_slug p \<noteq> ''lamp''"
proof -
  let ?s' = "snd (createForSeller (sample_env 5) (\<lambda>n t. t) 1 lamp_dto 0 (start_sys catalog_db))"
  have "cp_categoryId lamp_dto \<in> ca_id ` set (categories (db (start_sys catalog_db)))" by code_simp
  then obtain p where p: "products (db ?s') = products (db (start_sys catalog_db)) @ [stored_product (sample_env 5) p]"
    "pr_slug p \<notin> pr_slug ` set (products (db (start_sys catalog_db)))"
    using create_product_outcome [OF catalog_db_ok prod.collapse [symmetric],
        where e = "sample_env 5" and sp = 1 and dto = lamp_dto and c = 0] by (simp only: if_True) blast
  moreover have "''lamp'' \<in> pr_slug ` set (products (db (start_sys catalog_db)))" by code_simp
  ultimately have "pr_slug p \<noteq> ''lamp''" by metis
  then show ?thesis using p by (intro exI [of _ p]) (simp add: start_sys_def)
qed

theorem edit_restores_sold_stock_witness:
  "map_option pr_stockQuantity (by_id pr_id 2 (products (db (snd (updateOwned (sample_env 5)
       (upd_db (\<lambda>d. snd (update_stock 2 (\<lambda>q. q \<ge> 1) (- 1) d))) 2 1 rename_dto 0 (start_sys catalog_db)))))) = Some 1"
proof -
  let ?m = "upd_db (\<lambda>d. snd (update_stock 2 (\<lambda>q. q \<ge> 1) (- 1) d))" and ?s = "start_sys catalog_db"
  have own: "findOwnedById 2 1 (db ?s) = Inr sample_product" by code_simp
  have sent: "up_stockQuantity rename_dto = None" "up_categoryId rename_dto = None" by (simp_all add: rename_dto_def)
  have "catalog_ok (db (?m ?s))" by code_simp
  moreover have "by_id pr_id 2 (products (db (?m ?s))) = Some (sample_product\<lparr>pr_stockQuantity := 0\<rparr>)" by code_simp
  ultimately show ?thesis
    using edit_restores_sold_stock [OF own sent, where m = ?m and e = "sample_env 5" and c = 0]
    by (auto simp: sample_product_def)
qed

theorem delete_product_erases_auction_witness:
  "\<exists>s'. deleteOwned 2 1 0 won_sys = (Inr (), s') \<and> auctions (db won_sys) \<noteq> [] \<and> auctions (db s') = [] \<and>
     fst (auction_checkout (sample_env 3000) 8 3 (Some ''k'') 0 no_address s') = Inl (NotFoundException ''Auction not found'')"
proof -
  have run: "deleteOwned 2 1 0 won_sys = (Inr (), snd (deleteOwned 2 1 0 won_sys))"
    by (rule prod_eqI) (simp_all, code_simp)
  have "map (\<lambda>a. (au_id a, au_productId a)) (auctions (db won_sys)) = [(3, 2)]" by code_simp
  then obtain a where a: "auctions (db won_sys) = [a]" "au_id a = 3" "au_productId a = 2" by auto
  have key: "requireIdempotencyKey (Some ''k'') = Inr ''k''" "\<not> key_claimed (8, ''k'') (db won_sys)" by code_simp+
  have "auctions (db (snd (deleteOwned 2 1 0 won_sys))) = []" by code_simp
  then show ?thesis
    using run a delete_product_erases_auction [OF won_ok(2) run _ _ key,
        where a = a and e = "sample_env 3000" and corr = 0 and dto = no_address] by auto
qed

end
