(* ===== verification/Reviews.thy ===== *)
theory Reviews
  imports Refunds Catalog
begin

text \<open>
  Reviews of products: \<open>modules/reviews/reviews.service.ts\<close> and \<open>domain/review-policy.ts\<close>. Who bought a
  product and still has a unit of it may rate it once; every change recomputes the rating the product
  shows. \<open>avg2\<close> stands for \<open>AVG\<close> of Postgres followed by \<open>toFixed(2)\<close> on the list of ratings, \<open>meanwhile\<close>
  for the requests between the read of the owned row and the transaction (for \<open>create\<close>, between the
  transaction and the reload of the new row). \<open>updatedAt\<close> is left out.
\<close>

section \<open>Policy\<close>

definition isReviewEligible :: "SellerOrderStatus \<Rightarrow> int \<Rightarrow> int \<Rightarrow> bool" where
  "isReviewEligible status purchasedQuantity refundedQuantity \<longleftrightarrow>
     status = SellerOrderStatus.DELIVERED \<and> purchasedQuantity > refundedQuantity"

text \<open>The second argument is \<open>average.toFixed(2)\<close>.\<close>

definition storedRatingAggregate :: "nat \<Rightarrow> string \<Rightarrow> int \<times> string" where
  "storedRatingAggregate n average = (int n, if n = 0 then ''0.00'' else average)"

section \<open>Reads\<close>

record CreateReviewDto =
  crv_sellerOrderItemId :: uuid
  crv_rating :: int
  crv_comment :: "string option"

record UpdateReviewDto =
  urv_rating :: "int option"
  urv_comment :: "string option"

datatype ReviewSort = Newest | Oldest | Highest | Lowest

record ReviewListQueryDto =
  rq_page :: nat
  rq_pageSize :: nat
  rq_rating :: "int option"
  rq_sort :: ReviewSort

record ReviewView =
  rvw_id :: uuid
  rvw_productId :: uuid
  rvw_sellerOrderItemId :: uuid
  rvw_rating :: int
  rvw_comment :: "string option"
  rvw_customerDisplayName :: string
  rvw_isMine :: bool
  rvw_createdAt :: time

record Eligibility =
  el_eligible :: bool
  el_sellerOrderItemId :: "uuid option"
  el_existingReview :: "ReviewView option"
  el_reason :: "string option"

definition customerDisplayName :: "User option \<Rightarrow> string" where
  "customerDisplayName customer =
     (case customer of None \<Rightarrow> ''Customer'' | Some u \<Rightarrow> us_firstName u) @
     (case customer of None \<Rightarrow> []
      | Some u \<Rightarrow> (case js_trim (us_lastName u) of [] \<Rightarrow> [] | initial # _ \<Rightarrow> '' '' @ [initial] @ ''.''))"

definition review_toView :: "database \<Rightarrow> uuid option \<Rightarrow> Review \<Rightarrow> ReviewView" where
  "review_toView d currentCustomerId r =
     \<lparr>rvw_id = rv_id r, rvw_productId = rv_productId r, rvw_sellerOrderItemId = rv_sellerOrderItemId r,
       rvw_rating = rv_rating r, rvw_comment = rv_comment r,
       rvw_customerDisplayName = customerDisplayName (by_id us_id (rv_customerId r) (users d)),
       rvw_isMine = (Some (rv_customerId r) = currentCustomerId), rvw_createdAt = rv_createdAt r\<rparr>"

definition product_reviews :: "uuid \<Rightarrow> database \<Rightarrow> Review list" where
  "product_reviews productId d = filter (\<lambda>r. rv_productId r = productId) (reviews d)"

definition review_order :: "ReviewSort \<Rightarrow> Review list \<Rightarrow> Review list" where
  "review_order srt rows =
     (case srt of
        Oldest \<Rightarrow> rows
      | Highest \<Rightarrow> sort_key (\<lambda>r. - rv_rating r) (rev rows)
      | Lowest \<Rightarrow> sort_key rv_rating (rev rows)
      | Newest \<Rightarrow> rev rows)"

definition list_reviews :: "uuid \<Rightarrow> ReviewListQueryDto \<Rightarrow> database \<Rightarrow> ReviewView list \<times> nat" where
  "list_reviews productId query d =
     (let rows = filter (\<lambda>r. case rq_rating query of None \<Rightarrow> True | Some n \<Rightarrow> rv_rating r = n) (product_reviews productId d)
      in (map (review_toView d None)
            (take (rq_pageSize query) (drop ((rq_page query - 1) * rq_pageSize query) (review_order (rq_sort query) rows))),
          length rows))"

definition delivered_to :: "database \<Rightarrow> uuid \<Rightarrow> SellerOrderItem \<Rightarrow> bool" where
  "delivered_to d customerId item \<longleftrightarrow>
     (\<exists>so \<in> set_option (by_id so_id (soi_sellerOrderId item) (seller_orders d)).
        so_status so = SellerOrderStatus.DELIVERED \<and>
        (\<exists>ord \<in> set_option (by_id ord_id (so_orderId so) (orders d)). ord_buyerId ord = customerId))"

definition refunded_quantity :: "database \<Rightarrow> uuid \<Rightarrow> int" where
  "refunded_quantity d itemId = sum_list (map rf_quantity (priorRefunds itemId d))"

definition findEligibleItem :: "database \<Rightarrow> uuid \<Rightarrow> uuid \<Rightarrow> uuid option \<Rightarrow> SellerOrderItem option" where
  "findEligibleItem d customerId productId itemId =
     find (\<lambda>item. isReviewEligible SellerOrderStatus.DELIVERED (soi_quantity item) (refunded_quantity d (soi_id item)))
       (rev (filter (\<lambda>item. soi_productId item = Some productId \<and> delivered_to d customerId item \<and>
                (case itemId of None \<Rightarrow> True | Some i \<Rightarrow> soi_id item = i))
          (seller_order_items d)))"

definition eligibility :: "uuid \<Rightarrow> uuid \<Rightarrow> database \<Rightarrow> Eligibility" where
  "eligibility customerId productId d =
     (case find (\<lambda>r. rv_productId r = productId \<and> rv_customerId r = customerId) (reviews d) of
        Some existing \<Rightarrow>
          \<lparr>el_eligible = False, el_sellerOrderItemId = Some (rv_sellerOrderItemId existing),
            el_existingReview = Some (review_toView d (Some customerId) existing), el_reason = Some ''ALREADY_REVIEWED''\<rparr>
      | None \<Rightarrow>
          (case findEligibleItem d customerId productId None of
             Some item \<Rightarrow> \<lparr>el_eligible = True, el_sellerOrderItemId = Some (soi_id item), el_existingReview = None, el_reason = None\<rparr>
           | None \<Rightarrow> \<lparr>el_eligible = False, el_sellerOrderItemId = None, el_existingReview = None,
                       el_reason = Some ''NO_ELIGIBLE_PURCHASE''\<rparr>))"

section \<open>Writes\<close>

definition rating_of :: "(int list \<Rightarrow> string) \<Rightarrow> uuid \<Rightarrow> database \<Rightarrow> int \<times> string" where
  "rating_of avg2 productId d =
     (let rs = map rv_rating (product_reviews productId d) in storedRatingAggregate (length rs) (avg2 rs))"

definition set_rating :: "uuid \<Rightarrow> int \<times> string \<Rightarrow> Product list \<Rightarrow> Product list" where
  "set_rating productId a ps =
     map (\<lambda>p. if pr_id p = productId then p\<lparr>pr_ratingCount := fst a, pr_ratingAverage := snd a\<rparr> else p) ps"

definition recalculateRating :: "(int list \<Rightarrow> string) \<Rightarrow> uuid \<Rightarrow> uuid \<Rightarrow> sys \<Rightarrow> sys" where
  "recalculateRating avg2 productId correlationId s =
     outbox_record ''PRODUCT_UPDATED'' ''Product'' productId
       [(''productId'', JId productId), (''reason'', JStr ''RATING_CHANGED'')] correlationId
       (upd_db (\<lambda>d. d\<lparr>products := set_rating productId (rating_of avg2 productId d) (products d)\<rparr>) s)"

text \<open>The check on the rating and the two unique indexes.\<close>

definition insert_review :: "Review \<Rightarrow> sys \<Rightarrow> Review result \<times> sys" where
  "insert_review r s =
     (if \<not> (1 \<le> rv_rating r \<and> rv_rating r \<le> 5) then (Inl (PlainError ''violates check constraint''), s)
      else if \<exists>x \<in> set (reviews (db s)). rv_customerId x = rv_customerId r \<and>
                (rv_sellerOrderItemId x = rv_sellerOrderItemId r \<or> rv_productId x = rv_productId r)
      then (Inl UniqueViolation, s)
      else (Inr r, upd_db (\<lambda>d. d\<lparr>next_id := next_id d + 1, reviews := reviews d @ [r]\<rparr>) s))"

definition lockProduct :: "uuid \<Rightarrow> database \<Rightarrow> unit result" where
  "lockProduct productId d =
     (if productId \<in> pr_id ` set (products d) then Inr () else Inl (NotFoundException ''Product not found''))"

definition runCreateReview ::
  "env \<Rightarrow> (int list \<Rightarrow> string) \<Rightarrow> uuid \<Rightarrow> uuid \<Rightarrow> CreateReviewDto \<Rightarrow> uuid \<Rightarrow> sys \<Rightarrow> Review result \<times> sys" where
  "runCreateReview e avg2 customerId productId dto correlationId s =
     (case lockProduct productId (db s) of
        Inl err \<Rightarrow> (Inl err, s)
      | Inr _ \<Rightarrow>
     (case findEligibleItem (db s) customerId productId (Some (crv_sellerOrderItemId dto)) of
        None \<Rightarrow> (Inl (ForbiddenException
          ''A completed, non-fully-refunded purchase is required to review this product''), s)
      | Some item \<Rightarrow>
     (case insert_review \<lparr>rv_id = next_id (db s), rv_productId = productId, rv_customerId = customerId,
             rv_sellerOrderItemId = soi_id item, rv_rating = crv_rating dto,
             rv_comment = map_option js_trim (crv_comment dto), rv_createdAt = now e\<rparr> s of
        (Inl err, s1) \<Rightarrow> (Inl err, s1)
      | (Inr created, s1) \<Rightarrow> (Inr created, recalculateRating avg2 productId correlationId s1))))"

definition invalidate_product :: "uuid \<Rightarrow> sys \<Rightarrow> sys" where
  "invalidate_product productId s = emit RedisIncrSearchVersion (emit (RedisDelProduct productId) s)"

definition create_review ::
  "env \<Rightarrow> (int list \<Rightarrow> string) \<Rightarrow> (sys \<Rightarrow> sys) \<Rightarrow> uuid \<Rightarrow> uuid \<Rightarrow> CreateReviewDto \<Rightarrow> uuid \<Rightarrow> sys \<Rightarrow>
   ReviewView result \<times> sys" where
  "create_review e avg2 meanwhile customerId productId dto correlationId s =
     (case transaction (runCreateReview e avg2 customerId productId dto correlationId) s of
        (Inl err, s1) \<Rightarrow>
          (Inl (if isUniqueViolation err then ConflictException ''This purchase has already been reviewed'' else err), s1)
      | (Inr review, s1) \<Rightarrow>
          let s2 = meanwhile (increment ''reviews_created_total'' (invalidate_product productId s1))
          in (case by_id rv_id (rv_id review) (reviews (db s2)) of
                None \<Rightarrow> (Inl (PlainError ''EntityNotFoundError''), s2)
              | Some loaded \<Rightarrow> (Inr (review_toView (db s2) (Some customerId) loaded), s2)))"

definition owned_review :: "uuid \<Rightarrow> uuid \<Rightarrow> database \<Rightarrow> Review result" where
  "owned_review customerId reviewId d =
     (case find (\<lambda>r. rv_id r = reviewId \<and> rv_customerId r = customerId) (reviews d) of
        None \<Rightarrow> Inl (NotFoundException ''Review not found'') | Some r \<Rightarrow> Inr r)"

definition merge_review :: "UpdateReviewDto \<Rightarrow> Review \<Rightarrow> Review" where
  "merge_review dto r =
     r\<lparr>rv_rating := (case urv_rating dto of None \<Rightarrow> rv_rating r | Some n \<Rightarrow> n),
       rv_comment := (case urv_comment dto of None \<Rightarrow> rv_comment r | Some c \<Rightarrow> Some (js_trim c))\<rparr>"

definition runUpdateReview ::
  "(int list \<Rightarrow> string) \<Rightarrow> uuid \<Rightarrow> uuid \<Rightarrow> uuid \<Rightarrow> UpdateReviewDto \<Rightarrow> uuid \<Rightarrow> sys \<Rightarrow> Review result \<times> sys" where
  "runUpdateReview avg2 customerId reviewId productId dto correlationId s =
     (case rbind (lockProduct productId (db s)) (\<lambda>_. owned_review customerId reviewId (db s)) of
        Inl err \<Rightarrow> (Inl err, s)
      | Inr existing \<Rightarrow>
          let saved = merge_review dto existing
          in if \<not> (1 \<le> rv_rating saved \<and> rv_rating saved \<le> 5) then (Inl (PlainError ''violates check constraint''), s)
             else (Inr saved, recalculateRating avg2 (rv_productId existing) correlationId
                     (upd_db (\<lambda>d. d\<lparr>reviews := put_row rv_id saved (reviews d)\<rparr>) s)))"

definition update_review ::
  "(int list \<Rightarrow> string) \<Rightarrow> (sys \<Rightarrow> sys) \<Rightarrow> uuid \<Rightarrow> uuid \<Rightarrow> UpdateReviewDto \<Rightarrow> uuid \<Rightarrow> sys \<Rightarrow> ReviewView result \<times> sys" where
  "update_review avg2 meanwhile customerId reviewId dto correlationId s =
     (case owned_review customerId reviewId (db s) of
        Inl err \<Rightarrow> (Inl err, s)
      | Inr ownership \<Rightarrow>
          (case transaction (runUpdateReview avg2 customerId reviewId (rv_productId ownership) dto correlationId) (meanwhile s) of
             (Inl err, s1) \<Rightarrow> (Inl err, s1)
           | (Inr review, s1) \<Rightarrow>
               let s2 = invalidate_product (rv_productId review) s1
               in (Inr (review_toView (db s2) (Some customerId) review), s2)))"

definition runRemoveReview ::
  "(int list \<Rightarrow> string) \<Rightarrow> uuid \<Rightarrow> uuid \<Rightarrow> uuid \<Rightarrow> uuid \<Rightarrow> sys \<Rightarrow> uuid result \<times> sys" where
  "runRemoveReview avg2 customerId reviewId productId correlationId s =
     (case rbind (lockProduct productId (db s)) (\<lambda>_. owned_review customerId reviewId (db s)) of
        Inl err \<Rightarrow> (Inl err, s)
      | Inr review \<Rightarrow>
          (Inr (rv_productId review), recalculateRating avg2 (rv_productId review) correlationId
             (upd_db (\<lambda>d. d\<lparr>reviews := filter (\<lambda>r. rv_id r \<noteq> reviewId) (reviews d)\<rparr>) s)))"

definition remove_review ::
  "(int list \<Rightarrow> string) \<Rightarrow> (sys \<Rightarrow> sys) \<Rightarrow> uuid \<Rightarrow> uuid \<Rightarrow> uuid \<Rightarrow> sys \<Rightarrow> unit result \<times> sys" where
  "remove_review avg2 meanwhile customerId reviewId correlationId s =
     (case owned_review customerId reviewId (db s) of
        Inl err \<Rightarrow> (Inl err, s)
      | Inr ownership \<Rightarrow>
          (case transaction (runRemoveReview avg2 customerId reviewId (rv_productId ownership) correlationId) (meanwhile s) of
             (Inl err, s1) \<Rightarrow> (Inl err, s1)
           | (Inr productId, s1) \<Rightarrow> (Inr (), invalidate_product productId s1)))"

section \<open>What the tables keep\<close>

text \<open>
  Every review is between 1 and 5 and about an existing product, bought with the item it names; nobody
  reviews a product twice; every product shows the number of its reviews and their average.
\<close>

definition rated_right :: "(int list \<Rightarrow> string) \<Rightarrow> database \<Rightarrow> Product \<Rightarrow> bool" where
  "rated_right avg2 d p \<longleftrightarrow> (pr_ratingCount p, pr_ratingAverage p) = rating_of avg2 (pr_id p) d"

definition review_ok :: "database \<Rightarrow> Review \<Rightarrow> bool" where
  "review_ok d r \<longleftrightarrow> 1 \<le> rv_rating r \<and> rv_rating r \<le> 5 \<and> rv_id r < next_id d \<and>
     rv_sellerOrderItemId r < next_id d \<and> rv_productId r \<in> pr_id ` set (products d) \<and>
     (\<forall>x \<in> set (seller_order_items d). soi_id x = rv_sellerOrderItemId r \<longrightarrow> soi_productId x = Some (rv_productId r))"

definition items_ok :: "database \<Rightarrow> bool" where
  "items_ok d \<longleftrightarrow> distinct (map soi_id (seller_order_items d)) \<and> (\<forall>x \<in> set (seller_order_items d). soi_id x < next_id d)"

definition reviews_ok :: "(int list \<Rightarrow> string) \<Rightarrow> database \<Rightarrow> bool" where
  "reviews_ok avg2 d \<longleftrightarrow>
     distinct (map rv_id (reviews d)) \<and> distinct (map (\<lambda>r. (rv_productId r, rv_customerId r)) (reviews d)) \<and>
     (\<forall>r \<in> set (reviews d). review_ok d r) \<and>
     distinct (map pr_id (products d)) \<and> (\<forall>p \<in> set (products d). pr_id p < next_id d \<and> rated_right avg2 d p) \<and>
     items_ok d"

lemma product_reviews_only:
  "product_reviews i d = product_reviews i (d\<lparr>products := ps\<rparr>)" "product_reviews i (d\<lparr>next_id := n\<rparr>) = product_reviews i d"
  by (simp_all add: product_reviews_def)

lemma rating_of_cong: "reviews d' = reviews d \<Longrightarrow> rating_of avg2 i d' = rating_of avg2 i d"
  by (simp add: rating_of_def product_reviews_def)

text \<open>After a change that only touches the reviews of one product, its rating is recomputed.\<close>

lemma recalculated:
  assumes "\<And>p. p \<in> set (products d) \<Longrightarrow> pr_id p \<noteq> i \<Longrightarrow> rating_of avg2 (pr_id p) d' = rating_of avg2 (pr_id p) d"
    and "\<And>p. p \<in> set (products d) \<Longrightarrow> rated_right avg2 d p"
    and "reviews d'' = reviews d'" "p \<in> set (set_rating i (rating_of avg2 i d') (products d))"
  shows "rated_right avg2 d'' p"
proof -
  obtain q where q: "q \<in> set (products d)"
    "p = (if pr_id q = i then q\<lparr>pr_ratingCount := fst (rating_of avg2 i d'), pr_ratingAverage := snd (rating_of avg2 i d')\<rparr> else q)"
    using assms(4) by (auto simp: set_rating_def)
  then show ?thesis
    using assms(1,2) [OF q(1)] rating_of_cong [OF assms(3)] by (auto simp: rated_right_def)
qed

lemma ids_set_rating: "map pr_id (set_rating i a ps) = map pr_id ps"
  by (induction ps) (simp_all add: set_rating_def)

lemma id_set_rating: "pr_id ` set (set_rating i a ps) = pr_id ` set ps"
  using arg_cong [where f = set, OF ids_set_rating] by (simp only: set_map)

lemma recalculateRating_db:
  "reviews (db (recalculateRating avg2 i c s)) = reviews (db s)"
  "products (db (recalculateRating avg2 i c s)) = set_rating i (rating_of avg2 i (db s)) (products (db s))"
  "seller_order_items (db (recalculateRating avg2 i c s)) = seller_order_items (db s)"
  "next_id (db (recalculateRating avg2 i c s)) = next_id (db s) + 1"
  by (simp_all add: recalculateRating_def)

lemma recalculateRating_ok:
  assumes ok: "reviews_ok avg2 (db s)"
    and t: "products (db t) = products (db s)" "seller_order_items (db t) = seller_order_items (db s)"
      "next_id (db s) \<le> next_id (db t)"
      "distinct (map rv_id (reviews (db t)))" "distinct (map (\<lambda>r. (rv_productId r, rv_customerId r)) (reviews (db t)))"
      "\<And>r. r \<in> set (reviews (db t)) \<Longrightarrow> review_ok (db t) r"
      "\<And>j. j \<noteq> i \<Longrightarrow> product_reviews j (db t) = product_reviews j (db s)"
  shows "reviews_ok avg2 (db (recalculateRating avg2 i c t))"
proof -
  let ?u = "recalculateRating avg2 i c t"
  note u = recalculateRating_db [of avg2 i c t]
  have "review_ok (db ?u) r" if "r \<in> set (reviews (db ?u))" for r
    using t(6) [of r] that by (auto simp: u review_ok_def id_set_rating)
  moreover have "rated_right avg2 (db ?u) p" if "p \<in> set (products (db ?u))" for p
  proof (rule recalculated)
    show "p \<in> set (set_rating i (rating_of avg2 i (db t)) (products (db s)))" using that by (simp add: u t(1))
    show "rating_of avg2 (pr_id q) (db t) = rating_of avg2 (pr_id q) (db s)" if "pr_id q \<noteq> i" for q
      using t(7) [OF that] by (simp add: rating_of_def)
    show "rated_right avg2 (db s) q" if "q \<in> set (products (db s))" for q
      using ok that by (simp add: reviews_ok_def items_ok_def)
  qed (simp add: u)
  moreover have "pr_id p < next_id (db ?u)" if "p \<in> set (products (db ?u))" for p
  proof -
    have "pr_id p \<in> pr_id ` set (products (db s))" using that by (auto simp: u t(1) set_rating_def)
    then show ?thesis using ok t(3) by (force simp: reviews_ok_def items_ok_def u)
  qed
  moreover have "soi_id x < next_id (db ?u)" if "x \<in> set (seller_order_items (db ?u))" for x
    using ok t(3) that by (force simp: reviews_ok_def items_ok_def u t(2))
  moreover have "distinct (map pr_id (products (db ?u)))" "distinct (map soi_id (seller_order_items (db ?u)))"
    using ok by (simp_all add: reviews_ok_def items_ok_def u t ids_set_rating)
  ultimately show ?thesis using t(4,5) by (simp add: reviews_ok_def items_ok_def u)
qed

section \<open>Every request keeps them\<close>

definition reviews_kept :: "(int list \<Rightarrow> string) \<Rightarrow> sys \<Rightarrow> sys \<Rightarrow> bool" where
  "reviews_kept avg2 s s' \<longleftrightarrow> (reviews_ok avg2 (db s) \<longrightarrow> reviews_ok avg2 (db s')) \<and> next_id (db s) \<le> next_id (db s')"

lemma reviews_kept_refl [simp]: "reviews_kept avg2 s s"
  by (simp add: reviews_kept_def)

lemma reviews_kept_trans: "reviews_kept avg2 s t \<Longrightarrow> reviews_kept avg2 t u \<Longrightarrow> reviews_kept avg2 s u"
  by (auto simp: reviews_kept_def)

lemma reviews_kept_emit [simp]: "reviews_kept avg2 s (emit x t) \<longleftrightarrow> reviews_kept avg2 s t"
  by (simp add: reviews_kept_def)

lemma reviews_kept_invalidate [simp]: "reviews_kept avg2 s (invalidate_product i t) \<longleftrightarrow> reviews_kept avg2 s t"
  by (simp add: invalidate_product_def)

lemma reviews_kept_transaction:
  assumes "reviews_kept avg2 s t" "reviews_kept avg2 t (snd (f t))"
  shows "reviews_kept avg2 s (snd (transaction f t))"
  using assms by (cases "f t"; cases "fst (f t)") (auto simp: transaction_def reviews_kept_def)

lemma find_item:
  assumes "findEligibleItem d c i itemId = Some x"
  shows "x \<in> set (seller_order_items d)" "soi_productId x = Some i" "delivered_to d c x"
    "refunded_quantity d (soi_id x) < soi_quantity x" "\<And>j. itemId = Some j \<Longrightarrow> soi_id x = j"
  using find_SomeD [OF assms [unfolded findEligibleItem_def]] by (auto simp: isReviewEligible_def)

lemma insert_review_cases:
  obtains (bad) "\<not> (1 \<le> rv_rating r \<and> rv_rating r \<le> 5)" "insert_review r s = (Inl (PlainError ''violates check constraint''), s)"
  | (twice) x where "x \<in> set (reviews (db s))" "rv_customerId x = rv_customerId r"
      "rv_sellerOrderItemId x = rv_sellerOrderItemId r \<or> rv_productId x = rv_productId r"
      "insert_review r s = (Inl UniqueViolation, s)"
  | (inserted) "1 \<le> rv_rating r" "rv_rating r \<le> 5"
      "(rv_productId r, rv_customerId r) \<notin> (\<lambda>r. (rv_productId r, rv_customerId r)) ` set (reviews (db s))"
      "insert_review r s = (Inr r, upd_db (\<lambda>d. d\<lparr>next_id := next_id d + 1, reviews := reviews d @ [r]\<rparr>) s)"
  by (cases "1 \<le> rv_rating r \<and> rv_rating r \<le> 5";
      cases "\<exists>x \<in> set (reviews (db s)). rv_customerId x = rv_customerId r \<and>
                (rv_sellerOrderItemId x = rv_sellerOrderItemId r \<or> rv_productId x = rv_productId r)")
     (auto simp: insert_review_def image_iff, metis)

definition review_row :: "env \<Rightarrow> uuid \<Rightarrow> uuid \<Rightarrow> CreateReviewDto \<Rightarrow> SellerOrderItem \<Rightarrow> sys \<Rightarrow> Review" where
  "review_row e c i dto x s = \<lparr>rv_id = next_id (db s), rv_productId = i, rv_customerId = c,
     rv_sellerOrderItemId = soi_id x, rv_rating = crv_rating dto,
     rv_comment = map_option js_trim (crv_comment dto), rv_createdAt = now e\<rparr>"

lemma runCreateReview_insert:
  assumes "i \<in> pr_id ` set (products (db s))" "findEligibleItem (db s) c i (Some (crv_sellerOrderItemId dto)) = Some x"
  shows "runCreateReview e avg2 c i dto k s = (case insert_review (review_row e c i dto x s) s of
     (Inl err, s1) \<Rightarrow> (Inl err, s1) | (Inr created, s1) \<Rightarrow> (Inr created, recalculateRating avg2 i k s1))"
  using assms by (simp add: runCreateReview_def lockProduct_def review_row_def)

lemma runCreateReview_kept: "reviews_kept avg2 s (snd (runCreateReview e avg2 c i dto k s))"
proof (cases "i \<in> pr_id ` set (products (db s)) \<and> findEligibleItem (db s) c i (Some (crv_sellerOrderItemId dto)) \<noteq> None")
  case True
  then obtain x where x: "findEligibleItem (db s) c i (Some (crv_sellerOrderItemId dto)) = Some x"
    and i: "i \<in> pr_id ` set (products (db s))" by blast
  note run = runCreateReview_insert [OF i x, of e avg2 k]
  let ?r = "review_row e c i dto x s"
  let ?t = "upd_db (\<lambda>d. d\<lparr>next_id := next_id d + 1, reviews := reviews d @ [?r]\<rparr>) s"
  show ?thesis
  proof (cases rule: insert_review_cases [of ?r s])
    case inserted
    have "reviews_ok avg2 (db (recalculateRating avg2 i k ?t))" if ok: "reviews_ok avg2 (db s)"
    proof (rule recalculateRating_ok [OF ok])
      show "distinct (map rv_id (reviews (db ?t)))"
        using ok by (auto simp: reviews_ok_def items_ok_def review_ok_def review_row_def)
      show "distinct (map (\<lambda>r. (rv_productId r, rv_customerId r)) (reviews (db ?t)))"
        using ok inserted(3) by (simp add: reviews_ok_def items_ok_def)
      show "product_reviews j (db ?t) = product_reviews j (db s)" if "j \<noteq> i" for j
        using that by (simp add: product_reviews_def review_row_def)
      have items: "y = x" if "y \<in> set (seller_order_items (db s))" "soi_id y = soi_id x" for y
        using ok find_item(1) [OF x] that by (auto simp: reviews_ok_def items_ok_def distinct_map inj_on_def)
      have "soi_id x < next_id (db s)" using ok find_item(1) [OF x] by (simp add: reviews_ok_def items_ok_def)
      then show "review_ok (db ?t) r" if "r \<in> set (reviews (db ?t))" for r
      proof (cases "r = ?r")
        case True
        then show ?thesis
          using inserted(1,2) i find_item(2) [OF x] items \<open>soi_id x < next_id (db s)\<close> by (auto simp: review_ok_def review_row_def)
      next
        case False
        then have "review_ok (db s) r" using ok that by (simp add: reviews_ok_def items_ok_def)
        then show ?thesis by (simp add: review_ok_def)
      qed
    qed simp_all
    then show ?thesis by (simp add: run inserted(4) reviews_kept_def recalculateRating_db)
  qed (simp_all add: run)
qed (auto simp: runCreateReview_def lockProduct_def)

lemma create_review_kept:
  assumes "\<And>t. reviews_kept avg2 t (m t)"
  shows "reviews_kept avg2 s (snd (create_review e avg2 m c i dto k s))"
proof -
  let ?r = "transaction (runCreateReview e avg2 c i dto k) s"
  have "reviews_kept avg2 s (snd ?r)" by (intro reviews_kept_transaction runCreateReview_kept reviews_kept_refl)
  moreover from this have "reviews_kept avg2 s (m (increment x (invalidate_product i (snd ?r))))" for x
    by (rule reviews_kept_trans [OF _ reviews_kept_trans [OF _ assms]]) (simp add: reviews_kept_def invalidate_product_def)
  ultimately show ?thesis
    by (auto simp: create_review_def Let_def split: prod.split sum.split option.split)
qed

lemma owned_row: "owned_review c j d = Inr r \<Longrightarrow> r \<in> set (reviews d) \<and> rv_id r = j \<and> rv_customerId r = c"
  by (auto simp: owned_review_def split: option.splits dest!: find_SomeD)

lemma runUpdateReview_kept: "reviews_kept avg2 s (snd (runUpdateReview avg2 c j i dto k s))"
proof (cases "rbind (lockProduct i (db s)) (\<lambda>_. owned_review c j (db s))")
  case (Inr r)
  then have "owned_review c j (db s) = Inr r" by (auto simp: rbind_def split: sum.splits)
  note r = owned_row [OF this]
  let ?m = "merge_review dto r"
  let ?t = "upd_db (\<lambda>d. d\<lparr>reviews := put_row rv_id ?m (reviews d)\<rparr>) s"
  have m: "rv_id ?m = rv_id r" "rv_productId ?m = rv_productId r" "rv_customerId ?m = rv_customerId r"
    "rv_sellerOrderItemId ?m = rv_sellerOrderItemId r" by (simp_all add: merge_review_def)
  have "reviews_ok avg2 (db (recalculateRating avg2 (rv_productId r) k ?t))"
    if rating: "1 \<le> rv_rating ?m \<and> rv_rating ?m \<le> 5" and ok: "reviews_ok avg2 (db s)"
  proof (rule recalculateRating_ok [OF ok])
    have same: "x = r" if "x \<in> set (reviews (db s))" "rv_id x = rv_id r" for x
      using ok r that by (auto simp: reviews_ok_def items_ok_def distinct_map inj_on_def)
    show "distinct (map rv_id (reviews (db ?t)))" using ok by (simp add: keys_put_row reviews_ok_def items_ok_def)
    have "map (\<lambda>r. (rv_productId r, rv_customerId r)) (reviews (db ?t)) = map (\<lambda>r. (rv_productId r, rv_customerId r)) (reviews (db s))"
      by (auto simp: put_row_def m dest: same)
    then show "distinct (map (\<lambda>r. (rv_productId r, rv_customerId r)) (reviews (db ?t)))" using ok by (simp add: reviews_ok_def items_ok_def)
    show "product_reviews l (db ?t) = product_reviews l (db s)" if "l \<noteq> rv_productId r" for l
    proof -
      have "filter (\<lambda>x. rv_productId x = l) (put_row rv_id ?m xs) = filter (\<lambda>x. rv_productId x = l) xs"
        if "set xs \<subseteq> set (reviews (db s))" for xs
        using that same \<open>l \<noteq> rv_productId r\<close> by (induction xs) (auto simp: put_row_def m)
      then show ?thesis by (simp add: product_reviews_def)
    qed
    have "review_ok (db s) x" if "x \<in> set (reviews (db s))" for x using ok that by (simp add: reviews_ok_def items_ok_def)
    then show "review_ok (db ?t) x" if "x \<in> set (reviews (db ?t))" for x
      using that r rating by (auto simp: review_ok_def m dest!: set_put_rowD)
  qed simp_all
  then show ?thesis
    by (auto simp: runUpdateReview_def Inr Let_def reviews_kept_def recalculateRating_db)
qed (simp add: runUpdateReview_def)

lemma update_review_kept:
  assumes "\<And>t. reviews_kept avg2 t (m t)"
  shows "reviews_kept avg2 s (snd (update_review avg2 m c j dto k s))"
proof (cases "owned_review c j (db s)")
  case (Inr r)
  let ?r = "transaction (runUpdateReview avg2 c j (rv_productId r) dto k) (m s)"
  have "reviews_kept avg2 s (snd ?r)" by (intro reviews_kept_transaction runUpdateReview_kept assms)
  then show ?thesis by (cases ?r; cases "fst ?r") (simp_all add: update_review_def Inr Let_def)
qed (simp add: update_review_def)

lemma runRemoveReview_kept: "reviews_kept avg2 s (snd (runRemoveReview avg2 c j i k s))"
proof (cases "rbind (lockProduct i (db s)) (\<lambda>_. owned_review c j (db s))")
  case (Inr r)
  then have "owned_review c j (db s) = Inr r" by (auto simp: rbind_def split: sum.splits)
  note r = owned_row [OF this]
  let ?t = "upd_db (\<lambda>d. d\<lparr>reviews := filter (\<lambda>r. rv_id r \<noteq> j) (reviews d)\<rparr>) s"
  have "reviews_ok avg2 (db (recalculateRating avg2 (rv_productId r) k ?t))" if ok: "reviews_ok avg2 (db s)"
  proof (rule recalculateRating_ok [OF ok])
    show "product_reviews l (db ?t) = product_reviews l (db s)" if "l \<noteq> rv_productId r" for l
    proof -
      have "x = r" if "x \<in> set (reviews (db s))" "rv_id x = j" for x
        using ok r that by (auto simp: reviews_ok_def items_ok_def distinct_map inj_on_def)
      then show ?thesis using \<open>l \<noteq> rv_productId r\<close> by (auto simp: product_reviews_def intro!: filter_cong)
    qed
  qed (use ok in \<open>auto simp: reviews_ok_def items_ok_def review_ok_def distinct_map_filter\<close>)
  then show ?thesis by (simp add: runRemoveReview_def Inr reviews_kept_def recalculateRating_db)
qed (simp add: runRemoveReview_def)

lemma remove_review_kept:
  assumes "\<And>t. reviews_kept avg2 t (m t)"
  shows "reviews_kept avg2 s (snd (remove_review avg2 m c j k s))"
proof (cases "owned_review c j (db s)")
  case (Inr r)
  let ?r = "transaction (runRemoveReview avg2 c j (rv_productId r) k) (m s)"
  have "reviews_kept avg2 s (snd ?r)" by (intro reviews_kept_transaction runRemoveReview_kept assms)
  then show ?thesis by (cases ?r; cases "fst ?r") (simp_all add: remove_review_def Inr Let_def)
qed (simp add: remove_review_def)

section \<open>Ratings under all interleavings\<close>

text \<open>
  A request of another service (\<open>elsewhere\<close>) leaves the reviews and the shown ratings alone and adds
  order items with new ids only. Products are created and deleted; they are edited without another
  request in between, since an edit writes back the rating it has read.
\<close>

definition ratings_untouched :: "database \<Rightarrow> database \<Rightarrow> bool" where
  "ratings_untouched d d' \<longleftrightarrow> reviews d' = reviews d \<and> next_id d \<le> next_id d' \<and>
     map (\<lambda>p. (pr_id p, pr_ratingCount p, pr_ratingAverage p)) (products d') =
     map (\<lambda>p. (pr_id p, pr_ratingCount p, pr_ratingAverage p)) (products d) \<and>
     (items_ok d \<longrightarrow> items_ok d') \<and>
     (\<forall>x \<in> set (seller_order_items d'). next_id d \<le> soi_id x \<or>
        (\<exists>y \<in> set (seller_order_items d). soi_id y = soi_id x \<and> soi_productId y = soi_productId x))"

lemma untouched_kept:
  assumes "ratings_untouched (db s) (db s')"
  shows "reviews_kept avg2 s s'"
proof -
  let ?f = "\<lambda>p. (pr_id p, pr_ratingCount p, pr_ratingAverage p)"
  have mono: "next_id (db s) \<le> next_id (db s')" and revs: "reviews (db s') = reviews (db s)"
    and ps: "map ?f (products (db s')) = map ?f (products (db s))"
    using assms by (simp_all add: ratings_untouched_def)
  have ids: "map pr_id (products (db s')) = map pr_id (products (db s))"
    using arg_cong [where f = "map fst", OF ps] by (simp add: comp_def)
  then have idset: "pr_id ` set (products (db s')) = pr_id ` set (products (db s))"
    by (metis set_map)
  have "reviews_ok avg2 (db s')" if ok: "reviews_ok avg2 (db s)"
  proof -
    have "pr_id p < next_id (db s') \<and> rated_right avg2 (db s') p" if p: "p \<in> set (products (db s'))" for p
    proof -
      have "?f p \<in> ?f ` set (products (db s))" using p arg_cong [where f = set, OF ps] by (simp only: set_map) blast
      then obtain q where "q \<in> set (products (db s))" "?f p = ?f q" by blast
      then show ?thesis
        using ok mono rating_of_cong [OF revs, of avg2 "pr_id q"] by (auto simp: reviews_ok_def items_ok_def rated_right_def)
    qed
    moreover have "review_ok (db s') r" if r: "r \<in> set (reviews (db s'))" for r
    proof -
      have "review_ok (db s) r" using ok r by (simp add: reviews_ok_def items_ok_def revs)
      moreover have "next_id (db s) \<le> soi_id x \<or> (\<exists>y \<in> set (seller_order_items (db s)). soi_id y = soi_id x \<and> soi_productId y = soi_productId x)"
        if "x \<in> set (seller_order_items (db s'))" for x
        using assms that by (simp add: ratings_untouched_def)
      ultimately show ?thesis using mono unfolding review_ok_def idset by fastforce
    qed
    moreover have "distinct (map pr_id (products (db s')))" unfolding ids using ok by (simp add: reviews_ok_def items_ok_def)
    ultimately show ?thesis using assms ok by (simp add: reviews_ok_def items_ok_def revs ratings_untouched_def)
  qed
  then show ?thesis using mono by (simp add: reviews_kept_def)
qed

lemma untouched_outbox: "reviews_kept avg2 s (outbox_record y g i p c s)"
proof (cases "reviews_ok avg2 (db s)")
  case True
  then have "ratings_untouched (db s) (db (outbox_record y g i p c s))"
    by (force simp: ratings_untouched_def reviews_ok_def items_ok_def)
  then show ?thesis by (rule untouched_kept)
qed (simp add: reviews_kept_def)

lemma record_product_reviews:
  "reviews_kept avg2 s (snd r) \<Longrightarrow> reviews_kept avg2 s (snd (record_product y c r))"
  by (auto simp: record_product_def split: prod.split sum.split intro: reviews_kept_trans [OF _ untouched_outbox])

text \<open>An edit of a row that has not changed since, and a new row that nobody can have reviewed.\<close>

lemma save_product_reviews:
  assumes old: "\<And>q. q \<in> set (products (db s)) \<Longrightarrow> pr_id q = pr_id p \<Longrightarrow>
      pr_ratingCount p = pr_ratingCount q \<and> pr_ratingAverage p = pr_ratingAverage q"
    and new: "pr_id p \<notin> pr_id ` set (products (db s)) \<Longrightarrow> pr_ratingCount p = 0 \<and> pr_ratingAverage p = ''0.00''"
    and n: "pr_id p < next_id (db s)"
  shows "reviews_kept avg2 s (snd (save_product e p s))"
proof -
  let ?p = "stored_product e p"
  let ?d = "(db s)\<lparr>products := put_or_insert pr_id ?p (products (db s))\<rparr>"
  have p: "pr_id ?p = pr_id p" "pr_ratingCount ?p = pr_ratingCount p" "pr_ratingAverage ?p = pr_ratingAverage p"
    by (simp_all add: stored_product_def)
  have "reviews_ok avg2 ?d" if ok: "reviews_ok avg2 (db s)"
  proof -
    have same: "rated_right avg2 ?d q \<longleftrightarrow> rated_right avg2 (db s) q" for q
      by (simp add: rated_right_def rating_of_def product_reviews_def)
    have "rated_right avg2 (db s) ?p"
    proof (cases "pr_id p \<in> pr_id ` set (products (db s))")
      case True
      then obtain q where q: "q \<in> set (products (db s))" "pr_id q = pr_id p" by force
      then have "rated_right avg2 (db s) q" using ok by (simp add: reviews_ok_def items_ok_def)
      then show ?thesis using old [OF q] q(2) by (simp add: rated_right_def p)
    next
      case False
      have "rv_productId r \<in> pr_id ` set (products (db s))" if "r \<in> set (reviews (db s))" for r
        using ok that by (simp add: reviews_ok_def items_ok_def review_ok_def)
      then have "rv_productId r \<noteq> pr_id p" if "r \<in> set (reviews (db s))" for r using that False by metis
      then have "product_reviews (pr_id p) (db s) = []" by (simp add: product_reviews_def filter_empty_conv)
      then show ?thesis using new [OF False] by (simp add: rated_right_def p rating_of_def storedRatingAggregate_def)
    qed
    then have "pr_id q < next_id (db s) \<and> rated_right avg2 ?d q" if "q \<in> set (products ?d)" for q
      using ok n that unfolding same by (auto simp: set_put_or_insert p reviews_ok_def items_ok_def)
    moreover have "review_ok ?d r" if "r \<in> set (reviews ?d)" for r
      using ok that by (simp add: reviews_ok_def items_ok_def review_ok_def keys_put_or_insert)
    moreover have "distinct (map pr_id (products ?d))"
      using ok by (auto intro!: distinct_put_or_insert simp: reviews_ok_def items_ok_def)
    ultimately show ?thesis using ok by (simp add: reviews_ok_def items_ok_def)
  qed
  then show ?thesis by (simp add: save_product_def reviews_kept_def)
qed

lemma createForSeller_reviews:
  assumes "\<And>n t. reviews_kept avg2 t (m n t)"
  shows "reviews_kept avg2 s (snd (createForSeller e m sp dto c s))"
proof -
  have run: "reviews_kept avg2 t (snd (runCreateProduct e sp dto c slug t))" if "reviews_ok avg2 (db t)" for t slug
  proof -
    let ?t = "upd_db (\<lambda>d. d\<lparr>next_id := next_id d + 1\<rparr>) t"
    have "ratings_untouched (db t) (db ?t)" using that by (force simp: ratings_untouched_def reviews_ok_def items_ok_def)
    then have "reviews_kept avg2 t ?t" by (rule untouched_kept)
    moreover have "reviews_kept avg2 ?t (snd (save_product e (new_product sp dto slug (next_id (db t))) ?t))"
      using that by (intro save_product_reviews) (auto simp: new_product_def reviews_ok_def items_ok_def)
    ultimately show ?thesis
      unfolding runCreateProduct_def by (intro record_product_reviews) (rule reviews_kept_trans)
  qed
  have mono: "next_id (db t) \<le> next_id (db (snd (runCreateProduct e sp dto c slug t)))" for t slug
    using runCreateProduct_kept [of t e sp dto c slug] by (simp add: catalog_kept_def)
  have "reviews_kept avg2 t (snd (runCreateProduct e sp dto c slug t))" for t slug
    using run [of t slug] mono [of t slug] by (auto simp: reviews_kept_def)
  then have tx: "reviews_kept avg2 t (snd (transaction (runCreateProduct e sp dto c slug) t))" for t slug
    by (intro reviews_kept_transaction) simp_all
  have "reviews_kept avg2 s (snd (with_unique_slug n x m sl name (\<lambda>slug. transaction (runCreateProduct e sp dto c slug)) s))"
    for n x sl name
  proof (rule with_unique_slug_rel [where R = "reviews_kept avg2"])
    show "reviews_kept avg2 a c" if "reviews_kept avg2 a b" "reviews_kept avg2 b c" for a b c
      using that by (rule reviews_kept_trans)
  qed (rule reviews_kept_refl tx assms)+
  then show ?thesis by (simp add: createForSeller_def snd_case_keep split: sum.split)
qed

lemma updateOwned_reviews: "reviews_kept avg2 s (snd (updateOwned e (\<lambda>t. t) i sp dto c s))"
proof (cases "reviews_ok avg2 (db s)")
  case ok: True
  show ?thesis
  proof (cases "findOwnedById i sp (db s)")
    case (Inr p)
    note p = findOwned_row [OF Inr]
    have "q = p" if "q \<in> set (products (db s))" "pr_id q = pr_id p" for q
      using ok p that by (auto simp: reviews_ok_def items_ok_def distinct_map inj_on_def)
    then have "reviews_kept avg2 s (snd (save_product e (merge_product dto p) s))"
      using ok p by (intro save_product_reviews) (auto simp: merge_product_def reviews_ok_def items_ok_def)
    then have "reviews_kept avg2 s (snd (transaction (\<lambda>t. record_product ''PRODUCT_UPDATED'' c (save_product e (merge_product dto p) t)) s))"
      by (intro reviews_kept_transaction record_product_reviews) simp_all
    then show ?thesis
      by (simp add: updateOwned_def Inr assertCategoryExists_def snd_case_keep split: option.split sum.split)
  qed (simp add: updateOwned_def)
next
  case False
  have "catalog_kept s (snd (updateOwned e (\<lambda>t. t) i sp dto c s))" by (rule updateOwned_kept) simp
  then show ?thesis using False by (simp add: reviews_kept_def catalog_kept_def)
qed

lemma deleteOwned_reviews: "reviews_kept avg2 s (snd (deleteOwned i sp c s))"
proof -
  have ok': "reviews_ok avg2 (cascade_product i d)" if ok: "reviews_ok avg2 d" for d
  proof -
    let ?d = "cascade_product i d" and ?g = "\<lambda>x. if soi_productId x = Some i then x\<lparr>soi_productId := None\<rparr> else x"
    have items: "map soi_id (map ?g xs) = map soi_id xs" for xs by (induction xs) simp_all
    have d: "products ?d = filter (\<lambda>p. pr_id p \<noteq> i) (products d)" "reviews ?d = filter (\<lambda>x. rv_productId x \<noteq> i) (reviews d)"
      "seller_order_items ?d = map ?g (seller_order_items d)" "next_id ?d = next_id d"
      by (simp_all add: cascade_product_def)
    have "review_ok ?d r" if "r \<in> set (reviews ?d)" for r
    proof -
      have r: "rv_productId r \<noteq> i" "review_ok d r" using that ok by (simp_all add: d reviews_ok_def items_ok_def)
      then have "rv_productId r \<in> pr_id ` set (products ?d)" by (auto simp: d review_ok_def)
      moreover have "soi_productId y = Some (rv_productId r)"
        if "y \<in> set (seller_order_items ?d)" "soi_id y = rv_sellerOrderItemId r" for y
      proof -
        have "y \<in> ?g ` set (seller_order_items d)" using that(1) by (simp only: d(3) set_map)
        then obtain x where x: "x \<in> set (seller_order_items d)" "y = ?g x" by (rule imageE)
        moreover from x that(2) have "soi_id x = rv_sellerOrderItemId r" by (simp split: if_splits)
        ultimately show ?thesis using r by (simp add: review_ok_def)
      qed
      ultimately show ?thesis using r(2) by (simp add: review_ok_def d(4))
    qed
    moreover have "rated_right avg2 ?d p" if "p \<in> set (products ?d)" for p
    proof -
      have "product_reviews (pr_id p) ?d = product_reviews (pr_id p) d"
        using that by (auto simp: product_reviews_def d intro!: filter_cong)
      then show ?thesis using that ok by (simp add: rated_right_def rating_of_def d reviews_ok_def items_ok_def)
    qed
    moreover have "distinct (map soi_id (seller_order_items ?d))" unfolding d items using ok by (simp add: reviews_ok_def items_ok_def)
    ultimately show ?thesis using ok by (auto simp: reviews_ok_def items_ok_def d distinct_map_filter)
  qed
  then have "reviews_kept avg2 s (upd_db (cascade_product i) s)"
    by (simp add: reviews_kept_def) (simp add: cascade_product_def)
  then have "reviews_kept avg2 s (outbox_record y g j p c (upd_db (cascade_product i) s))" for y g j p
    by (rule reviews_kept_trans [OF _ untouched_outbox])
  then show ?thesis by (simp add: deleteOwned_def split: sum.split)
qed

text \<open>\<open>avg2\<close> is exact to half a hundredth on every list of ratings.\<close>

definition avg2_ok :: "(int list \<Rightarrow> string) \<Rightarrow> bool" where
  "avg2_ok avg2 \<longleftrightarrow> (\<forall>rs. rs \<noteq> [] \<longrightarrow> (\<exists>a. avg2 rs = formatCentsToMoney a \<and>
     \<bar>2 * (a * int (length rs) - 100 * sum_list rs)\<bar> \<le> int (length rs)))"

definition shows_average :: "database \<Rightarrow> Product \<Rightarrow> bool" where
  "shows_average d p \<longleftrightarrow>
     (let rs = map rv_rating (product_reviews (pr_id p) d)
      in pr_ratingCount p = int (length rs) \<and>
         \<bar>2 * (cents (pr_ratingAverage p) * pr_ratingCount p - 100 * sum_list rs)\<bar> \<le> pr_ratingCount p)"

inductive review_step :: "(int list \<Rightarrow> string) \<Rightarrow> sys \<Rightarrow> sys \<Rightarrow> bool" for avg2 where
  elsewhere: "ratings_untouched (db s) (db s') \<Longrightarrow> review_step avg2 s s'"
| review_created: "(\<And>t. review_step avg2 t (m t)) \<Longrightarrow> review_step avg2 s (snd (create_review e avg2 m c i dto k s))"
| review_updated: "(\<And>t. review_step avg2 t (m t)) \<Longrightarrow> review_step avg2 s (snd (update_review avg2 m c j udto k s))"
| review_removed: "(\<And>t. review_step avg2 t (m t)) \<Longrightarrow> review_step avg2 s (snd (remove_review avg2 m c j k s))"
| product_created: "(\<And>n t. review_step avg2 t (mn n t)) \<Longrightarrow> review_step avg2 s (snd (createForSeller e mn sp pdto k s))"
| product_edited: "review_step avg2 s (snd (updateOwned e (\<lambda>t. t) i sp qdto k s))"
| product_deleted: "review_step avg2 s (snd (deleteOwned i sp k s))"

lemma review_step_kept: "review_step avg2 s s' \<Longrightarrow> reviews_kept avg2 s s'"
proof (induction rule: review_step.induct)
  case (elsewhere s s')
  then show ?case by (rule untouched_kept)
next
  case (review_created m s e c i dto k)
  then show ?case by (intro create_review_kept) blast
next
  case (review_updated m s c j udto k)
  then show ?case by (intro update_review_kept) blast
next
  case (review_removed m s c j k)
  then show ?case by (intro remove_review_kept) blast
next
  case (product_created mn s e sp pdto k)
  then show ?case by (intro createForSeller_reviews) blast
qed (rule updateOwned_reviews deleteOwned_reviews)+

lemma cents_formatted: "cents (formatCentsToMoney a) = a"
  by (simp add: cents_parse)


section \<open>Who may review\<close>

definition may_review :: "database \<Rightarrow> uuid \<Rightarrow> uuid \<Rightarrow> uuid \<Rightarrow> bool" where
  "may_review d customerId productId itemId \<longleftrightarrow>
     (\<exists>x \<in> set (seller_order_items d). soi_id x = itemId \<and> soi_productId x = Some productId \<and>
        delivered_to d customerId x \<and> refunded_quantity d itemId < soi_quantity x) \<and>
     \<not> (\<exists>r \<in> set (reviews d). rv_productId r = productId \<and> rv_customerId r = customerId)"

lemma findEligibleItem_iff:
  "findEligibleItem d c i itemId \<noteq> None \<longleftrightarrow>
     (\<exists>x \<in> set (seller_order_items d). soi_productId x = Some i \<and> delivered_to d c x \<and>
        refunded_quantity d (soi_id x) < soi_quantity x \<and> (\<forall>j \<in> set_option itemId. soi_id x = j))"
  unfolding findEligibleItem_def find_None_iff isReviewEligible_def by (auto split: option.split)

text \<open>
  C27: A customer may review a product with an item exactly if the item is the product, was delivered to
  the customer, is not fully refunded and the customer has not reviewed the product; otherwise nothing is
  written. The page that asks whether a review is possible says so exactly if some item allows one, and
  the item it names is accepted.
\<close>
theorem eligibility_is_acceptance:
  assumes ok: "reviews_ok avg2 (db s)" and product: "i \<in> pr_id ` set (products (db s))"
  shows "(el_eligible (eligibility c i (db s)) \<longleftrightarrow> (\<exists>j. may_review (db s) c i j)) \<and>
         (el_eligible (eligibility c i (db s)) \<longrightarrow> may_review (db s) c i (the (el_sellerOrderItemId (eligibility c i (db s))))) \<and>
         (1 \<le> crv_rating dto \<and> crv_rating dto \<le> 5 \<longrightarrow>
            (if may_review (db s) c i (crv_sellerOrderItemId dto)
             then \<not> is_error (fst (create_review e avg2 (\<lambda>t. t) c i dto k s)) \<and>
                  length (reviews (db (snd (create_review e avg2 (\<lambda>t. t) c i dto k s)))) = length (reviews (db s)) + 1
             else is_error (fst (create_review e avg2 (\<lambda>t. t) c i dto k s)) \<and>
                  db (snd (create_review e avg2 (\<lambda>t. t) c i dto k s)) = db s))"
proof (intro conjI impI)
  let ?found = "\<lambda>j. findEligibleItem (db s) c i j"
  let ?reviewed = "\<exists>r \<in> set (reviews (db s)). rv_productId r = i \<and> rv_customerId r = c"
  have el: "el_eligible (eligibility c i (db s)) \<longleftrightarrow> \<not> ?reviewed \<and> ?found None \<noteq> None"
    by (auto simp: eligibility_def find_None_iff split: option.split dest!: find_SomeD)
  show "el_eligible (eligibility c i (db s)) \<longleftrightarrow> (\<exists>j. may_review (db s) c i j)"
    unfolding el findEligibleItem_iff may_review_def by auto
  show "may_review (db s) c i (the (el_sellerOrderItemId (eligibility c i (db s))))"
    if "el_eligible (eligibility c i (db s))"
  proof -
    from that el obtain x where x: "?found None = Some x" and new: "\<not> ?reviewed" by auto
    then have "el_sellerOrderItemId (eligibility c i (db s)) = Some (soi_id x)"
      by (auto simp: eligibility_def find_None_iff split: option.split dest!: find_SomeD)
    then show ?thesis using find_item [OF x] new by (auto simp: may_review_def)
  qed
  show "if may_review (db s) c i (crv_sellerOrderItemId dto)
     then \<not> is_error (fst (create_review e avg2 (\<lambda>t. t) c i dto k s)) \<and>
          length (reviews (db (snd (create_review e avg2 (\<lambda>t. t) c i dto k s)))) = length (reviews (db s)) + 1
     else is_error (fst (create_review e avg2 (\<lambda>t. t) c i dto k s)) \<and>
          db (snd (create_review e avg2 (\<lambda>t. t) c i dto k s)) = db s"
    if rating: "1 \<le> crv_rating dto \<and> crv_rating dto \<le> 5"
  proof (cases "?found (Some (crv_sellerOrderItemId dto))")
    case None
    then have "\<not> may_review (db s) c i (crv_sellerOrderItemId dto)"
      using findEligibleItem_iff [of "db s" c i "Some (crv_sellerOrderItemId dto)"] by (auto simp: may_review_def)
    then show ?thesis using product None by (simp add: create_review_def runCreateReview_def lockProduct_def transaction_def)
  next
    case (Some x)
    note x = find_item [OF Some]
    have may: "may_review (db s) c i (crv_sellerOrderItemId dto) \<longleftrightarrow> \<not> ?reviewed"
      using x by (auto simp: may_review_def)
    note run = runCreateReview_insert [OF product Some, of e avg2 k]
    let ?r = "review_row e c i dto x s"
    show ?thesis
    proof (cases rule: insert_review_cases [of ?r s])
      case bad
      then show ?thesis using rating by (simp add: review_row_def)
    next
      case (twice r)
      have "rv_productId r = i"
      proof (cases "rv_productId r = i")
        case False
        then have "rv_sellerOrderItemId r = soi_id x" using twice(3) by (auto simp: review_row_def)
        then show ?thesis using ok twice(1) x(1,2) by (auto simp: reviews_ok_def items_ok_def review_ok_def)
      qed
      then have ?reviewed using twice(1,2) by (auto simp: review_row_def)
      then show ?thesis using may twice(4) by (simp add: create_review_def run transaction_def)
    next
      case inserted
      let ?t = "recalculateRating avg2 i k (upd_db (\<lambda>d. d\<lparr>next_id := next_id d + 1, reviews := reviews d @ [?r]\<rparr>) s)"
      have "\<not> ?reviewed" using inserted(3) by (auto simp: review_row_def image_iff)
      moreover have "by_id rv_id (rv_id ?r) (reviews (db s) @ [?r]) \<noteq> None" by (simp add: by_id_None_iff)
      ultimately show ?thesis
        using may inserted(4)
        by (auto simp: create_review_def run transaction_def Let_def invalidate_product_def recalculateRating_db split: option.split)
    qed
  qed
qed

section \<open>A delivered order\<close>

definition half_up_average :: "int list \<Rightarrow> string" where
  "half_up_average rs =
     formatCentsToMoney ((200 * sum_list rs + int (length rs)) div (2 * int (length rs)))"

lemma half_up_average_ok: "avg2_ok half_up_average"
proof -
  have "\<bar>2 * ((200 * x + n) div (2 * n) * n - 100 * x)\<bar> \<le> n" if "0 < n" for n x :: int
  proof -
    have "2 * n * ((200 * x + n) div (2 * n)) = 200 * x + n - (200 * x + n) mod (2 * n)"
      by (simp add: minus_mod_eq_mult_div)
    moreover have "0 \<le> (200 * x + n) mod (2 * n)" "(200 * x + n) mod (2 * n) < 2 * n" using that by simp_all
    ultimately show ?thesis by (simp add: algebra_simps)
  qed
  then show ?thesis unfolding avg2_ok_def half_up_average_def by (metis length_greater_0_conv of_nat_0_less_iff)
qed

definition delivered_db :: database where
  "delivered_db = order_db\<lparr>seller_orders := map (\<lambda>x. x\<lparr>so_status := SellerOrderStatus.DELIVERED\<rparr>) (seller_orders order_db)\<rparr>"

definition four_stars :: CreateReviewDto where
  "four_stars = \<lparr>crv_sellerOrderItemId = 41, crv_rating = 4, crv_comment = Some '' good ''\<rparr>"

lemma delivered_db_ok: "reviews_ok half_up_average (db (start_sys delivered_db))"
  by code_simp


theorem eligibility_is_acceptance_witness:
  "\<not> is_error (fst (create_review (sample_env 5) half_up_average (\<lambda>t. t) 8 11 four_stars 0 (start_sys delivered_db))) \<and>
   el_eligible (eligibility 8 11 (db (start_sys delivered_db)))"
proof -
  have "11 \<in> pr_id ` set (products (db (start_sys delivered_db)))" by code_simp
  moreover have "may_review (db (start_sys delivered_db)) 8 11 (crv_sellerOrderItemId four_stars)" by code_simp
  moreover have "1 \<le> crv_rating four_stars \<and> crv_rating four_stars \<le> 5" by (simp add: four_stars_def)
  ultimately show ?thesis
    using eligibility_is_acceptance [OF delivered_db_ok, where i = 11 and c = 8 and dto = four_stars and e = "sample_env 5" and k = 0]
    by auto
qed

end
