(* ===== verification/Sellers.thy ===== *)
theory Sellers
  imports Slug Accounts
begin

text \<open>
  Seller applications and profiles: \<open>modules/sellers/sellers.service.ts\<close> and the public view of a
  profile. \<open>hex n\<close> is the n-th draw of \<open>randomBytes(2).toString('hex')\<close>; \<open>meanwhile\<close> is what other
  requests do between the check of a submission and its transaction.
\<close>

section \<open>Reads\<close>

definition OUTBOX_AGGREGATE_TYPE :: string where
  "OUTBOX_AGGREGATE_TYPE = ''SellerApplication''"

record ApplySellerDto =
  as_businessName :: string
  as_description :: string

record SellerPublicDto =
  spd_id :: uuid
  spd_storeName :: string
  spd_storeSlug :: string
  spd_description :: "string option"
  spd_logoUrl :: "string option"
  spd_isActive :: bool

definition fromEntity :: "SellerProfile \<Rightarrow> SellerPublicDto" where
  "fromEntity profile =
     \<lparr>spd_id = sp_id profile, spd_storeName = sp_storeName profile, spd_storeSlug = sp_storeSlug profile,
       spd_description = sp_description profile, spd_logoUrl = sp_logoUrl profile, spd_isActive = sp_isActive profile\<rparr>"

definition findProfileById :: "uuid \<Rightarrow> database \<Rightarrow> SellerProfile result" where
  "findProfileById i d =
     (case by_id sp_id i (seller_profiles d) of
        None \<Rightarrow> Inl (NotFoundException ''Seller profile not found'') | Some p \<Rightarrow> Inr p)"

definition findProfileByUserId :: "uuid \<Rightarrow> database \<Rightarrow> SellerProfile result" where
  "findProfileByUserId userId d =
     (case find (\<lambda>p. sp_userId p = userId) (seller_profiles d) of
        None \<Rightarrow> Inl (NotFoundException ''No seller profile found for user'') | Some p \<Rightarrow> Inr p)"

definition findApplicationsByUserId :: "uuid \<Rightarrow> database \<Rightarrow> SellerApplication list" where
  "findApplicationsByUserId userId d = rev (filter (\<lambda>a. sa_userId a = userId) (seller_applications d))"

definition findApplicationById :: "uuid \<Rightarrow> database \<Rightarrow> SellerApplication result" where
  "findApplicationById i d =
     (case by_id sa_id i (seller_applications d) of
        None \<Rightarrow> Inl (NotFoundException ''Seller application not found'') | Some a \<Rightarrow> Inr a)"

definition listApplications :: "SellerApplicationStatus option \<Rightarrow> database \<Rightarrow> SellerApplication list" where
  "listApplications status d =
     filter (\<lambda>a. case status of None \<Rightarrow> True | Some st \<Rightarrow> sa_status a = st) (seller_applications d)"

section \<open>Applying\<close>

definition pending :: "SellerApplication \<Rightarrow> bool" where
  "pending a \<longleftrightarrow> sa_status a = SellerApplicationStatus.PENDING"

text \<open>The insert under the partial unique index on the user of the pending applications.\<close>

definition insert_application :: "SellerApplication \<Rightarrow> sys \<Rightarrow> SellerApplication result \<times> sys" where
  "insert_application a s =
     (if pending a \<and> (\<exists>x \<in> set (seller_applications (db s)). pending x \<and> sa_userId x = sa_userId a)
      then (Inl UniqueViolation, s)
      else (Inr a, upd_db (\<lambda>d. d\<lparr>next_id := next_id d + 1, seller_applications := seller_applications d @ [a]\<rparr>) s))"

definition runApply :: "uuid \<Rightarrow> ApplySellerDto \<Rightarrow> uuid \<Rightarrow> sys \<Rightarrow> SellerApplication result \<times> sys" where
  "runApply userId dto correlationId s =
     (case insert_application
             \<lparr>sa_id = next_id (db s), sa_userId = userId, sa_requestedStoreName = as_businessName dto,
               sa_businessDescription = as_description dto, sa_status = SellerApplicationStatus.PENDING,
               sa_reviewedByUserId = None, sa_reviewedAt = None, sa_rejectionReason = None\<rparr> s of
        (Inl err, s1) \<Rightarrow> (Inl err, s1)
      | (Inr created, s1) \<Rightarrow>
          (Inr created, outbox_record ''SELLER_APPLICATION_CREATED'' OUTBOX_AGGREGATE_TYPE (sa_id created)
             [(''userId'', JId userId), (''businessName'', JStr (as_businessName dto))] correlationId s1))"

definition applyForSeller ::
  "(sys \<Rightarrow> sys) \<Rightarrow> uuid \<Rightarrow> UserRole \<Rightarrow> ApplySellerDto \<Rightarrow> uuid \<Rightarrow> sys \<Rightarrow> SellerApplication result \<times> sys" where
  "applyForSeller meanwhile userId userRole dto correlationId s =
     (if userRole = SELLER \<or> userRole = ADMIN
      then (Inl (ConflictException ''You already have seller access''), s)
      else if \<exists>a \<in> set (seller_applications (db s)). sa_userId a = userId \<and> pending a
      then (Inl (ConflictException ''You already have a pending seller application''), s)
      else transaction (runApply userId dto correlationId) (meanwhile s))"

section \<open>Deciding\<close>

definition MAX_RANDOM_SLUGS :: nat where
  "MAX_RANDOM_SLUGS = 5"

text \<open>
  The search for a store slug: at most six random suffixes are drawn, and the last is used without
  looking it up.
\<close>

function store_slug_loop :: "(nat \<Rightarrow> string) \<Rightarrow> string list \<Rightarrow> string \<Rightarrow> string \<Rightarrow> nat \<Rightarrow> string" where
  "store_slug_loop hex used baseSlug cand attempt =
     (if cand \<in> set used
      then if attempt + 1 > MAX_RANDOM_SLUGS then baseSlug @ ''-'' @ hex (attempt + 1)
           else store_slug_loop hex used baseSlug (baseSlug @ ''-'' @ hex (attempt + 1)) (attempt + 1)
      else cand)"
  by pat_completeness auto
termination by (relation "measure (\<lambda>(h, u, b, c, a). Suc MAX_RANDOM_SLUGS - a)") auto

declare store_slug_loop.simps [simp del]

definition generateUniqueStoreSlug :: "(nat \<Rightarrow> string) \<Rightarrow> string \<Rightarrow> database \<Rightarrow> string" where
  "generateUniqueStoreSlug hex base d =
     (let baseSlug = (if slugify base = [] then ''store'' else slugify base)
      in store_slug_loop hex (map sp_storeSlug (seller_profiles d)) baseSlug baseSlug 0)"

text \<open>The insert under the unique indexes on user, store name and store slug.\<close>

definition insert_profile :: "SellerProfile \<Rightarrow> sys \<Rightarrow> SellerProfile result \<times> sys" where
  "insert_profile p s =
     (if \<exists>x \<in> set (seller_profiles (db s)). sp_userId x = sp_userId p \<or> sp_storeName x = sp_storeName p \<or>
           sp_storeSlug x = sp_storeSlug p
      then (Inl UniqueViolation, s)
      else (Inr p, upd_db (\<lambda>d. d\<lparr>next_id := next_id d + 1, seller_profiles := seller_profiles d @ [p]\<rparr>) s))"

definition save_application :: "SellerApplication \<Rightarrow> sys \<Rightarrow> sys" where
  "save_application a s = upd_db (\<lambda>d. d\<lparr>seller_applications := put_row sa_id a (seller_applications d)\<rparr>) s"

definition set_role :: "uuid \<Rightarrow> UserRole \<Rightarrow> sys \<Rightarrow> sys" where
  "set_role userId role s =
     upd_db (\<lambda>d. d\<lparr>users := map (\<lambda>u. if us_id u = userId then u\<lparr>us_role := role\<rparr> else u) (users d)\<rparr>) s"

definition lock_pending :: "string \<Rightarrow> uuid \<Rightarrow> database \<Rightarrow> SellerApplication result" where
  "lock_pending message applicationId d =
     (case by_id sa_id applicationId (seller_applications d) of
        None \<Rightarrow> Inl (NotFoundException ''Seller application not found'')
      | Some a \<Rightarrow> if sa_status a \<noteq> SellerApplicationStatus.PENDING then Inl (ConflictException message) else Inr a)"

definition reviewed :: "env \<Rightarrow> SellerApplicationStatus \<Rightarrow> uuid \<Rightarrow> SellerApplication \<Rightarrow> SellerApplication" where
  "reviewed e status adminUserId a =
     a\<lparr>sa_status := status, sa_reviewedByUserId := Some adminUserId, sa_reviewedAt := Some (now e)\<rparr>"

definition new_profile :: "SellerApplication \<Rightarrow> string \<Rightarrow> uuid \<Rightarrow> SellerProfile" where
  "new_profile a storeSlug i =
     \<lparr>sp_id = i, sp_userId = sa_userId a, sp_storeName = sa_requestedStoreName a, sp_storeSlug = storeSlug,
       sp_description = Some (sa_businessDescription a), sp_logoUrl = None,
       sp_commissionRatePercent = ''10.00'', sp_isActive = True\<rparr>"

definition runApprove ::
  "env \<Rightarrow> (nat \<Rightarrow> string) \<Rightarrow> uuid \<Rightarrow> uuid \<Rightarrow> uuid \<Rightarrow> sys \<Rightarrow> SellerApplication result \<times> sys" where
  "runApprove e hex applicationId adminUserId correlationId s =
     (case lock_pending ''Application was decided and cannot be approved again'' applicationId (db s) of
        Inl err \<Rightarrow> (Inl err, s)
      | Inr a \<Rightarrow>
          if \<exists>p \<in> set (seller_profiles (db s)). sp_userId p = sa_userId a
          then (Inl (ConflictException ''This user already has a seller profile''), s)
          else
            let approved = reviewed e SellerApplicationStatus.APPROVED adminUserId a;
                s1 = save_application approved s;
                storeSlug = generateUniqueStoreSlug hex (sa_requestedStoreName a) (db s1)
            in (case insert_profile (new_profile a storeSlug (next_id (db s1))) s1 of
                  (Inl err, s2) \<Rightarrow> (Inl err, s2)
                | (Inr profile, s2) \<Rightarrow>
                    (Inr approved, outbox_record ''SELLER_APPLICATION_APPROVED'' OUTBOX_AGGREGATE_TYPE (sa_id a)
                       [(''userId'', JId (sa_userId a)), (''storeSlug'', JStr storeSlug)] correlationId
                       (set_role (sa_userId a) SELLER s2))))"

definition approveApplication ::
  "env \<Rightarrow> (nat \<Rightarrow> string) \<Rightarrow> uuid \<Rightarrow> uuid \<Rightarrow> uuid \<Rightarrow> sys \<Rightarrow> SellerApplication result \<times> sys" where
  "approveApplication e hex applicationId adminUserId correlationId =
     transaction (runApprove e hex applicationId adminUserId correlationId)"

definition runReject ::
  "env \<Rightarrow> uuid \<Rightarrow> uuid \<Rightarrow> string \<Rightarrow> uuid \<Rightarrow> sys \<Rightarrow> SellerApplication result \<times> sys" where
  "runReject e applicationId adminUserId reason correlationId s =
     (case lock_pending ''Application was decided and cannot be rejected again'' applicationId (db s) of
        Inl err \<Rightarrow> (Inl err, s)
      | Inr a \<Rightarrow>
          let rejected = (reviewed e SellerApplicationStatus.REJECTED adminUserId a)\<lparr>sa_rejectionReason := Some reason\<rparr>
          in (Inr rejected, outbox_record ''SELLER_APPLICATION_REJECTED'' OUTBOX_AGGREGATE_TYPE (sa_id a)
                [(''userId'', JId (sa_userId a)), (''reason'', JStr reason)] correlationId
                (save_application rejected s)))"

definition rejectApplication ::
  "env \<Rightarrow> uuid \<Rightarrow> uuid \<Rightarrow> string \<Rightarrow> uuid \<Rightarrow> sys \<Rightarrow> SellerApplication result \<times> sys" where
  "rejectApplication e applicationId adminUserId reason correlationId =
     transaction (runReject e applicationId adminUserId reason correlationId)"

section \<open>The slug of a store\<close>

lemma store_slug_loop_used:
  "store_slug_loop hex used b c n \<in> set used \<Longrightarrow> n \<le> MAX_RANDOM_SLUGS \<Longrightarrow>
   c \<in> set used \<and> (\<forall>k. n < k \<and> k \<le> Suc MAX_RANDOM_SLUGS \<longrightarrow> b @ ''-'' @ hex k \<in> set used)"
proof (induction hex used b c n rule: store_slug_loop.induct)
  case (1 hex used b c n)
  show ?case
  proof (cases "c \<in> set used")
    case c: True
    show ?thesis
    proof (cases "n + 1 > MAX_RANDOM_SLUGS")
      case True
      then have n: "n = MAX_RANDOM_SLUGS" using 1(3) by simp
      have "b @ ''-'' @ hex (Suc n) \<in> set used" using 1(2) c True by (simp add: store_slug_loop.simps [of hex used b c])
      moreover have "k = Suc n" if "n < k" "k \<le> Suc MAX_RANDOM_SLUGS" for k using n that by simp
      ultimately show ?thesis using c by blast
    next
      case False
      then have "store_slug_loop hex used b (b @ ''-'' @ hex (n + 1)) (n + 1) \<in> set used"
        using 1(2) c by (simp add: store_slug_loop.simps [of hex used b c])
      from 1(1) [OF c False this] False
      have rest: "b @ ''-'' @ hex (n + 1) \<in> set used" "\<forall>k. n + 1 < k \<and> k \<le> Suc MAX_RANDOM_SLUGS \<longrightarrow> b @ ''-'' @ hex k \<in> set used"
        by simp_all
      have "b @ ''-'' @ hex k \<in> set used" if "n < k" "k \<le> Suc MAX_RANDOM_SLUGS" for k
        using rest that by (cases "k = n + 1") auto
      then show ?thesis using c by blast
    qed
  next
    case False
    then show ?thesis using 1(2) by (simp add: store_slug_loop.simps [of hex used b c])
  qed
qed

definition store_base :: "string \<Rightarrow> string" where
  "store_base name = (if slugify name = [] then ''store'' else slugify name)"

text \<open>One of the seven slugs that are tried is free.\<close>

definition slug_available :: "(nat \<Rightarrow> string) \<Rightarrow> string \<Rightarrow> database \<Rightarrow> bool" where
  "slug_available hex name d \<longleftrightarrow>
     (\<exists>k \<in> {0..6}. (if k = 0 then store_base name else store_base name @ ''-'' @ hex k) \<notin> sp_storeSlug ` set (seller_profiles d))"

lemma available_slug_found:
  assumes "slug_available hex name d"
  shows "generateUniqueStoreSlug hex name d \<notin> sp_storeSlug ` set (seller_profiles d)"
proof
  assume "generateUniqueStoreSlug hex name d \<in> sp_storeSlug ` set (seller_profiles d)"
  then have "store_slug_loop hex (map sp_storeSlug (seller_profiles d)) (store_base name) (store_base name) 0
      \<in> set (map sp_storeSlug (seller_profiles d))"
    by (simp add: generateUniqueStoreSlug_def store_base_def Let_def)
  from store_slug_loop_used [OF this]
  show False using assms by (auto simp: slug_available_def MAX_RANDOM_SLUGS_def split: if_splits)
qed

section \<open>What the tables keep\<close>

definition applications_ok :: "SellerApplication list \<Rightarrow> uuid \<Rightarrow> bool" where
  "applications_ok as n \<longleftrightarrow> distinct (map sa_id as) \<and> distinct (map sa_userId (filter pending as)) \<and>
     (\<forall>a \<in> set as. sa_id a < n \<and> (pending a \<longleftrightarrow> sa_reviewedAt a = None))"

definition profiles_ok :: "SellerProfile list \<Rightarrow> uuid \<Rightarrow> bool" where
  "profiles_ok ps n \<longleftrightarrow> distinct (map sp_id ps) \<and> distinct (map sp_userId ps) \<and> distinct (map sp_storeName ps) \<and>
     distinct (map sp_storeSlug ps) \<and> (\<forall>p \<in> set ps. sp_id p < n)"

text \<open>An approved application and a user who is a seller have a profile.\<close>

definition sellers_ok :: "database \<Rightarrow> bool" where
  "sellers_ok d \<longleftrightarrow> applications_ok (seller_applications d) (next_id d) \<and> profiles_ok (seller_profiles d) (next_id d) \<and>
     (\<forall>a \<in> set (seller_applications d). sa_status a = SellerApplicationStatus.APPROVED \<longrightarrow>
        sa_userId a \<in> sp_userId ` set (seller_profiles d)) \<and>
     (\<forall>u \<in> set (users d). us_role u = SELLER \<longrightarrow> us_id u \<in> sp_userId ` set (seller_profiles d))"

text \<open>No decision is taken back and no profile is lost.\<close>

definition sellers_kept :: "sys \<Rightarrow> sys \<Rightarrow> bool" where
  "sellers_kept s s' \<longleftrightarrow> next_id (db s) \<le> next_id (db s') \<and> set (seller_profiles (db s)) \<subseteq> set (seller_profiles (db s')) \<and>
     (sellers_ok (db s) \<longrightarrow> sellers_ok (db s') \<and>
        {a \<in> set (seller_applications (db s)). \<not> pending a} \<subseteq> set (seller_applications (db s')))"

lemma sellers_kept_refl [simp]: "sellers_kept s s"
  by (auto simp: sellers_kept_def)

lemma sellers_kept_trans: "sellers_kept s t \<Longrightarrow> sellers_kept t u \<Longrightarrow> sellers_kept s u"
  unfolding sellers_kept_def by (auto intro: order_trans)

lemma sellers_kept_transaction:
  assumes "sellers_kept s t" "sellers_kept t (snd (f t))"
  shows "sellers_kept s (snd (transaction f t))"
proof (cases "f t")
  case (Pair r u)
  then have "sellers_kept s u" using assms by (auto intro: sellers_kept_trans)
  then show ?thesis using assms(1) Pair by (cases r) (auto simp: transaction_def sellers_kept_def)
qed

lemma same_sellers_kept:
  assumes "seller_applications (db s') = seller_applications (db s)" "seller_profiles (db s') = seller_profiles (db s)"
    "next_id (db s) \<le> next_id (db s')"
    "\<And>u. u \<in> set (users (db s')) \<Longrightarrow> us_role u = SELLER \<Longrightarrow>
       us_id u \<in> sp_userId ` set (seller_profiles (db s)) \<or> (\<exists>v \<in> set (users (db s)). us_role v = SELLER \<and> us_id v = us_id u)"
  shows "sellers_kept s s'"
proof -
  have "sellers_ok (db s')" if "sellers_ok (db s)"
    using assms(4) that assms(3) unfolding sellers_ok_def assms(1,2) applications_ok_def profiles_ok_def
    by (intro conjI) (auto intro: less_le_trans, metis)
  then show ?thesis using assms by (auto simp: sellers_kept_def)
qed

lemma sellers_outbox: "sellers_kept s (outbox_record y g i p c s)"
  by (rule same_sellers_kept) auto

lemma sellers_kept_outbox: "sellers_kept s t \<Longrightarrow> sellers_kept s (outbox_record y g i p c t)"
  by (rule sellers_kept_trans [OF _ sellers_outbox])

section \<open>Every request keeps them\<close>

lemma insert_application_kept:
  assumes "pending a" "sa_id a = next_id (db s)" "sa_reviewedAt a = None"
  shows "sellers_kept s (snd (insert_application a s))"
  using assms
  by (auto simp: insert_application_def sellers_kept_def sellers_ok_def applications_ok_def profiles_ok_def pending_def
      intro: less_SucI)

lemma applyForSeller_kept:
  assumes "\<And>t. sellers_kept t (m t)"
  shows "sellers_kept s (snd (applyForSeller m u r dto c s))"
proof -
  have "sellers_kept t (snd (runApply u dto c t))" for t
  proof -
    let ?a = "\<lparr>sa_id = next_id (db t), sa_userId = u, sa_requestedStoreName = as_businessName dto,
      sa_businessDescription = as_description dto, sa_status = SellerApplicationStatus.PENDING,
      sa_reviewedByUserId = None, sa_reviewedAt = None, sa_rejectionReason = None\<rparr>"
    have "sellers_kept t (snd (insert_application ?a t))"
      by (rule insert_application_kept) (simp_all add: pending_def)
    then show ?thesis
      by (cases "insert_application ?a t"; cases "fst (insert_application ?a t)")
         (simp_all add: runApply_def sellers_kept_outbox)
  qed
  then show ?thesis
    using assms by (auto simp: applyForSeller_def intro: sellers_kept_transaction)
qed

text \<open>Deciding a pending application, with the profile an approval needs.\<close>

lemma decided_row:
  assumes ok: "applications_ok as n" and row: "by_id sa_id i as = Some a" "pending a"
    and b: "sa_id b = i" "sa_userId b = sa_userId a" "\<not> pending b" "sa_reviewedAt b \<noteq> None"
  shows "applications_ok (put_row sa_id b as) n" "{x \<in> set as. \<not> pending x} \<subseteq> set (put_row sa_id b as)"
proof -
  have a: "a \<in> set as" "sa_id a = i" using by_id_SomeD [OF row(1)] by auto
  have same: "x = a" if "x \<in> set as" "sa_id x = i" for x
    using ok a that by (auto simp: applications_ok_def distinct_map inj_on_def)
  have "filter pending (put_row sa_id b xs) = filter (\<lambda>x. sa_id x \<noteq> i) (filter pending xs)" for xs
    by (induction xs) (use b in \<open>auto simp: put_row_def\<close>)
  then have "distinct (map sa_userId (filter pending (put_row sa_id b as)))"
    using ok by (simp only: applications_ok_def distinct_map_filter)
  moreover have "sa_id x < n \<and> (pending x \<longleftrightarrow> sa_reviewedAt x = None)" if "x \<in> set (put_row sa_id b as)" for x
    using set_put_rowD [OF that] ok b a by (auto simp: applications_ok_def)
  ultimately show "applications_ok (put_row sa_id b as) n"
    using ok by (simp add: applications_ok_def keys_put_row)
  show "{x \<in> set as. \<not> pending x} \<subseteq> set (put_row sa_id b as)"
  proof
    fix x assume x: "x \<in> {x \<in> set as. \<not> pending x}"
    then have "sa_id x \<noteq> i" using same row(2) by auto
    then show "x \<in> set (put_row sa_id b as)" using x b(1) by (force simp: put_row_def)
  qed
qed

lemma lock_pending_row:
  "lock_pending msg i d = Inr a \<Longrightarrow> by_id sa_id i (seller_applications d) = Some a \<and> pending a"
  by (auto simp: lock_pending_def pending_def split: option.splits if_splits)

lemma runReject_kept: "sellers_kept s (snd (runReject e i adm reason c s))"
proof (cases "lock_pending ''Application was decided and cannot be rejected again'' i (db s)")
  case (Inr a)
  note row = lock_pending_row [OF Inr]
  let ?b = "(reviewed e SellerApplicationStatus.REJECTED adm a)\<lparr>sa_rejectionReason := Some reason\<rparr>"
  have b: "sa_id ?b = i" "sa_userId ?b = sa_userId a" "\<not> pending ?b" "sa_reviewedAt ?b \<noteq> None"
    using by_id_SomeD [OF conjunct1 [OF row]] by (simp_all add: reviewed_def pending_def)
  have "sellers_kept s (save_application ?b s)"
    using decided_row [OF _ conjunct1 [OF row] conjunct2 [OF row] b]
    by (auto simp: sellers_kept_def save_application_def sellers_ok_def reviewed_def dest!: set_put_rowD)
  then show ?thesis by (simp add: runReject_def Inr Let_def sellers_kept_outbox)
qed (simp add: runReject_def)

lemma runApprove_run:
  assumes "by_id sa_id i (seller_applications (db s)) = Some a" "pending a"
    "sa_userId a \<notin> sp_userId ` set (seller_profiles (db s))"
  shows "runApprove e hex i adm c s =
    (let s1 = save_application (reviewed e SellerApplicationStatus.APPROVED adm a) s;
         slug = generateUniqueStoreSlug hex (sa_requestedStoreName a) (db s)
     in if sa_requestedStoreName a \<in> sp_storeName ` set (seller_profiles (db s)) \<or> slug \<in> sp_storeSlug ` set (seller_profiles (db s))
        then (Inl UniqueViolation, s1)
        else (Inr (reviewed e SellerApplicationStatus.APPROVED adm a),
              outbox_record ''SELLER_APPLICATION_APPROVED'' OUTBOX_AGGREGATE_TYPE (sa_id a)
                [(''userId'', JId (sa_userId a)), (''storeSlug'', JStr slug)] c
                (set_role (sa_userId a) SELLER (upd_db (\<lambda>d. d\<lparr>next_id := next_id d + 1,
                   seller_profiles := seller_profiles d @ [new_profile a slug (next_id d)]\<rparr>) s1))))"
proof -
  have slug: "generateUniqueStoreSlug hex x (db (save_application y s)) = generateUniqueStoreSlug hex x (db s)" for x y
    by (simp add: generateUniqueStoreSlug_def save_application_def)
  have free: "\<not> (\<exists>x \<in> set (seller_profiles (db s)). sp_userId x = sa_userId a)" using assms(3) by force
  have "(\<exists>x \<in> set (seller_profiles (db s)). sp_userId x = sa_userId a \<or> sp_storeName x = n \<or> sp_storeSlug x = sl) \<longleftrightarrow>
      n \<in> sp_storeName ` set (seller_profiles (db s)) \<or> sl \<in> sp_storeSlug ` set (seller_profiles (db s))" for n sl
    using free by (auto simp: image_iff) 
  note taken = this
  show ?thesis
  proof (cases "sa_requestedStoreName a \<in> sp_storeName ` set (seller_profiles (db s)) \<or>
      generateUniqueStoreSlug hex (sa_requestedStoreName a) (db s) \<in> sp_storeSlug ` set (seller_profiles (db s))")
    case True
    then have "\<exists>x \<in> set (seller_profiles (db s)). sp_userId x = sa_userId a \<or> sp_storeName x = sa_requestedStoreName a \<or>
        sp_storeSlug x = generateUniqueStoreSlug hex (sa_requestedStoreName a) (db s)" using taken by blast
    then have "insert_profile (new_profile a (generateUniqueStoreSlug hex (sa_requestedStoreName a) (db s)) n) s1 = (Inl UniqueViolation, s1)"
      if "seller_profiles (db s1) = seller_profiles (db s)" for n s1
      using that by (simp add: insert_profile_def new_profile_def)
    then show ?thesis
      using assms(1,2) free True
      by (simp add: runApprove_def lock_pending_def pending_def Let_def slug) (simp add: save_application_def)
  next
    case False
    then have "\<not> (\<exists>x \<in> set (seller_profiles (db s)). sp_userId x = sa_userId a \<or> sp_storeName x = sa_requestedStoreName a \<or>
        sp_storeSlug x = generateUniqueStoreSlug hex (sa_requestedStoreName a) (db s))" using taken by blast
    then have "insert_profile (new_profile a (generateUniqueStoreSlug hex (sa_requestedStoreName a) (db s)) (next_id (db s1))) s1
        = (Inr (new_profile a (generateUniqueStoreSlug hex (sa_requestedStoreName a) (db s)) (next_id (db s1))),
           upd_db (\<lambda>d. d\<lparr>next_id := next_id d + 1, seller_profiles := seller_profiles d @
             [new_profile a (generateUniqueStoreSlug hex (sa_requestedStoreName a) (db s)) (next_id d)]\<rparr>) s1)"
      if "seller_profiles (db s1) = seller_profiles (db s)" for s1
      using that by (simp add: insert_profile_def new_profile_def upd_db_def)
    moreover have "seller_profiles (db (save_application x s)) = seller_profiles (db s)" for x
      by (simp add: save_application_def)
    ultimately show ?thesis
      using assms(1,2) free False by (simp add: runApprove_def lock_pending_def pending_def Let_def slug)
  qed
qed

lemma runApprove_kept: "sellers_kept s (snd (transaction (runApprove e hex i adm c) s))"
proof (cases "lock_pending ''Application was decided and cannot be approved again'' i (db s)")
  case (Inr a)
  note row = lock_pending_row [OF Inr]
  let ?b = "reviewed e SellerApplicationStatus.APPROVED adm a" and ?slug = "generateUniqueStoreSlug hex (sa_requestedStoreName a) (db s)"
  have b: "sa_id ?b = i" "sa_userId ?b = sa_userId a" "\<not> pending ?b" "sa_reviewedAt ?b \<noteq> None"
    using by_id_SomeD [OF conjunct1 [OF row]] by (simp_all add: reviewed_def pending_def)
  let ?new = "new_profile a ?slug (next_id (db s))"
  define T where "T = set_role (sa_userId a) SELLER (upd_db (\<lambda>d. d\<lparr>next_id := next_id d + 1,
      seller_profiles := seller_profiles d @ [new_profile a ?slug (next_id d)]\<rparr>) (save_application ?b s))"
  show ?thesis
  proof (cases "sa_userId a \<in> sp_userId ` set (seller_profiles (db s)) \<or>
      sa_requestedStoreName a \<in> sp_storeName ` set (seller_profiles (db s)) \<or> ?slug \<in> sp_storeSlug ` set (seller_profiles (db s))")
    case True
    then have "is_error (fst (runApprove e hex i adm c s))"
      using runApprove_run [OF conjunct1 [OF row] conjunct2 [OF row], of e hex adm c]
      by (cases "sa_userId a \<in> sp_userId ` set (seller_profiles (db s))") (auto simp: runApprove_def Inr Let_def)
    then have "db (snd (transaction (runApprove e hex i adm c) s)) = db s"
      by (auto simp: transaction_def split: prod.split sum.split)
    then show ?thesis by (simp add: sellers_kept_def)
  next
    case False
    have t: "next_id (db T) = next_id (db s) + 1" "seller_profiles (db T) = seller_profiles (db s) @ [?new]"
      "seller_applications (db T) = put_row sa_id ?b (seller_applications (db s))"
      "us_role u = SELLER \<Longrightarrow> u \<in> set (users (db T)) \<Longrightarrow> us_id u = sa_userId a \<or> u \<in> set (users (db s))" for u
      by (auto simp: T_def set_role_def save_application_def)
    have "sellers_ok (db T) \<and> {x \<in> set (seller_applications (db s)). \<not> pending x} \<subseteq> set (seller_applications (db T))"
      if ok: "sellers_ok (db s)"
    proof (intro conjI)
      note row' = decided_row [OF _ conjunct1 [OF row] conjunct2 [OF row] b, of "next_id (db s)"]
      have apps: "applications_ok (seller_applications (db s)) (next_id (db s))" using ok by (simp add: sellers_ok_def)
      show "{x \<in> set (seller_applications (db s)). \<not> pending x} \<subseteq> set (seller_applications (db T))"
        using row'(2) [OF apps] by (simp add: t)
      have "applications_ok (seller_applications (db T)) (next_id (db T))"
        using row'(1) [OF apps] by (auto simp: t applications_ok_def intro: less_SucI)
      moreover have "profiles_ok (seller_profiles (db T)) (next_id (db T))"
        using ok False by (auto simp: t sellers_ok_def profiles_ok_def new_profile_def intro: less_SucI)
      moreover have "sa_userId x \<in> sp_userId ` set (seller_profiles (db T))"
        if "x \<in> set (seller_applications (db T))" "sa_status x = SellerApplicationStatus.APPROVED" for x
      proof -
        have "x = ?b \<or> x \<in> set (seller_applications (db s))" using that(1) by (auto simp: t dest: set_put_rowD)
        then show ?thesis using ok that(2) b(2) by (auto simp: t sellers_ok_def new_profile_def)
      qed
      moreover have "us_id u \<in> sp_userId ` set (seller_profiles (db T))" if "u \<in> set (users (db T))" "us_role u = SELLER" for u
        using t(4) [OF that(2,1)] ok that(2) by (auto simp: t(2) sellers_ok_def new_profile_def)
      ultimately show "sellers_ok (db T)" by (simp add: sellers_ok_def)
    qed
    then have "sellers_kept s T" by (auto simp: sellers_kept_def t)
    then show ?thesis
      using False runApprove_run [OF conjunct1 [OF row] conjunct2 [OF row], of e hex adm c]
      by (simp add: transaction_def Let_def sellers_kept_outbox T_def)
  qed
qed (simp add: runApprove_def transaction_def)

section \<open>Applications under all interleavings\<close>

inductive seller_step :: "sys \<Rightarrow> sys \<Rightarrow> bool" where
  elsewhere: "seller_applications (db s') = seller_applications (db s) \<Longrightarrow> seller_profiles (db s') = seller_profiles (db s) \<Longrightarrow>
    next_id (db s) \<le> next_id (db s') \<Longrightarrow>
    (\<And>u. u \<in> set (users (db s')) \<Longrightarrow> us_role u = SELLER \<Longrightarrow>
       us_id u \<in> sp_userId ` set (seller_profiles (db s)) \<or> (\<exists>v \<in> set (users (db s)). us_role v = SELLER \<and> us_id v = us_id u)) \<Longrightarrow>
    seller_step s s'"
| applied: "(\<And>t. seller_step t (m t)) \<Longrightarrow> seller_step s (snd (applyForSeller m u r dto c s))"
| approved: "seller_step s (snd (approveApplication e hex i adm c s))"
| rejected: "seller_step s (snd (rejectApplication e i adm reason c s))"

lemma seller_step_kept: "seller_step s s' \<Longrightarrow> sellers_kept s s'"
proof (induction rule: seller_step.induct)
  case (elsewhere s' s)
  then show ?case by (intro same_sellers_kept)
next
  case (applied m s u r dto c)
  then show ?case by (intro applyForSeller_kept) blast
next
  case (approved s e hex i adm c)
  show ?case unfolding approveApplication_def by (rule runApprove_kept)
next
  case (rejected s e i adm reason c)
  show ?case unfolding rejectApplication_def
    by (intro sellers_kept_transaction sellers_kept_refl runReject_kept)
qed

lemma seller_steps_kept: "seller_step\<^sup>*\<^sup>* s s' \<Longrightarrow> sellers_kept s s'"
  by (induction rule: rtranclp_induct) (auto intro: sellers_kept_trans seller_step_kept)

text \<open>
  C28: Whatever requests are interleaved, nobody has two pending applications or two profiles, store names
  and slugs are unique, and approved applicants and sellers have a profile; a decision is never
  changed, and a second decision is refused and writes nothing.
\<close>
theorem applications_decided_once:
  assumes "sellers_ok (db s)" and "seller_step\<^sup>*\<^sup>* s s'"
    and "by_id sa_id i (seller_applications (db s)) = Some a" and "\<not> pending a"
  shows "sellers_ok (db s') \<and> by_id sa_id i (seller_applications (db s')) = Some a \<and>
         is_error (fst (approveApplication e hex i adm c s')) \<and> db (snd (approveApplication e hex i adm c s')) = db s' \<and>
         is_error (fst (rejectApplication e i adm reason c s')) \<and> db (snd (rejectApplication e i adm reason c s')) = db s'"
proof -
  have a: "a \<in> set (seller_applications (db s))" "sa_id a = i" using by_id_SomeD [OF assms(3)] by auto
  have ok: "sellers_ok (db s')" and a': "a \<in> set (seller_applications (db s'))"
    using seller_steps_kept [OF assms(2)] assms(1,4) a by (auto simp: sellers_kept_def)
  then have row: "by_id sa_id i (seller_applications (db s')) = Some a"
    using by_id_unique [of sa_id "seller_applications (db s')" a] a(2) by (simp add: sellers_ok_def applications_ok_def)
  then have "\<exists>err. lock_pending msg i (db s') = Inl err" for msg
    using assms(4) by (simp add: lock_pending_def pending_def)
  then obtain err where err: "lock_pending ''Application was decided and cannot be approved again'' i (db s') = Inl err"
    and "\<exists>err. lock_pending ''Application was decided and cannot be rejected again'' i (db s') = Inl err" by metis
  then obtain err' where "lock_pending ''Application was decided and cannot be rejected again'' i (db s') = Inl err'" by blast
  then show ?thesis
    using ok row err
    by (simp add: approveApplication_def rejectApplication_def runApprove_def runReject_def transaction_def)
qed

section \<open>What an approval does\<close>

text \<open>
  Approving a pending application of a user without a profile creates the profile under the requested
  name with a free slug and ten percent commission, makes the user a seller and records one event.
  If the requested name is taken, the unique index refuses every attempt, and since no name is ever
  released the application stays pending until it is rejected.
\<close>
theorem approve_outcome:
  assumes ok: "sellers_ok (db s)" and row: "by_id sa_id i (seller_applications (db s)) = Some a" "pending a"
    and new: "sa_userId a \<notin> sp_userId ` set (seller_profiles (db s))"
    and slug: "slug_available hex (sa_requestedStoreName a) (db s)"
    and later: "seller_step\<^sup>*\<^sup>* s s'" "by_id sa_id i (seller_applications (db s')) = Some a"
  shows "if sa_requestedStoreName a \<in> sp_storeName ` set (seller_profiles (db s))
         then is_error (fst (approveApplication e hex i adm c s')) \<and> db (snd (approveApplication e hex i adm c s')) = db s'
         else \<exists>p. fst (approveApplication e hex i adm c s) = Inr (reviewed e SellerApplicationStatus.APPROVED adm a) \<and>
                seller_profiles (db (snd (approveApplication e hex i adm c s))) = seller_profiles (db s) @ [p] \<and>
                sp_userId p = sa_userId a \<and> sp_storeName p = sa_requestedStoreName a \<and>
                sp_storeSlug p \<notin> sp_storeSlug ` set (seller_profiles (db s)) \<and> sp_commissionRatePercent p = ''10.00'' \<and>
                users (db (snd (approveApplication e hex i adm c s))) =
                  map (\<lambda>u. if us_id u = sa_userId a then u\<lparr>us_role := SELLER\<rparr> else u) (users (db s)) \<and>
                map ob_eventType (outbox_events (db (snd (approveApplication e hex i adm c s)))) =
                  map ob_eventType (outbox_events (db s)) @ [''SELLER_APPLICATION_APPROVED'']"
proof (cases "sa_requestedStoreName a \<in> sp_storeName ` set (seller_profiles (db s))")
  case True
  then have name: "sa_requestedStoreName a \<in> sp_storeName ` set (seller_profiles (db s'))"
    using seller_steps_kept [OF later(1)] by (auto simp: sellers_kept_def)
  have lock: "lock_pending msg i (db s') = Inr a" for msg
    using later(2) row(2) by (simp add: lock_pending_def pending_def)
  have "is_error (fst (runApprove e hex i adm c s'))"
  proof (cases "sa_userId a \<in> sp_userId ` set (seller_profiles (db s'))")
    case True
    then have "\<exists>p \<in> set (seller_profiles (db s')). sp_userId p = sa_userId a" by force
    then show ?thesis by (simp add: runApprove_def lock)
  next
    case False
    from runApprove_run [OF later(2) row(2) this, of e hex adm c] name show ?thesis by (simp add: Let_def)
  qed
  then have "is_error (fst (approveApplication e hex i adm c s')) \<and> db (snd (approveApplication e hex i adm c s')) = db s'"
    by (auto simp: approveApplication_def transaction_def split: prod.split sum.split)
  then show ?thesis using True by simp
next
  case False
  let ?slug = "generateUniqueStoreSlug hex (sa_requestedStoreName a) (db s)"
  have free: "?slug \<notin> sp_storeSlug ` set (seller_profiles (db s))" by (rule available_slug_found [OF slug])
  have run: "runApprove e hex i adm c s = (Inr (reviewed e SellerApplicationStatus.APPROVED adm a),
      outbox_record ''SELLER_APPLICATION_APPROVED'' OUTBOX_AGGREGATE_TYPE (sa_id a)
                [(''userId'', JId (sa_userId a)), (''storeSlug'', JStr ?slug)] c
                (set_role (sa_userId a) SELLER (upd_db (\<lambda>d. d\<lparr>next_id := next_id d + 1,
                   seller_profiles := seller_profiles d @ [new_profile a ?slug (next_id d)]\<rparr>)
                  (save_application (reviewed e SellerApplicationStatus.APPROVED adm a) s))))"
    using runApprove_run [OF row new, of e hex adm c] False free by (simp add: Let_def)
  then have "approveApplication e hex i adm c s = runApprove e hex i adm c s"
    by (simp add: approveApplication_def transaction_def)
  then show ?thesis
    unfolding run using False free
    by (auto simp: set_role_def save_application_def new_profile_def outbox_record_def)
qed

section \<open>Two applicants for one name\<close>

definition applied_for :: "uuid \<Rightarrow> uuid \<Rightarrow> SellerApplication" where
  "applied_for i u = \<lparr>sa_id = i, sa_userId = u, sa_requestedStoreName = ''Lamps'', sa_businessDescription = ''lamps and shades'',
     sa_status = SellerApplicationStatus.PENDING, sa_reviewedByUserId = None, sa_reviewedAt = None, sa_rejectionReason = None\<rparr>"

definition applicants_db :: database where
  "applicants_db = empty_db\<lparr>next_id := 20, seller_applications := [applied_for 10 1, applied_for 11 2],
     users := [jane, jane\<lparr>us_id := 2, us_email := ''b@example.com''\<rparr>]\<rparr>"

definition some_hex :: "nat \<Rightarrow> string" where
  "some_hex n = ''0a1b''"

lemma applicants_ok: "sellers_ok (db (start_sys applicants_db))"
  by code_simp

theorem approve_outcome_witness:
  "\<exists>p. seller_profiles (db (snd (approveApplication (sample_env 5) some_hex 10 9 0 (start_sys applicants_db)))) = [p] \<and>
     sp_storeName p = ''Lamps''"
proof -
  have row: "by_id sa_id 10 (seller_applications (db (start_sys applicants_db))) = Some (applied_for 10 1)"
    and p: "pending (applied_for 10 1)" by code_simp+
  have new: "sa_userId (applied_for 10 1) \<notin> sp_userId ` set (seller_profiles (db (start_sys applicants_db)))" by code_simp
  have slug: "slug_available some_hex (sa_requestedStoreName (applied_for 10 1)) (db (start_sys applicants_db))"
    unfolding slug_available_def by (rule bexI [of _ 0]) (simp_all add: start_sys_def applicants_db_def empty_db_def)
  have "seller_profiles (db (start_sys applicants_db)) = []" by code_simp
  then show ?thesis
    using approve_outcome [OF applicants_ok row p new slug rtranclp.rtrancl_refl row, where e = "sample_env 5" and adm = 9 and c = 0]
    by (auto simp: applied_for_def)
qed

theorem applications_decided_once_witness:
  "is_error (fst (approveApplication (sample_env 5) some_hex 10 9 0
     (snd (rejectApplication (sample_env 5) 10 9 ''too vague'' 0 (start_sys applicants_db)))))"
proof -
  let ?s = "snd (rejectApplication (sample_env 5) 10 9 ''too vague'' 0 (start_sys applicants_db))"
  have ok: "sellers_ok (db ?s)" by code_simp
  have "by_id sa_id 10 (seller_applications (db ?s)) \<noteq> None \<and> list_all (\<lambda>a. sa_id a = 10 \<longrightarrow> \<not> pending a) (seller_applications (db ?s))"
    by code_simp
  then obtain a where "by_id sa_id 10 (seller_applications (db ?s)) = Some a" "\<not> pending a"
    using by_id_SomeD [of sa_id 10 "seller_applications (db ?s)"] by (auto simp: list_all_iff)
  from applications_decided_once [OF ok rtranclp.rtrancl_refl this] show ?thesis by blast
qed

end
