(* ===== verification/Search_Sync.thy ===== *)
theory Search_Sync
  imports Catalog Outbox
begin

text \<open>
  The search index as a read model of the products: the document of a product
  (\<open>modules/products/search/product-search-document.ts\<close>, \<open>ProductsService.loadSearchDocument\<close>), the consumer
  that keeps the index up to date (\<open>modules/search-sync/search-sync.processor.ts\<close>), and the search in
  Postgres that replaces the engine when it is down (\<open>postgres-catalog-fallback.service.ts\<close>). \<open>up\<close> says
  whether the engine answers. The creation time of a product is left out of its document.
\<close>

section \<open>The document of a product\<close>

definition buildProductSearchDocument :: "SellerProfile \<Rightarrow> Category \<Rightarrow> Auction option \<Rightarrow> Product \<Rightarrow> ProductSearchDocument" where
  "buildProductSearchDocument seller category auction p =
     \<lparr>sd_id = pr_id p, sd_sellerId = pr_sellerProfileId p, sd_sellerName = sp_storeName seller,
       sd_categoryId = pr_categoryId p, sd_categoryName = ca_name category, sd_name = pr_name p,
       sd_slug = pr_slug p, sd_description = pr_description p,
       sd_price = (case auction of Some a \<Rightarrow> Some (au_currentPrice a) | None \<Rightarrow> pr_price p),
       sd_stockQuantity = pr_stockQuantity p, sd_available = (pr_stockQuantity p > 0), sd_productType = pr_type p,
       sd_rating = pr_ratingAverage p, sd_ratingCount = pr_ratingCount p, sd_imageUrls = pr_imageUrls p,
       sd_auctionStatus = map_option au_status auction, sd_auctionCurrentPrice = map_option au_currentPrice auction\<rparr>"

definition product_auction :: "uuid \<Rightarrow> database \<Rightarrow> Auction option" where
  "product_auction productId d = find (\<lambda>a. au_productId a = productId) (auctions d)"

definition loadSearchDocument :: "uuid \<Rightarrow> database \<Rightarrow> ProductSearchDocument option result" where
  "loadSearchDocument productId d =
     (case by_id pr_id productId (products d) of
        None \<Rightarrow> Inr None
      | Some p \<Rightarrow>
          if pr_isPublished p
          then (case (by_id sp_id (pr_sellerProfileId p) (seller_profiles d), by_id ca_id (pr_categoryId p) (categories d)) of
                  (Some seller, Some category) \<Rightarrow>
                    Inr (Some (buildProductSearchDocument seller category (product_auction productId d) p))
                | _ \<Rightarrow> Inl (PlainError ''TypeError''))
          else Inr None)"

lemma loadSearchDocument_cong:
  assumes "products d' = products d" "categories d' = categories d" "seller_profiles d' = seller_profiles d" "auctions d' = auctions d"
  shows "loadSearchDocument i d' = loadSearchDocument i d"
  using assms by (simp add: loadSearchDocument_def product_auction_def split: option.split)

section \<open>The consumer\<close>

definition syncProduct :: "bool \<Rightarrow> uuid \<Rightarrow> sys \<Rightarrow> unit result \<times> sys" where
  "syncProduct up productId s =
     (case loadSearchDocument productId (db s) of
        Inl err \<Rightarrow> (Inl err, s)
      | Inr document \<Rightarrow>
          if \<not> up then (Inl (PlainError ''search engine unavailable''), s)
          else (Inr (), emit (case document of Some doc \<Rightarrow> SearchIndexDocument doc | None \<Rightarrow> SearchDeleteDocument productId) s))"

fun sync_products :: "bool \<Rightarrow> Product list \<Rightarrow> sys \<Rightarrow> unit result \<times> sys" where
  "sync_products up [] s = (Inr (), s)"
| "sync_products up (p # ps) s =
     (case syncProduct up (pr_id p) s of
        (Inl err, s1) \<Rightarrow> (Inl err, s1)
      | (Inr _, s1) \<Rightarrow> sync_products up ps s1)"

definition syncProductsForCategory :: "bool \<Rightarrow> uuid \<Rightarrow> sys \<Rightarrow> unit result \<times> sys" where
  "syncProductsForCategory up categoryId s = sync_products up (findManyByCategory categoryId (db s)) s"

definition dispatch_search :: "bool \<Rightarrow> string \<Rightarrow> uuid \<Rightarrow> sys \<Rightarrow> unit result \<times> sys" where
  "dispatch_search up eventType aggregateId s =
     (if eventType \<in> {''PRODUCT_CREATED'', ''PRODUCT_UPDATED'', ''STOCK_CHANGED''} then syncProduct up aggregateId s
      else if eventType = ''PRODUCT_DELETED''
      then (if \<not> up then (Inl (PlainError ''search engine unavailable''), s)
            else (Inr (), emit (SearchDeleteDocument aggregateId) s))
      else if eventType = ''CATEGORY_UPDATED'' then syncProductsForCategory up aggregateId s
      else (Inr (), s))"

definition process_search_event :: "bool \<Rightarrow> uuid \<Rightarrow> string \<Rightarrow> uuid \<Rightarrow> sys \<Rightarrow> unit result \<times> sys" where
  "process_search_event up outboxEventId eventType aggregateId =
     consume ''search-sync'' outboxEventId (dispatch_search up eventType aggregateId)"

section \<open>Searching in Postgres\<close>

datatype SortField = ByPrice | ByCreatedAt | ByRating

record CatalogSearchQuery =
  cq_search :: "string option"
  cq_categoryId :: "uuid option"
  cq_sellerId :: "uuid option"
  cq_minPrice :: "int option"
  cq_maxPrice :: "int option"
  cq_minRating :: "int option"
  cq_available :: "bool option"
  cq_type :: "ProductType option"
  cq_page :: nat
  cq_pageSize :: nat
  cq_sort :: "(SortField \<times> bool) option"

record CatalogSearchResult =
  cs_data :: "ProductSearchDocument list"
  cs_page :: nat
  cs_pageSize :: nat
  cs_total :: nat
  cs_totalPages :: nat

text \<open>
  The filters on one row. A comparison with a missing price is not true; \<open>ilike\<close> is Postgres'
  case-insensitive match of a pattern.
\<close>

definition matches_query :: "(string \<Rightarrow> string \<Rightarrow> bool) \<Rightarrow> CatalogSearchQuery \<Rightarrow> Product \<Rightarrow> bool" where
  "matches_query ilike q p \<longleftrightarrow> pr_isPublished p \<and>
     (case cq_search q of None \<Rightarrow> True | Some t \<Rightarrow> t = [] \<or> ilike (''%'' @ t @ ''%'') (pr_name p)) \<and>
     (case cq_categoryId q of None \<Rightarrow> True | Some i \<Rightarrow> pr_categoryId p = i) \<and>
     (case cq_sellerId q of None \<Rightarrow> True | Some i \<Rightarrow> pr_sellerProfileId p = i) \<and>
     (case cq_type q of None \<Rightarrow> True | Some t \<Rightarrow> pr_type p = t) \<and>
     (case cq_minPrice q of None \<Rightarrow> True | Some n \<Rightarrow> (\<exists>c \<in> set_option (pr_price p). cents c \<ge> 100 * n)) \<and>
     (case cq_maxPrice q of None \<Rightarrow> True | Some n \<Rightarrow> (\<exists>c \<in> set_option (pr_price p). cents c \<le> 100 * n)) \<and>
     (case cq_minRating q of None \<Rightarrow> True | Some n \<Rightarrow> cents (pr_ratingAverage p) \<ge> 100 * n) \<and>
     (case cq_available q of None \<Rightarrow> True | Some b \<Rightarrow> if b then pr_stockQuantity p > 0 else pr_stockQuantity p = 0)"

text \<open>Ascending order has missing prices last, descending first; ties stay in the order of insertion.\<close>

definition sort_rows :: "(SortField \<times> bool) option \<Rightarrow> Product list \<Rightarrow> Product list" where
  "sort_rows srt ps =
     (case srt of
        None \<Rightarrow> rev ps
      | Some (ByCreatedAt, ascending) \<Rightarrow> if ascending then ps else rev ps
      | Some (ByRating, ascending) \<Rightarrow>
          sort_key (\<lambda>p. (if ascending then 1 else - 1) * cents (pr_ratingAverage p)) ps
      | Some (ByPrice, ascending) \<Rightarrow>
          let priced = sort_key (\<lambda>p. (if ascending then 1 else - 1) * cents (case pr_price p of Some c \<Rightarrow> c | None \<Rightarrow> []))
                         (filter (\<lambda>p. pr_price p \<noteq> None) ps);
              unpriced = filter (\<lambda>p. pr_price p = None) ps
          in if ascending then priced @ unpriced else unpriced @ priced)"

definition build_unjoined :: "database \<Rightarrow> Product \<Rightarrow> ProductSearchDocument result" where
  "build_unjoined d p =
     (case (by_id sp_id (pr_sellerProfileId p) (seller_profiles d), by_id ca_id (pr_categoryId p) (categories d)) of
        (Some seller, Some category) \<Rightarrow> Inr (buildProductSearchDocument seller category None p)
      | _ \<Rightarrow> Inl (PlainError ''TypeError''))"

definition joined :: "database \<Rightarrow> Product \<Rightarrow> bool" where
  "joined d p \<longleftrightarrow> by_id sp_id (pr_sellerProfileId p) (seller_profiles d) \<noteq> None \<and>
     by_id ca_id (pr_categoryId p) (categories d) \<noteq> None"

definition totalPages :: "nat \<Rightarrow> nat \<Rightarrow> nat" where
  "totalPages n perPage = max 1 ((n + perPage - 1) div perPage)"

definition fallback_search ::
  "(string \<Rightarrow> string \<Rightarrow> bool) \<Rightarrow> CatalogSearchQuery \<Rightarrow> database \<Rightarrow> CatalogSearchResult result" where
  "fallback_search ilike q d =
     (let rows = filter (\<lambda>p. matches_query ilike q p \<and> joined d p) (products d);
          page = take (cq_pageSize q) (drop ((cq_page q - 1) * cq_pageSize q) (sort_rows (cq_sort q) rows))
      in rbind (rmap (build_unjoined d) page) (\<lambda>docs.
           Inr \<lparr>cs_data = docs, cs_page = cq_page q, cs_pageSize = cq_pageSize q, cs_total = length rows,
                cs_totalPages = totalPages (length rows) (cq_pageSize q)\<rparr>))"

text \<open>
  \<open>ProductsService.searchCatalog\<close>: the cached answer, else the answer of the engine or of Postgres, which
  is then cached. The second component is what is stored.
\<close>

definition searchCatalog ::
  "(string \<Rightarrow> string \<Rightarrow> bool) \<Rightarrow> CatalogSearchResult option \<Rightarrow> CatalogSearchResult option \<Rightarrow> CatalogSearchQuery \<Rightarrow> database \<Rightarrow>
   CatalogSearchResult result \<times> CatalogSearchResult option" where
  "searchCatalog ilike cached engine q d =
     (case cached of
        Some r \<Rightarrow> (Inr r, None)
      | None \<Rightarrow>
          (case (case engine of Some r \<Rightarrow> Inr r | None \<Rightarrow> fallback_search ilike q d) of
             Inl err \<Rightarrow> (Inl err, None)
           | Inr r \<Rightarrow> (Inr r, Some r)))"

section \<open>What the index holds\<close>

fun index_effect :: "(uuid \<rightharpoonup> ProductSearchDocument) \<Rightarrow> effect \<Rightarrow> (uuid \<rightharpoonup> ProductSearchDocument)" where
  "index_effect idx (SearchIndexDocument doc) = idx(sd_id doc \<mapsto> doc)"
| "index_effect idx (SearchDeleteDocument i) = idx(i := None)"
| "index_effect idx _ = idx"

definition search_index :: "sys \<Rightarrow> uuid \<rightharpoonup> ProductSearchDocument" where
  "search_index s = foldl index_effect Map.empty (effects s)"

lemma search_index_emit [simp]: "search_index (emit x s) = index_effect (search_index s) x"
  by (simp add: search_index_def)

lemma search_index_upd_db [simp]: "search_index (upd_db f s) = search_index s"
  by (simp add: search_index_def)

lemma search_index_increment [simp]: "search_index (increment n s) = search_index s"
  by (simp add: search_index_def)

text \<open>The index is right about a product that holds its current document, and nothing for none.\<close>

definition in_sync :: "sys \<Rightarrow> uuid \<Rightarrow> bool" where
  "in_sync s i \<longleftrightarrow> loadSearchDocument i (db s) = Inr (search_index s i)"

definition category_of :: "uuid \<Rightarrow> database \<Rightarrow> uuid option" where
  "category_of i d = map_option pr_categoryId (by_id pr_id i (products d))"

text \<open>
  What the consumer sees of an event: its id, its type, the type of its aggregate and the aggregate. The
  relay changes none of it.
\<close>

type_synonym event_key = "uuid \<times> string \<times> string \<times> uuid"

definition event_key :: "OutboxEvent \<Rightarrow> event_key" where
  "event_key x = (ob_id x, ob_eventType x, ob_aggregateType x, ob_aggregateId x)"

definition events :: "database \<Rightarrow> event_key list" where
  "events d = map event_key (outbox_events d)"

text \<open>An event that makes the consumer look at the product.\<close>

fun concerns :: "database \<Rightarrow> uuid \<Rightarrow> event_key \<Rightarrow> bool" where
  "concerns d i (n, ty, agg, a) \<longleftrightarrow>
     (case queuesByAggregateType agg of None \<Rightarrow> False | Some qs \<Rightarrow> ''search-sync'' \<in> set qs) \<and>
     (ty \<in> {''PRODUCT_CREATED'', ''PRODUCT_UPDATED'', ''STOCK_CHANGED'', ''PRODUCT_DELETED''} \<and> a = i \<or>
      ty = ''CATEGORY_UPDATED'' \<and> category_of i d = Some a)"

definition awaited :: "sys \<Rightarrow> uuid \<Rightarrow> event_key \<Rightarrow> bool" where
  "awaited s i x \<longleftrightarrow> x \<in> set (events (db s)) \<and> concerns (db s) i x \<and>
     \<not> alreadyProcessed ''search-sync'' (fst x) (db s)"

fun deletes :: "event_key \<Rightarrow> uuid option" where
  "deletes (n, ty, agg, a) = (if ty = ''PRODUCT_DELETED'' then Some a else None)"

definition gone :: "uuid \<Rightarrow> database \<Rightarrow> bool" where
  "gone i d \<longleftrightarrow> by_id pr_id i (products d) = None"

text \<open>The foreign key of the category, on which the join of the document rests.\<close>

definition linked :: "database \<Rightarrow> bool" where
  "linked d \<longleftrightarrow> (\<forall>p \<in> set (products d). pr_id p < next_id d \<and> pr_categoryId p \<in> ca_id ` set (categories d))"

definition search_ok :: "sys \<Rightarrow> bool" where
  "search_ok s \<longleftrightarrow> linked (db s) \<and>
     (\<forall>i. in_sync s i \<or> (\<exists>x. awaited s i x)) \<and>
     (\<forall>x \<in> set (processed_events (db s)). pe_outboxEventId x < next_id (db s)) \<and>
     distinct (map fst (events (db s))) \<and> (\<forall>x \<in> set (events (db s)). fst x < next_id (db s)) \<and>
     (\<forall>x \<in> set (events (db s)). \<forall>i \<in> set_option (deletes x). i < next_id (db s) \<and> gone i (db s))"

section \<open>Requests announce what they change\<close>

text \<open>
  The contract of a request: it leaves the index and the processed events alone, appends its events, brings
  no deleted product back, and records an event for every product whose document it changes.
\<close>

definition announces :: "sys \<Rightarrow> sys \<Rightarrow> bool" where
  "announces s s' \<longleftrightarrow>
     search_index s' = search_index s \<and> processed_events (db s') = processed_events (db s) \<and>
     next_id (db s) \<le> next_id (db s') \<and> (linked (db s) \<longrightarrow> linked (db s')) \<and>
     (\<exists>xs. events (db s') = events (db s) @ xs \<and> distinct (map fst xs) \<and>
        (\<forall>x \<in> set xs. next_id (db s) \<le> fst x \<and> fst x < next_id (db s') \<and>
           (\<forall>i \<in> set_option (deletes x). i < next_id (db s) \<and> gone i (db s'))) \<and>
        (\<forall>i. loadSearchDocument i (db s') = loadSearchDocument i (db s) \<and> category_of i (db s') = category_of i (db s) \<or>
           (\<exists>x \<in> set xs. concerns (db s') i x))) \<and>
     (\<forall>i < next_id (db s). gone i (db s) \<longrightarrow> gone i (db s'))"

lemma announces_refl: "announces s s"
  by (simp add: announces_def)

lemma processed_fresh:
  "search_ok s \<Longrightarrow> next_id (db s) \<le> i \<Longrightarrow> \<not> alreadyProcessed c i (db s)"
  by (force simp: search_ok_def alreadyProcessed_def)

lemma announces_ok:
  assumes ok: "search_ok s" and a: "announces s s'"
  shows "search_ok s'"
proof -
  obtain xs where ev: "events (db s') = events (db s) @ xs" "distinct (map fst xs)"
    and new: "\<And>x. x \<in> set xs \<Longrightarrow> next_id (db s) \<le> fst x \<and> fst x < next_id (db s') \<and>
           (\<forall>i \<in> set_option (deletes x). i < next_id (db s) \<and> gone i (db s'))"
    and told: "\<And>i. loadSearchDocument i (db s') = loadSearchDocument i (db s) \<and> category_of i (db s') = category_of i (db s) \<or>
           (\<exists>x \<in> set xs. concerns (db s') i x)"
    and stay: "\<And>i. i < next_id (db s) \<Longrightarrow> gone i (db s) \<Longrightarrow> gone i (db s')"
    and proc: "processed_events (db s') = processed_events (db s)" and idx: "search_index s' = search_index s"
    and mono: "next_id (db s) \<le> next_id (db s')"
    and link: "linked (db s')"
    using a ok unfolding announces_def search_ok_def by blast
  have seen: "alreadyProcessed c i (db s') = alreadyProcessed c i (db s)" for c i
    by (rule alreadyProcessed_cong [OF proc])
  have "in_sync s' i \<or> (\<exists>x. awaited s' i x)" for i
    using told [of i]
  proof (elim disjE conjE bexE)
    assume same: "loadSearchDocument i (db s') = loadSearchDocument i (db s)" "category_of i (db s') = category_of i (db s)"
    have "in_sync s i \<or> (\<exists>x. awaited s i x)" using ok by (simp add: search_ok_def)
    moreover have "awaited s' i x" if "awaited s i x" for x
      using that same(2) by (cases x) (simp add: awaited_def seen ev)
    moreover have "in_sync s' i" if "in_sync s i" using that same(1) by (simp add: in_sync_def idx)
    ultimately show ?thesis by blast
  next
    fix x assume x: "x \<in> set xs" "concerns (db s') i x"
    then have "awaited s' i x"
      using new [OF x(1)] processed_fresh [OF ok, of "fst x"] by (simp add: awaited_def seen ev)
    then show ?thesis by blast
  qed
  moreover have "pe_outboxEventId x < next_id (db s')" if "x \<in> set (processed_events (db s'))" for x
    using ok that mono by (force simp: search_ok_def proc)
  moreover have old: "fst x < next_id (db s)" "\<And>i. i \<in> set_option (deletes x) \<Longrightarrow> i < next_id (db s) \<and> gone i (db s)"
    if "x \<in> set (events (db s))" for x
    using ok that by (auto simp: search_ok_def)
  moreover have "distinct (map fst (events (db s')))"
    using ok ev(2) new old(1) by (fastforce simp: ev(1) search_ok_def)
  moreover have "fst x < next_id (db s') \<and> (\<forall>i \<in> set_option (deletes x). i < next_id (db s') \<and> gone i (db s'))"
    if x: "x \<in> set (events (db s'))" for x
  proof (cases "x \<in> set xs")
    case True
    then show ?thesis using new mono by (meson less_le_trans)
  next
    case False
    then have "x \<in> set (events (db s))" using x by (simp add: ev)
    then show ?thesis using old stay mono by (meson less_le_trans)
  qed
  ultimately show ?thesis using link by (simp add: search_ok_def)
qed

section \<open>Deliveries bring the index up to date\<close>

lemma loaded_id: "loadSearchDocument i d = Inr (Some doc) \<Longrightarrow> sd_id doc = i"
  by (auto simp: loadSearchDocument_def buildProductSearchDocument_def split: option.splits if_splits dest: by_id_SomeD)

text \<open>What a delivery does to the index, product by product.\<close>

definition improves :: "sys \<Rightarrow> sys \<Rightarrow> bool" where
  "improves s t \<longleftrightarrow> db t = db s \<and> (\<forall>j. search_index t j = search_index s j \<or> in_sync t j)"

lemma improves_refl: "improves s s"
  by (simp add: improves_def)

lemma improves_trans:
  assumes "improves s t" "improves t u"
  shows "improves s u"
proof -
  have d: "db t = db s" "db u = db s" using assms by (simp_all add: improves_def)
  have "search_index u j = search_index s j \<or> in_sync u j" for j
  proof -
    have "search_index u j = search_index t j \<or> in_sync u j" "search_index t j = search_index s j \<or> in_sync t j"
      using assms by (auto simp: improves_def)
    then show ?thesis by (auto simp: in_sync_def d)
  qed
  then show ?thesis by (simp add: improves_def d)
qed

lemma improves_sync: "improves s t \<Longrightarrow> in_sync s i \<Longrightarrow> in_sync t i"
  unfolding improves_def in_sync_def by metis

lemma syncProduct_improves:
  "improves s (snd (syncProduct up i s))"
  "syncProduct up i s = (Inr u, t) \<Longrightarrow> in_sync t i"
proof -
  have "in_sync (emit (case document of Some doc \<Rightarrow> SearchIndexDocument doc | None \<Rightarrow> SearchDeleteDocument i) s) i \<and>
      (\<forall>j. j \<noteq> i \<longrightarrow> search_index (emit (case document of Some doc \<Rightarrow> SearchIndexDocument doc | None \<Rightarrow> SearchDeleteDocument i) s) j
         = search_index s j)"
    if "loadSearchDocument i (db s) = Inr document" for document
    using that by (cases document) (auto simp: in_sync_def dest: loaded_id)
  note sync = this
  show "improves s (snd (syncProduct up i s))"
    using sync by (auto simp: syncProduct_def improves_def split: sum.split)
  show "in_sync t i" if "syncProduct up i s = (Inr u, t)"
    using that sync by (auto simp: syncProduct_def split: sum.splits if_splits)
qed

lemma sync_products_improves:
  "improves s (snd (sync_products up ps s)) \<and>
   (\<forall>u t. sync_products up ps s = (Inr u, t) \<longrightarrow> (\<forall>p \<in> set ps. in_sync t (pr_id p)))"
proof (induction ps arbitrary: s)
  case Nil
  then show ?case by (simp add: improves_refl)
next
  case (Cons p ps)
  obtain r s1 where r: "syncProduct up (pr_id p) s = (r, s1)" by fastforce
  then have one: "improves s s1" using syncProduct_improves(1) [of s up "pr_id p"] by simp
  show ?case
  proof (cases r)
    case (Inl err)
    then show ?thesis using r one by simp
  next
    case (Inr u)
    then have run: "sync_products up (p # ps) s = sync_products up ps s1" using r by simp
    have rest: "improves s1 (snd (sync_products up ps s1))" using Cons by blast
    have "in_sync t (pr_id q)" if "sync_products up ps s1 = (Inr v, t)" "q \<in> set (p # ps)" for v t q
    proof (cases "q \<in> set ps")
      case False
      then have "in_sync s1 (pr_id q)" using that(2) syncProduct_improves(2) r Inr by auto
      then show ?thesis using rest that(1) improves_sync by fastforce
    qed (use Cons that(1) in blast)
    then show ?thesis unfolding run using improves_trans [OF one rest] by blast
  qed
qed

lemma dispatch_search_improves:
  assumes gone: "ty = ''PRODUCT_DELETED'' \<Longrightarrow> gone i (db s)"
  shows "improves s (snd (dispatch_search up ty i s))"
proof -
  have "improves s (emit (SearchDeleteDocument i) s)" if "gone i (db s)"
    using that by (auto simp: improves_def in_sync_def loadSearchDocument_def gone_def)
  then show ?thesis
    using gone syncProduct_improves(1) [of s up i] sync_products_improves [of s up]
    by (auto simp: dispatch_search_def syncProductsForCategory_def improves_refl)
qed

lemma dispatch_search_syncs:
  assumes "concerns (db s) j (n, ty, agg, a)" and run: "dispatch_search up ty a s = (Inr u, t)"
    and gone: "ty = ''PRODUCT_DELETED'' \<Longrightarrow> gone a (db s)"
  shows "in_sync t j"
proof (cases "ty = ''CATEGORY_UPDATED''")
  case True
  then obtain p where p: "by_id pr_id j (products (db s)) = Some p" "pr_categoryId p = a"
    using assms(1) by (auto simp: category_of_def)
  then have "p \<in> set (findManyByCategory a (db s))" "pr_id p = j"
    using by_id_SomeD [OF p(1)] by (simp_all add: findManyByCategory_def)
  then show ?thesis
    using run True sync_products_improves [of s up "findManyByCategory a (db s)"]
    by (auto simp: dispatch_search_def syncProductsForCategory_def)
next
  case False
  then have j: "a = j" and ty: "ty \<in> {''PRODUCT_CREATED'', ''PRODUCT_UPDATED'', ''STOCK_CHANGED'', ''PRODUCT_DELETED''}"
    using assms(1) by auto
  show ?thesis
  proof (cases "ty = ''PRODUCT_DELETED''")
    case True
    then show ?thesis
      using run gone j by (auto simp: dispatch_search_def in_sync_def loadSearchDocument_def gone_def split: if_splits)
  next
    case False
    then show ?thesis using run ty j syncProduct_improves(2) by (auto simp: dispatch_search_def)
  qed
qed

lemma process_search_ok:
  assumes ok: "search_ok s" and x: "(n, ty, agg, a) \<in> set (events (db s))"
  shows "search_ok (snd (process_search_event up n ty a s))"
proof (cases "alreadyProcessed ''search-sync'' n (db s)")
  case True
  then show ?thesis using ok by (simp add: process_search_event_def consume_skips)
next
  case new: False
  have gone: "ty = ''PRODUCT_DELETED'' \<Longrightarrow> gone a (db s)" using ok x by (force simp: search_ok_def)
  obtain r t where run: "dispatch_search up ty a s = (r, t)" by fastforce
  have better: "improves s t" using dispatch_search_improves [where ty = ty and i = a and s = s and up = up, OF gone] run by simp
  then have dbt: "db t = db s" by (simp add: improves_def)
  show ?thesis
  proof (cases r)
    case (Inl err)
    have "in_sync t i \<or> (\<exists>y. awaited t i y)" for i
      using ok improves_sync [OF better] by (auto simp: search_ok_def awaited_def dbt)
    then have "search_ok (increment m t)" for m
      using ok by (simp add: search_ok_def awaited_def in_sync_def dbt)
    then show ?thesis
      using run new Inl by (simp add: process_search_event_def consume_def recordQueueJob_def)
  next
    case (Inr u)
    let ?t = "markProcessed ''search-sync'' n t"
    have t: "loadSearchDocument i (db ?t) = loadSearchDocument i (db s)" "search_index ?t = search_index t"
      "category_of i (db ?t) = category_of i (db s)" "events (db ?t) = events (db s)" "gone i (db ?t) = gone i (db s)"
      "linked (db s) \<Longrightarrow> linked (db ?t)" "next_id (db s) \<le> next_id (db ?t)" for i
      by (auto intro: loadSearchDocument_cong simp: markProcessed_def dbt search_index_def category_of_def
          events_def gone_def linked_def less_SucI)
    have marked: "x \<in> set (processed_events (db ?t)) \<Longrightarrow> x \<in> set (processed_events (db s)) \<or> pe_outboxEventId x = n" for x
      by (auto simp: markProcessed_def dbt split: if_splits)
    have "in_sync ?t i \<or> (\<exists>y. awaited ?t i y)" for i
    proof (cases "concerns (db s) i (n, ty, agg, a)")
      case True
      then have "in_sync t i" using dispatch_search_syncs [OF True _ gone] run Inr by blast
      then show ?thesis by (simp add: in_sync_def t dbt)
    next
      case False
      have "awaited ?t i y" if y: "awaited s i y" for y
      proof -
        obtain m ty' agg' b where [simp]: "y = (m, ty', agg', b)" by (cases y) auto
        have "m \<noteq> n"
        proof
          assume "m = n"
          then have mem: "(n, ty', agg', b) \<in> set (events (db s))" using y by (simp add: awaited_def)
          have "distinct (map fst (events (db s)))" using ok by (simp add: search_ok_def)
          then have "(ty', agg', b) = (ty, agg, a)" using mem x by (rule eq_key_imp_eq_value)
          then show False using y False \<open>m = n\<close> by (simp add: awaited_def del: concerns.simps)
        qed
        then show ?thesis using y by (simp add: awaited_def t alreadyProcessed_mark dbt)
      qed
      moreover have "in_sync ?t i" if "in_sync s i"
        using improves_sync [OF better that] by (simp add: in_sync_def t dbt)
      moreover have "in_sync s i \<or> (\<exists>y. awaited s i y)" using ok by (simp add: search_ok_def)
      ultimately show ?thesis by blast
    qed
    moreover have "n < next_id (db s)" using ok x by (force simp: search_ok_def)
    moreover have "pe_outboxEventId y < next_id (db ?t)" if "y \<in> set (processed_events (db ?t))" for y
      using marked [OF that] ok \<open>n < next_id (db s)\<close> t(7) by (force simp: search_ok_def)
    ultimately have "search_ok ?t"
      using ok t(6,7) by (auto simp: search_ok_def t(1-5) intro: less_le_trans)
    then have "search_ok (increment m ?t)" for m
      by (simp add: search_ok_def awaited_def in_sync_def)
    then show ?thesis
      using run new Inr by (simp add: process_search_event_def consume_def recordQueueJob_def)
  qed
qed

section \<open>The requests of the catalogue announce\<close>

definition same_doc :: "database \<Rightarrow> database \<Rightarrow> uuid \<Rightarrow> bool" where
  "same_doc d d' i \<longleftrightarrow> loadSearchDocument i d' = loadSearchDocument i d \<and> category_of i d' = category_of i d"

lemma doc_outbox [simp]:
  "loadSearchDocument i (db (outbox_record y g a p c s)) = loadSearchDocument i (db s)"
  "category_of i (db (outbox_record y g a p c s)) = category_of i (db s)"
  "gone i (db (outbox_record y g a p c s)) = gone i (db s)"
  "events (db (outbox_record y g a p c s)) = events (db s) @ [(next_id (db s), y, g, a)]"
  "search_index (outbox_record y g a p c s) = search_index s"
  "processed_events (db (outbox_record y g a p c s)) = processed_events (db s)"
  by (auto intro: loadSearchDocument_cong simp: category_of_def gone_def events_def event_key_def search_index_def)
     (simp_all add: outbox_record_def event_key_def)

lemma linked_outbox: "linked (db s) \<Longrightarrow> linked (db (outbox_record y g a p c s))"
  by (auto simp: linked_def)

lemma announces_record:
  assumes "search_index t = search_index s" "processed_events (db t) = processed_events (db s)"
    "outbox_events (db t) = outbox_events (db s)" "next_id (db s) \<le> next_id (db t)" "linked (db s) \<Longrightarrow> linked (db t)"
    and "y = ''PRODUCT_DELETED'' \<Longrightarrow> a < next_id (db s) \<and> gone a (db t)"
    and "\<And>i. i < next_id (db s) \<Longrightarrow> gone i (db s) \<Longrightarrow> gone i (db t)"
    and "\<And>i. same_doc (db s) (db t) i \<or> concerns (db t) i (n, y, g, a)"
  shows "announces s (outbox_record y g a p c t)"
proof -
  have "events (db t) = events (db s)" using assms(3) by (simp add: events_def)
  then show ?thesis
    using assms unfolding announces_def same_doc_def
    by (intro conjI exI [of _ "[(next_id (db t), y, g, a)]"]) (auto simp: linked_outbox)
qed

lemma announces_silent:
  assumes "search_index t = search_index s" "processed_events (db t) = processed_events (db s)"
    "events (db t) = events (db s)" "next_id (db s) \<le> next_id (db t)" "linked (db s) \<Longrightarrow> linked (db t)"
    and "\<And>i. i < next_id (db s) \<Longrightarrow> gone i (db s) \<Longrightarrow> gone i (db t)" "\<And>i. same_doc (db s) (db t) i"
  shows "announces s t"
  using assms unfolding announces_def same_doc_def by (intro conjI exI [of _ "[]"]) auto

lemma announces_emit:
  "(\<And>idx. index_effect idx x = idx) \<Longrightarrow> announces s (emit x t) \<longleftrightarrow> announces s t"
  by (simp add: announces_def)

lemma announces_increment [simp]: "announces s (increment n t) \<longleftrightarrow> announces s t"
  by (simp add: announces_def)

lemma announces_transaction:
  assumes "announces s (snd (f s))"
  shows "announces s (snd (transaction f s))"
proof (cases "fst (f s)")
  case (Inl err)
  then have "snd (transaction f s) = (snd (f s))\<lparr>db := db s\<rparr>" by (cases "f s") (simp add: transaction_def)
  moreover have "search_index (snd (f s)) = search_index s" using assms by (simp add: announces_def)
  ultimately show ?thesis by (simp add: announces_def search_index_def)
next
  case (Inr x)
  then have "snd (transaction f s) = snd (f s)" by (cases "f s") (simp add: transaction_def)
  then show ?thesis using assms by simp
qed

lemma by_id_put_or_insert: "by_id k i (put_or_insert k r t) = (if i = k r then Some r else by_id k i t)"
proof (cases "k r \<in> k ` set t")
  case True
  then obtain x where "by_id k (k r) t = Some x" using by_id_None_iff by fastforce
  then have "by_id k (k r) (put_row k r t) = Some r" by (rule by_id_put_row_same) simp
  then show ?thesis using True by (auto simp: put_or_insert_def by_id_put_row_other)
next
  case False
  then have "by_id k (k r) t = None" by (simp add: by_id_None_iff)
  moreover have "by_id k i [r] = (if i = k r then Some r else None)" by (auto simp: by_id_def)
  ultimately show ?thesis using False by (auto simp: put_or_insert_def by_id_append split: option.split)
qed

lemma find_filter_same: "(\<And>x. P x \<Longrightarrow> Q x) \<Longrightarrow> find P (filter Q xs) = find P xs"
  by (induction xs) auto

lemma same_docI:
  assumes "by_id pr_id i (products d') = by_id pr_id i (products d)" "seller_profiles d' = seller_profiles d"
    and "product_auction i d' = product_auction i d"
    and "\<And>p. by_id pr_id i (products d) = Some p \<Longrightarrow>
      map_option ca_name (by_id ca_id (pr_categoryId p) (categories d')) = map_option ca_name (by_id ca_id (pr_categoryId p) (categories d))"
  shows "same_doc d d' i"
proof (cases "by_id pr_id i (products d)")
  case (Some p)
  then have c: "map_option ca_name (by_id ca_id (pr_categoryId p) (categories d')) = map_option ca_name (by_id ca_id (pr_categoryId p) (categories d))"
    by (rule assms(4))
  show ?thesis
    using assms(1-3) Some c
    by (cases "by_id ca_id (pr_categoryId p) (categories d)"; cases "by_id ca_id (pr_categoryId p) (categories d')")
       (auto simp: same_doc_def loadSearchDocument_def category_of_def buildProductSearchDocument_def split: option.split)
qed (use assms(1) in \<open>simp add: same_doc_def loadSearchDocument_def category_of_def\<close>)

lemma save_product_announces:
  assumes base: "search_index t = search_index s" "processed_events (db t) = processed_events (db s)"
      "outbox_events (db t) = outbox_events (db s)" "next_id (db s) \<le> next_id (db t)" "products (db t) = products (db s)"
      "categories (db t) = categories (db s)" "seller_profiles (db t) = seller_profiles (db s)" "auctions (db t) = auctions (db s)"
    and y: "y \<in> {''PRODUCT_CREATED'', ''PRODUCT_UPDATED''}"
    and old: "gone (pr_id p) (db s) \<Longrightarrow> next_id (db s) \<le> pr_id p" and new: "pr_id p < next_id (db t)"
  shows "announces s (snd (record_product y c (save_product e p t)))"
proof (cases "fst (save_product e p t)")
  case (Inl err)
  then have "snd (record_product y c (save_product e p t)) = t"
    by (auto simp: save_product_def record_product_def split: if_splits)
  moreover have "announces s t"
    using base by (intro announces_silent same_docI) (auto simp: events_def linked_def gone_def product_auction_def intro: less_le_trans)
  ultimately show ?thesis by simp
next
  case (Inr q)
  let ?p = "stored_product e p"
  let ?u = "upd_db (\<lambda>d. d\<lparr>products := put_or_insert pr_id ?p (products d)\<rparr>) t"
  have cat: "pr_categoryId p \<in> ca_id ` set (categories (db s))" and run: "save_product e p t = (Inr p, ?u)"
    using Inr base by (auto simp: save_product_def split: if_splits)
  have p: "pr_id ?p = pr_id p" "pr_categoryId ?p = pr_categoryId p" by (simp_all add: stored_product_def)
  have "announces s (outbox_record y ''Product'' (pr_id p) [(''productId'', JId (pr_id p))] c ?u)"
  proof (rule announces_record)
    show "linked (db ?u)" if "linked (db s)"
      using that base new cat by (auto simp: linked_def set_put_or_insert p intro: less_le_trans)
    show "gone i (db ?u)" if "i < next_id (db s)" "gone i (db s)" for i
      using that old base by (auto simp: gone_def by_id_put_or_insert p)
    show "same_doc (db s) (db ?u) i \<or> concerns (db ?u) i (0, y, ''Product'', pr_id p)" for i
    proof (cases "i = pr_id p")
      case True
      then show ?thesis using y by (intro disjI2) (auto simp: queuesByAggregateType_def)
    next
      case False
      then show ?thesis using base by (intro disjI1 same_docI) (simp_all add: by_id_put_or_insert p product_auction_def)
    qed
  qed (use base y in \<open>auto simp: search_index_def\<close>)
  then show ?thesis by (simp add: run record_product_def)
qed

lemma runCreateProduct_announces: "announces s (snd (runCreateProduct e sp dto c slug s))"
  unfolding runCreateProduct_def
  by (rule save_product_announces) (simp_all add: new_product_def search_index_def)

lemma deleteOwned_announces:
  assumes "linked (db s)"
  shows "announces s (snd (deleteOwned i sp c s))"
proof (cases "findOwnedById i sp (db s)")
  case (Inr p)
  define T where "T = upd_db (cascade_product i) s"
  have t: "products (db T) = filter (\<lambda>p. pr_id p \<noteq> i) (products (db s))" "categories (db T) = categories (db s)"
    "auctions (db T) = filter (\<lambda>a. au_productId a \<noteq> i) (auctions (db s))" "seller_profiles (db T) = seller_profiles (db s)"
    by (simp_all add: T_def cascade_product_def)
  have prod: "by_id pr_id j (products (db T)) = (if j = i then None else by_id pr_id j (products (db s)))" for j
    unfolding t by_id_def by (auto simp: find_None_iff intro!: find_filter_same)
  have "announces s (outbox_record ''PRODUCT_DELETED'' ''Product'' i [(''productId'', JId i)] c T)"
  proof (rule announces_record)
    show "linked (db T)" using assms by (simp add: linked_def T_def cascade_product_def)
    have "gone i (db T)" unfolding gone_def prod by simp
    then show "i < next_id (db s) \<and> gone i (db T)"
      using assms findOwned_row [OF Inr] by (auto simp: linked_def)
    show "same_doc (db s) (db T) j \<or> concerns (db T) j (0, ''PRODUCT_DELETED'', ''Product'', i)" for j
    proof (cases "j = i")
      case True
      then show ?thesis by (simp add: queuesByAggregateType_def)
    next
      case False
      then have "product_auction j (db T) = product_auction j (db s)"
        unfolding product_auction_def t by (intro find_filter_same) auto
      then show ?thesis using False by (intro disjI1 same_docI) (simp_all add: prod t(2-4))
    qed
    show "gone j (db T)" if "gone j (db s)" for j using that unfolding gone_def prod by simp
  qed (simp_all add: T_def cascade_product_def)
  then show ?thesis by (simp add: deleteOwned_def Inr announces_emit T_def)
qed (simp add: deleteOwned_def announces_refl)

text \<open>Categories: a new one joins no product, a changed one is announced to all its products.\<close>

lemma linked_category: "linked d \<Longrightarrow> by_id pr_id i (products d) = Some p \<Longrightarrow> \<exists>c. by_id ca_id (pr_categoryId p) (categories d) = Some c"
  using by_id_SomeD [of pr_id i "products d" p] by_id_None_iff [of ca_id "pr_categoryId p" "categories d"]
  by (auto simp: linked_def)

lemma insert_category_announces:
  assumes "linked (db s)"
  shows "announces s (snd (insert_category dto slug s))"
proof -
  have "announces s (upd_db (\<lambda>d. d\<lparr>next_id := next_id d + 1, categories := categories d @ [c]\<rparr>) s)" for c
    by (intro announces_silent same_docI)
       (use assms in \<open>auto simp: search_index_def events_def linked_def gone_def product_auction_def by_id_append
          less_SucI dest!: linked_category [OF assms]\<close>)
  then show ?thesis by (simp add: insert_category_def Let_def announces_refl)
qed

lemma runUpdateCategory_announces:
  assumes "linked (db s)"
  shows "announces s (snd (runUpdateCategory x c s))"
proof (cases "fst (save_category x s)")
  case (Inl err)
  then have "snd (runUpdateCategory x c s) = s" by (auto simp: runUpdateCategory_def save_category_def split: if_splits)
  then show ?thesis by (simp add: announces_refl)
next
  case (Inr y)
  let ?t = "upd_db (\<lambda>d. d\<lparr>categories := put_or_insert ca_id x (categories d)\<rparr>) s"
  have run: "save_category x s = (Inr x, ?t)" using Inr by (auto simp: save_category_def split: if_splits)
  have "announces s (outbox_record ''CATEGORY_UPDATED'' ''Category'' (ca_id x) [(''categoryId'', JId (ca_id x))] c ?t)"
  proof (rule announces_record)
    show "same_doc (db s) (db ?t) i \<or> concerns (db ?t) i (0, ''CATEGORY_UPDATED'', ''Category'', ca_id x)" for i
    proof (cases "category_of i (db s) = Some (ca_id x)")
      case True
      then show ?thesis by (intro disjI2) (simp add: queuesByAggregateType_def category_of_def)
    next
      case False
      then show ?thesis
        by (intro disjI1 same_docI) (auto simp: category_of_def product_auction_def by_id_put_or_insert)
    qed
  qed (use assms in \<open>auto simp: search_index_def gone_def linked_def keys_put_or_insert\<close>)
  then show ?thesis by (simp add: runUpdateCategory_def run)
qed

lemma runDeleteCategory_announces:
  assumes "linked (db s)"
  shows "announces s (snd (runDeleteCategory i c s))"
proof (cases "\<exists>p \<in> set (products (db s)). pr_categoryId p = i")
  case False
  let ?f = "\<lambda>c. if ca_parentId c = Some i then c\<lparr>ca_parentId := None\<rparr> else c"
  let ?t = "upd_db (\<lambda>d. d\<lparr>categories := map ?f (filter (\<lambda>c. ca_id c \<noteq> i) (categories d))\<rparr>) s"
  have names: "map_option ca_name (by_id ca_id j (map ?f (filter (\<lambda>c. ca_id c \<noteq> i) cs))) = map_option ca_name (by_id ca_id j cs)"
    if "j \<noteq> i" for j cs
    using that by (induction cs) (auto simp: by_id_def)
  have "map ca_id (map ?f xs) = map ca_id xs" for xs by (induction xs) simp_all
  then have eq: "ca_id ` set (map ?f xs) = ca_id ` set xs" for xs by (metis set_map)
  have ids: "ca_id ` set (map ?f (filter (\<lambda>c. ca_id c \<noteq> i) cs)) = ca_id ` set cs - {i}" for cs
    unfolding eq by auto
  have "announces s (outbox_record ''CATEGORY_DELETED'' ''Category'' i [(''categoryId'', JId i)] c ?t)"
  proof (rule announces_record)
    show "same_doc (db s) (db ?t) j \<or> concerns (db ?t) j (0, ''CATEGORY_DELETED'', ''Category'', i)" for j
    proof (intro disjI1 same_docI)
      fix p assume "by_id pr_id j (products (db s)) = Some p"
      then have "pr_categoryId p \<noteq> i" using False by_id_SomeD by fastforce
      then show "map_option ca_name (by_id ca_id (pr_categoryId p) (categories (db ?t)))
          = map_option ca_name (by_id ca_id (pr_categoryId p) (categories (db s)))" by (simp add: names)
    qed (simp_all add: product_auction_def)
    show "linked (db ?t)"
      using assms False unfolding linked_def by (simp del: set_map add: ids)
  qed (simp_all add: search_index_def gone_def)
  then show ?thesis using False by (simp add: runDeleteCategory_def)
qed (simp add: runDeleteCategory_def announces_refl)

text \<open>The relay changes the state of events, not what the consumer sees of them.\<close>

lemma events_save_outbox:
  assumes "distinct (map fst (events d))" "event_key y \<in> set (events d)"
  shows "events (save_outbox y d) = events d"
proof -
  have "event_key x = event_key y" if "x \<in> set (outbox_events d)" "ob_id x = ob_id y" for x
  proof -
    have "event_key x \<in> set (events d)" using that(1) by (simp add: events_def)
    then have "snd (event_key x) = snd (event_key y)"
      using assms that(2) eq_key_imp_eq_value [of "events d" "ob_id y" "snd (event_key x)" "snd (event_key y)"]
      by (simp add: event_key_def)
    then show ?thesis using that(2) by (simp add: event_key_def)
  qed
  then show ?thesis by (auto simp: events_def save_outbox_def put_row_def)
qed

lemma key_same [simp]: "event_key (attempt_failed m x) = event_key x" "event_key (published e x) = event_key x"
  by (simp_all add: event_key_def attempt_failed_def published_def)

definition only_events :: "sys \<Rightarrow> sys \<Rightarrow> bool" where
  "only_events s t \<longleftrightarrow> search_index t = search_index s \<and> events (db t) = events (db s) \<and>
     (\<exists>xs. db t = (db s)\<lparr>outbox_events := xs\<rparr>)"

lemma only_events_announces:
  assumes "only_events s t"
  shows "announces s t"
proof -
  obtain xs where t: "search_index t = search_index s" "events (db t) = events (db s)" "db t = (db s)\<lparr>outbox_events := xs\<rparr>"
    using assms by (auto simp: only_events_def)
  then have d: "products (db t) = products (db s)" "categories (db t) = categories (db s)" "next_id (db t) = next_id (db s)"
    "auctions (db t) = auctions (db s)" "seller_profiles (db t) = seller_profiles (db s)"
    "processed_events (db t) = processed_events (db s)" by simp_all
  then have "same_doc (db s) (db t) i" for i
    unfolding same_doc_def category_of_def by (intro conjI loadSearchDocument_cong) simp_all
  then show ?thesis
    using t(1,2) d by (intro announces_silent) (simp_all add: linked_def gone_def)
qed

lemma add_jobs_index [simp]: "search_index (add_jobs redis qs x s) = search_index s" "db (add_jobs redis qs x s) = db s"
proof -
  have "search_index (fold (\<lambda>q. emit (QueueAddOutboxJob q x)) ys s) = search_index s \<and>
      db (fold (\<lambda>q. emit (QueueAddOutboxJob q x)) ys s) = db s" for ys
    by (induction ys arbitrary: s) simp_all
  then show "search_index (add_jobs redis qs x s) = search_index s" "db (add_jobs redis qs x s) = db s"
    by (simp_all add: add_jobs_def)
qed

lemma only_save:
  assumes "distinct (map fst (events (db s)))" "event_key y \<in> set (events (db s))" "db t = db s" "search_index t = search_index s"
  shows "only_events s (upd_db (save_outbox y) t)"
  unfolding only_events_def
proof (intro conjI exI)
  show "db (upd_db (save_outbox y) t) = (db s)\<lparr>outbox_events := put_row ob_id y (outbox_events (db s))\<rparr>"
    using assms(3) by (simp add: save_outbox_def)
qed (use assms in \<open>simp_all add: events_save_outbox\<close>)

lemma publish_only:
  assumes "distinct (map fst (events (db s)))" "event_key x \<in> set (events (db s))"
  shows "only_events s (publish_event redis e x s)"
  using assms by (simp add: publish_event_def only_save split: option.split)

lemma poll_announces:
  assumes ok: "distinct (map fst (events (db s)))"
  shows "announces s (poll redis e locked commit s)"
proof -
  have batch: "only_events s (fold (publish_event redis e) xs s)" if "event_key ` set xs \<subseteq> set (events (db s))" for xs
    using that
  proof (induction xs rule: rev_induct)
    case Nil
    show ?case by (auto simp: only_events_def intro: exI [of _ "outbox_events (db s)"])
  next
    case (snoc x xs)
    let ?t = "fold (publish_event redis e) xs s"
    have t: "only_events s ?t" using snoc by auto
    then have "only_events ?t (publish_event redis e x ?t)"
      using snoc.prems ok by (intro publish_only) (auto simp: only_events_def)
    then show ?case using t by (auto simp: only_events_def)
  qed
  have "event_key ` set (pending_batch locked (db s)) \<subseteq> set (events (db s))"
    by (auto simp: pending_batch_def events_def dest!: in_set_takeD)
  from only_events_announces [OF batch [OF this]]
  show ?thesis unfolding poll_def by (intro announces_transaction) simp
qed

section \<open>A bid announces the product of its auction\<close>

lemma find_put_row_same:
  "\<not> P r \<Longrightarrow> (\<And>x. x \<in> set t \<Longrightarrow> k x = k r \<Longrightarrow> \<not> P x) \<Longrightarrow> find P (put_row k r t) = find P t"
  by (induction t) (auto simp: put_row_def)

lemma record_bid_events:
  assumes "record_bid e x act u k corr amount s = (Inr out, s')"
  shows "\<exists>xs. events (db s') = events (db s) @ xs \<and> distinct (map fst xs) \<and>
      (\<forall>y \<in> set xs. next_id (db s) \<le> fst y \<and> fst y < next_id (db s') \<and> deletes y = None) \<and>
      (\<exists>n. (n, ''PRODUCT_UPDATED'', ''Product'', au_productId x) \<in> set xs)"
    and "categories (db s') = categories (db s)" "processed_events (db s') = processed_events (db s)"
proof -
  have ev: "events (d\<lparr>next_id := n, bids := bs\<rparr>) = events d" "events (d\<lparr>auctions := as\<rparr>) = events d" for d n bs as
    by (simp_all add: events_def)
  show "\<exists>xs. events (db s') = events (db s) @ xs \<and> distinct (map fst xs) \<and>
      (\<forall>y \<in> set xs. next_id (db s) \<le> fst y \<and> fst y < next_id (db s') \<and> deletes y = None) \<and>
      (\<exists>n. (n, ''PRODUCT_UPDATED'', ''Product'', au_productId x) \<in> set xs)"
    using assms
    by (cases act) (auto simp: record_bid_def insert_bid_def Let_def save_auction_def ev split: if_splits)
  show "categories (db s') = categories (db s)" "processed_events (db s') = processed_events (db s)"
    using assms by (auto simp: record_bid_def insert_bid_def Let_def save_auction_def split: if_splits)
qed

lemma same_db_announces:
  assumes "db t = db s" "search_index t = search_index s"
  shows "announces s t"
  using assms by (intro announces_silent) (simp_all add: same_doc_def)

lemma search_index_redis:
  "effects t = effects s @ [RedisDelProduct i, RedisIncrSearchVersion] \<Longrightarrow> search_index t = search_index s"
  by (simp add: search_index_def)

lemma placeBid_announces:
  assumes inv: "bidding_inv (db s)" and num: "numeric_ok e"
  shows "announces s (snd (placeBid e u i key corr amount s))"
  using assms
proof (cases rule: placeBid_cases [where u = u and i = i and key = key and corr = corr and amount = amount])
  case (refused err s')
  then show ?thesis by (auto intro!: same_db_announces simp: search_index_def)
next
  case (replayed k a r v s')
  then show ?thesis by (auto intro!: same_db_announces search_index_redis)
next
  case (recorded k a act out v s' s1)
  let ?x = "open_auction e a"
  note ok = record_bid_ok [OF recorded(5)] and ev = record_bid_events [OF recorded(5)]
  have x: "au_productId ?x = au_productId a" by (simp add: open_auction_def)
  obtain xs where xs: "events (db s1) = events (db s) @ xs" "distinct (map fst xs)"
      "\<And>y. y \<in> set xs \<Longrightarrow> next_id (db s) \<le> fst y \<and> fst y < next_id (db s1) \<and> deletes y = None"
      "\<exists>n. (n, ''PRODUCT_UPDATED'', ''Product'', au_productId a) \<in> set xs"
    using ev(1) by (auto simp: x)
  have a: "a \<in> set (auctions (db s))" "au_id a = i" using by_id_SomeD [OF recorded(2)] by auto
  have only: "au_productId y = au_productId a" if "y \<in> set (auctions (db s))" "au_id y = au_id a" for y
    using inv a(1) that by (auto simp: bidding_inv_def distinct_map inj_on_def)
  have "same_doc (db s) (db s1) j \<or> (\<exists>y \<in> set xs. concerns (db s1) j y)" for j
  proof (cases "j = au_productId a")
    case True
    then show ?thesis using xs(4) by (intro disjI2) (auto simp: queuesByAggregateType_def intro: rev_bexI)
  next
    case False
    have "product_auction j (db s1) = product_auction j (db s)"
      unfolding product_auction_def ok(3)
      using False only by (auto simp: stored_auction_def led_by_def intro!: find_put_row_same)
    then show ?thesis using ok(4,5) ev(2) by (intro disjI1 same_docI) simp_all
  qed
  then have "announces s s'"
    unfolding announces_def recorded(7) same_doc_def
    using xs ok(4,6) ev(2,3) search_index_redis [OF recorded(9)]
    by (intro conjI exI [of _ xs]) (auto simp: linked_def gone_def intro: less_trans)
  then show ?thesis using recorded(6) by simp
qed

section \<open>The index catches up\<close>

text \<open>
  Bids, and requests of the catalogue with any other step in between, requests of other services that keep the
  contract (\<open>elsewhere\<close>), polls of the relay and deliveries to the consumer, which may fail, come twice
  or out of order. An edit does not bring back a product that was deleted in between.
\<close>

inductive search_step :: "sys \<Rightarrow> sys \<Rightarrow> bool" where
  elsewhere: "announces s s' \<Longrightarrow> search_step s s'"
| polled: "search_step s (poll redis e locked commit s)"
| delivered: "(n, ty, agg, a) \<in> set (events (db s)) \<Longrightarrow> search_step s (snd (process_search_event up n ty a s))"
| bid_placed: "bidding_inv (db s) \<Longrightarrow> numeric_ok e \<Longrightarrow> search_step s (snd (placeBid e u i key corr amount s))"
| product_created: "(\<And>n t. search_step t (mn n t)) \<Longrightarrow> search_step s (snd (createForSeller e mn sp pdto c s))"
| product_edited: "(\<And>t. search_step t (m t)) \<Longrightarrow> \<not> gone i (db (m s)) \<Longrightarrow> search_step s (snd (updateOwned e m i sp qdto c s))"
| product_deleted: "search_step s (snd (deleteOwned i sp c s))"
| category_created: "(\<And>n t. search_step t (mn n t)) \<Longrightarrow> search_step s (snd (create_category mn cdto s))"
| category_edited: "(\<And>t. search_step t (m t)) \<Longrightarrow> search_step s (snd (update_category m i udto c s))"
| category_deleted: "(\<And>t. search_step t (m t)) \<Longrightarrow> search_step s (snd (delete_category m i c s))"

definition search_kept :: "sys \<Rightarrow> sys \<Rightarrow> bool" where
  "search_kept s t \<longleftrightarrow> (search_ok s \<longrightarrow> search_ok t)"

lemma search_kept_trans: "search_kept s t \<Longrightarrow> search_kept t u \<Longrightarrow> search_kept s u"
  by (simp add: search_kept_def)

lemma search_kept_refl [simp]: "search_kept s s"
  by (simp add: search_kept_def)

lemma linked_ok: "search_ok s \<Longrightarrow> linked (db s)"
  by (simp add: search_ok_def)

lemma distinct_events_ok: "search_ok s \<Longrightarrow> distinct (map fst (events (db s)))"
  by (simp add: search_ok_def)

lemma search_kept_announces: "(linked (db s) \<Longrightarrow> announces s t) \<Longrightarrow> search_kept s t"
  unfolding search_kept_def by (metis announces_ok linked_ok)

lemma search_ok_emit [simp]: "(\<And>idx. index_effect idx x = idx) \<Longrightarrow> search_ok (emit x t) \<longleftrightarrow> search_ok t"
  by (simp add: search_ok_def in_sync_def awaited_def)

lemma search_kept_emit: "(\<And>idx. index_effect idx x = idx) \<Longrightarrow> search_kept s (emit x t) \<longleftrightarrow> search_kept s t"
  by (simp add: search_kept_def)

lemma slug_retries_kept:
  assumes "\<And>slug t. search_kept t (snd (ins slug t))" "\<And>n t. search_kept t (m n t)"
  shows "search_kept s (snd (with_unique_slug n message m slugs name ins s))"
proof (rule with_unique_slug_rel [where R = search_kept])
  show "search_kept a c" if "search_kept a b" "search_kept b c" for a b c using that by (rule search_kept_trans)
qed (rule search_kept_refl assms)+

lemma search_step_kept: "search_step s s' \<Longrightarrow> search_kept s s'"
proof (induction rule: search_step.induct)
  case (elsewhere s s')
  then show ?case by (intro search_kept_announces)
next
  case (polled s redis e locked commit)
  show ?case unfolding search_kept_def by (metis announces_ok poll_announces distinct_events_ok)
next
  case (delivered n ty agg a s up)
  then show ?case using process_search_ok by (auto simp: search_kept_def)
next
  case (bid_placed s e u i key corr amount)
  then show ?case by (intro search_kept_announces placeBid_announces)
next
  case (product_created mn s e sp pdto c)
  have tx: "search_kept t (snd (transaction (runCreateProduct e sp pdto c slug) t))" for t slug
    by (intro search_kept_announces announces_transaction runCreateProduct_announces)
  have "search_kept s (snd (with_unique_slug n x mn sl name (\<lambda>slug. transaction (runCreateProduct e sp pdto c slug)) s))" for n x sl name
    by (rule slug_retries_kept) (use tx product_created in blast)+
  then show ?case by (simp add: createForSeller_def snd_case_keep search_kept_emit split: sum.split)
next
  case (product_edited m i s e sp qdto c)
  have m: "search_kept s (m s)" using product_edited by blast
  show ?case
  proof (cases "findOwnedById i sp (db s)")
    case (Inr p)
    let ?p = "merge_product qdto p"
    have id: "pr_id ?p = i" using findOwned_row [OF Inr] by (simp add: merge_product_def)
    have "search_kept (m s) (snd (transaction (\<lambda>t. record_product ''PRODUCT_UPDATED'' c (save_product e ?p t)) (m s)))"
    proof (intro search_kept_announces announces_transaction save_product_announces)
      assume "linked (db (m s))"
      moreover obtain q where "by_id pr_id i (products (db (m s))) = Some q" using product_edited(2) by (auto simp: gone_def)
      ultimately show "pr_id ?p < next_id (db (m s))" using by_id_SomeD id by (fastforce simp: linked_def)
    qed (use product_edited(2) id in simp_all)
    with m have "search_kept s (snd (transaction (\<lambda>t. record_product ''PRODUCT_UPDATED'' c (save_product e ?p t)) (m s)))"
      by (rule search_kept_trans)
    then show ?thesis
      by (simp add: updateOwned_def Inr assertCategoryExists_def snd_case_keep search_kept_emit split: option.split sum.split)
  qed (simp add: updateOwned_def)
next
  case (product_deleted s i sp c)
  show ?case by (intro search_kept_announces deleteOwned_announces)
next
  case (category_created mn s cdto)
  have tx: "search_kept t (snd (insert_category cdto slug t))" for t slug
    by (intro search_kept_announces insert_category_announces)
  have "search_kept s (snd (with_unique_slug n x mn sl name (insert_category cdto) s))" for n x sl name
    by (rule slug_retries_kept) (use tx category_created in blast)+
  then show ?case by (simp add: create_category_def snd_case_keep search_kept_emit split: sum.split)
next
  case (category_edited m s i udto c)
  have "search_kept (m s) (snd (transaction (runUpdateCategory x c) (m s)))" for x
    by (intro search_kept_announces announces_transaction runUpdateCategory_announces)
  then have "search_kept s (snd (transaction (runUpdateCategory x c) (m s)))" for x
    using category_edited by (blast intro: search_kept_trans)
  then show ?case
    by (simp add: update_category_def snd_case_keep [where g = "\<lambda>x. x"] search_kept_emit split: sum.split)
next
  case (category_deleted m s i c)
  have "search_kept (m s) (snd (transaction (runDeleteCategory i c) (m s)))"
    by (intro search_kept_announces announces_transaction runDeleteCategory_announces)
  then have "search_kept s (snd (transaction (runDeleteCategory i c) (m s)))"
    using category_deleted by (blast intro: search_kept_trans)
  then show ?case by (simp add: delete_category_def snd_case_keep search_kept_emit split: sum.split)
qed


section \<open>Searching without the engine\<close>

lemma rmap_all:
  "list_all (\<lambda>x. \<not> is_error (f x)) xs \<Longrightarrow> \<exists>ys. rmap f xs = Inr ys \<and> length ys = length xs \<and> list_all2 (\<lambda>x y. f x = Inr y) xs ys"
proof (induction xs)
  case (Cons x xs)
  then obtain ys y where "rmap f xs = Inr ys" "length ys = length xs" "list_all2 (\<lambda>x y. f x = Inr y) xs ys" "f x = Inr y"
    by (auto simp: not_is_error_iff)
  then show ?case by (intro exI [of _ "y # ys"]) simp
qed simp

lemma list_all2_member: "list_all2 P xs ys \<Longrightarrow> y \<in> set ys \<Longrightarrow> \<exists>x \<in> set xs. P x y"
  by (induction rule: list_all2_induct) auto

lemma set_sort_rows: "set (sort_rows srt ps) = set ps"
  by (auto simp: sort_rows_def Let_def split: option.split prod.split SortField.split)

text \<open>
  The search in Postgres never fails, and returns documents of published products that match the
  filters, at most a page of them. An auction product is shown there without its auction: the row is
  not joined, so the price of the running auction and its status are missing, although the index has them.
\<close>
theorem fallback_search_answers:
  shows "\<exists>r. fallback_search ilike q d = Inr r \<and> length (cs_data r) \<le> cq_pageSize q \<and>
     cs_total r = length (filter (\<lambda>p. matches_query ilike q p \<and> joined d p) (products d)) \<and>
     (list_all (\<lambda>doc. sd_auctionStatus doc = None \<and> sd_auctionCurrentPrice doc = None \<and>
        (\<exists>p \<in> set (products d). matches_query ilike q p \<and> pr_id p = sd_id doc \<and> pr_price p = sd_price doc)) (cs_data r))"
proof -
  let ?rows = "filter (\<lambda>p. matches_query ilike q p \<and> joined d p) (products d)"
  let ?page = "take (cq_pageSize q) (drop ((cq_page q - 1) * cq_pageSize q) (sort_rows (cq_sort q) ?rows))"
  have mem: "p \<in> set (products d) \<and> matches_query ilike q p \<and> joined d p" if "p \<in> set ?page" for p
    using in_set_dropD [OF in_set_takeD [OF that]] by (simp add: set_sort_rows)
  have "\<not> is_error (build_unjoined d p)" if "p \<in> set ?page" for p
    using mem [OF that] by (auto simp: build_unjoined_def joined_def)
  then have "list_all (\<lambda>p. \<not> is_error (build_unjoined d p)) ?page" by (simp add: list_all_iff)
  then obtain docs where docs: "rmap (build_unjoined d) ?page = Inr docs" "length docs = length ?page"
    "list_all2 (\<lambda>p doc. build_unjoined d p = Inr doc) ?page docs"
    using rmap_all by blast
  have "sd_auctionStatus doc = None \<and> sd_auctionCurrentPrice doc = None \<and>
      (\<exists>p \<in> set (products d). matches_query ilike q p \<and> pr_id p = sd_id doc \<and> pr_price p = sd_price doc)"
    if doc: "doc \<in> set docs" for doc
  proof -
    obtain p where p: "p \<in> set ?page" "build_unjoined d p = Inr doc"
      using list_all2_member [OF docs(3) doc] by blast
    then show ?thesis
      using mem [OF p(1)] by (auto simp: build_unjoined_def buildProductSearchDocument_def split: option.splits)
  qed
  then show ?thesis
    using docs(1,2) by (simp add: fallback_search_def Let_def list_all_iff)
qed

section \<open>An example\<close>

definition indexed_sys :: sys where
  "indexed_sys = emit (SearchIndexDocument (buildProductSearchDocument sample_seller (hd (categories catalog_db)) (Some sample_auction) sample_product))
     (start_sys catalog_db)"

lemma indexed_ok: "search_ok indexed_sys"
proof -
  have "in_sync indexed_sys i" for i
  proof (cases "i = 2")
    case True
    have "loadSearchDocument 2 (db indexed_sys) = Inr (search_index indexed_sys 2)" by code_simp
    then show ?thesis by (simp add: in_sync_def True)
  next
    case False
    then show ?thesis
      by (auto simp: in_sync_def indexed_sys_def loadSearchDocument_def start_sys_def catalog_db_def sample_db_def
          by_id_def sample_product_def search_index_def buildProductSearchDocument_def emit_def)
  qed
  moreover have "linked (db indexed_sys)" "processed_events (db indexed_sys) = []" "events (db indexed_sys) = []" by code_simp+
  ultimately show ?thesis by (simp add: search_ok_def)
qed

text \<open>The product is renamed, its event delivered.\<close>

definition renamed_sys :: sys where
  "renamed_sys = snd (updateOwned (sample_env 5) (\<lambda>t. t) 2 1 rename_dto 0 indexed_sys)"

definition delivered_sys :: sys where
  "delivered_sys = snd (process_search_event True 10 ''PRODUCT_UPDATED'' 2 renamed_sys)"


end
