(* ===== verification/Notifications.thy ===== *)
theory Notifications
  imports Outbox Refunds Disputes
begin

text \<open>
  Notifications (\<open>modules/notifications/notifications.processor.ts\<close>): who is told about an event of an
  order, refund, dispute, auction or seller application. Delivery (\<open>notifications.service.ts\<close>) is the
  effect \<open>NotifyUser\<close>; of a message the fixed part is kept.
\<close>

definition notify :: "uuid \<Rightarrow> string \<Rightarrow> sys \<Rightarrow> sys" where
  "notify userId message = emit (NotifyUser userId message)"

definition payload_id :: "string \<Rightarrow> OutboxEvent \<Rightarrow> uuid option" where
  "payload_id name x = (case map_of (ob_payload x) name of Some (JId i) \<Rightarrow> Some i | _ \<Rightarrow> None)"

definition resolveSellerUserId :: "uuid \<Rightarrow> database \<Rightarrow> uuid option" where
  "resolveSellerUserId sellerProfileId d = map_option sp_userId (by_id sp_id sellerProfileId (seller_profiles d))"

definition notify_seller :: "uuid \<Rightarrow> string \<Rightarrow> sys \<Rightarrow> sys" where
  "notify_seller sellerProfileId message s =
     (case resolveSellerUserId sellerProfileId (db s) of None \<Rightarrow> s | Some u \<Rightarrow> notify u message s)"

definition notifyOrder :: "OutboxEvent \<Rightarrow> sys \<Rightarrow> unit result \<times> sys" where
  "notifyOrder x s =
     (case payload_id ''buyerId'' x of
        Some buyer \<Rightarrow> (Inr (), notify buyer (if ob_eventType x = ''ORDER_CREATED'' then ''Your order was placed.''
                                            else ''Your order was updated.'') s)
      | None \<Rightarrow>
          (case by_id ord_id (ob_aggregateId x) (orders (db s)) of
             None \<Rightarrow> (Inr (), s)
           | Some order \<Rightarrow> (Inr (), notify (ord_buyerId order) ''Your order status changed.'' s)))"

definition notifyRefund :: "OutboxEvent \<Rightarrow> sys \<Rightarrow> unit result \<times> sys" where
  "notifyRefund x s =
     (case payload_id ''sellerOrderId'' x of
        None \<Rightarrow> (Inr (), s)
      | Some i \<Rightarrow>
          (case by_id so_id i (seller_orders (db s)) of
             None \<Rightarrow> (Inr (), s)
           | Some so \<Rightarrow>
               (case by_id ord_id (so_orderId so) (orders (db s)) of
                  None \<Rightarrow> (Inl (PlainError ''TypeError''), s)
                | Some order \<Rightarrow>
                    (Inr (), notify_seller (so_sellerProfileId so) ''A refund was issued on seller order.''
                       (notify (ord_buyerId order) ''A refund was issued for order.'' s)))))"

definition notifyDispute :: "OutboxEvent \<Rightarrow> sys \<Rightarrow> unit result \<times> sys" where
  "notifyDispute x s =
     (case by_id dp_id (ob_aggregateId x) (disputes (db s)) of
        None \<Rightarrow> (Inr (), s)
      | Some dispute \<Rightarrow>
          (Inr (), notify_seller (dp_sellerProfileId dispute) ''Dispute on your seller order.''
             (notify (dp_customerId dispute) ''Your dispute on seller order.'' s)))"

text \<open>The seller of the product, if the product is still there.\<close>

definition notify_auction_seller :: "Auction \<Rightarrow> sys \<Rightarrow> unit result \<times> sys" where
  "notify_auction_seller auction s =
     (case by_id pr_id (au_productId auction) (products (db s)) of
        None \<Rightarrow> (Inr (), s)
      | Some product \<Rightarrow>
          (case by_id sp_id (pr_sellerProfileId product) (seller_profiles (db s)) of
             None \<Rightarrow> (Inl (PlainError ''TypeError''), s)
           | Some seller \<Rightarrow> (Inr (), notify (sp_userId seller) ''Your auction changed.'' s)))"

definition tells_winner :: "OutboxEvent \<Rightarrow> bool" where
  "tells_winner x \<longleftrightarrow> ob_eventType x = ''AUCTION_WON'' \<or> ob_eventType x = ''AUCTION_PURCHASE_WINDOW_OPENED''"

definition notifyAuction :: "OutboxEvent \<Rightarrow> sys \<Rightarrow> unit result \<times> sys" where
  "notifyAuction x s =
     (case by_id au_id (ob_aggregateId x) (auctions (db s)) of
        None \<Rightarrow> (Inr (), s)
      | Some auction \<Rightarrow>
          (case notify_auction_seller auction s of
             (Inl err, s1) \<Rightarrow> (Inl err, s1)
           | (Inr _, s1) \<Rightarrow>
               (Inr (), if tells_winner x
                        then (case au_winnerId auction of
                                None \<Rightarrow> s1 | Some winner \<Rightarrow> notify winner ''You won the auction.'' s1)
                        else s1)))"

definition notifySellerApplication :: "OutboxEvent \<Rightarrow> sys \<Rightarrow> unit result \<times> sys" where
  "notifySellerApplication x s =
     (case by_id sa_id (ob_aggregateId x) (seller_applications (db s)) of
        None \<Rightarrow> (Inr (), s)
      | Some application \<Rightarrow> (Inr (), notify (sa_userId application) ''Your seller application changed.'' s))"

definition dispatch_notification :: "OutboxEvent \<Rightarrow> sys \<Rightarrow> unit result \<times> sys" where
  "dispatch_notification x =
     (if ob_aggregateType x = ''Order'' then notifyOrder x
      else if ob_aggregateType x = ''Refund'' then notifyRefund x
      else if ob_aggregateType x = ''Dispute'' then notifyDispute x
      else if ob_aggregateType x = ''Auction'' then notifyAuction x
      else if ob_aggregateType x = ''SellerApplication'' then notifySellerApplication x
      else (\<lambda>s. (Inr (), s)))"

definition process_notification :: "OutboxEvent \<Rightarrow> sys \<Rightarrow> unit result \<times> sys" where
  "process_notification x s =
     (if alreadyProcessed ''notifications'' (ob_id x) (db s) then (Inr (), s)
      else (case consume ''notifications'' (ob_id x) (dispatch_notification x) s of
              (Inl err, s1) \<Rightarrow> (Inl err, s1)
            | (Inr _, s1) \<Rightarrow> (Inr (), increment ''notifications_sent_total'' s1)))"

section \<open>Handled once\<close>

lemma notify_db [simp]: "db (notify u m s) = db s" "db (notify_seller p m s) = db s"
  by (simp_all add: notify_def notify_seller_def split: option.split)

lemma handlers_db [simp]:
  "db (snd (notifyOrder x s)) = db s" "db (snd (notifyRefund x s)) = db s" "db (snd (notifyDispute x s)) = db s"
  "db (snd (notify_auction_seller a s)) = db s" "db (snd (notifySellerApplication x s)) = db s"
  by (simp_all add: notifyOrder_def notifyRefund_def notifyDispute_def notify_auction_seller_def
      notifySellerApplication_def split: option.split)

lemma notifyAuction_db [simp]: "db (snd (notifyAuction x s)) = db s"
proof (cases "by_id au_id (ob_aggregateId x) (auctions (db s))")
  case (Some a)
  obtain r t where r: "notify_auction_seller a s = (r, t)" by fastforce
  then have "db t = db s" using handlers_db(4) [of a s] by simp
  then show ?thesis by (simp add: notifyAuction_def Some r split: sum.split option.split)
qed (simp add: notifyAuction_def)

lemma dispatch_notification_db: "db (snd (dispatch_notification x s)) = db s"
  by (simp add: dispatch_notification_def)

interpretation notifications: dedup_consumer
  "\<lambda>x s. alreadyProcessed ''notifications'' (ob_id x) (db s)" process_notification
proof
  fix x y :: OutboxEvent and s s' :: sys
  show "alreadyProcessed ''notifications'' (ob_id x) (db s) \<Longrightarrow> process_notification x s = (Inr (), s)"
    by (simp add: process_notification_def)
  show "process_notification x s = (Inr (), s') \<Longrightarrow> alreadyProcessed ''notifications'' (ob_id x) (db s')"
    by (auto simp: process_notification_def split: if_splits prod.splits sum.splits dest: consume_marks)
  have "alreadyProcessed ''notifications'' (ob_id y) (db (snd (consume ''notifications'' (ob_id x) (dispatch_notification x) s)))"
    if "alreadyProcessed ''notifications'' (ob_id y) (db s)"
    using that by (rule consume_keeps [rotated]) (simp add: dispatch_notification_db)
  then show "alreadyProcessed ''notifications'' (ob_id y) (db s) \<Longrightarrow>
      alreadyProcessed ''notifications'' (ob_id y) (db (snd (process_notification x s)))"
    by (auto simp: process_notification_def split: prod.split sum.split)
qed

section \<open>Who is told\<close>

definition seller_user :: "uuid \<Rightarrow> database \<Rightarrow> uuid list" where
  "seller_user sellerProfileId d =
     (case by_id sp_id sellerProfileId (seller_profiles d) of None \<Rightarrow> [] | Some p \<Rightarrow> [sp_userId p])"

definition rows :: "'a option \<Rightarrow> 'a list" where
  "rows r = (case r of None \<Rightarrow> [] | Some x \<Rightarrow> [x])"

text \<open>The parties of an event, each read from the tables.\<close>

definition parties :: "OutboxEvent \<Rightarrow> database \<Rightarrow> uuid list" where
  "parties x d =
     (if ob_aggregateType x = ''Order''
      then (case payload_id ''buyerId'' x of Some b \<Rightarrow> [b]
            | None \<Rightarrow> map ord_buyerId (rows (by_id ord_id (ob_aggregateId x) (orders d))))
      else if ob_aggregateType x = ''Refund''
      then concat (map (\<lambda>so. map ord_buyerId (rows (by_id ord_id (so_orderId so) (orders d))) @ seller_user (so_sellerProfileId so) d)
             (concat (map (\<lambda>i. rows (by_id so_id i (seller_orders d))) (rows (payload_id ''sellerOrderId'' x)))))
      else if ob_aggregateType x = ''Dispute''
      then concat (map (\<lambda>dp. dp_customerId dp # seller_user (dp_sellerProfileId dp) d) (rows (by_id dp_id (ob_aggregateId x) (disputes d))))
      else if ob_aggregateType x = ''Auction''
      then concat (map (\<lambda>a. concat (map (\<lambda>p. seller_user (pr_sellerProfileId p) d) (rows (by_id pr_id (au_productId a) (products d)))) @
                     (if tells_winner x then rows (au_winnerId a) else []))
             (rows (by_id au_id (ob_aggregateId x) (auctions d))))
      else if ob_aggregateType x = ''SellerApplication''
      then map sa_userId (rows (by_id sa_id (ob_aggregateId x) (seller_applications d)))
      else [])"

definition told :: "effect \<Rightarrow> uuid list" where
  "told y = (case y of NotifyUser u m \<Rightarrow> [u] | _ \<Rightarrow> [])"

lemma told_notify: "concat (map told (effects (notify u m s))) = concat (map told (effects s)) @ [u]"
  by (simp add: notify_def told_def)

lemma told_notify_seller:
  "concat (map told (effects (notify_seller p m s))) = concat (map told (effects s)) @ seller_user p (db s)"
  by (simp add: notify_seller_def resolveSellerUserId_def seller_user_def told_notify split: option.split)

lemma dispatch_tells:
  assumes "dispatch_notification x s = (Inr (), t)"
  shows "concat (map told (effects t)) = concat (map told (effects s)) @ parties x (db s)"
proof -
  consider (order) "ob_aggregateType x = ''Order''" | (refund) "ob_aggregateType x = ''Refund''"
    | (dispute) "ob_aggregateType x = ''Dispute''" | (auction) "ob_aggregateType x = ''Auction''"
    | (application) "ob_aggregateType x = ''SellerApplication''"
    | (other) "ob_aggregateType x \<notin> {''Order'', ''Refund'', ''Dispute'', ''Auction'', ''SellerApplication''}" by blast
  then show ?thesis
  proof cases
    case order
    then show ?thesis using assms
      by (auto simp: dispatch_notification_def parties_def notifyOrder_def rows_def told_notify split: option.splits)
  next
    case refund
    then show ?thesis using assms
      by (auto simp: dispatch_notification_def parties_def notifyRefund_def rows_def told_notify told_notify_seller split: option.splits)
  next
    case dispute
    then show ?thesis using assms
      by (auto simp: dispatch_notification_def parties_def notifyDispute_def rows_def told_notify told_notify_seller split: option.splits)
  next
    case auction
    then show ?thesis using assms
      by (auto simp: dispatch_notification_def parties_def notifyAuction_def notify_auction_seller_def rows_def seller_user_def
          told_notify split: option.splits if_splits)
  next
    case application
    then show ?thesis using assms
      by (auto simp: dispatch_notification_def parties_def notifySellerApplication_def rows_def told_notify split: option.splits)
  next
    case other
    then show ?thesis using assms by (simp add: dispatch_notification_def parties_def)
  qed
qed

text \<open>
  C30: Handling an event tells exactly its parties, each once: the buyer of an order, buyer and seller of a
  refund, customer and seller of a dispute, the seller of an auction and, when it is won or can be paid,
  its winner, or the applicant. Delivering the event again, after whatever else was handled, tells nobody.
\<close>
theorem parties_told_once:
  assumes "process_notification x s = (Inr (), s')" and "\<not> alreadyProcessed ''notifications'' (ob_id x) (db s)"
  shows "concat (map told (effects s')) = concat (map told (effects s)) @ parties x (db s) \<and>
         snd (process_notification x (fold (\<lambda>y t. snd (process_notification y t)) ys s')) =
           fold (\<lambda>y t. snd (process_notification y t)) ys s'"
proof (intro conjI)
  obtain r t where run: "dispatch_notification x s = (r, t)" by fastforce
  have "r = Inr () \<and> effects s' = effects t"
    using assms run
    by (auto simp: process_notification_def consume_def recordQueueJob_def split: sum.splits)
  then show "concat (map told (effects s')) = concat (map told (effects s)) @ parties x (db s)"
    using dispatch_tells run by auto
  show "snd (process_notification x (fold (\<lambda>y t. snd (process_notification y t)) ys s')) =
           fold (\<lambda>y t. snd (process_notification y t)) ys s'"
    by (simp add: notifications.redelivery [OF assms(1)])
qed

definition placed_event :: OutboxEvent where
  "placed_event = \<lparr>ob_id = 70, ob_eventType = ''ORDER_CREATED'', ob_aggregateType = ''Order'', ob_aggregateId = 30,
     ob_payload = [(''orderId'', JId 30), (''buyerId'', JId 8)], ob_correlationId = 0, ob_publishedAt = None,
     ob_status = OutboxStatus.PUBLISHED, ob_attempts = 0, ob_lastError = None\<rparr>"

theorem parties_told_once_witness:
  "concat (map told (effects (snd (process_notification placed_event (start_sys order_db))))) = [8]"
proof -
  have "\<not> is_error (fst (process_notification placed_event (start_sys order_db)))" by code_simp
  then have run: "process_notification placed_event (start_sys order_db) = (Inr (), snd (process_notification placed_event (start_sys order_db)))"
    by (simp add: prod_eq_iff not_is_error_iff)
  have "\<not> alreadyProcessed ''notifications'' (ob_id placed_event) (db (start_sys order_db))"
    and "concat (map told (effects (start_sys order_db))) = []" "parties placed_event (db (start_sys order_db)) = [8]" by code_simp+
  with parties_told_once [OF run, of "[]"] show ?thesis by simp
qed

end
