(* ===== verification/Realtime.thy ===== *)
theory Realtime
  imports Outbox Disputes Sellers
begin

text \<open>
  Live updates over sockets (\<open>src/backend/src/websocket\<close>): the consumer that broadcasts events to rooms, the
  authentication of a connection, and the rooms a socket may join. A broadcast is the effect
  \<open>EmitToRooms\<close>. \<open>bound\<close> says whether the gateway has been initialised. Ids in requests that are no uuids
  are \<open>None\<close>; the \<open>updatedAt\<close> of payloads is left out.
\<close>

section \<open>Broadcasting events\<close>

definition AUCTION_EVENT_NAMES :: "string \<Rightarrow> string option" where
  "AUCTION_EVENT_NAMES = map_of
     [(''BID_PLACED'', ''auction.bid.updated''), (''AUCTION_STARTED'', ''auction.started''),
      (''AUCTION_FINALIZED'', ''auction.finalized''), (''AUCTION_WON'', ''auction.won''),
      (''AUCTION_UNSOLD'', ''auction.unsold''), (''AUCTION_PURCHASE_WINDOW_OPENED'', ''auction.purchase_window.opened''),
      (''AUCTION_PURCHASED'', ''auction.purchased''),
      (''AUCTION_PURCHASE_WINDOW_EXPIRED'', ''auction.purchase_window.expired'')]"

text \<open>\<open>new Set(rooms)\<close>: the first occurrence of each room.\<close>

definition unique_rooms :: "room list \<Rightarrow> room list" where
  "unique_rooms rooms = rev (remdups (rev rooms))"

definition emitToRooms ::
  "bool \<Rightarrow> room list \<Rightarrow> string \<Rightarrow> (string \<times> json) list \<Rightarrow> OutboxEvent \<Rightarrow> sys \<Rightarrow> unit result \<times> sys" where
  "emitToRooms bound rooms eventType payload x s =
     (if \<not> bound then (Inl (PlainError ''Realtime gateway is not initialized''), s)
      else (Inr (), increment ''websocket_events_emitted_total''
             (emit (EmitToRooms (unique_rooms rooms) eventType payload (ob_correlationId x) (ob_id x)) s)))"

definition emitDispute :: "bool \<Rightarrow> OutboxEvent \<Rightarrow> sys \<Rightarrow> unit result \<times> sys" where
  "emitDispute bound x s =
     (case by_id dp_id (ob_aggregateId x) (disputes (db s)) of
        None \<Rightarrow> (Inr (), s)
      | Some dispute \<Rightarrow>
          emitToRooms bound [UserRoom (dp_customerId dispute), SellerRoom (dp_sellerProfileId dispute)]
            (if ob_eventType x = ''DISPUTE_OPENED'' then ''dispute.opened''
             else if ob_eventType x = ''DISPUTE_RESOLVED'' then ''dispute.resolved'' else ''dispute.updated'')
            [(''disputeId'', JId (dp_id dispute)), (''sellerOrderId'', JId (dp_sellerOrderId dispute)),
             (''status'', JDisputeStatus (dp_status dispute))] x s)"

definition emitProductStock :: "bool \<Rightarrow> OutboxEvent \<Rightarrow> sys \<Rightarrow> unit result \<times> sys" where
  "emitProductStock bound x s =
     (case by_id pr_id (ob_aggregateId x) (products (db s)) of
        None \<Rightarrow> (Inr (), s)
      | Some product \<Rightarrow>
          emitToRooms bound [ProductRoom (pr_id product)] ''product.stock.updated''
            [(''productId'', JId (pr_id product)), (''stock'', JInt (pr_stockQuantity product))] x s)"

definition live_minimum :: "Auction \<Rightarrow> nat \<Rightarrow> string result" where
  "live_minimum auction bidCount =
     (if bidCount = 0 then Inr (au_startPrice auction)
      else rbind (parseMoneyToCents (au_currentPrice auction)) (\<lambda>current.
           rbind (parseMoneyToCents (au_minBidIncrement auction)) (\<lambda>increment.
           Inr (formatCentsToMoney (sumCents [current, increment])))))"

definition emitAuction :: "bool \<Rightarrow> OutboxEvent \<Rightarrow> sys \<Rightarrow> unit result \<times> sys" where
  "emitAuction bound x s =
     (case by_id au_id (ob_aggregateId x) (auctions (db s)) of
        None \<Rightarrow> (Inr (), s)
      | Some auction \<Rightarrow>
          let bidCount = length (filter (\<lambda>b. bid_auctionId b = au_id auction) (bids (db s)))
          in (case live_minimum auction bidCount of
                Inl err \<Rightarrow> (Inl err, s)
              | Inr minimumNextBid \<Rightarrow>
                  emitToRooms bound [AuctionRoom (au_id auction)]
                    (case AUCTION_EVENT_NAMES (ob_eventType x) of Some n \<Rightarrow> n | None \<Rightarrow> [])
                    [(''auctionId'', JId (au_id auction)), (''status'', JAuctionStatus (au_status auction)),
                     (''currentPrice'', JStr (au_currentPrice auction)), (''bidCount'', JInt (int bidCount)),
                     (''minimumNextBid'', JStr minimumNextBid), (''endsAt'', JTime (au_endsAt auction)),
                     (''purchaseWindowEndsAt'', (case au_purchaseWindowEndsAt auction of Some t \<Rightarrow> JTime t | None \<Rightarrow> JNull))]
                    x s))"

definition emitOrderStatus :: "bool \<Rightarrow> OutboxEvent \<Rightarrow> sys \<Rightarrow> unit result \<times> sys" where
  "emitOrderStatus bound x s =
     (case by_id so_id (ob_aggregateId x) (seller_orders (db s)) of
        None \<Rightarrow> (Inr (), s)
      | Some so \<Rightarrow>
          (case by_id ord_id (so_orderId so) (orders (db s)) of
             None \<Rightarrow> (Inl (PlainError ''TypeError''), s)
           | Some order \<Rightarrow>
               emitToRooms bound [UserRoom (ord_buyerId order), SellerRoom (so_sellerProfileId so), OrderRoom (so_orderId so)]
                 ''order.status.updated''
                 [(''orderId'', JId (so_orderId so)), (''sellerOrderId'', JId (so_id so)),
                  (''sellerOrderStatus'', JSellerOrderStatus (so_status so)),
                  (''aggregateOrderStatus'', JOrderStatus (ord_status order))] x s))"

definition dispatch_realtime :: "bool \<Rightarrow> OutboxEvent \<Rightarrow> sys \<Rightarrow> unit result \<times> sys" where
  "dispatch_realtime bound x s =
     (if ob_aggregateType x = ''Product'' \<and> (ob_eventType x = ''STOCK_CHANGED'' \<or> ob_eventType x = ''PRODUCT_UPDATED'')
      then emitProductStock bound x s
      else if ob_aggregateType x = ''Auction'' \<and> AUCTION_EVENT_NAMES (ob_eventType x) \<noteq> None then emitAuction bound x s
      else if ob_aggregateType x = ''SellerOrder'' \<and>
              (ob_eventType x = ''SELLER_ORDER_CREATED'' \<or> ob_eventType x = ''SELLER_ORDER_STATUS_CHANGED'' \<or>
               ob_eventType x = ''SELLER_ORDER_CANCELLED'')
      then emitOrderStatus bound x s
      else if ob_aggregateType x = ''Dispute'' then emitDispute bound x s
      else (Inr (), s))"

definition process_realtime :: "bool \<Rightarrow> OutboxEvent \<Rightarrow> sys \<Rightarrow> unit result \<times> sys" where
  "process_realtime bound x = consume ''realtime'' (ob_id x) (dispatch_realtime bound x)"

section \<open>Sockets\<close>

record SocketIdentity =
  si_userId :: uuid
  si_role :: UserRole
  si_sellerProfileId :: "uuid option"

record socket =
  sk_identity :: "SocketIdentity option"
  sk_rooms :: "room set"

text \<open>The token of the handshake: missing or empty, not a string, or a text.\<close>

datatype handshake_token = NoToken | NotAString | Token string

definition load_identity :: "uuid \<Rightarrow> database \<Rightarrow> SocketIdentity result" where
  "load_identity userId d =
     (case by_id us_id userId (users d) of
        None \<Rightarrow> Inl (NotFoundException ''User not found'')
      | Some user \<Rightarrow>
          if \<not> us_isActive user then Inl (PlainError ''inactive user'')
          else if us_role user = UserRole.SELLER
          then rbind (findProfileByUserId (us_id user) d)
                 (\<lambda>p. Inr \<lparr>si_userId = us_id user, si_role = us_role user, si_sellerProfileId = Some (sp_id p)\<rparr>)
          else Inr \<lparr>si_userId = us_id user, si_role = us_role user, si_sellerProfileId = None\<rparr>)"

definition authenticate :: "crypto \<Rightarrow> env \<Rightarrow> handshake_token \<Rightarrow> database \<Rightarrow> SocketIdentity option result" where
  "authenticate c e raw d =
     (case raw of
        NoToken \<Rightarrow> Inr None
      | NotAString \<Rightarrow> Inl (UnauthorizedException ''Invalid socket access token'')
      | Token t \<Rightarrow>
          if t = [] then Inr None
          else (case (case verifyAsync c (now e) t of
                        None \<Rightarrow> Inl (PlainError ''JsonWebTokenError'')
                      | Some payload \<Rightarrow> load_identity (jwt_sub payload) d) of
                  Inl err \<Rightarrow> Inl (UnauthorizedException ''Invalid or expired socket access token'')
                | Inr identity \<Rightarrow> Inr (Some identity)))"

text \<open>\<open>handleConnection\<close>: an authenticated socket joins the room of its user and of its store.\<close>

definition handleConnection :: "SocketIdentity option \<Rightarrow> socket" where
  "handleConnection identity =
     \<lparr>sk_identity = identity,
       sk_rooms = (case identity of
          None \<Rightarrow> {}
        | Some i \<Rightarrow> insert (UserRoom (si_userId i)) (case si_sellerProfileId i of None \<Rightarrow> {} | Some p \<Rightarrow> {SellerRoom p}))\<rparr>"

definition join :: "room \<Rightarrow> socket \<Rightarrow> string + socket" where
  "join room socket = Inr (socket\<lparr>sk_rooms := insert room (sk_rooms socket)\<rparr>)"

definition subscribeProduct :: "uuid option \<Rightarrow> database \<Rightarrow> socket \<Rightarrow> string + socket" where
  "subscribeProduct request d socket =
     (case request of
        None \<Rightarrow> Inl ''Invalid product id''
      | Some i \<Rightarrow>
          if \<not> (\<exists>p \<in> set (products d). pr_id p = i \<and> pr_isPublished p) then Inl ''Product not found''
          else join (ProductRoom i) socket)"

definition subscribeAuction :: "uuid option \<Rightarrow> database \<Rightarrow> socket \<Rightarrow> string + socket" where
  "subscribeAuction request d socket =
     (case request of
        None \<Rightarrow> Inl ''Invalid auction id''
      | Some i \<Rightarrow> if i \<notin> au_id ` set (auctions d) then Inl ''Auction not found'' else join (AuctionRoom i) socket)"

definition subscribeOrder :: "uuid option \<Rightarrow> database \<Rightarrow> socket \<Rightarrow> string + socket" where
  "subscribeOrder request d socket =
     (case sk_identity socket of
        None \<Rightarrow> Inl ''Authentication required''
      | Some identity \<Rightarrow>
          (case request of
             None \<Rightarrow> Inl ''Invalid order id''
           | Some i \<Rightarrow>
               if \<not> (\<exists>x \<in> set (orders d). ord_id x = i \<and> (si_role identity = ADMIN \<or> ord_buyerId x = si_userId identity))
               then Inl ''Order not found''
               else join (OrderRoom i) socket))"

definition unsubscribe :: "room \<Rightarrow> socket \<Rightarrow> socket" where
  "unsubscribe room socket = socket\<lparr>sk_rooms := sk_rooms socket - {room}\<rparr>"

section \<open>The gateway\<close>

text \<open>
  The connections of one instance by the id of the socket, and its gauge \<open>websocket_connections_current\<close>,
  which \<open>incrementGauge\<close> keeps from going below zero.
\<close>

record gateway =
  gw_sys :: sys
  gw_net :: "nat \<rightharpoonup> socket"
  gw_gauge :: int

definition incrementGauge :: "int \<Rightarrow> int \<Rightarrow> int" where
  "incrementGauge amount gauge = max 0 (gauge + amount)"

text \<open>The middleware of \<open>afterInit\<close>, then \<open>handleConnection\<close> for a connection it lets through.\<close>

definition connect :: "crypto \<Rightarrow> env \<Rightarrow> handshake_token \<Rightarrow> nat \<Rightarrow> gateway \<Rightarrow> gateway" where
  "connect c e raw k g =
     (case authenticate c e raw (db (gw_sys g)) of
        Inl err \<Rightarrow> g\<lparr>gw_sys := increment ''websocket_errors_total'' (gw_sys g)\<rparr>
      | Inr identity \<Rightarrow>
          g\<lparr>gw_sys := increment ''websocket_connections_total'' (gw_sys g),
            gw_net := (gw_net g)(k \<mapsto> handleConnection identity),
            gw_gauge := incrementGauge 1 (gw_gauge g)\<rparr>)"

definition handleDisconnect :: "nat \<Rightarrow> gateway \<Rightarrow> gateway" where
  "handleDisconnect k g =
     g\<lparr>gw_sys := increment ''websocket_disconnects_total'' (gw_sys g), gw_net := (gw_net g)(k := None),
       gw_gauge := incrementGauge (- 1) (gw_gauge g)\<rparr>"

definition logSubscription :: "nat \<Rightarrow> string + socket \<Rightarrow> gateway \<Rightarrow> gateway" where
  "logSubscription k r g =
     (case r of
        Inl err \<Rightarrow> g\<lparr>gw_sys := increment ''websocket_errors_total'' (gw_sys g)\<rparr>
      | Inr sk \<Rightarrow> g\<lparr>gw_net := (gw_net g)(k \<mapsto> sk)\<rparr>)"

section \<open>Handled once\<close>

lemma emitToRooms_db [simp]: "db (snd (emitToRooms bound rooms ev payload x s)) = db s"
  by (simp add: emitToRooms_def)

lemma emitters_db [simp]:
  "db (snd (emitDispute bound x s)) = db s" "db (snd (emitProductStock bound x s)) = db s"
  "db (snd (emitAuction bound x s)) = db s" "db (snd (emitOrderStatus bound x s)) = db s"
  by (simp_all add: emitDispute_def emitProductStock_def emitAuction_def emitOrderStatus_def Let_def split: option.split sum.split)

lemma dispatch_realtime_db [simp]: "db (snd (dispatch_realtime bound x s)) = db s"
  by (simp add: dispatch_realtime_def)

interpretation realtime: dedup_consumer
  "\<lambda>x s. alreadyProcessed ''realtime'' (ob_id x) (db s)" "process_realtime bound"
proof
  fix x y :: OutboxEvent and s s' :: sys
  show "alreadyProcessed ''realtime'' (ob_id x) (db s) \<Longrightarrow> process_realtime bound x s = (Inr (), s)"
    by (simp add: process_realtime_def consume_skips)
  show "process_realtime bound x s = (Inr (), s') \<Longrightarrow> alreadyProcessed ''realtime'' (ob_id x) (db s')"
    by (auto simp: process_realtime_def dest: consume_marks)
  show "alreadyProcessed ''realtime'' (ob_id y) (db s) \<Longrightarrow>
      alreadyProcessed ''realtime'' (ob_id y) (db (snd (process_realtime bound x s)))"
    by (simp add: process_realtime_def consume_keeps)
qed

section \<open>Who listens\<close>

text \<open>
  Connections come and go, sockets join and leave rooms, and the tables change between: no order changes
  its buyer, no profile its user.
\<close>

definition owners_kept :: "database \<Rightarrow> database \<Rightarrow> bool" where
  "owners_kept d d' \<longleftrightarrow>
     (\<lambda>x. (ord_id x, ord_buyerId x)) ` set (orders d) \<subseteq> (\<lambda>x. (ord_id x, ord_buyerId x)) ` set (orders d') \<and>
     (\<lambda>p. (sp_id p, sp_userId p)) ` set (seller_profiles d) \<subseteq> (\<lambda>p. (sp_id p, sp_userId p)) ` set (seller_profiles d')"

inductive gateway_step :: "gateway \<Rightarrow> gateway \<Rightarrow> bool" where
  elsewhere: "owners_kept (db (gw_sys g)) (db s') \<Longrightarrow> gateway_step g (g\<lparr>gw_sys := s'\<rparr>)"
| connected: "gw_net g k = None \<Longrightarrow> gateway_step g (connect c e raw k g)"
| disconnected: "gw_net g k = Some sk \<Longrightarrow> gateway_step g (handleDisconnect k g)"
| product: "gw_net g k = Some sk \<Longrightarrow> gateway_step g (logSubscription k (subscribeProduct r (db (gw_sys g)) sk) g)"
| auction: "gw_net g k = Some sk \<Longrightarrow> gateway_step g (logSubscription k (subscribeAuction r (db (gw_sys g)) sk) g)"
| order: "gw_net g k = Some sk \<Longrightarrow> gateway_step g (logSubscription k (subscribeOrder r (db (gw_sys g)) sk) g)"
| unsubscribed: "gw_net g k = Some sk \<Longrightarrow> gateway_step g (g\<lparr>gw_net := (gw_net g)(k \<mapsto> unsubscribe room sk)\<rparr>)"

definition owns_store :: "database \<Rightarrow> SocketIdentity \<Rightarrow> uuid \<Rightarrow> bool" where
  "owns_store d i p \<longleftrightarrow> (p, si_userId i) \<in> (\<lambda>p. (sp_id p, sp_userId p)) ` set (seller_profiles d)"

definition bought :: "database \<Rightarrow> SocketIdentity \<Rightarrow> uuid \<Rightarrow> bool" where
  "bought d i order \<longleftrightarrow> (order, si_userId i) \<in> (\<lambda>x. (ord_id x, ord_buyerId x)) ` set (orders d)"

fun entitled :: "database \<Rightarrow> SocketIdentity option \<Rightarrow> room \<Rightarrow> bool" where
  "entitled d identity (UserRoom u) = (\<exists>i \<in> set_option identity. si_userId i = u)"
| "entitled d identity (SellerRoom p) = (\<exists>i \<in> set_option identity. owns_store d i p)"
| "entitled d identity (OrderRoom x) = (\<exists>i \<in> set_option identity. si_role i = ADMIN \<or> bought d i x)"
| "entitled d identity _ = True"

definition socket_ok :: "database \<Rightarrow> socket \<Rightarrow> bool" where
  "socket_ok d sk \<longleftrightarrow> (\<forall>room \<in> sk_rooms sk. entitled d (sk_identity sk) room)"

definition gateway_ok :: "gateway \<Rightarrow> bool" where
  "gateway_ok g \<longleftrightarrow> finite (dom (gw_net g)) \<and> gw_gauge g = int (card (dom (gw_net g))) \<and>
     (\<forall>k sk. gw_net g k = Some sk \<longrightarrow> socket_ok (db (gw_sys g)) sk)"

lemma entitled_mono: "owners_kept d d' \<Longrightarrow> entitled d i room \<Longrightarrow> entitled d' i room"
  by (cases room) (auto simp: owners_kept_def owns_store_def bought_def)

lemma authenticated_owns:
  assumes "authenticate c e raw d = Inr (Some i)" "si_sellerProfileId i = Some p"
  shows "owns_store d i p"
proof -
  obtain u where "load_identity u d = Inr i"
    using assms(1) by (auto simp: authenticate_def split: handshake_token.splits if_splits option.splits sum.splits)
  then show ?thesis
    using assms(2)
    by (auto simp: load_identity_def findProfileByUserId_def owns_store_def rbind_Inr_iff split: option.splits if_splits
        dest!: find_SomeD)
qed

lemma connection_ok: "authenticate c e raw d = Inr identity \<Longrightarrow> socket_ok d (handleConnection identity)"
  using authenticated_owns by (auto simp: socket_ok_def handleConnection_def split: option.splits)

lemma bought_entitled:
  "y \<in> set (orders d) \<Longrightarrow> si_role i = ADMIN \<or> ord_buyerId y = si_userId i \<Longrightarrow> entitled d (Some i) (OrderRoom (ord_id y))"
  by (force simp: bought_def image_iff)

lemma socket_ok_join:
  "socket_ok d sk \<Longrightarrow> entitled d (sk_identity sk) room \<Longrightarrow> join room sk = Inr sk' \<Longrightarrow> socket_ok d sk'"
  by (auto simp: socket_ok_def join_def)

lemma subscriptions_ok:
  assumes ok: "socket_ok d sk"
  shows "subscribeProduct r d sk = Inr sk' \<Longrightarrow> socket_ok d sk'" "subscribeAuction r d sk = Inr sk' \<Longrightarrow> socket_ok d sk'"
    "subscribeOrder r d sk = Inr sk' \<Longrightarrow> socket_ok d sk'" "socket_ok d (unsubscribe room sk)"
proof -
  show "socket_ok d sk'" if sub: "subscribeProduct r d sk = Inr sk'"
  proof -
    obtain i where "join (ProductRoom i) sk = Inr sk'"
      using sub by (auto simp: subscribeProduct_def split: option.splits if_splits)
    then show ?thesis using socket_ok_join [OF ok, of "ProductRoom i"] by simp
  qed
  show "socket_ok d sk'" if sub: "subscribeAuction r d sk = Inr sk'"
  proof -
    obtain i where "join (AuctionRoom i) sk = Inr sk'"
      using sub by (auto simp: subscribeAuction_def split: option.splits if_splits)
    then show ?thesis using socket_ok_join [OF ok, of "AuctionRoom i"] by simp
  qed
  show "socket_ok d sk'" if sub: "subscribeOrder r d sk = Inr sk'"
  proof -
    obtain i y where "sk_identity sk = Some i" "y \<in> set (orders d)" "si_role i = ADMIN \<or> ord_buyerId y = si_userId i"
      "join (OrderRoom (ord_id y)) sk = Inr sk'"
      using sub by (auto simp: subscribeOrder_def split: option.splits if_splits)
    then show ?thesis using socket_ok_join [OF ok] bought_entitled by metis
  qed
  show "socket_ok d (unsubscribe room sk)" using ok by (simp add: socket_ok_def unsubscribe_def)
qed

lemma logSubscription_ok:
  assumes "gateway_ok g" "gw_net g k = Some sk" "\<And>sk'. r = Inr sk' \<Longrightarrow> socket_ok (db (gw_sys g)) sk'"
  shows "gateway_ok (logSubscription k r g)"
proof (cases r)
  case (Inr sk')
  have "dom ((gw_net g)(k \<mapsto> sk')) = dom (gw_net g)" using assms(2) by auto
  then show ?thesis using assms(1) assms(3) [OF Inr] Inr by (simp add: gateway_ok_def logSubscription_def)
qed (use assms(1) in \<open>simp add: gateway_ok_def logSubscription_def\<close>)

lemma gateway_ok_step: "gateway_step g g' \<Longrightarrow> gateway_ok g \<Longrightarrow> gateway_ok g'"
proof (induction rule: gateway_step.induct)
  case (elsewhere g s')
  then show ?case using entitled_mono by (auto simp: gateway_ok_def socket_ok_def)
next
  case (connected g k c e raw)
  then have "k \<notin> dom (gw_net g)" by (simp add: domIff)
  with connected show ?case
    by (cases "authenticate c e raw (db (gw_sys g))")
       (simp_all add: gateway_ok_def connect_def incrementGauge_def connection_ok)
next
  case (disconnected g k sk)
  then have k: "k \<in> dom (gw_net g)" "finite (dom (gw_net g))" "gw_gauge g = int (card (dom (gw_net g)))"
      "\<forall>j sk. gw_net g j = Some sk \<longrightarrow> socket_ok (db (gw_sys g)) sk"
    by (simp_all add: domI gateway_ok_def)
  have "incrementGauge (- 1) (gw_gauge g) = int (card (dom (gw_net g) - {k}))"
    using k(1-3) by (simp add: incrementGauge_def card_gt_0_iff)
  then show ?case using k(2,4) by (simp add: gateway_ok_def handleDisconnect_def)
next
  case (unsubscribed g k sk room)
  then have "socket_ok (db (gw_sys g)) (unsubscribe room sk)"
    using subscriptions_ok(4) by (simp add: gateway_ok_def)
  then show ?case using logSubscription_ok [of g k sk "Inr (unsubscribe room sk)"] unsubscribed
    by (simp add: logSubscription_def)
next
  case (product g k sk r)
  then have "socket_ok (db (gw_sys g)) sk" by (simp add: gateway_ok_def)
  then show ?case using logSubscription_ok [OF product(2,1)] subscriptions_ok(1) by blast
next
  case (auction g k sk r)
  then have "socket_ok (db (gw_sys g)) sk" by (simp add: gateway_ok_def)
  then show ?case using logSubscription_ok [OF auction(2,1)] subscriptions_ok(2) by blast
next
  case (order g k sk r)
  then have "socket_ok (db (gw_sys g)) sk" by (simp add: gateway_ok_def)
  then show ?case using logSubscription_ok [OF order(2,1)] subscriptions_ok(3) by blast
qed

definition fresh_gateway :: "sys \<Rightarrow> gateway" where
  "fresh_gateway s = \<lparr>gw_sys = s, gw_net = Map.empty, gw_gauge = 0\<rparr>"

lemma gateway_ok_reachable: "gateway_step\<^sup>*\<^sup>* (fresh_gateway s) g \<Longrightarrow> gateway_ok g"
proof (induction rule: rtranclp_induct)
  case base
  show ?case by (simp add: gateway_ok_def fresh_gateway_def)
next
  case (step g h)
  then show ?case by (blast intro: gateway_ok_step)
qed

text \<open>The gauge is the number of open connections.\<close>

lemma gauge_counts_connections: "gateway_step\<^sup>*\<^sup>* (fresh_gateway s) g \<Longrightarrow> gw_gauge g = int (card (dom (gw_net g)))"
  using gateway_ok_reachable by (auto simp: gateway_ok_def)

text \<open>The rooms an event is broadcast to.\<close>

definition broadcasts :: "effect list \<Rightarrow> room set" where
  "broadcasts es = (\<Union>x \<in> set es. case x of EmitToRooms rs ev p c i \<Rightarrow> set rs | _ \<Rightarrow> {})"

definition new_broadcasts :: "bool \<Rightarrow> OutboxEvent \<Rightarrow> sys \<Rightarrow> room set" where
  "new_broadcasts bound x s = broadcasts (drop (length (effects s)) (effects (snd (process_realtime bound x s))))"

lemma set_unique_rooms [simp]: "set (unique_rooms rs) = set rs"
  by (simp add: unique_rooms_def)

lemma effects_markProcessed [simp]: "effects (markProcessed c i s) = effects s"
  by (simp add: markProcessed_def)

lemma new_broadcasts_dispatch:
  "new_broadcasts bound x s \<subseteq> broadcasts (drop (length (effects s)) (effects (snd (dispatch_realtime bound x s))))"
proof (cases "alreadyProcessed ''realtime'' (ob_id x) (db s)")
  case False
  then show ?thesis
    by (cases "dispatch_realtime bound x s"; cases "fst (dispatch_realtime bound x s)")
       (auto simp: new_broadcasts_def process_realtime_def consume_def recordQueueJob_def)
qed (simp add: new_broadcasts_def process_realtime_def consume_skips broadcasts_def)

text \<open>
  C31: Nobody else listens. Whatever sockets connected, joined, left and disconnected, a socket that receives
  a status change of a seller order belongs to the buyer, to the user of that seller's store, or to an
  admin; one that receives an update of a dispute belongs to its customer or to the user of the store.
\<close>
theorem private_updates_stay_private:
  assumes "gateway_step\<^sup>*\<^sup>* (fresh_gateway s0) g" and s: "s = gw_sys g" and sk: "gw_net g k = Some sk"
    and "room \<in> sk_rooms sk" and room: "room \<in> new_broadcasts bound x s"
    and ids: "distinct (map ord_id (orders (db s)))" and x: "ob_aggregateType x = ''SellerOrder'' \<or> ob_aggregateType x = ''Dispute''"
  shows "\<exists>i. sk_identity sk = Some i \<and>
     (if ob_aggregateType x = ''SellerOrder''
      then \<exists>so ord. by_id so_id (ob_aggregateId x) (seller_orders (db s)) = Some so \<and>
             by_id ord_id (so_orderId so) (orders (db s)) = Some ord \<and>
             (si_role i = ADMIN \<or> si_userId i = ord_buyerId ord \<or> owns_store (db s) i (so_sellerProfileId so))
      else \<exists>dp. by_id dp_id (ob_aggregateId x) (disputes (db s)) = Some dp \<and>
             (si_userId i = dp_customerId dp \<or> owns_store (db s) i (dp_sellerProfileId dp)))"
proof -
  have ent: "entitled (db s) (sk_identity sk) room"
    using gateway_ok_reachable [OF assms(1)] sk s assms(4) by (auto simp: gateway_ok_def socket_ok_def)
  have r: "room \<in> broadcasts (drop (length (effects s)) (effects (snd (dispatch_realtime bound x s))))"
    using new_broadcasts_dispatch room by blast
  show ?thesis
  proof (cases "ob_aggregateType x = ''SellerOrder''")
    case True
    then have "room \<in> broadcasts (drop (length (effects s)) (effects (snd (emitOrderStatus bound x s))))"
      using r by (auto simp: dispatch_realtime_def broadcasts_def split: if_splits)
    then obtain so ord where so: "by_id so_id (ob_aggregateId x) (seller_orders (db s)) = Some so"
      "by_id ord_id (so_orderId so) (orders (db s)) = Some ord"
      "room = UserRoom (ord_buyerId ord) \<or> room = SellerRoom (so_sellerProfileId so) \<or> room = OrderRoom (so_orderId so)"
      by (auto simp: emitOrderStatus_def emitToRooms_def broadcasts_def split: option.splits if_splits)
    have "ord_buyerId y = ord_buyerId ord" if "y \<in> set (orders (db s))" "ord_id y = so_orderId so" for y
      using by_id_unique [OF ids that(1)] that(2) so(2) by simp
    then show ?thesis using ent so True by (fastforce simp: bought_def)
  next
    case False
    then have "room \<in> broadcasts (drop (length (effects s)) (effects (snd (emitDispute bound x s))))"
      using r x by (auto simp: dispatch_realtime_def broadcasts_def split: if_splits)
    then obtain dp where "by_id dp_id (ob_aggregateId x) (disputes (db s)) = Some dp"
      "room = UserRoom (dp_customerId dp) \<or> room = SellerRoom (dp_sellerProfileId dp)"
      by (auto simp: emitDispute_def emitToRooms_def broadcasts_def split: option.splits if_splits)
    then show ?thesis using ent False by auto
  qed
qed

section \<open>A concrete connection\<close>

definition socket_crypto :: crypto where
  "socket_crypto = plain_crypto\<lparr>verifyAsync := (\<lambda>at t. Some \<lparr>jwt_sub = 8, jwt_email = t, jwt_role = UserRole.CUSTOMER\<rparr>)\<rparr>"

definition live_sys :: sys where
  "live_sys = start_sys (order_db\<lparr>users := [jane\<lparr>us_id := 8\<rparr>]\<rparr>)"

definition buyer_identity :: SocketIdentity where
  "buyer_identity = \<lparr>si_userId = 8, si_role = UserRole.CUSTOMER, si_sellerProfileId = None\<rparr>"

definition shipped_event :: OutboxEvent where
  "shipped_event = \<lparr>ob_id = 71, ob_eventType = ''SELLER_ORDER_STATUS_CHANGED'', ob_aggregateType = ''SellerOrder'',
     ob_aggregateId = 31, ob_payload = [], ob_correlationId = 0, ob_publishedAt = None,
     ob_status = OutboxStatus.PUBLISHED, ob_attempts = 0, ob_lastError = None\<rparr>"

theorem private_updates_stay_private_witness:
  "\<exists>i. sk_identity (handleConnection (Some buyer_identity)) = Some i \<and> si_userId i = 8"
proof -
  let ?sk = "handleConnection (Some buyer_identity)"
  have "authenticate socket_crypto (sample_env 5) (Token ''jwt'') (db live_sys) = Inr (Some buyer_identity)" by code_simp
  then have net: "gw_net (connect socket_crypto (sample_env 5) (Token ''jwt'') 1 (fresh_gateway live_sys)) 1 = Some ?sk"
    "db (gw_sys (connect socket_crypto (sample_env 5) (Token ''jwt'') 1 (fresh_gateway live_sys))) = db live_sys"
    by (simp_all add: connect_def fresh_gateway_def)
  have run: "gateway_step\<^sup>*\<^sup>* (fresh_gateway live_sys)
      (connect socket_crypto (sample_env 5) (Token ''jwt'') 1 (fresh_gateway live_sys))"
    by (intro r_into_rtranclp connected) (simp add: fresh_gateway_def)
  have "UserRoom 8 \<in> sk_rooms ?sk" by (simp add: handleConnection_def buyer_identity_def)
  moreover have "UserRoom 8 \<in> new_broadcasts True shipped_event
      (gw_sys (connect socket_crypto (sample_env 5) (Token ''jwt'') 1 (fresh_gateway live_sys)))" by code_simp
  moreover have "distinct (map ord_id (orders (db live_sys)))" by code_simp
  moreover have "by_id ord_id 30 (orders (db live_sys)) = Some ordered_order"
    "by_id so_id (ob_aggregateId shipped_event) (seller_orders (db live_sys)) = Some ordered_so"
    "seller_profiles (db live_sys) = []" "si_role buyer_identity = UserRole.CUSTOMER" "so_orderId ordered_so = 30"
    "ord_buyerId ordered_order = 8" "ob_aggregateType shipped_event = ''SellerOrder''" by code_simp+
  ultimately show ?thesis
    using private_updates_stay_private [OF run refl net(1), of "UserRoom 8" True shipped_event] net(2)
    by (auto simp: handleConnection_def owns_store_def)
qed

end
