(* ===== verification/Doubles.thy ===== *)
theory Doubles
  imports Complex_Main Money
begin

text \<open>
  JavaScript numbers on amounts of money: \<open>Number\<close>, \<open>Math.round\<close> and \<open>toFixed(2)\<close>. \<open>fl\<close> is the rounding of
  the exact result of an operation to the nearest double, of which \<open>ieee\<close> states what is used; \<open>Number(text)\<close> is
  modelled on the texts of amounts.
\<close>

section \<open>Doubles\<close>

definition ieee :: "(rat \<Rightarrow> rat) \<Rightarrow> bool" where
  "ieee fl \<longleftrightarrow> (\<forall>x. x = 0 \<or> 1 / 1000 \<le> \<bar>x\<bar> \<and> \<bar>x\<bar> \<le> 10 ^ 15 \<longrightarrow> \<bar>fl x - x\<bar> \<le> \<bar>x\<bar> / 2 ^ 53)"

definition math_round :: "rat \<Rightarrow> int" where
  "math_round x = \<lfloor>x + 1 / 2\<rfloor>"

definition js_number :: "(rat \<Rightarrow> rat) \<Rightarrow> string \<Rightarrow> rat" where
  "js_number fl value = fl (of_int (cents value) / 100)"

text \<open>\<open>toFixed(2)\<close>: the nearest multiple of a hundredth of the exact value of the double, the larger of two.\<close>

definition toFixed2 :: "rat \<Rightarrow> string" where
  "toFixed2 x = (if x < 0 then formatCentsToMoney (- math_round (- x * 100)) else formatCentsToMoney (math_round (x * 100)))"

section \<open>Doubles are good enough for cents\<close>

lemma math_round_near: "\<bar>x - of_int c\<bar> < 1 / 2 \<Longrightarrow> math_round x = c"
  unfolding math_round_def by (rule floor_unique) (auto simp: abs_if split: if_splits)

lemma fl_hundredth:
  assumes "ieee fl" "\<bar>c\<bar> \<le> 10 ^ 12"
  shows "\<bar>fl (of_int c / 100) - of_int c / 100\<bar> \<le> \<bar>of_int c\<bar> / 100 / 2 ^ 53"
proof -
  have "\<bar>of_int c :: rat\<bar> \<le> 10 ^ 12" using assms(2) by (metis of_int_abs of_int_le_iff of_int_numeral of_int_power)
  moreover have "1 \<le> \<bar>of_int c :: rat\<bar>" if "c \<noteq> 0" using that by (metis int_one_le_iff_zero_less of_int_1_le_iff of_int_abs zero_less_abs_iff)
  ultimately have "of_int c / 100 = (0 :: rat) \<or> 1 / 1000 \<le> \<bar>of_int c / 100 :: rat\<bar> \<and> \<bar>of_int c / 100 :: rat\<bar> \<le> 10 ^ 15"
    by (cases "c = 0") auto
  then show ?thesis using assms(1) [unfolded ieee_def, rule_format, of "of_int c / 100"] by (simp add: abs_divide)
qed

lemma parse_exact:
  assumes fl: "ieee fl" and c: "\<bar>c\<bar> \<le> 10 ^ 12"
  shows "math_round (fl (fl (of_int c / 100) * 100)) = c"
proof -
  define z where "z = fl (of_int c / 100) * 100"
  have cb: "\<bar>of_int c :: rat\<bar> \<le> 10 ^ 12" using c by (metis of_int_abs of_int_le_iff of_int_numeral of_int_power)
  have z: "\<bar>z - of_int c\<bar> \<le> \<bar>of_int c\<bar> / 2 ^ 53"
    using fl_hundredth [OF fl c] unfolding z_def by (simp add: abs_le_iff field_simps)
  have zc: "\<bar>z - of_int c\<bar> < 1 / 4" using z cb by simp
  have "\<bar>fl z - z\<bar> < 1 / 4"
  proof (cases "c = 0")
    case True
    then have "z = 0" using z by simp
    then show ?thesis using fl [unfolded ieee_def, rule_format, of 0] by simp
  next
    case False
    then have "1 \<le> \<bar>of_int c :: rat\<bar>"
      by (metis int_one_le_iff_zero_less of_int_1_le_iff of_int_abs zero_less_abs_iff)
    then have "1 / 1000 \<le> \<bar>z\<bar>" "\<bar>z\<bar> \<le> 10 ^ 12 + 1" using zc cb by (auto simp: abs_if split: if_splits)
    then have "\<bar>fl z - z\<bar> \<le> \<bar>z\<bar> / 2 ^ 53" using fl [unfolded ieee_def, rule_format, of z] by simp
    then show ?thesis using \<open>\<bar>z\<bar> \<le> 10 ^ 12 + 1\<close> by simp
  qed
  with zc have "\<bar>fl z - of_int c\<bar> < 1 / 2" by (simp add: abs_if split: if_splits)
  then show ?thesis unfolding z_def by (rule math_round_near)
qed

lemma toFixed2_exact:
  assumes fl: "ieee fl" and c: "0 \<le> c" "c \<le> 10 ^ 12"
  shows "toFixed2 (fl (of_int c / 100)) = formatCentsToMoney c"
proof -
  define x where "x = fl (of_int c / 100)"
  have cb: "\<bar>of_int c :: rat\<bar> \<le> 10 ^ 12" using c by (metis abs_of_nonneg of_int_abs of_int_le_iff of_int_numeral of_int_power)
  have x: "\<bar>x - of_int c / 100\<bar> \<le> \<bar>of_int c\<bar> / 100 / 2 ^ 53" using fl_hundredth [OF fl, of c] c unfolding x_def by simp
  have "\<not> x < 0" using x c(1) by (auto simp: abs_if field_simps split: if_splits)
  moreover have "\<bar>x * 100 - of_int c\<bar> < 1 / 2" using x cb by (simp add: abs_if field_simps split: if_splits)
  then have "math_round (x * 100) = c" by (rule math_round_near)
  ultimately show ?thesis by (simp add: toFixed2_def x_def)
qed

end
