(* ===== verification/Web_Cart.thy ===== *)
theory Web_Cart
  imports Doubles Cart
begin

text \<open>
  The cart of the web client (\<open>src/frontend/src/features/cart/hooks.ts\<close>): a change of a quantity, a
  removal and clearing show a guess at once and put the cache back if the request fails. The client
  computes with doubles (theory Doubles); the products and sums of whole cents stay below \<open>2 ^ 53\<close> and are
  exact.
\<close>

definition parseCents :: "(rat \<Rightarrow> rat) \<Rightarrow> string \<Rightarrow> int" where
  "parseCents fl value = math_round (fl (js_number fl value * 100))"

definition formatCents :: "(rat \<Rightarrow> rat) \<Rightarrow> int \<Rightarrow> string" where
  "formatCents fl c = toFixed2 (fl (of_int c / 100))"

section \<open>The optimistic view\<close>

definition recomputeTotals :: "(rat \<Rightarrow> rat) \<Rightarrow> CartView \<Rightarrow> CartView" where
  "recomputeTotals fl view =
     (let sellers = filter (\<lambda>g. cg_items g \<noteq> [])
            (map (\<lambda>g. g\<lparr>cg_subtotal := formatCents fl (foldl (\<lambda>sum i. sum + parseCents fl (cv_lineTotal i)) 0 (cg_items g))\<rparr>)
               (cw_sellers view))
      in \<lparr>cw_sellers = sellers,
          cw_itemCount = foldl (\<lambda>count g. count + foldl (\<lambda>sum i. sum + cv_quantity i) 0 (cg_items g)) 0 sellers,
          cw_totalAmount = formatCents fl (foldl (\<lambda>sum g. sum + parseCents fl (cg_subtotal g)) 0 sellers)\<rparr>)"

definition patch_item :: "(rat \<Rightarrow> rat) \<Rightarrow> uuid \<Rightarrow> int \<Rightarrow> CartItemView \<Rightarrow> CartItemView" where
  "patch_item fl productId quantity item =
     (if cv_productId item = productId
      then item\<lparr>cv_quantity := quantity, cv_lineTotal := formatCents fl (parseCents fl (cv_unitPrice item) * quantity)\<rparr>
      else item)"

definition map_items :: "(CartItemView list \<Rightarrow> CartItemView list) \<Rightarrow> CartView \<Rightarrow> CartView" where
  "map_items f view = view\<lparr>cw_sellers := map (\<lambda>g. g\<lparr>cg_items := f (cg_items g)\<rparr>) (cw_sellers view)\<rparr>"

definition optimistic_quantity :: "(rat \<Rightarrow> rat) \<Rightarrow> uuid \<Rightarrow> int \<Rightarrow> CartView \<Rightarrow> CartView" where
  "optimistic_quantity fl productId quantity view =
     recomputeTotals fl (map_items (map (patch_item fl productId quantity)) view)"

definition optimistic_removal :: "(rat \<Rightarrow> rat) \<Rightarrow> uuid \<Rightarrow> CartView \<Rightarrow> CartView" where
  "optimistic_removal fl productId view =
     recomputeTotals fl (map_items (filter (\<lambda>item. cv_productId item \<noteq> productId)) view)"

definition cleared_view :: CartView where
  "cleared_view = \<lparr>cw_sellers = [], cw_itemCount = 0, cw_totalAmount = ''0.00''\<rparr>"

text \<open>
  The three callbacks on the cached view: \<open>onMutate\<close> returns the snapshot and shows the guess (only clearing
  shows one where there was no view), \<open>onError\<close> puts the snapshot back.
\<close>

definition onMutate :: "(CartView \<Rightarrow> CartView) \<Rightarrow> CartView option \<Rightarrow> CartView option \<times> CartView option" where
  "onMutate guess cache = (cache, map_option guess cache)"

definition onMutate_clear :: "CartView option \<Rightarrow> CartView option \<times> CartView option" where
  "onMutate_clear cache = (cache, Some cleared_view)"

definition onError :: "CartView option \<Rightarrow> CartView option \<Rightarrow> CartView option" where
  "onError previous cache = (case previous of None \<Rightarrow> cache | Some v \<Rightarrow> Some v)"

section \<open>Cents of the client\<close>

lemma format_exact: "ieee fl \<Longrightarrow> 0 \<le> c \<Longrightarrow> c \<le> 10 ^ 12 \<Longrightarrow> formatCents fl c = formatCentsToMoney c"
  by (simp add: formatCents_def toFixed2_exact)

lemma parseCents_exact: "ieee fl \<Longrightarrow> \<bar>cents v\<bar> \<le> 10 ^ 12 \<Longrightarrow> parseCents fl v = cents v"
  by (simp add: parseCents_def js_number_def parse_exact)

section \<open>The server's view as a function of its lines\<close>

definition group_view :: "uuid \<times> (string \<times> CartItemView) list \<Rightarrow> CartSellerGroup" where
  "group_view g =
     \<lparr>cg_sellerProfileId = fst g, cg_storeName = (case snd g of [] \<Rightarrow> [] | x # xs \<Rightarrow> fst x),
      cg_items = map snd (snd g),
      cg_subtotal = formatCentsToMoney (sum_list (map (\<lambda>x. cents (cv_lineTotal (snd x))) (snd g)))\<rparr>"

definition view_of :: "(uuid \<times> (string \<times> CartItemView) list) list \<Rightarrow> CartView" where
  "view_of gs =
     \<lparr>cw_sellers = map group_view gs,
      cw_itemCount = sum_list (map (\<lambda>g. sum_list (map (\<lambda>x. cv_quantity (snd x)) (snd g))) gs),
      cw_totalAmount = formatCentsToMoney (sum_list (map (\<lambda>g. sum_list (map (\<lambda>x. cents (cv_lineTotal (snd x))) (snd g))) gs))\<rparr>"

definition money_groups :: "(uuid \<times> (string \<times> CartItemView) list) list \<Rightarrow> bool" where
  "money_groups gs \<longleftrightarrow> (\<forall>g \<in> set gs. \<forall>x \<in> set (snd g). is_money (cv_lineTotal (snd x)))"

lemma view_of_groups:
  assumes "money_groups gs"
  shows "rbind (rmap cart_group gs) cart_view = Inr (view_of gs)"
proof -
  have "cart_group g = Inr (group_view g)" if "g \<in> set gs" for g
  proof -
    have "rmap (\<lambda>x. parseMoneyToCents (cv_lineTotal (snd x))) (snd g) = Inr (map (\<lambda>x. cents (cv_lineTotal (snd x))) (snd g))"
      using assms that by (intro rmap_Inr) (auto simp: money_groups_def is_money_cents)
    then show ?thesis by (simp add: cart_group_def group_view_def sumCents_def foldl_sum)
  qed
  then have "rmap cart_group gs = Inr (map group_view gs)" by (rule rmap_Inr)
  moreover have "rmap (\<lambda>g. parseMoneyToCents (cg_subtotal g)) (map group_view gs)
      = Inr (map (\<lambda>g. cents (cg_subtotal g)) (map group_view gs))"
    by (rule rmap_Inr) (auto simp: group_view_def)
  ultimately show ?thesis
    by (simp add: cart_view_def view_of_def foldl_sum sumCents_def comp_def group_view_def)
qed

lemma mem_cart_groups:
  "(\<exists>g \<in> set (cart_groups ls). fst g = k \<and> y \<in> set (snd g)) \<longleftrightarrow> (k, y) \<in> set ls"
proof -
  have "(\<exists>g \<in> set (foldl (\<lambda>gs x. add_to_group (fst x) (snd x) gs) gs ls). fst g = k \<and> y \<in> set (snd g))
     \<longleftrightarrow> (\<exists>g \<in> set gs. fst g = k \<and> y \<in> set (snd g)) \<or> (k, y) \<in> set ls" for gs
    by (induction ls arbitrary: gs) (auto simp: mem_add_to_group)
  from this [of "[]"] show ?thesis by (simp add: cart_groups_def)
qed

lemma rmap_set: "rmap f xs = Inr ys \<Longrightarrow> y \<in> set ys \<Longrightarrow> \<exists>x \<in> set xs. f x = Inr y"
  by (induction xs arbitrary: ys) (auto simp: rbind_Inr_iff)

lemma cart_line_money:
  "cart_line d x = Inr l \<Longrightarrow> is_money (cv_lineTotal (snd (snd l)))"
  by (auto simp: cart_line_def cart_item_view_def rbind_Inr_iff split: option.splits)

lemma buildView_lines:
  assumes "rmap (cart_line d) (purchasable_items c d) = Inr ls"
  shows "buildView c d = Inr (view_of (cart_groups ls)) \<and> money_groups (cart_groups ls)"
proof -
  have "is_money (cv_lineTotal (snd (snd l)))" if "l \<in> set ls" for l
    using that rmap_set [OF assms] cart_line_money by metis
  then have "money_groups (cart_groups ls)"
    unfolding money_groups_def using mem_cart_groups [of ls] by (metis snd_conv)
  then show ?thesis using assms view_of_groups by (simp add: buildView_def)
qed

section \<open>A change of quantity on the server\<close>

definition server_patch :: "uuid \<Rightarrow> int \<Rightarrow> CartItemView \<Rightarrow> CartItemView" where
  "server_patch p q i =
     (if cv_productId i = p
      then i\<lparr>cv_quantity := q, cv_lineTotal := formatCentsToMoney (cents (cv_unitPrice i) * q)\<rparr> else i)"

abbreviation on_views :: "(CartItemView \<Rightarrow> CartItemView) \<Rightarrow> uuid \<times> (string \<times> CartItemView) list \<Rightarrow> uuid \<times> (string \<times> CartItemView) list" where
  "on_views f \<equiv> map_prod id (map (map_prod id f))"

lemma add_to_group_map:
  "map (map_prod id (map f)) (add_to_group k x gs) = add_to_group k (f x) (map (map_prod id (map f)) gs)"
  by (induction k x gs rule: add_to_group.induct) auto

lemma cart_groups_map:
  "cart_groups (map (map_prod id f) ls) = map (map_prod id (map f)) (cart_groups ls)"
proof -
  have "foldl (\<lambda>gs x. add_to_group (fst x) (snd x) gs) (map (map_prod id (map f)) gs) (map (map_prod id f) ls)
      = map (map_prod id (map f)) (foldl (\<lambda>gs x. add_to_group (fst x) (snd x) gs) gs ls)" for gs
    by (induction ls arbitrary: gs) (simp_all add: add_to_group_map [of f, symmetric])
  from this [of "[]"] show ?thesis by (simp add: cart_groups_def)
qed

lemma cart_groups_nonempty: "g \<in> set (cart_groups ls) \<Longrightarrow> snd g \<noteq> []"
proof -
  have add: "list_all (\<lambda>g. snd g \<noteq> []) gs \<Longrightarrow> list_all (\<lambda>g. snd g \<noteq> []) (add_to_group k x gs)"
    for k :: uuid and x :: "string \<times> CartItemView" and gs
    by (induction k x gs rule: add_to_group.induct) simp_all
  have "list_all (\<lambda>g. snd g \<noteq> []) gs \<Longrightarrow> list_all (\<lambda>g. snd g \<noteq> []) (foldl (\<lambda>gs x. add_to_group (fst x) (snd x) gs) gs ls)"
    for gs :: "(uuid \<times> (string \<times> CartItemView) list) list"
    by (induction ls arbitrary: gs) (simp_all add: add)
  from this [of "[]"] show "g \<in> set (cart_groups ls) \<Longrightarrow> snd g \<noteq> []" by (simp add: cart_groups_def list_all_iff)
qed

definition with_quantity :: "uuid \<Rightarrow> int \<Rightarrow> CartItem \<Rightarrow> CartItem" where
  "with_quantity p q i = (if ci_productId i = p then i\<lparr>ci_quantity := q\<rparr> else i)"

lemma cart_line_quantity:
  assumes "cart_line d (i, pr) = Inr l" "pr_id pr = ci_productId i" "seller_profiles d' = seller_profiles d"
  shows "cart_line d' (with_quantity p q i, pr) = Inr (map_prod id (map_prod id (server_patch p q)) l)"
  using assms
  by (auto simp: cart_line_def cart_item_view_def server_patch_def with_quantity_def multiplyCentsByQuantity_def
      rbind_Inr_iff cents_parse split: option.splits)

lemma cart_lines_quantity:
  assumes "rmap (cart_line d) xs = Inr ls" "\<And>x. x \<in> set xs \<Longrightarrow> pr_id (snd x) = ci_productId (fst x)"
    and "seller_profiles d' = seller_profiles d"
  shows "rmap (cart_line d') (map (map_prod (with_quantity p q) id) xs)
       = Inr (map (map_prod id (map_prod id (server_patch p q))) ls)"
  using assms(1,2)
proof (induction xs arbitrary: ls)
  case (Cons x xs)
  then obtain l ls' where l: "cart_line d x = Inr l" "rmap (cart_line d) xs = Inr ls'" "ls = l # ls'"
    by (auto simp: rbind_Inr_iff)
  have "cart_line d' (map_prod (with_quantity p q) id x) = Inr (map_prod id (map_prod id (server_patch p q)) l)"
    using cart_line_quantity [of d "fst x" "snd x" l d'] l(1) Cons.prems(2) [of x] assms(3) by (cases x) simp
  then show ?case using Cons.IH [OF l(2)] Cons.prems(2) l(3) by (simp add: id_def)
qed simp

lemma purchasable_items_quantity:
  assumes "\<And>i. i \<in> set (cart_items d) \<Longrightarrow> ci_cartId i = c \<Longrightarrow> f i = with_quantity p q i"
    and "\<And>i. ci_cartId (f i) = ci_cartId i"
  shows "purchasable_items c (d\<lparr>cart_items := map f (cart_items d)\<rparr>) = map (map_prod (with_quantity p q) id) (purchasable_items c d)"
proof -
  have [simp]: "ci_productId (with_quantity p q i) = ci_productId i" "ci_cartId (with_quantity p q i) = ci_cartId i" for i by (simp_all add: with_quantity_def)
  have "List.map_filter (\<lambda>item. case by_id pr_id (ci_productId item) (products d) of
            None \<Rightarrow> None | Some p \<Rightarrow> if cart_purchasable p then Some (item, p) else None)
          (filter (\<lambda>item. ci_cartId item = c) (map f xs))
      = map (map_prod (with_quantity p q) id)
          (List.map_filter (\<lambda>item. case by_id pr_id (ci_productId item) (products d) of
            None \<Rightarrow> None | Some p \<Rightarrow> if cart_purchasable p then Some (item, p) else None)
          (filter (\<lambda>item. ci_cartId item = c) xs))" if "set xs \<subseteq> set (cart_items d)" for xs
    using that
  proof (induction xs)
    case (Cons x xs)
    then show ?case using assms
      by (cases "ci_cartId x = c") (auto simp: map_filter_simps split: option.split)
  qed (simp add: map_filter_simps)
  then show ?thesis by (simp add: purchasable_items_def)
qed

lemma purchasable_ids: "x \<in> set (purchasable_items c d) \<Longrightarrow> pr_id (snd x) = ci_productId (fst x)"
  using purchasable_products by_id_SomeD by fastforce

section \<open>The guess of a change of quantity\<close>

text \<open>Amounts are not negative and the total is at most ten billion, as the columns hold.\<close>

definition payable :: "CartView \<Rightarrow> bool" where
  "payable v \<longleftrightarrow> (\<forall>g \<in> set (cw_sellers v). \<forall>i \<in> set (cg_items g). 0 \<le> cents (cv_lineTotal i)) \<and>
     cents (cw_totalAmount v) \<le> 10 ^ 12"

lemma payable_view_of:
  assumes "payable (view_of gs)" "g \<in> set gs"
  shows "\<And>x. x \<in> set (snd g) \<Longrightarrow> 0 \<le> cents (cv_lineTotal (snd x)) \<and> cents (cv_lineTotal (snd x)) \<le> 10 ^ 12"
    and "0 \<le> sum_list (map (\<lambda>x. cents (cv_lineTotal (snd x))) (snd g)) \<and>
      sum_list (map (\<lambda>x. cents (cv_lineTotal (snd x))) (snd g)) \<le> 10 ^ 12"
proof -
  let ?sub = "\<lambda>g. sum_list (map (\<lambda>x. cents (cv_lineTotal (snd x))) (snd g))"
  have nn: "0 \<le> cents (cv_lineTotal (snd x))" if "h \<in> set gs" "x \<in> set (snd h)" for h x
    using assms(1) that by (auto simp: payable_def view_of_def group_view_def)
  have sub: "0 \<le> ?sub h" if "h \<in> set gs" for h
    by (rule sum_list_nonneg) (use nn [OF that] in auto)
  have "?sub g \<le> sum_list (map ?sub gs)"
    by (rule member_le_sum_list) (use assms(2) sub in auto)
  also have "\<dots> \<le> 10 ^ 12" using assms(1) by (simp add: payable_def view_of_def)
  finally have le: "?sub g \<le> 10 ^ 12" .
  with sub [OF assms(2)] show "0 \<le> ?sub g \<and> ?sub g \<le> 10 ^ 12" by simp
  fix x assume x: "x \<in> set (snd g)"
  have "cents (cv_lineTotal (snd x)) \<le> ?sub g"
    by (rule member_le_sum_list) (use x nn [OF assms(2)] in auto)
  with le nn [OF assms(2) x] show "0 \<le> cents (cv_lineTotal (snd x)) \<and> cents (cv_lineTotal (snd x)) \<le> 10 ^ 12" by simp
qed

lemma patch_item_exact:
  assumes "ieee fl" "1 \<le> q" and nn: "0 \<le> cents (cv_lineTotal (server_patch p q i))"
    and le: "cents (cv_lineTotal (server_patch p q i)) \<le> 10 ^ 12"
  shows "patch_item fl p q i = server_patch p q i"
proof (cases "cv_productId i = p")
  case True
  then have b: "0 \<le> cents (cv_unitPrice i) * q" "cents (cv_unitPrice i) * q \<le> 10 ^ 12"
    using nn le by (simp_all add: server_patch_def)
  have "0 \<le> cents (cv_unitPrice i)" using b(1) assms(2) by (simp add: zero_le_mult_iff)
  moreover from this have "cents (cv_unitPrice i) \<le> cents (cv_unitPrice i) * q"
    using assms(2) by (metis mult.right_neutral mult_left_mono)
  ultimately have "parseCents fl (cv_unitPrice i) = cents (cv_unitPrice i)"
    using parseCents_exact [OF assms(1)] b(2) by simp
  then show ?thesis using True format_exact [OF assms(1) b] by (simp add: patch_item_def server_patch_def)
qed (simp add: patch_item_def server_patch_def)

text \<open>Recomputing the totals of a view with any items and old subtotals gives the server's view of these items.\<close>

definition same_groups :: "CartView \<Rightarrow> (uuid \<times> (string \<times> CartItemView) list) list \<Rightarrow> bool" where
  "same_groups v gs \<longleftrightarrow>
     map (\<lambda>g. (cg_sellerProfileId g, cg_storeName g, cg_items g)) (cw_sellers v)
     = map (\<lambda>g. (cg_sellerProfileId (group_view g), cg_storeName (group_view g), cg_items (group_view g))) gs"

lemma recomputeTotals_exact:
  assumes fl: "ieee fl" and same: "same_groups v gs" and ne: "\<And>g. g \<in> set gs \<Longrightarrow> snd g \<noteq> []"
    and pay: "payable (view_of gs)"
  shows "recomputeTotals fl v = view_of gs"
proof -
  let ?sub = "\<lambda>g. g\<lparr>cg_subtotal := formatCents fl (foldl (\<lambda>sum i. sum + parseCents fl (cv_lineTotal i)) 0 (cg_items g))\<rparr>"
  have "map ?sub (cw_sellers v) = map group_view gs"
  proof (rule nth_equalityI)
    show len: "length (map ?sub (cw_sellers v)) = length (map group_view gs)"
      using same [unfolded same_groups_def, THEN map_eq_imp_length_eq] by simp
    fix j assume "j < length (map ?sub (cw_sellers v))"
    then have j: "j < length (cw_sellers v)" "j < length gs" using len by simp_all
    define g where "g = gs ! j"
    have g: "g \<in> set gs" using j by (simp add: g_def)
    have "map (\<lambda>g. (cg_sellerProfileId g, cg_storeName g, cg_items g)) (cw_sellers v) ! j
       = map (\<lambda>g. (cg_sellerProfileId (group_view g), cg_storeName (group_view g), cg_items (group_view g))) gs ! j"
      using same by (simp add: same_groups_def)
    then have parts: "cg_sellerProfileId (cw_sellers v ! j) = fst g" "cg_storeName (cw_sellers v ! j) = cg_storeName (group_view g)"
      "cg_items (cw_sellers v ! j) = map snd (snd g)"
      using j by (simp_all add: g_def group_view_def)
    have "map (\<lambda>i. parseCents fl (cv_lineTotal i)) (map snd (snd g)) = map (\<lambda>x. cents (cv_lineTotal (snd x))) (snd g)"
      using payable_view_of(1) [OF pay g] parseCents_exact [OF fl] by simp
    then have "foldl (\<lambda>sum i. sum + parseCents fl (cv_lineTotal i)) 0 (map snd (snd g))
        = sum_list (map (\<lambda>x. cents (cv_lineTotal (snd x))) (snd g))" by (simp only: foldl_sum add_0)
    then have "formatCents fl (foldl (\<lambda>sum i. sum + parseCents fl (cv_lineTotal i)) 0 (map snd (snd g))) = cg_subtotal (group_view g)"
      using payable_view_of(2) [OF pay g] format_exact [OF fl] by (simp only:) (simp add: group_view_def)
    then show "map ?sub (cw_sellers v) ! j = map group_view gs ! j"
      using j parts by (simp add: g_def [symmetric] group_view_def CartSellerGroup.equality)
  qed
  moreover have "filter (\<lambda>g. cg_items g \<noteq> []) (map group_view gs) = map group_view gs"
    by (rule filter_True) (use ne in \<open>auto simp: group_view_def\<close>)
  moreover have "map (\<lambda>g. parseCents fl (cg_subtotal g)) (map group_view gs)
      = map (\<lambda>g. sum_list (map (\<lambda>x. cents (cv_lineTotal (snd x))) (snd g))) gs"
  proof -
    have "parseCents fl (cg_subtotal (group_view g)) = sum_list (map (\<lambda>x. cents (cv_lineTotal (snd x))) (snd g))" if "g \<in> set gs" for g
      using payable_view_of(2) [OF pay that] parseCents_exact [OF fl, of "cg_subtotal (group_view g)"] by (simp add: group_view_def)
    then show ?thesis by simp
  qed
  moreover have "0 \<le> cents (cw_totalAmount (view_of gs)) \<and> cents (cw_totalAmount (view_of gs)) \<le> 10 ^ 12"
  proof -
    have "0 \<le> sum_list (map (\<lambda>g. sum_list (map (\<lambda>x. cents (cv_lineTotal (snd x))) (snd g))) gs)"
      by (rule sum_list_nonneg) (use payable_view_of(2) [OF pay] in auto)
    then show ?thesis using pay by (simp add: payable_def view_of_def)
  qed
  ultimately show ?thesis
    using format_exact [OF fl, of "cents (cw_totalAmount (view_of gs))"]
    by (simp add: recomputeTotals_def Let_def view_of_def foldl_sum group_view_def comp_def cong: map_cong)
qed

lemma same_groups_patch:
  assumes "\<And>g x. g \<in> set gs \<Longrightarrow> x \<in> set (snd g) \<Longrightarrow> f (snd x) = h (snd x)"
  shows "same_groups (map_items (map f) (view_of gs)) (map (on_views h) gs)"
  using assms
  by (auto simp: same_groups_def map_items_def view_of_def group_view_def comp_def split: list.split)

lemma getOrCreateCart_found:
  assumes "getOrCreateCart (\<lambda>t. t) u s = (Inr cart, s)"
  shows "find (\<lambda>c. cart_userId c = u) (carts (db s)) = Some cart"
proof (cases "find (\<lambda>c. cart_userId c = u) (carts (db s))")
  case None
  have "next_id (db (snd (getOrCreateCart (\<lambda>t. t) u s))) = Suc (next_id (db s))"
    using None None [unfolded find_None_iff] by (auto simp: getOrCreateCart_def insert_cart_def)
  then show ?thesis using assms by simp
qed (use assms in \<open>simp add: getOrCreateCart_def\<close>)

lemma update_cases:
  assumes "updateItemQuantity (\<lambda>t. t) u p q s = (Inr w, s')" "getOrCreateCart (\<lambda>t. t) u s = (Inr cart, s)"
  obtains item where "find (is_cart_item (cart_id cart) p) (cart_items (db s)) = Some item"
    "save_quantity (item\<lparr>ci_quantity := q\<rparr>) (db s) = Inr (db s')" "buildView (cart_id cart) (db s') = Inr w"
  using assms by (auto simp: updateItemQuantity_def with_cart_def split: option.splits sum.splits)

lemma save_quantity_carts: "save_quantity r d = Inr d' \<Longrightarrow> carts d' = carts d"
  by (auto simp: save_quantity_def insert_cart_item_def split: if_splits)

lemma save_quantity_map:
  assumes ok: "cart_ok d" and item: "find (is_cart_item c p) (cart_items d) = Some item"
    and saved: "save_quantity (item\<lparr>ci_quantity := q\<rparr>) d = Inr d'"
  shows "purchasable_items c d' = map (map_prod (with_quantity p q) id) (purchasable_items c d) \<and>
         seller_profiles d' = seller_profiles d"
proof -
  define f :: "CartItem \<Rightarrow> CartItem" where "f = (\<lambda>i. if ci_id i = ci_id item then i\<lparr>ci_quantity := q\<rparr> else i)"
  have it: "item \<in> set (cart_items d)" "ci_cartId item = c" "ci_productId item = p"
    using find_SomeD [OF item] by (simp_all add: is_cart_item_def)
  then have d': "d' = d\<lparr>cart_items := map f (cart_items d)\<rparr>"
    using saved by (auto simp: save_quantity_def f_def split: if_splits)
  have "f i = with_quantity p q i" if i: "i \<in> set (cart_items d)" "ci_cartId i = c" for i
  proof -
    have "ci_id i = ci_id item \<longleftrightarrow> ci_productId i = p"
      using ok i it unfolding cart_ok_def distinct_map by (auto dest: inj_onD)
    then show ?thesis by (simp add: f_def with_quantity_def)
  qed
  then show ?thesis unfolding d' using purchasable_items_quantity [of d c f p q] by (simp add: f_def)
qed

text \<open>
  C33: The guess is right. When the change of a quantity succeeds and nothing else happened since the page was
  loaded, the view the client shows at once, computed with doubles from the page it has, is exactly the view
  the server answers and the next fetch returns, down to the text of every amount; so the refetch changes
  nothing on the screen.
\<close>
theorem optimistic_quantity_is_exact:
  assumes fl: "ieee fl" and ok: "cart_ok (db s)" and q: "1 \<le> q"
    and page: "getCartView u s = (Inr v, s)" and run: "updateItemQuantity (\<lambda>t. t) u p q s = (Inr w, s')"
    and pay: "payable w"
  shows "onMutate (optimistic_quantity fl p q) (Some v) = (Some v, Some w) \<and> getCartView u s' = (Inr w, s')"
proof -
  obtain cart where cart: "getOrCreateCart (\<lambda>t. t) u s = (Inr cart, s)" "buildView (cart_id cart) (db s) = Inr v"
    using page by (auto simp: getCartView_def with_cart_def split: prod.splits sum.splits)
  from run cart(1) obtain item where item: "find (is_cart_item (cart_id cart) p) (cart_items (db s)) = Some item"
    "save_quantity (item\<lparr>ci_quantity := q\<rparr>) (db s) = Inr (db s')" "buildView (cart_id cart) (db s') = Inr w"
    by (rule update_cases)
  note after = save_quantity_map [OF ok item(1,2)]
  obtain ls where ls: "rmap (cart_line (db s)) (purchasable_items (cart_id cart) (db s)) = Inr ls"
    using cart(2) by (auto simp: buildView_def rbind_Inr_iff)
  define gs where "gs = cart_groups ls"
  have v: "v = view_of gs" using buildView_lines [OF ls] cart(2) by (simp add: gs_def)
  have "rmap (cart_line (db s')) (purchasable_items (cart_id cart) (db s'))
      = Inr (map (map_prod id (map_prod id (server_patch p q))) ls)"
    using cart_lines_quantity [OF ls purchasable_ids, where d' = "db s'"] after by simp
  from buildView_lines [OF this] have w: "w = view_of (map (on_views (server_patch p q)) gs)"
    using item(3) by (simp add: cart_groups_map gs_def)
  have "patch_item fl p q (snd x) = server_patch p q (snd x)" if "g \<in> set gs" "x \<in> set (snd g)" for g x
  proof -
    have "0 \<le> cents (cv_lineTotal (snd y)) \<and> cents (cv_lineTotal (snd y)) \<le> 10 ^ 12"
      if "y \<in> set (snd (on_views (server_patch p q) g))" for y
      using payable_view_of(1) [OF pay [unfolded w] _ that] \<open>g \<in> set gs\<close> by auto
    from this [of "map_prod id (server_patch p q) x"] show ?thesis
      using that(2) patch_item_exact [OF fl q] by auto
  qed
  then have "same_groups (map_items (map (patch_item fl p q)) v) (map (on_views (server_patch p q)) gs)"
    unfolding v by (rule same_groups_patch)
  then have "optimistic_quantity fl p q v = w"
    unfolding optimistic_quantity_def w
    by (rule recomputeTotals_exact [OF fl]) (use pay w cart_groups_nonempty gs_def in auto)
  moreover have "getCartView u s' = (Inr w, s')"
  proof -
    have "carts (db s') = carts (db s)" using item(2) by (rule save_quantity_carts)
    then have "getOrCreateCart (\<lambda>t. t) u s' = (Inr cart, s')"
      using getOrCreateCart_found [OF cart(1)] by (simp add: getOrCreateCart_def)
    then show ?thesis using item(3) by (simp add: getCartView_def with_cart_def)
  qed
  ultimately show ?thesis by (simp add: onMutate_def)
qed

section \<open>The guess of a removal\<close>

text \<open>
  A removal shows the server's groups, number of units and total, but not always in the server's order: the
  server orders the sellers by their first line in the cart, the client keeps the order it had.
\<close>

lemma recomputeTotals_nonempty:
  "recomputeTotals fl v = recomputeTotals fl (v\<lparr>cw_sellers := filter (\<lambda>g. cg_items g \<noteq> []) (cw_sellers v)\<rparr>)"
  by (simp add: recomputeTotals_def filter_map comp_def)

lemma add_to_group_keys:
  "distinct (map fst gs) \<Longrightarrow> distinct (map fst (add_to_group k x gs)) \<and>
   map_of (add_to_group k x gs) = (map_of gs)(k \<mapsto> (case map_of gs k of None \<Rightarrow> [] | Some xs \<Rightarrow> xs) @ [x])"
proof (induction k x gs rule: add_to_group.induct)
  case (2 k x j xs gs)
  then show ?case
    by (cases "j = k") (auto simp: fst_add_to_group map_of_eq_None_iff fun_eq_iff split: option.split
        simp flip: set_map)
qed simp

lemma cart_groups_keys:
  "distinct (map fst (cart_groups ls)) \<and>
   map_of (cart_groups ls) k = (if k \<in> fst ` set ls then Some (map snd (filter (\<lambda>l. fst l = k) ls)) else None)"
proof -
  define grp :: "(uuid \<times> (string \<times> CartItemView) list) list \<Rightarrow> (uuid \<times> string \<times> CartItemView) list \<Rightarrow> (uuid \<times> (string \<times> CartItemView) list) list"
    where "grp = foldl (\<lambda>gs x. add_to_group (fst x) (snd x) gs)"
  have grp_snoc: "grp [] (xs @ [x]) = add_to_group (fst x) (snd x) (grp [] xs)" for xs x by (simp add: grp_def)
  have "distinct (map fst (grp [] ls)) \<and>
     (\<forall>k. map_of (grp [] ls) k = (if k \<in> fst ` set ls then Some (map snd (filter (\<lambda>l. fst l = k) ls)) else None))"
  proof (induction ls rule: rev_induct)
    case Nil
    show ?case by (simp add: grp_def)
  next
    case (snoc x xs)
    have "map snd (filter (\<lambda>l. fst l = fst x) xs) = []" if "fst x \<notin> fst ` set xs"
      using that by (fastforce simp: filter_empty_conv image_iff)
    then show ?case using snoc.IH add_to_group_keys [of "grp [] xs" "fst x" "snd x"]
      by (auto simp: grp_snoc)
  qed
  then show ?thesis by (simp add: cart_groups_def grp_def)
qed

lemma map_of_kept_groups:
  "distinct (map fst gs) \<Longrightarrow>
   map_of (filter (\<lambda>g. snd g \<noteq> []) (map (map_prod id (filter P)) gs)) k =
     (case map_of gs k of None \<Rightarrow> None | Some xs \<Rightarrow> if filter P xs = [] then None else Some (filter P xs))"
proof (induction gs)
  case (Cons g gs)
  have "map_of gs k = None" if "k = fst g" using Cons.prems that by (simp add: map_of_eq_None_iff)
  then show ?case using Cons by (cases g) (auto split: option.split)
qed simp

lemma cart_groups_filter:
  fixes P ls
  defines "gs \<equiv> filter (\<lambda>g. snd g \<noteq> []) (map (map_prod id (filter P)) (cart_groups ls))"
  shows "set (cart_groups (filter (\<lambda>l. P (snd l)) ls)) = set gs \<and> distinct gs \<and> distinct (cart_groups (filter (\<lambda>l. P (snd l)) ls))"
proof -
  let ?ls = "filter (\<lambda>l. P (snd l)) ls"
  have keys: "distinct (map fst gs)" "distinct (map fst (cart_groups ?ls))"
    using cart_groups_keys [of ls] cart_groups_keys [of ?ls]
    by (simp_all add: gs_def distinct_map_filter comp_def)
  have "map_of (cart_groups ?ls) k = map_of gs k" for k
  proof -
    have "map snd (filter (\<lambda>l. fst l = k) ?ls) = filter P (map snd (filter (\<lambda>l. fst l = k) ls))"
      by (induction ls) auto
    moreover have "k \<in> fst ` set ?ls \<longleftrightarrow> filter P (map snd (filter (\<lambda>l. fst l = k) ls)) \<noteq> []"
      by (force simp: filter_empty_conv image_iff)
    moreover have "k \<in> fst ` set ?ls \<Longrightarrow> k \<in> fst ` set ls" by auto
    ultimately show ?thesis
      using cart_groups_keys [of ls] cart_groups_keys [of ?ls] by (auto simp: gs_def map_of_kept_groups)
  qed
  then have "set (cart_groups ?ls) = set gs"
    using keys map_of_inject_set by blast
  then show ?thesis using keys by (simp add: distinct_map)
qed

lemma view_of_same_groups:
  assumes "set gs = set hs" "distinct gs" "distinct hs"
  shows "set (cw_sellers (view_of gs)) = set (cw_sellers (view_of hs)) \<and> cw_itemCount (view_of gs) = cw_itemCount (view_of hs) \<and>
    cw_totalAmount (view_of gs) = cw_totalAmount (view_of hs) \<and> payable (view_of gs) = payable (view_of hs)"
  using assms by (simp add: view_of_def payable_def sum_list_distinct_conv_sum_set)

lemma cart_line_product:
  "cart_line d x = Inr l \<Longrightarrow> pr_id (snd x) = ci_productId (fst x) \<Longrightarrow> cv_productId (snd (snd l)) = ci_productId (fst x)"
  by (auto simp: cart_line_def cart_item_view_def rbind_Inr_iff split: option.splits)

lemma cart_lines_removed:
  assumes "rmap (cart_line d) xs = Inr ls" "\<And>x. x \<in> set xs \<Longrightarrow> pr_id (snd x) = ci_productId (fst x)"
    and "seller_profiles d' = seller_profiles d"
  shows "rmap (cart_line d') (filter (\<lambda>x. ci_productId (fst x) \<noteq> p) xs) = Inr (filter (\<lambda>l. cv_productId (snd (snd l)) \<noteq> p) ls)"
  using assms(1,2)
proof (induction xs arbitrary: ls)
  case (Cons x xs)
  then obtain l ls' where l: "cart_line d x = Inr l" "rmap (cart_line d) xs = Inr ls'" "ls = l # ls'"
    by (auto simp: rbind_Inr_iff)
  moreover have "cart_line d' x = Inr l" using l(1) assms(3) by (simp add: cart_line_def)
  moreover have "cv_productId (snd (snd l)) = ci_productId (fst x)"
    using cart_line_product [OF l(1)] Cons.prems(2) by simp
  ultimately show ?case using Cons.IH [OF l(2)] Cons.prems(2) by simp
qed simp

lemma purchasable_items_removed:
  "purchasable_items c (delete_cart_items (is_cart_item c p) d) =
     filter (\<lambda>x. ci_productId (fst x) \<noteq> p) (purchasable_items c d)"
proof -
  have "List.map_filter (\<lambda>item. case by_id pr_id (ci_productId item) (products d) of
            None \<Rightarrow> None | Some p \<Rightarrow> if cart_purchasable p then Some (item, p) else None)
          (filter (\<lambda>item. ci_cartId item = c) (filter (\<lambda>i. \<not> is_cart_item c p i) xs))
      = filter (\<lambda>x. ci_productId (fst x) \<noteq> p)
          (List.map_filter (\<lambda>item. case by_id pr_id (ci_productId item) (products d) of
            None \<Rightarrow> None | Some p \<Rightarrow> if cart_purchasable p then Some (item, p) else None)
          (filter (\<lambda>item. ci_cartId item = c) xs))" for xs
    by (induction xs) (auto simp: map_filter_simps is_cart_item_def split: option.split)
  then show ?thesis by (simp add: purchasable_items_def delete_cart_items_def)
qed

definition store_name :: "uuid \<Rightarrow> database \<Rightarrow> string" where
  "store_name k d = (case by_id sp_id k (seller_profiles d) of None \<Rightarrow> [] | Some p \<Rightarrow> sp_storeName p)"

lemma cart_lines_store:
  "rmap (cart_line d) xs = Inr ls \<Longrightarrow> (k, x) \<in> set ls \<Longrightarrow> fst x = store_name k d"
  by (auto simp: cart_line_def store_name_def rbind_Inr_iff split: option.splits dest!: rmap_set)

lemma group_name:
  "snd g \<noteq> [] \<Longrightarrow> (\<And>x. x \<in> set (snd g) \<Longrightarrow> fst x = n) \<Longrightarrow> cg_storeName (group_view g) = n"
  by (cases "snd g") (simp_all add: group_view_def)

lemma optimistic_removal_same_lines:
  assumes fl: "ieee fl" and page: "getCartView u s = (Inr v, s)" and run: "removeItem u p s = (Inr w, s')" and pay: "payable w"
  shows "set (cw_sellers (optimistic_removal fl p v)) = set (cw_sellers w) \<and>
         cw_itemCount (optimistic_removal fl p v) = cw_itemCount w \<and>
         cw_totalAmount (optimistic_removal fl p v) = cw_totalAmount w"
proof -
  obtain cart where cart: "getOrCreateCart (\<lambda>t. t) u s = (Inr cart, s)" "buildView (cart_id cart) (db s) = Inr v"
    using page by (auto simp: getCartView_def with_cart_def split: prod.splits sum.splits)
  define P where "P = (\<lambda>x :: string \<times> CartItemView. cv_productId (snd x) \<noteq> p)"
  have w: "buildView (cart_id cart) (delete_cart_items (is_cart_item (cart_id cart) p) (db s)) = Inr w"
    using run cart(1) by (auto simp: removeItem_def with_cart_def Let_def upd_db_def)
  obtain ls where ls: "rmap (cart_line (db s)) (purchasable_items (cart_id cart) (db s)) = Inr ls"
    using cart(2) by (auto simp: buildView_def rbind_Inr_iff)
  have v: "v = view_of (cart_groups ls)" using buildView_lines [OF ls] cart(2) by simp
  have "seller_profiles (delete_cart_items (is_cart_item (cart_id cart) p) (db s)) = seller_profiles (db s)"
    by (simp add: delete_cart_items_def)
  from buildView_lines [OF cart_lines_removed [OF ls purchasable_ids this, where p = p, folded purchasable_items_removed]]
  have w: "w = view_of (cart_groups (filter (\<lambda>l. P (snd l)) ls))" using w by (simp add: P_def)
  define gs where "gs = filter (\<lambda>g. snd g \<noteq> []) (map (map_prod id (filter P)) (cart_groups ls))"
  note same = cart_groups_filter [of P ls, folded gs_def]
  have view: "set (cw_sellers (view_of gs)) = set (cw_sellers w) \<and> cw_itemCount (view_of gs) = cw_itemCount w \<and>
      cw_totalAmount (view_of gs) = cw_totalAmount w \<and> payable (view_of gs) = payable w"
    unfolding w by (rule view_of_same_groups) (use same in simp_all)
  have name: "cg_storeName (group_view (map_prod id (filter P) g)) = cg_storeName (group_view g)"
    if g: "g \<in> set (cart_groups ls)" "filter P (snd g) \<noteq> []" for g
  proof -
    have "fst x = store_name (fst g) (db s)" if "x \<in> set (snd g)" for x
      using cart_lines_store [OF ls] mem_cart_groups [of ls "fst g" x] g(1) that by fastforce
    then have "cg_storeName (group_view g) = store_name (fst g) (db s)"
      "cg_storeName (group_view (map_prod id (filter P) g)) = store_name (fst g) (db s)"
      by (rule group_name [rotated], use g(2) in \<open>auto\<close>)+
    then show ?thesis by simp
  qed
  define v' where "v' = map_items (filter (\<lambda>item. cv_productId item \<noteq> p)) v"
  have "optimistic_removal fl p v = view_of gs"
    unfolding optimistic_removal_def recomputeTotals_nonempty [of fl "map_items _ _"]
  proof (rule recomputeTotals_exact [OF fl])
    have items: "(\<lambda>x. cv_productId (snd x) \<noteq> p) = P" by (simp add: P_def)
    have cg: "cg_items (group_view g) = map snd (snd g)" "cg_sellerProfileId (group_view g) = fst g" for g
      by (simp_all add: group_view_def)
    show "same_groups (map_items (filter (\<lambda>i. cv_productId i \<noteq> p)) v
        \<lparr>cw_sellers := filter (\<lambda>g. cg_items g \<noteq> []) (cw_sellers (map_items (filter (\<lambda>i. cv_productId i \<noteq> p)) v))\<rparr>) gs"
      unfolding same_groups_def map_items_def v view_of_def gs_def
      by (simp add: filter_map comp_def items cg) (use name in fastforce)
  qed (use gs_def view pay in auto)
  with view show ?thesis by simp
qed

section \<open>A concrete change\<close>

definition shop_changed :: "CartView result \<times> sys" where
  "shop_changed = updateItemQuantity (\<lambda>t. t) 8 20 2 shop"

theorem optimistic_quantity_is_exact_witness:
  "\<exists>w. fst shop_changed = Inr w \<and> optimistic_quantity (\<lambda>x. x) 20 2 shop_page = w \<and> cents (cw_totalAmount w) = 1666"
proof -
  have page: "getCartView 8 shop = (Inr shop_page, shop)"
  proof -
    have "\<not> is_error (fst (getCartView 8 shop))" by code_simp
    moreover have "snd (getCartView 8 shop) = shop"
      by (simp add: getCartView_def with_cart_def getOrCreateCart_def shop_def start_sys_def shop_db_def)
    ultimately show ?thesis by (auto simp: not_is_error_iff shop_page_def prod_eq_iff)
  qed
  have "\<not> is_error (fst shop_changed)" by code_simp
  then obtain w where w: "fst shop_changed = Inr w" by (auto simp: not_is_error_iff)
  then have run: "updateItemQuantity (\<lambda>t. t) 8 20 2 shop = (Inr w, snd shop_changed)"
    unfolding shop_changed_def by (metis prod.collapse)
  have "cart_ok (db shop)" by code_simp
  moreover have "case fst shop_changed of Inr v \<Rightarrow> cents (cw_totalAmount v) = 1666 \<and>
      (\<forall>g \<in> set (cw_sellers v). \<forall>i \<in> set (cg_items g). 0 \<le> cents (cv_lineTotal i)) | Inl e \<Rightarrow> False" by code_simp
  then have "payable w" "cents (cw_totalAmount w) = 1666" unfolding w by (simp_all add: payable_def)
  moreover have "ieee (\<lambda>x. x)" by (simp add: ieee_def)
  ultimately show ?thesis
    using optimistic_quantity_is_exact [OF _ _ _ page run] w by (auto simp: onMutate_def)
qed

end
