(* ===== verification/Web_Client.thy ===== *)
theory Web_Client
  imports Order_Domain Disputes
begin

text \<open>
  The session of the web client (\<open>src/frontend/src/api/client.ts\<close>, \<open>features/auth\<close>): the interceptor that
  renews an expired access token and repeats the request, the token in memory and the provider that shows the
  user; and the rules by which pages offer actions (\<open>features/sellerOrders/status.ts\<close>, \<open>features/stage8\<close>,
  \<open>features/stage9\<close>). An answer is handled at once; the promise of a renewal and what waits for it are
  explicit. A status 0 stands for an error without a response.
\<close>

section \<open>Requests of the interceptor\<close>

record api_request =
  rq_id :: nat
  rq_url :: string
  rq_retried :: bool

text \<open>
  \<open>wc_refreshing\<close> is \<open>refreshPromise\<close>, \<open>wc_waiting\<close> the requests that await it. \<open>wc_sent\<close> records what
  went out, with the bearer token: a request by its number, a renewal of the interceptor as \<open>None\<close>.
\<close>

record web_client =
  wc_token :: "string option"
  wc_user :: "uuid option"
  wc_initializing :: bool
  wc_open :: "api_request list"
  wc_refreshing :: bool
  wc_waiting :: "api_request list"
  wc_sent :: "(nat option \<times> string option) list"
  wc_resolved :: "nat list"
  wc_rejected :: "nat list"
  wc_calls :: nat

definition REFRESH_URL :: string where
  "REFRESH_URL = ''/auth/refresh''"

definition NON_RETRIABLE_AUTH_URLS :: "string set" where
  "NON_RETRIABLE_AUTH_URLS = {REFRESH_URL, ''/auth/login'', ''/auth/register''}"

text \<open>The listener of the provider drops the user when the token goes.\<close>

definition setAccessToken :: "string option \<Rightarrow> web_client \<Rightarrow> web_client" where
  "setAccessToken t c =
     (if wc_token c = t then c
      else c\<lparr>wc_token := t, wc_user := (if t = None \<and> \<not> wc_initializing c then None else wc_user c)\<rparr>)"

definition send :: "api_request \<Rightarrow> web_client \<Rightarrow> web_client" where
  "send r c = c\<lparr>wc_open := wc_open c @ [r], wc_sent := wc_sent c @ [(Some (rq_id r), wc_token c)]\<rparr>"

definition reject :: "nat \<Rightarrow> web_client \<Rightarrow> web_client" where
  "reject i c = c\<lparr>wc_rejected := wc_rejected c @ [i]\<rparr>"

definition refreshAccessToken :: "web_client \<Rightarrow> web_client" where
  "refreshAccessToken c =
     (if wc_refreshing c then c else c\<lparr>wc_refreshing := True, wc_sent := wc_sent c @ [(None, wc_token c)]\<rparr>)"

definition response_error :: "api_request \<Rightarrow> nat \<Rightarrow> web_client \<Rightarrow> web_client" where
  "response_error r status c =
     (if status \<noteq> 401 \<or> rq_url r \<in> NON_RETRIABLE_AUTH_URLS \<or> rq_retried r
      then reject (rq_id r) (if status = 401 then setAccessToken None c else c)
      else (let c1 = refreshAccessToken c in c1\<lparr>wc_waiting := wc_waiting c1 @ [r\<lparr>rq_retried := True\<rparr>]\<rparr>))"

text \<open>The renewal is answered: its own 401 runs through the interceptor too, then every waiting request goes on.\<close>

definition refresh_resolved :: "string \<Rightarrow> web_client \<Rightarrow> web_client" where
  "refresh_resolved t c =
     fold send (wc_waiting c) (setAccessToken (Some t) c\<lparr>wc_refreshing := False, wc_waiting := []\<rparr>)"

definition refresh_rejected :: "web_client \<Rightarrow> web_client" where
  "refresh_rejected c =
     fold (\<lambda>r. reject (rq_id r)) (wc_waiting c) (setAccessToken None c\<lparr>wc_refreshing := False, wc_waiting := []\<rparr>)"

section \<open>The events of a page\<close>

text \<open>
  \<open>Restored\<close> and \<open>NotRestored\<close> answer the renewal the provider itself starts on mount, \<open>LoggedIn\<close> the calls
  of \<open>login\<close>, \<open>register\<close> and \<open>refreshSession\<close>.
\<close>

datatype client_event =
    Call string
  | Success nat
  | Failure nat nat
  | RefreshSuccess string
  | RefreshFailure
  | Restored string uuid
  | NotRestored
  | LoggedIn string uuid
  | LoggedOut

fun client_step :: "client_event \<Rightarrow> web_client \<Rightarrow> web_client" where
  "client_step (Call url) c =
     send \<lparr>rq_id = wc_calls c, rq_url = url, rq_retried = False\<rparr> (c\<lparr>wc_calls := wc_calls c + 1\<rparr>)"
| "client_step (Success i) c =
     (if i \<in> rq_id ` set (wc_open c)
      then c\<lparr>wc_open := filter (\<lambda>r. rq_id r \<noteq> i) (wc_open c), wc_resolved := wc_resolved c @ [i]\<rparr> else c)"
| "client_step (Failure i status) c =
     (case find (\<lambda>r. rq_id r = i) (wc_open c) of
        None \<Rightarrow> c
      | Some r \<Rightarrow> response_error r status (c\<lparr>wc_open := filter (\<lambda>r. rq_id r \<noteq> i) (wc_open c)\<rparr>))"
| "client_step (RefreshSuccess t) c = (if wc_refreshing c then refresh_resolved t c else c)"
| "client_step RefreshFailure c = (if wc_refreshing c then refresh_rejected c else c)"
| "client_step (Restored t u) c =
     (if wc_initializing c then (setAccessToken (Some t) c)\<lparr>wc_user := Some u, wc_initializing := False\<rparr> else c)"
| "client_step NotRestored c =
     (if wc_initializing c then (setAccessToken None c)\<lparr>wc_user := None, wc_initializing := False\<rparr> else c)"
| "client_step (LoggedIn t u) c = (setAccessToken (Some t) c)\<lparr>wc_user := Some u\<rparr>"
| "client_step LoggedOut c = (setAccessToken None c)\<lparr>wc_user := None\<rparr>"

definition loaded_page :: web_client where
  "loaded_page = \<lparr>wc_token = None, wc_user = None, wc_initializing = True, wc_open = [], wc_refreshing = False,
     wc_waiting = [], wc_sent = [], wc_resolved = [], wc_rejected = [], wc_calls = 0\<rparr>"

definition run_client :: "client_event list \<Rightarrow> web_client" where
  "run_client es = fold client_step es loaded_page"

section \<open>Every call is answered once\<close>

text \<open>Where the calls are: on the wire, waiting for a new token, or answered.\<close>

definition call_ids :: "web_client \<Rightarrow> nat list" where
  "call_ids c = map rq_id (wc_open c) @ map rq_id (wc_waiting c) @ wc_resolved c @ wc_rejected c"

definition sends_of :: "nat option \<Rightarrow> web_client \<Rightarrow> nat" where
  "sends_of i c = length (filter (\<lambda>x. fst x = i) (wc_sent c))"

text \<open>
  Attempts: a request on the wire went out once, or twice when it is the repetition; every renewal was started
  by a request that then left its first attempt behind.
\<close>

definition calls_ok :: "web_client \<Rightarrow> bool" where
  "calls_ok c \<longleftrightarrow> distinct (call_ids c) \<and> set (call_ids c) = {..<wc_calls c} \<and> (wc_waiting c = [] \<longleftrightarrow> \<not> wc_refreshing c)"

definition sends_ok :: "web_client \<Rightarrow> bool" where
  "sends_ok c \<longleftrightarrow>
     (\<forall>r \<in> set (wc_waiting c). rq_retried r \<and> sends_of (Some (rq_id r)) c = 1) \<and>
     (\<forall>r \<in> set (wc_open c). sends_of (Some (rq_id r)) c = (if rq_retried r then 2 else 1)) \<and>
     (\<forall>i. sends_of (Some i) c \<le> 2 \<and> (wc_calls c \<le> i \<longrightarrow> sends_of (Some i) c = 0))"

definition renewals_ok :: "web_client \<Rightarrow> bool" where
  "renewals_ok c \<longleftrightarrow> sends_of None c + length (filter (\<lambda>r. \<not> rq_retried r) (wc_open c)) \<le> wc_calls c"

definition client_ok :: "web_client \<Rightarrow> bool" where
  "client_ok c \<longleftrightarrow> calls_ok c \<and> sends_ok c \<and> renewals_ok c"

lemma setAccessToken_simps [simp]:
  "wc_open (setAccessToken t c) = wc_open c" "wc_refreshing (setAccessToken t c) = wc_refreshing c"
  "wc_waiting (setAccessToken t c) = wc_waiting c" "wc_sent (setAccessToken t c) = wc_sent c"
  "wc_resolved (setAccessToken t c) = wc_resolved c" "wc_rejected (setAccessToken t c) = wc_rejected c"
  "wc_calls (setAccessToken t c) = wc_calls c" "wc_initializing (setAccessToken t c) = wc_initializing c"
  "wc_token (setAccessToken t c) = t"
  by (simp_all add: setAccessToken_def)

lemma fold_send:
  "fold send rs c = c\<lparr>wc_open := wc_open c @ rs, wc_sent := wc_sent c @ map (\<lambda>r. (Some (rq_id r), wc_token c)) rs\<rparr>"
  by (induction rs arbitrary: c) (simp_all add: send_def)

lemma fold_reject: "fold (\<lambda>r. reject (rq_id r)) rs c = c\<lparr>wc_rejected := wc_rejected c @ map rq_id rs\<rparr>"
  by (induction rs arbitrary: c) (simp_all add: reject_def)

lemma client_ok_cong:
  assumes "client_ok c" "wc_open c' = wc_open c" "wc_waiting c' = wc_waiting c" "wc_refreshing c' = wc_refreshing c"
    "wc_sent c' = wc_sent c" "wc_resolved c' = wc_resolved c" "wc_rejected c' = wc_rejected c" "wc_calls c' = wc_calls c"
  shows "client_ok c'"
  using assms by (simp add: client_ok_def calls_ok_def sends_ok_def renewals_ok_def call_ids_def sends_of_def)

text \<open>A request leaves the wire or the queue and turns up elsewhere.\<close>

lemma ids_below: "calls_ok c \<Longrightarrow> r \<in> set (wc_open c) \<union> set (wc_waiting c) \<Longrightarrow> rq_id r < wc_calls c"
  by (auto simp: calls_ok_def call_ids_def)

lemma wire_without:
  assumes "distinct (map rq_id xs)" "r \<in> set xs"
  shows "rq_id r \<notin> rq_id ` set (filter (\<lambda>x. rq_id x \<noteq> rq_id r) xs)"
    "set (map rq_id xs) = insert (rq_id r) (rq_id ` set (filter (\<lambda>x. rq_id x \<noteq> rq_id r) xs))"
    "distinct (map rq_id (filter (\<lambda>x. rq_id x \<noteq> rq_id r) xs))"
  using assms by (auto simp: distinct_map_filter)

lemma fewer_left:
  "r \<in> set xs \<Longrightarrow> P r \<Longrightarrow> length (filter P (filter (\<lambda>x. rq_id x \<noteq> rq_id r) xs)) < length (filter P xs)"
proof (induction xs)
  case (Cons x xs)
  have "length (filter P (filter (\<lambda>x. rq_id x \<noteq> rq_id r) xs)) \<le> length (filter P xs)"
    by (induction xs) auto
  then show ?case using Cons by (auto simp del: filter_filter)
qed simp

lemma fewer_filter: "length (filter P (filter Q xs)) \<le> length (filter P xs)"
  by (induction xs) auto

lemma client_ok_call:
  assumes "client_ok c"
  shows "client_ok (client_step (Call url) c)"
proof -
  let ?c = "client_step (Call url) c"
  have ok: "calls_ok c" "sends_ok c" "renewals_ok c" using assms by (simp_all add: client_ok_def)
  have "wc_calls c \<notin> set (call_ids c)" using ok(1) by (simp add: calls_ok_def)
  then have "calls_ok ?c" using ok(1) by (auto simp: calls_ok_def call_ids_def send_def)
  moreover have s: "sends_of k ?c = sends_of k c + (if k = Some (wc_calls c) then 1 else 0)" for k
    by (simp add: sends_of_def send_def)
  have "sends_ok ?c"
    unfolding sends_ok_def s using ok(2) less_imp_neq [OF ids_below [OF ok(1)]] by (auto simp: sends_ok_def send_def)
  moreover have "renewals_ok ?c" unfolding renewals_ok_def s using ok(3) by (simp add: renewals_ok_def send_def)
  ultimately show ?thesis by (simp add: client_ok_def)
qed

definition off_wire :: "nat \<Rightarrow> web_client \<Rightarrow> web_client" where
  "off_wire i c = c\<lparr>wc_open := filter (\<lambda>r. rq_id r \<noteq> i) (wc_open c)\<rparr>"

lemma off_wire_ids:
  assumes "calls_ok c" "r \<in> set (wc_open c)"
  shows "distinct (rq_id r # call_ids (off_wire (rq_id r) c))"
    "insert (rq_id r) (set (call_ids (off_wire (rq_id r) c))) = {..<wc_calls c}"
proof -
  have d: "distinct (call_ids c)" "set (call_ids c) = {..<wc_calls c}" using assms(1) by (simp_all add: calls_ok_def)
  then have "distinct (map rq_id (wc_open c))" by (simp add: call_ids_def)
  note w = wire_without [OF this assms(2)]
  show "distinct (rq_id r # call_ids (off_wire (rq_id r) c))"
    using d(1) w(1,3) assms(2) by (auto simp: call_ids_def off_wire_def)
  show "insert (rq_id r) (set (call_ids (off_wire (rq_id r) c))) = {..<wc_calls c}"
    using d(2) w(2) by (auto simp: call_ids_def off_wire_def)
qed

lemma sends_off_wire [simp]: "sends_of k (off_wire i c) = sends_of k c"
  by (simp add: sends_of_def off_wire_def)

text \<open>An answered request is resolved or rejected.\<close>

lemma client_ok_answered:
  assumes ok: "client_ok c" and r: "r \<in> set (wc_open c)" and c': "wc_open c' = wc_open (off_wire (rq_id r) c)"
    "wc_waiting c' = wc_waiting c" "wc_refreshing c' = wc_refreshing c" "wc_sent c' = wc_sent c" "wc_calls c' = wc_calls c"
    "set (wc_resolved c' @ wc_rejected c') = insert (rq_id r) (set (wc_resolved c @ wc_rejected c))"
    "distinct (wc_resolved c' @ wc_rejected c') \<longleftrightarrow> distinct (rq_id r # wc_resolved c @ wc_rejected c)"
  shows "client_ok c'"
proof -
  have o': "calls_ok c" "sends_ok c" "renewals_ok c" using ok by (simp_all add: client_ok_def)
  note off = off_wire_ids [OF o'(1) r]
  have s: "sends_of k c' = sends_of k c" for k by (simp add: sends_of_def c')
  have "calls_ok c'"
    using o'(1) off c' by (auto simp: calls_ok_def call_ids_def off_wire_def)
  moreover have "sends_ok c'" unfolding sends_ok_def s using o'(2) by (auto simp: sends_ok_def c' off_wire_def)
  moreover have "renewals_ok c'"
    unfolding renewals_ok_def s using o'(3) fewer_filter [of "\<lambda>r. \<not> rq_retried r" "\<lambda>x. rq_id x \<noteq> rq_id r" "wc_open c"]
    by (simp add: renewals_ok_def c' off_wire_def del: filter_filter)
  ultimately show ?thesis by (simp add: client_ok_def)
qed

text \<open>A first 401 makes a request wait for a new token; it starts the renewal if none is on the way.\<close>

lemma client_ok_waits:
  assumes ok: "client_ok c" and r: "r \<in> set (wc_open c)" and first: "\<not> rq_retried r"
  defines "c1 \<equiv> refreshAccessToken (off_wire (rq_id r) c)"
  shows "client_ok (c1\<lparr>wc_waiting := wc_waiting c1 @ [r\<lparr>rq_retried := True\<rparr>]\<rparr>)"
proof -
  let ?c = "c1\<lparr>wc_waiting := wc_waiting c1 @ [r\<lparr>rq_retried := True\<rparr>]\<rparr>"
  have o': "calls_ok c" "sends_ok c" "renewals_ok c" using ok by (simp_all add: client_ok_def)
  note off = off_wire_ids [OF o'(1) r]
  have f: "wc_open c1 = wc_open (off_wire (rq_id r) c)" "wc_waiting c1 = wc_waiting c" "wc_resolved c1 = wc_resolved c"
    "wc_rejected c1 = wc_rejected c" "wc_calls c1 = wc_calls c" "wc_refreshing c1"
    by (simp_all add: c1_def refreshAccessToken_def off_wire_def)
  have s: "sends_of (Some k) ?c = sends_of (Some k) c" "sends_of None ?c \<le> sends_of None c + 1" for k
    by (simp_all add: sends_of_def c1_def refreshAccessToken_def off_wire_def)
  have "calls_ok ?c"
    using off by (auto simp: calls_ok_def call_ids_def f off_wire_def)
  moreover have "sends_ok ?c"
    unfolding sends_ok_def s using o'(2) r first by (auto simp: sends_ok_def f off_wire_def)
  moreover have "renewals_ok ?c"
    unfolding renewals_ok_def using s(2) o'(3) fewer_left [of r "wc_open c" "\<lambda>r. \<not> rq_retried r"] r first
    by (simp add: renewals_ok_def f off_wire_def del: filter_filter)
  ultimately show ?thesis by (simp add: client_ok_def)
qed

lemma count_waiting:
  "distinct (map rq_id rs) \<Longrightarrow>
   length (filter (\<lambda>x. fst x = Some i) (map (\<lambda>r. (Some (rq_id r), t)) rs)) = (if i \<in> rq_id ` set rs then 1 else 0)"
  by (induction rs) auto

lemma client_ok_refreshed:
  assumes ok: "client_ok c"
  shows "client_ok (refresh_resolved t c)"
proof -
  have o': "calls_ok c" "sends_ok c" "renewals_ok c" using ok by (simp_all add: client_ok_def)
  let ?c = "refresh_resolved t c"
  have f: "wc_open ?c = wc_open c @ wc_waiting c" "wc_waiting ?c = []" "\<not> wc_refreshing ?c" "wc_resolved ?c = wc_resolved c"
    "wc_rejected ?c = wc_rejected c" "wc_calls ?c = wc_calls c"
    by (simp_all add: refresh_resolved_def fold_send)
  have d: "distinct (map rq_id (wc_waiting c))" "rq_id ` set (wc_open c) \<inter> rq_id ` set (wc_waiting c) = {}"
    using o'(1) by (auto simp: calls_ok_def call_ids_def)
  have s: "sends_of (Some i) ?c = sends_of (Some i) c + (if i \<in> rq_id ` set (wc_waiting c) then 1 else 0)" for i
    using count_waiting [OF d(1), of i "Some t"] by (simp add: sends_of_def refresh_resolved_def fold_send)
  have sn: "sends_of None ?c = sends_of None c"
    by (simp add: sends_of_def refresh_resolved_def fold_send comp_def)
  have "calls_ok ?c" using o'(1) by (auto simp: calls_ok_def call_ids_def f)
  moreover have "sends_ok ?c"
    unfolding sends_ok_def
  proof (intro conjI ballI allI impI)
    fix r assume "r \<in> set (wc_open ?c)"
    then consider "r \<in> set (wc_open c)" "rq_id r \<notin> rq_id ` set (wc_waiting c)" | "r \<in> set (wc_waiting c)"
      using d(2) by (auto simp: f)
    then show "sends_of (Some (rq_id r)) ?c = (if rq_retried r then 2 else 1)"
      using o'(2) by cases (simp_all add: s sends_ok_def)
  next
    fix i
    show "sends_of (Some i) ?c \<le> 2" using o'(2) by (auto simp: s sends_ok_def)
    assume "wc_calls ?c \<le> i"
    then show "sends_of (Some i) ?c = 0" using o'(2) ids_below [OF o'(1)] by (fastforce simp: s f sends_ok_def)
  qed (use f in simp_all)
  moreover have "renewals_ok ?c"
    using o'(2,3) by (simp add: renewals_ok_def sends_ok_def sn f filter_False)
  ultimately show ?thesis by (simp add: client_ok_def)
qed

lemma client_ok_refused:
  assumes ok: "client_ok c"
  shows "client_ok (refresh_rejected c)"
proof -
  have o': "calls_ok c" "sends_ok c" "renewals_ok c" using ok by (simp_all add: client_ok_def)
  have s: "sends_of k (refresh_rejected c) = sends_of k c" for k
    by (simp add: sends_of_def refresh_rejected_def fold_reject)
  have "calls_ok (refresh_rejected c)"
    using o'(1) by (auto simp: calls_ok_def call_ids_def refresh_rejected_def fold_reject)
  moreover have "sends_ok (refresh_rejected c)" "renewals_ok (refresh_rejected c)"
    unfolding sends_ok_def renewals_ok_def s using o'(2,3)
    by (simp_all add: sends_ok_def renewals_ok_def refresh_rejected_def fold_reject)
  ultimately show ?thesis by (simp add: client_ok_def)
qed

lemma client_ok_step: "client_ok c \<Longrightarrow> client_ok (client_step e c)"
proof (cases e)
  case (Call url)
  then show "client_ok c \<Longrightarrow> client_ok (client_step e c)" using client_ok_call by simp
next
  assume ok: "client_ok c"
  case (Success i)
  show "client_ok (client_step e c)"
  proof (cases "i \<in> rq_id ` set (wc_open c)")
    case True
    then obtain r where r: "r \<in> set (wc_open c)" "i = rq_id r" by auto
    show ?thesis unfolding Success
      by (rule client_ok_answered [OF ok r(1)]) (use r in \<open>auto simp: off_wire_def\<close>)
  qed (use ok Success in simp)
next
  assume ok: "client_ok c"
  case (Failure i status)
  show "client_ok (client_step e c)"
  proof (cases "find (\<lambda>r. rq_id r = i) (wc_open c)")
    case (Some r)
    then have r: "r \<in> set (wc_open c)" "i = rq_id r" by (auto dest: find_SomeD)
    have step: "client_step e c = response_error r status (off_wire (rq_id r) c)"
      using Some r(2) by (simp add: Failure off_wire_def)
    show ?thesis
    proof (cases "status \<noteq> 401 \<or> rq_url r \<in> NON_RETRIABLE_AUTH_URLS \<or> rq_retried r")
      case True
      then have "client_step e c = reject (rq_id r) (if status = 401 then setAccessToken None (off_wire (rq_id r) c) else off_wire (rq_id r) c)"
        unfolding step response_error_def by simp
      then show ?thesis
        by (rule ssubst, intro client_ok_answered [OF ok r(1)]) (auto simp: reject_def off_wire_def)
    next
      case False
      then show ?thesis
        unfolding step response_error_def Let_def using client_ok_waits [OF ok r(1)] by simp
    qed
  qed (use ok Failure in simp)
next
  assume ok: "client_ok c"
  case (RefreshSuccess t)
  then show "client_ok (client_step e c)" using ok client_ok_refreshed by simp
next
  assume ok: "client_ok c"
  case RefreshFailure
  then show "client_ok (client_step e c)" using ok client_ok_refused by simp
qed (auto elim!: client_ok_cong)

text \<open>The user is shown only with a token, once the page has found out whether there is a session.\<close>

definition session_ok :: "web_client \<Rightarrow> bool" where
  "session_ok c \<longleftrightarrow> wc_initializing c \<or> wc_user c = None \<or> (\<exists>t. wc_token c = Some t)"

lemma session_ok_token: "session_ok c \<Longrightarrow> session_ok (setAccessToken t c)"
  by (auto simp: session_ok_def setAccessToken_def)

lemma session_ok_cong:
  "session_ok c \<Longrightarrow> wc_token c' = wc_token c \<Longrightarrow> wc_user c' = wc_user c \<Longrightarrow> wc_initializing c' = wc_initializing c \<Longrightarrow> session_ok c'"
  by (simp add: session_ok_def)

lemma session_ok_error: "session_ok c \<Longrightarrow> session_ok (response_error r status c)"
  using session_ok_token [of c None]
  by (auto simp: response_error_def reject_def refreshAccessToken_def Let_def elim: session_ok_cong)

lemma session_ok_step: "session_ok c \<Longrightarrow> session_ok (client_step e c)"
proof (cases e)
  case (Failure i status)
  then show "session_ok c \<Longrightarrow> session_ok (client_step e c)"
    by (auto split: option.split intro!: session_ok_error elim: session_ok_cong)
next
  assume ok: "session_ok c"
  case (RefreshSuccess t)
  then show "session_ok (client_step e c)"
    using ok by (auto simp: refresh_resolved_def fold_send session_ok_def)
next
  assume ok: "session_ok c"
  case RefreshFailure
  then show "session_ok (client_step e c)"
    using ok session_ok_token [OF ok, of None] by (auto simp: refresh_rejected_def fold_reject elim: session_ok_cong)
qed (auto simp: session_ok_def send_def)

lemma run_client_ok: "client_ok (run_client es) \<and> session_ok (run_client es)"
proof -
  have "client_ok c \<Longrightarrow> session_ok c \<Longrightarrow> client_ok (fold client_step es c) \<and> session_ok (fold client_step es c)" for c
    by (induction es arbitrary: c) (simp_all add: client_ok_step session_ok_step)
  moreover have "client_ok loaded_page"
    by (simp add: client_ok_def calls_ok_def sends_ok_def renewals_ok_def call_ids_def sends_of_def loaded_page_def)
  moreover have "session_ok loaded_page" by (simp add: session_ok_def loaded_page_def)
  ultimately show ?thesis by (simp add: run_client_def)
qed

lemma length_by_key:
  "finite K \<Longrightarrow> fst ` set xs \<subseteq> K \<Longrightarrow> length xs = (\<Sum>k \<in> K. length (filter (\<lambda>x. fst x = k) xs))"
proof (induction xs)
  case (Cons x xs)
  have "(\<Sum>k \<in> K. length (filter (\<lambda>y. fst y = k) (x # xs))) = (\<Sum>k \<in> K. length (filter (\<lambda>y. fst y = k) xs) + (if k = fst x then 1 else 0))"
    by (rule sum.cong) auto
  also have "\<dots> = (\<Sum>k \<in> K. length (filter (\<lambda>y. fst y = k) xs)) + (\<Sum>k \<in> K. if k = fst x then 1 else 0)"
    by (rule sum.distrib)
  also have "(\<Sum>k \<in> K. if k = fst x then 1 else 0) = (1 :: nat)"
    using Cons.prems by (simp add: sum.delta)
  also have "(\<Sum>k \<in> K. length (filter (\<lambda>y. fst y = k) xs)) = length xs"
    using Cons.IH [OF Cons.prems(1)] Cons.prems(2) by simp
  finally show ?case by simp
qed simp

lemma sent_bound:
  assumes "client_ok c"
  shows "length (wc_sent c) \<le> 3 * wc_calls c"
proof -
  let ?K = "insert None (Some ` {..<wc_calls c})"
  have ok: "sends_ok c" "renewals_ok c" using assms by (simp_all add: client_ok_def)
  have "fst x \<in> ?K" if "x \<in> set (wc_sent c)" for x
  proof (cases "fst x")
    case (Some i)
    then have "sends_of (Some i) c \<noteq> 0" using that by (auto simp: sends_of_def filter_empty_conv)
    then have "i < wc_calls c" using ok(1) unfolding sends_ok_def by (meson not_le)
    then show ?thesis using Some by simp
  qed simp
  then have "length (wc_sent c) = (\<Sum>k \<in> ?K. sends_of k c)"
    unfolding sends_of_def by (intro length_by_key) auto
  also have "\<dots> = sends_of None c + (\<Sum>i < wc_calls c. sends_of (Some i) c)"
    by (subst sum.insert) (auto simp: sum.reindex)
  also have "(\<Sum>i < wc_calls c. sends_of (Some i) c) \<le> (\<Sum>i < wc_calls c. 2)"
    by (rule sum_mono) (use ok(1) in \<open>simp add: sends_ok_def\<close>)
  finally show ?thesis using ok(2) by (simp add: renewals_ok_def)
qed


lemma burst_of_401:
  "let c = run_client [Restored ''old'' 8, Call ''/cart'', Call ''/orders'', Failure 0 401, Failure 1 401, RefreshSuccess ''new'',
       Success 1, Failure 0 401]
   in sends_of None c = 1 \<and> wc_resolved c = [1] \<and> wc_rejected c = [0] \<and> wc_token c = None \<and> wc_user c = None"
  by code_simp

section \<open>What pages offer\<close>

fun nextStatusAction :: "SellerOrderStatus \<Rightarrow> SellerOrderStatus option" where
  "nextStatusAction SellerOrderStatus.AWAITING_FULFILLMENT = Some SellerOrderStatus.PROCESSING"
| "nextStatusAction SellerOrderStatus.PROCESSING = Some SellerOrderStatus.SHIPPED"
| "nextStatusAction SellerOrderStatus.SHIPPED = Some SellerOrderStatus.DELIVERED"
| "nextStatusAction _ = None"

definition offers_cancel :: "SellerOrderStatus \<Rightarrow> bool" where
  "offers_cancel status \<longleftrightarrow> status \<in> set [SellerOrderStatus.AWAITING_FULFILLMENT, SellerOrderStatus.PROCESSING]"

definition canOpenDispute :: "SellerOrderStatus \<Rightarrow> bool" where
  "canOpenDispute status \<longleftrightarrow> status = SellerOrderStatus.SHIPPED \<or> status = SellerOrderStatus.DELIVERED"

definition isValidRefundQuantity :: "int \<Rightarrow> int \<Rightarrow> int \<Rightarrow> bool" where
  "isValidRefundQuantity quantity ordered alreadyRefunded \<longleftrightarrow> quantity > 0 \<and> quantity \<le> ordered - alreadyRefunded"

definition clampPurchaseQuantity :: "int \<Rightarrow> int \<Rightarrow> int" where
  "clampPurchaseQuantity value stock = (if stock < 1 then 1 else min stock (max 1 value))"

definition isValidAnalyticsPeriod :: "time option \<Rightarrow> time option \<Rightarrow> bool" where
  "isValidAnalyticsPeriod from to = (case (from, to) of (Some f, Some t) \<Rightarrow> f \<le> t | _ \<Rightarrow> True)"

text \<open>The pages offer exactly the steps the policies of the server accept.\<close>

lemma pages_offer_what_server_accepts:
  "nextStatusAction s = Some t \<longleftrightarrow> assertValidStatusTransition s t = Inr ()"
  "offers_cancel s \<longleftrightarrow> assertCancellable s = Inr ()"
  "canOpenDispute s \<longleftrightarrow> s \<in> set ELIGIBLE_STATUSES"
  by (cases s; cases t; simp add: assertValidStatusTransition_def)
     (cases s; simp add: offers_cancel_def assertCancellable_def isCancellable_def CANCELLABLE_FROM_def canOpenDispute_def
       ELIGIBLE_STATUSES_def)+

lemma clamp_in_stock: "1 \<le> stock \<Longrightarrow> 1 \<le> clampPurchaseQuantity q stock \<and> clampPurchaseQuantity q stock \<le> stock"
  by (simp add: clampPurchaseQuantity_def)

end
