(* ===== verification/Catalog_Cache.thy ===== *)
theory Catalog_Cache
  imports Search_Sync
begin

text \<open>
  The cache of public catalogue reads (\<open>cache/catalog-cache.service.ts\<close>) and the reads through it. Redis holds
  the version counter of searches and entries with an expiry in milliseconds; when it is down every operation
  does nothing and every read is a miss. A search key is the version and the query, whose hash is taken to be
  free of collisions; values are kept as JSON and read back as they were.
\<close>

section \<open>The cache\<close>

datatype cache_key = SearchKey nat CatalogSearchQuery | ProductKey uuid | CategoriesKey

datatype cached_value = CachedSearch CatalogSearchResult | CachedProduct Product | CachedCategories "Category list"

record redis =
  rd_up :: bool
  rd_searchVersion :: "nat option"
  rd_data :: "cache_key \<rightharpoonup> cached_value \<times> time"

definition SEARCH_TTL_SECONDS :: int where "SEARCH_TTL_SECONDS = 5"

definition PRODUCT_TTL_SECONDS :: int where "PRODUCT_TTL_SECONDS = 60"

definition CATEGORIES_TTL_SECONDS :: int where "CATEGORIES_TTL_SECONDS = 300"

definition getSearchVersion :: "redis \<Rightarrow> nat" where
  "getSearchVersion r =
     (if rd_up r then (case rd_searchVersion r of Some n \<Rightarrow> n | None \<Rightarrow> 1) else 1)"

text \<open>\<open>INCR\<close> of a key that is not there makes it 1.\<close>

definition bumpSearchVersion :: "redis \<Rightarrow> redis" where
  "bumpSearchVersion r =
     (if rd_up r then r\<lparr>rd_searchVersion := Some (case rd_searchVersion r of None \<Rightarrow> 1 | Some n \<Rightarrow> n + 1)\<rparr> else r)"

definition getJson :: "time \<Rightarrow> cache_key \<Rightarrow> redis \<Rightarrow> cached_value option" where
  "getJson now_ms k r =
     (if \<not> rd_up r then None
      else (case rd_data r k of None \<Rightarrow> None | Some (v, expiry) \<Rightarrow> if now_ms < expiry then Some v else None))"

definition setJson :: "time \<Rightarrow> cache_key \<Rightarrow> cached_value \<Rightarrow> int \<Rightarrow> redis \<Rightarrow> redis" where
  "setJson now_ms k v ttlSeconds r =
     (if rd_up r then r\<lparr>rd_data := (rd_data r)(k \<mapsto> (v, now_ms + ttlSeconds * 1000))\<rparr> else r)"

definition invalidateProduct :: "uuid \<Rightarrow> redis \<Rightarrow> redis" where
  "invalidateProduct i r = (if rd_up r then r\<lparr>rd_data := (rd_data r)(ProductKey i := None)\<rparr> else r)"

definition invalidateCategories :: "redis \<Rightarrow> redis" where
  "invalidateCategories r = (if rd_up r then r\<lparr>rd_data := (rd_data r)(CategoriesKey := None)\<rparr> else r)"

text \<open>What the handlers of the other theories ask of the cache.\<close>

fun cache_effect :: "effect \<Rightarrow> redis \<Rightarrow> redis" where
  "cache_effect (RedisDelProduct i) r = invalidateProduct i r"
| "cache_effect RedisDelCategories r = invalidateCategories r"
| "cache_effect RedisIncrSearchVersion r = bumpSearchVersion r"
| "cache_effect _ r = r"

section \<open>Reads through the cache\<close>

text \<open>
  A read that finds nothing in the cache loads the row and stores it later; \<open>meanwhile\<close> is what happens to
  clock, tables and cache in between.
\<close>

definition read_product ::
  "(time \<times> database \<times> redis \<Rightarrow> time \<times> database \<times> redis) \<Rightarrow> uuid \<Rightarrow> time \<times> database \<times> redis \<Rightarrow>
   Product result \<times> time \<times> database \<times> redis" where
  "read_product meanwhile i w =
     (case w of (t, d, r) \<Rightarrow>
       case findPublicById (case getJson t (ProductKey i) r of Some (CachedProduct p) \<Rightarrow> Some p | _ \<Rightarrow> None) i d of
         (res, None) \<Rightarrow> (res, w)
       | (res, Some p) \<Rightarrow>
           (case meanwhile w of (t', d', r') \<Rightarrow> (res, t', d', setJson t' (ProductKey i) (CachedProduct p) PRODUCT_TTL_SECONDS r')))"

definition read_categories ::
  "(time \<times> database \<times> redis \<Rightarrow> time \<times> database \<times> redis) \<Rightarrow> time \<times> database \<times> redis \<Rightarrow>
   Category list \<times> time \<times> database \<times> redis" where
  "read_categories meanwhile w =
     (case w of (t, d, r) \<Rightarrow>
       case categories_findAll (case getJson t CategoriesKey r of Some (CachedCategories cs) \<Rightarrow> Some cs | _ \<Rightarrow> None) d of
         (res, None) \<Rightarrow> (res, w)
       | (res, Some cs) \<Rightarrow>
           (case meanwhile w of (t', d', r') \<Rightarrow> (res, t', d', setJson t' CategoriesKey (CachedCategories cs) CATEGORIES_TTL_SECONDS r')))"

definition read_search ::
  "(string \<Rightarrow> string \<Rightarrow> bool) \<Rightarrow> CatalogSearchResult option \<Rightarrow> (time \<times> database \<times> redis \<Rightarrow> time \<times> database \<times> redis) \<Rightarrow>
   CatalogSearchQuery \<Rightarrow> time \<times> database \<times> redis \<Rightarrow> CatalogSearchResult result \<times> time \<times> database \<times> redis" where
  "read_search ilike engine meanwhile q w =
     (case w of (t, d, r) \<Rightarrow>
       let k = SearchKey (getSearchVersion r) q in
       case searchCatalog ilike (case getJson t k r of Some (CachedSearch x) \<Rightarrow> Some x | _ \<Rightarrow> None) engine q d of
         (res, None) \<Rightarrow> (res, w)
       | (res, Some x) \<Rightarrow>
           (case meanwhile w of (t', d', r') \<Rightarrow> (res, t', d', setJson t' k (CachedSearch x) SEARCH_TTL_SECONDS r')))"

section \<open>How old an answer can be\<close>

text \<open>
  The tables over time are given by \<open>tables\<close>; a load reads them at one instant and is stored at most \<open>L\<close>
  milliseconds later. Between them anything happens: time passes, handlers invalidate, other reads load and
  store, and Redis loses entries or is down.
\<close>

fun key_ttl :: "cache_key \<Rightarrow> int" where
  "key_ttl (SearchKey n q) = SEARCH_TTL_SECONDS"
| "key_ttl (ProductKey i) = PRODUCT_TTL_SECONDS"
| "key_ttl CategoriesKey = CATEGORIES_TTL_SECONDS"

fun loaded :: "cache_key \<Rightarrow> database \<Rightarrow> cached_value option" where
  "loaded (ProductKey i) d = map_option CachedProduct (snd (findPublicById None i d))"
| "loaded CategoriesKey d = map_option CachedCategories (snd (categories_findAll None d))"
| "loaded (SearchKey n q) d = None"

type_synonym loads = "(cache_key \<times> cached_value \<times> time) set"

inductive cache_step :: "(time \<Rightarrow> database) \<Rightarrow> int \<Rightarrow> time \<times> loads \<times> redis \<Rightarrow> time \<times> loads \<times> redis \<Rightarrow> bool"
  for tables :: "time \<Rightarrow> database" and L :: int where
  waited: "t \<le> t' \<Longrightarrow> cache_step tables L (t, ls, r) (t', ls, r)"
| effect: "cache_step tables L (t, ls, r) (t, ls, cache_effect x r)"
| outage: "rd_data r' \<subseteq>\<^sub>m rd_data r \<Longrightarrow> cache_step tables L (t, ls, r) (t, ls, r')"
| load: "loaded k (tables t) = Some v \<Longrightarrow> cache_step tables L (t, ls, r) (t, insert (k, v, t) ls, r)"
| store: "(k, v, u) \<in> ls \<Longrightarrow> t \<le> u + L \<Longrightarrow> cache_step tables L (t, ls, r) (t, ls - {(k, v, u)}, setJson t k v (key_ttl k) r)"

definition fresh_within :: "(time \<Rightarrow> database) \<Rightarrow> int \<Rightarrow> time \<times> loads \<times> redis \<Rightarrow> bool" where
  "fresh_within tables L g \<longleftrightarrow>
     (case g of (t, ls, r) \<Rightarrow>
       (\<forall>(k, v, u) \<in> ls. u \<le> t \<and> loaded k (tables u) = Some v) \<and>
       (\<forall>k v x. (\<forall>n q. k \<noteq> SearchKey n q) \<longrightarrow> rd_data r k = Some (v, x) \<longrightarrow>
          (\<exists>u \<le> t. loaded k (tables u) = Some v \<and> x \<le> u + L + key_ttl k * 1000)))"

lemma cache_effect_data: "rd_data (cache_effect x r) \<subseteq>\<^sub>m rd_data r"
  by (cases x) (auto simp: map_le_def invalidateProduct_def invalidateCategories_def bumpSearchVersion_def)

lemma fresh_within_less:
  assumes "fresh_within tables L (t, ls, r)" "rd_data r' \<subseteq>\<^sub>m rd_data r"
  shows "fresh_within tables L (t, ls, r')"
proof -
  have "rd_data r k = Some y" if "rd_data r' k = Some y" for k y
    using assms(2) that by (metis domI map_le_def)
  then show ?thesis using assms(1) unfolding fresh_within_def by simp
qed

lemma fresh_within_step: "cache_step tables L g g' \<Longrightarrow> fresh_within tables L g \<Longrightarrow> fresh_within tables L g'"
proof (induction rule: cache_step.induct)
  case (waited t t' ls r)
  have old: "\<forall>k v x. (\<forall>n q. k \<noteq> SearchKey n q) \<longrightarrow> rd_data r k = Some (v, x) \<longrightarrow>
      (\<exists>u \<le> t. loaded k (tables u) = Some v \<and> x \<le> u + L + key_ttl k * 1000)"
    using waited(2) by (simp add: fresh_within_def)
  have "\<exists>u \<le> t'. loaded k (tables u) = Some v \<and> x \<le> u + L + key_ttl k * 1000"
    if "\<forall>n q. k \<noteq> SearchKey n q" "rd_data r k = Some (v, x)" for k v x
    using old that waited(1) by (meson order_trans)
  moreover have "\<forall>(k, v, u) \<in> ls. u \<le> t' \<and> loaded k (tables u) = Some v"
    using waited by (auto simp: fresh_within_def)
  ultimately show ?case by (simp add: fresh_within_def)
next
  case (effect t ls r x)
  then show ?case using fresh_within_less cache_effect_data by blast
next
  case (outage r' r t ls)
  then show ?case using fresh_within_less by blast
next
  case (load k t v ls r)
  then show ?case by (auto simp: fresh_within_def)
next
  case (store k v u ls t r)
  then have "u \<le> t" "loaded k (tables u) = Some v" by (auto simp: fresh_within_def)
  with store show ?case by (auto simp: fresh_within_def setJson_def split: if_splits)
qed

lemma fresh_within_reachable:
  "(cache_step tables L)\<^sup>*\<^sup>* (t, {}, r) g \<Longrightarrow> rd_data r = Map.empty \<Longrightarrow> fresh_within tables L g"
proof (induction rule: rtranclp_induct)
  case base
  then show ?case by (simp add: fresh_within_def)
next
  case (step g h)
  then show ?case using fresh_within_step by blast
qed

lemma findPublicById_snd: "snd (findPublicById None i d) = Some p \<Longrightarrow> fst (findPublicById None i d) = Inr p"
  by (auto simp: findPublicById_def split: option.splits)

lemma fresh_withinD:
  assumes "fresh_within tables L (t, ls, r)" "getJson t k r = Some v" "\<forall>n q. k \<noteq> SearchKey n q"
  obtains u where "u \<le> t" "t < u + L + key_ttl k * 1000" "loaded k (tables u) = Some v"
proof -
  obtain x where x: "rd_data r k = Some (v, x)" "t < x"
    using assms(2) by (auto simp: getJson_def split: if_splits option.splits)
  have "\<exists>u \<le> t. loaded k (tables u) = Some v \<and> x \<le> u + L + key_ttl k * 1000"
    using assms(1,3) x(1) by (simp add: fresh_within_def)
  with x(2) show thesis using that by force
qed

text \<open>A read is such a run: it loads, other things happen, it stores.\<close>

lemma read_product_runs:
  assumes "getJson t (ProductKey i) r = None" and p: "snd (findPublicById None i (tables t)) = Some p"
    and "meanwhile (t, tables t, r) = (t', tables t', r')" and "t' \<le> t + L"
    and run: "(cache_step tables L)\<^sup>*\<^sup>* (t, insert (ProductKey i, CachedProduct p, t) ls, r) (t', ls', r')"
    and inflight: "(ProductKey i, CachedProduct p, t) \<in> ls'"
  shows "(cache_step tables L)\<^sup>*\<^sup>* (t, ls, r)
    (t', ls' - {(ProductKey i, CachedProduct p, t)}, snd (snd (snd (read_product meanwhile i (t, tables t, r)))))"
proof -
  have ld: "cache_step tables L (t, ls, r) (t, insert (ProductKey i, CachedProduct p, t) ls, r)"
    by (rule load) (simp add: p)
  have st: "cache_step tables L (t', ls', r') (t', ls' - {(ProductKey i, CachedProduct p, t)},
      setJson t' (ProductKey i) (CachedProduct p) PRODUCT_TTL_SECONDS r')"
    using store [OF inflight assms(4), of tables r'] by simp
  have new: "snd (snd (snd (read_product meanwhile i (t, tables t, r)))) = setJson t' (ProductKey i) (CachedProduct p) PRODUCT_TTL_SECONDS r'"
    using assms(1,3) p by (cases "findPublicById None i (tables t)") (simp add: read_product_def)
  show ?thesis unfolding new
    by (rule converse_rtranclp_into_rtranclp [OF ld rtranclp.rtrancl_into_rtrancl [OF run st]])
qed

text \<open>
  C36: Public reads are never older than their time to live. Whatever loads, stores, invalidations and outages
  happened, what the product page shows (a product or that there is none) was the truth less than 60 seconds
  and the longest load before, and the list of categories less than 300 seconds and a load before. An
  invalidation does not make this better in general: a load that began before it stores the old row after it.
\<close>
theorem public_reads_bounded_staleness:
  assumes steps: "(cache_step tables L)\<^sup>*\<^sup>* (t0, {}, r0) (t, ls, r)" and "rd_data r0 = Map.empty" and L: "0 \<le> L"
  shows "(\<exists>u \<le> t. t < u + L + 60000 \<and> fst (read_product m i (t, tables t, r)) = fst (findPublicById None i (tables u))) \<and>
         (\<exists>u \<le> t. t < u + L + 300000 \<and> fst (read_categories m' (t, tables t, r)) = fst (categories_findAll None (tables u)))"
proof
  have fresh: "fresh_within tables L (t, ls, r)" using fresh_within_reachable [OF assms(1,2)] .
  let ?hit = "case getJson t (ProductKey i) r of Some (CachedProduct p) \<Rightarrow> Some p | _ \<Rightarrow> None"
  have res: "fst (read_product m i (t, tables t, r)) = fst (findPublicById ?hit i (tables t))"
    by (simp add: read_product_def split: prod.split option.split)
  show "\<exists>u \<le> t. t < u + L + 60000 \<and> fst (read_product m i (t, tables t, r)) = fst (findPublicById None i (tables u))"
  proof (cases ?hit)
    case None
    then show ?thesis using L res by (intro exI [of _ t]) simp
  next
    case (Some p)
    then have "getJson t (ProductKey i) r = Some (CachedProduct p)" by (auto split: option.splits cached_value.splits)
    from fresh_withinD [OF fresh this] obtain u where u: "u \<le> t" "t < u + L + 60000"
      "loaded (ProductKey i) (tables u) = Some (CachedProduct p)" by (auto simp: PRODUCT_TTL_SECONDS_def)
    then have "fst (findPublicById None i (tables u)) = Inr p" using findPublicById_snd by auto
    then show ?thesis using u(1,2) res Some by (intro exI [of _ u]) (simp add: findPublicById_def)
  qed
  let ?hit = "case getJson t CategoriesKey r of Some (CachedCategories cs) \<Rightarrow> Some cs | _ \<Rightarrow> None"
  have res: "fst (read_categories m' (t, tables t, r)) = fst (categories_findAll ?hit (tables t))"
    by (simp add: read_categories_def split: prod.split option.split)
  show "\<exists>u \<le> t. t < u + L + 300000 \<and> fst (read_categories m' (t, tables t, r)) = fst (categories_findAll None (tables u))"
  proof (cases ?hit)
    case None
    then show ?thesis using L res by (intro exI [of _ t]) simp
  next
    case (Some cs)
    then have "getJson t CategoriesKey r = Some (CachedCategories cs)" by (auto split: option.splits cached_value.splits)
    from fresh_withinD [OF fresh this] obtain u where u: "u \<le> t" "t < u + L + 300000"
      "loaded CategoriesKey (tables u) = Some (CachedCategories cs)" by (auto simp: CATEGORIES_TTL_SECONDS_def)
    then show ?thesis using res Some by (intro exI [of _ u]) (auto simp: categories_findAll_def Let_def)
  qed
qed

section \<open>Invalidating searches\<close>

definition versions_ok :: "redis \<Rightarrow> bool" where
  "versions_ok r \<longleftrightarrow> (\<forall>n q. rd_data r (SearchKey n q) \<noteq> None \<longrightarrow> n \<le> getSearchVersion r)"

lemma versions_ok_bump: "versions_ok r \<Longrightarrow> versions_ok (bumpSearchVersion r)"
  by (fastforce simp: versions_ok_def bumpSearchVersion_def getSearchVersion_def split: option.splits)

lemma versions_ok_set: "versions_ok r \<Longrightarrow> n \<le> getSearchVersion r \<Longrightarrow> versions_ok (setJson t (SearchKey n q) v ttl r)"
proof -
  have "getSearchVersion (setJson t (SearchKey n q) v ttl r) = getSearchVersion r"
    by (simp add: setJson_def getSearchVersion_def)
  then show "versions_ok r \<Longrightarrow> n \<le> getSearchVersion r \<Longrightarrow> versions_ok (setJson t (SearchKey n q) v ttl r)"
    unfolding versions_ok_def by (auto simp: setJson_def split: if_splits)
qed

text \<open>
  Bumping the version makes the next search look at the engine or the tables again, unless the counter does
  not exist yet: a missing counter reads as version 1 and the first \<open>INCR\<close> sets it to 1, so the first
  invalidation changes no key and a search repeated within five seconds still gets its old answer.
\<close>
theorem first_invalidation_is_lost:
  assumes up: "rd_up r" and versions: "versions_ok r" and miss: "getJson t (SearchKey (getSearchVersion r) q) r = None"
    and first: "read_search ilike engine (\<lambda>w. w) q (t, d, r) = (Inr x, t, d, r1)" and t': "t' < t + 5000"
  shows "fst (read_search ilike engine' m q (t', d', cache_effect RedisIncrSearchVersion r1)) =
     (case rd_searchVersion r of None \<Rightarrow> Inr x | Some n \<Rightarrow> fst (searchCatalog ilike None engine' q d'))"
proof -
  let ?k = "SearchKey (getSearchVersion r) q"
  obtain y where "searchCatalog ilike None engine q d = (Inr x, Some y)" "r1 = setJson t ?k (CachedSearch y) SEARCH_TTL_SECONDS r"
    using first miss by (auto simp: read_search_def searchCatalog_def Let_def split: option.splits sum.splits)
  then have r1: "r1 = setJson t ?k (CachedSearch x) SEARCH_TTL_SECONDS r"
    by (auto simp: searchCatalog_def split: option.splits sum.splits)
  show ?thesis
  proof (cases "rd_searchVersion r")
    case None
    have "getSearchVersion (bumpSearchVersion r1) = getSearchVersion r"
      using None up by (simp add: r1 bumpSearchVersion_def getSearchVersion_def setJson_def)
    moreover have "getJson t' ?k (bumpSearchVersion r1) = Some (CachedSearch x)"
      using up t' by (simp add: r1 bumpSearchVersion_def setJson_def getJson_def SEARCH_TTL_SECONDS_def)
    ultimately show ?thesis using None by (simp add: read_search_def Let_def searchCatalog_def)
  next
    case (Some n)
    have v: "getSearchVersion (bumpSearchVersion r1) = n + 1" "getSearchVersion r = n"
      using Some up by (simp_all add: r1 bumpSearchVersion_def getSearchVersion_def setJson_def)
    have "rd_data r (SearchKey (n + 1) q) = None"
      using versions v(2) by (cases "rd_data r (SearchKey (n + 1) q)") (force simp: versions_ok_def)+
    then have "getJson t' (SearchKey (n + 1) q) (bumpSearchVersion r1) = None"
      using up v(2) by (simp add: r1 bumpSearchVersion_def setJson_def getJson_def)
    then show ?thesis
      using Some v(1) by (simp add: read_search_def Let_def split: prod.split option.split)
  qed
qed

section \<open>A hidden product is still shown\<close>

text \<open>
  The product is deleted at 100 and its key invalidated at 200; a read that began at 10 stores the row
  after that, and a visitor at 500 is shown it.
\<close>

definition stale_tables :: "time \<Rightarrow> database" where
  "stale_tables t = (if t < 100 then empty_db\<lparr>products := [sample_product]\<rparr> else empty_db)"

definition up_redis :: redis where
  "up_redis = \<lparr>rd_up = True, rd_searchVersion = None, rd_data = Map.empty\<rparr>"

definition stale_redis :: redis where
  "stale_redis = setJson 200 (ProductKey 2) (CachedProduct sample_product) 60 (cache_effect (RedisDelProduct 2) up_redis)"

theorem public_reads_bounded_staleness_witness:
  "fst (read_product (\<lambda>w. w) 2 (500, stale_tables 500, stale_redis)) = Inr sample_product \<and>
   is_error (fst (findPublicById None 2 (stale_tables 500))) \<and>
   (\<exists>u. 500 < u + 1000 + 60000 \<and> fst (findPublicById None 2 (stale_tables u)) = Inr sample_product)"
proof -
  let ?x = "(ProductKey 2, CachedProduct sample_product, 10 :: time)"
  let ?s = "cache_step stale_tables 1000"
  have "loaded (ProductKey 2) (stale_tables 10) = Some (CachedProduct sample_product)" by code_simp
  then have "?s (10, {}, up_redis) (10, {?x}, up_redis)" by (rule load)
  moreover have "?s (10, {?x}, up_redis) (200, {?x}, up_redis)" by (rule waited) simp
  moreover have "?s (200, {?x}, up_redis) (200, {?x}, cache_effect (RedisDelProduct 2) up_redis)" by (rule effect)
  moreover have "?s (200, {?x}, cache_effect (RedisDelProduct 2) up_redis) (200, {}, stale_redis)"
    using store [of "ProductKey 2" "CachedProduct sample_product" 10 "{?x}" 200 1000 stale_tables "cache_effect (RedisDelProduct 2) up_redis"]
    by (simp add: stale_redis_def PRODUCT_TTL_SECONDS_def)
  moreover have "?s (200, {}, stale_redis) (500, {}, stale_redis)" by (rule waited) simp
  ultimately have run: "?s\<^sup>*\<^sup>* (10, {}, up_redis) (500, {}, stale_redis)"
    by (meson r_into_rtranclp rtranclp.rtrancl_into_rtrancl)
  have shown: "fst (read_product (\<lambda>w. w) 2 (500, stale_tables 500, stale_redis)) = Inr sample_product" by code_simp
  have "\<exists>u \<le> 500. 500 < u + 1000 + 60000 \<and>
      fst (read_product (\<lambda>w. w) 2 (500, stale_tables 500, stale_redis)) = fst (findPublicById None 2 (stale_tables u))"
    by (rule conjunct1 [OF public_reads_bounded_staleness [OF run]]) (simp_all add: up_redis_def)
  then obtain u where "500 < u + 1000 + 60000" "fst (findPublicById None 2 (stale_tables u)) = Inr sample_product"
    unfolding shown by metis
  moreover have "is_error (fst (findPublicById None 2 (stale_tables 500)))" by code_simp
  ultimately show ?thesis using shown by blast
qed

definition all_products :: CatalogSearchQuery where
  "all_products = \<lparr>cq_search = None, cq_categoryId = None, cq_sellerId = None, cq_minPrice = None, cq_maxPrice = None,
     cq_minRating = None, cq_available = None, cq_type = None, cq_page = 1, cq_pageSize = 20, cq_sort = None\<rparr>"

definition no_hits :: "nat \<Rightarrow> CatalogSearchResult" where
  "no_hits n = \<lparr>cs_data = [], cs_page = 1, cs_pageSize = 20, cs_total = n, cs_totalPages = 1\<rparr>"

theorem first_invalidation_is_lost_witness:
  "fst (read_search (=) (Some (no_hits 5)) (\<lambda>w. w) all_products (1000, empty_db, cache_effect RedisIncrSearchVersion
     (snd (snd (snd (read_search (=) (Some (no_hits 4)) (\<lambda>w. w) all_products (0, empty_db, up_redis))))))) = Inr (no_hits 4) \<and>
   fst (read_search (=) (Some (no_hits 5)) (\<lambda>w. w) all_products (1000, empty_db, cache_effect RedisIncrSearchVersion
     (snd (snd (snd (read_search (=) (Some (no_hits 4)) (\<lambda>w. w) all_products (0, empty_db, up_redis\<lparr>rd_searchVersion := Some 1\<rparr>))))))) = Inr (no_hits 5)"
proof -
  have run: "read_search (=) (Some (no_hits 4)) (\<lambda>w. w) all_products (0, empty_db, r) =
      (Inr (no_hits 4), 0, empty_db, snd (snd (snd (read_search (=) (Some (no_hits 4)) (\<lambda>w. w) all_products (0, empty_db, r)))))"
    and ok: "rd_up r" "versions_ok r" "getJson 0 (SearchKey (getSearchVersion r) all_products) r = None"
    if "r \<in> {up_redis, up_redis\<lparr>rd_searchVersion := Some 1\<rparr>}" for r
    using that by (auto simp: read_search_def searchCatalog_def up_redis_def getJson_def versions_ok_def Let_def)
  have "fst (read_search (=) (Some (no_hits 5)) (\<lambda>w. w) all_products (1000, empty_db, cache_effect RedisIncrSearchVersion
       (snd (snd (snd (read_search (=) (Some (no_hits 4)) (\<lambda>w. w) all_products (0, empty_db, r))))))) =
     (case rd_searchVersion r of None \<Rightarrow> Inr (no_hits 4) | Some n \<Rightarrow> Inr (no_hits 5))"
    if "r \<in> {up_redis, up_redis\<lparr>rd_searchVersion := Some 1\<rparr>}" for r
    using first_invalidation_is_lost [OF ok [OF that] run [OF that], of 1000 "Some (no_hits 5)" "\<lambda>w. w" empty_db]
    by (simp add: searchCatalog_def split: option.split)
  from this [of up_redis] this [of "up_redis\<lparr>rd_searchVersion := Some 1\<rparr>"] show ?thesis by (simp add: up_redis_def)
qed

end
