(* ===== verification/Analytics_Csv.thy ===== *)
theory Analytics_Csv
  imports Prelude
begin

text \<open>
  The CSV export of the analytics (\<open>exportCsv\<close> and \<open>protectCsvValue\<close> of
  \<open>modules/analytics/analytics.service.ts\<close>), with a reader of the quoted format (RFC 4180) as its
  specification. A value is the text it is written as; \<open>null\<close> and \<open>undefined\<close> are \<open>None\<close>.
\<close>

abbreviation QUOTE :: char where "QUOTE \<equiv> CHR 0x22"

definition CRLF :: string where
  "CRLF = [CHR 0x0D, CHR 0x0A]"

definition starts_formula :: "string \<Rightarrow> bool" where
  "starts_formula t = (case t of [] \<Rightarrow> False | c # cs \<Rightarrow> c \<in> set ''=+-@'')"

definition guard_formula :: "string \<Rightarrow> string" where
  "guard_formula t = (if starts_formula t then CHR 0x27 # t else t)"

definition double_quotes :: "string \<Rightarrow> string" where
  "double_quotes t = concat (map (\<lambda>c. if c = QUOTE then [QUOTE, QUOTE] else [c]) t)"

definition protectCsvValue :: "string option \<Rightarrow> string" where
  "protectCsvValue value =
     (let t = guard_formula (case value of None \<Rightarrow> [] | Some v \<Rightarrow> v)
      in [QUOTE] @ double_quotes t @ [QUOTE])"

fun js_join :: "string \<Rightarrow> string list \<Rightarrow> string" where
  "js_join sep [] = []"
| "js_join sep [x] = x"
| "js_join sep (x # xs) = x @ sep @ js_join sep xs"

definition csv_text :: "string option list list \<Rightarrow> string" where
  "csv_text lines = js_join CRLF (map (\<lambda>line. js_join '','' (map protectCsvValue line)) lines)"

section \<open>A reader of quoted CSV\<close>

text \<open>A cell after its opening quote: its text and what follows its closing quote.\<close>

fun read_cell :: "string \<Rightarrow> (string \<times> string) option" where
  "read_cell [] = None"
| "read_cell [c] = (if c = QUOTE then Some ([], []) else None)"
| "read_cell (c # d # s) =
     (if c \<noteq> QUOTE then map_option (apfst (Cons c)) (read_cell (d # s))
      else if d = QUOTE then map_option (apfst (Cons QUOTE)) (read_cell s)
      else Some ([], d # s))"

lemma read_cell_shorter: "read_cell s = Some (t, r) \<Longrightarrow> length r < length s"
  by (induction s arbitrary: t rule: read_cell.induct) (fastforce split: if_splits)+

function read_csv :: "string \<Rightarrow> string list list option" where
  "read_csv s =
     (case s of [] \<Rightarrow> None
      | q # s1 \<Rightarrow>
          if q \<noteq> QUOTE then None
          else (case read_cell s1 of
                  None \<Rightarrow> None
                | Some (t, r) \<Rightarrow>
                    if r = [] then Some [[t]]
                    else if hd r = CHR '','' then map_option (\<lambda>rows. (t # hd rows) # tl rows) (read_csv (tl r))
                    else if take 2 r = CRLF then map_option (Cons [t]) (read_csv (drop 2 r))
                    else None))"
  by pat_completeness auto

termination
  by (relation "measure length") (auto dest!: read_cell_shorter)

declare read_csv.simps [simp del]

section \<open>Round trip\<close>

lemma read_cell_quoted:
  assumes r: "r = [] \<or> hd r \<noteq> QUOTE"
  shows "read_cell (double_quotes t @ [QUOTE] @ r) = Some (t, r)"
proof (induction t)
  case Nil
  then show ?case using r by (cases r) (simp_all add: double_quotes_def)
next
  case (Cons c cs)
  have "read_cell (c # double_quotes cs @ [QUOTE] @ r) = map_option (apfst (Cons c)) (read_cell (double_quotes cs @ [QUOTE] @ r))"
    if "c \<noteq> QUOTE"
    using that by (cases "double_quotes cs @ [QUOTE] @ r") simp_all
  then show ?case using Cons by (simp add: double_quotes_def)
qed

definition cell_text :: "string option \<Rightarrow> string" where
  "cell_text value = guard_formula (case value of None \<Rightarrow> [] | Some t \<Rightarrow> t)"

lemma read_protected:
  assumes "rest = [] \<or> hd rest \<noteq> QUOTE"
  shows "read_csv (protectCsvValue v @ rest) =
    (if rest = [] then Some [[cell_text v]]
     else if hd rest = CHR '','' then map_option (\<lambda>rows. (cell_text v # hd rows) # tl rows) (read_csv (tl rest))
     else if take 2 rest = CRLF then map_option (Cons [cell_text v]) (read_csv (drop 2 rest)) else None)"
  using read_cell_quoted [OF assms, of "cell_text v"]
  by (subst read_csv.simps) (simp add: protectCsvValue_def cell_text_def Let_def)

lemma read_line:
  assumes "line \<noteq> []" and rest: "rest = [] \<or> (\<exists>more. rest = CRLF @ more)"
  shows "read_csv (js_join '','' (map protectCsvValue line) @ rest) =
    (if rest = [] then Some [map cell_text line] else map_option (Cons (map cell_text line)) (read_csv (drop 2 rest)))"
  using assms(1)
proof (induction line)
  case (Cons v vs)
  show ?case
  proof (cases vs)
    case Nil
    have "rest = [] \<or> hd rest \<noteq> QUOTE \<and> hd rest \<noteq> CHR '','' \<and> take 2 rest = CRLF"
      using rest by (auto simp: CRLF_def)
    then show ?thesis using Nil read_protected [of rest v] by auto
  next
    case (Cons w ws)
    let ?more = "js_join '','' (map protectCsvValue vs) @ rest"
    have "js_join '','' (map protectCsvValue (v # vs)) @ rest = protectCsvValue v @ '','' @ ?more"
      using Cons by simp
    then show ?thesis
      using read_protected [of "'','' @ ?more" v] Cons.IH Cons by (simp add: option.map_comp comp_def)
  qed
qed simp

text \<open>
  The text of a table without empty lines reads back as its cells, quotes, commas and line breaks inside them
  included, except that a text that starts like a formula gets an apostrophe in front.
\<close>

lemma csv_reads_back:
  assumes "lines \<noteq> []" and "[] \<notin> set lines"
  shows "read_csv (csv_text lines) = Some (map (map cell_text) lines)"
  using assms
proof (induction lines)
  case (Cons l ls)
  have ne: "l \<noteq> []" using Cons.prems by auto
  show ?case
  proof (cases ls)
    case Nil
    then show ?thesis using ne read_line [of l "[]"] by (simp add: csv_text_def)
  next
    case (Cons m ms)
    have "csv_text (l # ls) = js_join '','' (map protectCsvValue l) @ CRLF @ csv_text ls"
      using Cons by (simp add: csv_text_def)
    moreover have "drop 2 (CRLF @ csv_text ls) = csv_text ls" by (simp add: CRLF_def)
    ultimately show ?thesis
      using read_line [of l "CRLF @ csv_text ls"] Cons.IH Cons.prems Cons ne by (simp add: CRLF_def)
  qed
qed simp

lemma no_formula_cell: "\<not> starts_formula (cell_text v)"
  by (simp add: cell_text_def guard_formula_def starts_formula_def split: list.split)

lemma harmless_cell: "\<not> starts_formula t \<Longrightarrow> cell_text (Some t) = t"
  by (simp add: cell_text_def guard_formula_def)

end
