(* ===== verification/Analytics.thy ===== *)
theory Analytics
  imports Doubles Analytics_Csv Order_Rows "HOL-Library.Multiset"
begin

text \<open>
  The sales reports (\<open>modules/analytics/analytics.service.ts\<close>). Every SQL statement is a function of the rows:
  a join is the list of the pairs that match, \<open>GROUP BY\<close> the list of the distinct keys, \<open>SUM\<close> over no row with
  its \<open>COALESCE\<close> is 0, ties of \<open>ORDER BY\<close> keep the order of the rows. \<open>stamps\<close> are the \<open>createdAt\<close> columns the
  other theories do not read, \<open>day\<close> is \<open>DATE_TRUNC\<close> in the time zone of the session, and \<open>fl\<close> rounds to the
  nearest double. Dates of a query are instants; the DTO admits nothing but dates.
\<close>

section \<open>Periods\<close>

record AnalyticsQuery =
  aq_from :: "time option"
  aq_to :: "time option"

record Period =
  pd_from :: time
  pd_to :: time
  pd_previousFrom :: time
  pd_previousTo :: time

definition analytics_period :: "time \<Rightarrow> AnalyticsQuery \<Rightarrow> Period result" where
  "analytics_period clock query =
     (let till = (case aq_to query of Some t \<Rightarrow> t | None \<Rightarrow> clock);
          start = (case aq_from query of Some t \<Rightarrow> t | None \<Rightarrow> till - 30 * 86400000);
          span = till - start
      in if till \<le> start then Inl (BadRequestException ''Analytics from date must precede to date'')
         else Inr \<lparr>pd_from = start, pd_to = till, pd_previousFrom = start - span, pd_previousTo = start\<rparr>)"

definition in_period :: "time \<Rightarrow> time \<Rightarrow> time \<Rightarrow> bool" where
  "in_period start till t \<longleftrightarrow> start \<le> t \<and> t < till"

record stamps =
  st_ledger :: "uuid \<Rightarrow> time"
  st_cart :: "uuid \<Rightarrow> time"
  st_key :: "uuid \<Rightarrow> time"

text \<open>\<open>sellerId\<close> is an optional argument.\<close>

definition for_seller :: "uuid option \<Rightarrow> uuid \<Rightarrow> bool" where
  "for_seller sellerId i \<longleftrightarrow> (case sellerId of None \<Rightarrow> True | Some k \<Rightarrow> i = k)"

section \<open>Sums over the ledger\<close>

fun gross_sign :: "LedgerEntryType \<Rightarrow> int" where
  "gross_sign SALE_CREDIT = 1"
| "gross_sign SELLER_EARNING_REVERSAL = -1"
| "gross_sign _ = 0"

fun commission_sign :: "LedgerEntryType \<Rightarrow> int" where
  "commission_sign COMMISSION_DEBIT = 1"
| "commission_sign PLATFORM_COMMISSION_REVERSAL = -1"
| "commission_sign _ = 0"

fun net_sign :: "LedgerEntryType \<Rightarrow> int" where
  "net_sign SALE_CREDIT = 1"
| "net_sign COMMISSION_DEBIT = -1"
| "net_sign SELLER_EARNING_REVERSAL = -1"
| "net_sign PLATFORM_COMMISSION_REVERSAL = 1"
| "net_sign _ = 0"

definition ledger_sum :: "(LedgerEntryType \<Rightarrow> int) \<Rightarrow> LedgerEntry list \<Rightarrow> int" where
  "ledger_sum sign es = sum_list (map (\<lambda>le. sign (le_type le) * cents (le_amount le)) es)"

text \<open>The cast \<open>::numeric(12,2)::text\<close>, and the cast \<open>::int\<close>.\<close>

definition numeric12 :: "int \<Rightarrow> string result" where
  "numeric12 c = (if \<bar>c\<bar> < 1000000000000 then Inr (formatCentsToMoney c) else Inl (PlainError ''numeric field overflow''))"

definition to_int4 :: "int \<Rightarrow> int result" where
  "to_int4 n = (if - (2 ^ 31) \<le> n \<and> n < 2 ^ 31 then Inr n else Inl (PlainError ''integer out of range''))"

definition ledger_in :: "stamps \<Rightarrow> time \<Rightarrow> time \<Rightarrow> uuid option \<Rightarrow> database \<Rightarrow> LedgerEntry list" where
  "ledger_in st start till sellerId d =
     filter (\<lambda>le. in_period start till (st_ledger st (le_id le)) \<and> for_seller sellerId (le_sellerProfileId le)) (ledger_entries d)"

text \<open>The join of rows with the seller orders their key names.\<close>

definition with_orders :: "('r \<Rightarrow> uuid option) \<Rightarrow> 'r list \<Rightarrow> database \<Rightarrow> ('r \<times> SellerOrder) list" where
  "with_orders key rs d = concat (map (\<lambda>r. map (Pair r) (filter (\<lambda>so. key r = Some (so_id so)) (seller_orders d))) rs)"

definition refunds_in :: "time \<Rightarrow> time \<Rightarrow> uuid option \<Rightarrow> database \<Rightarrow> (Refund \<times> SellerOrder) list" where
  "refunds_in start till sellerId d =
     filter (\<lambda>(r, so). rf_status r = RefundStatus.COMPLETED \<and> in_period start till (rf_createdAt r) \<and> for_seller sellerId (so_sellerProfileId so))
       (with_orders (\<lambda>r. Some (rf_sellerOrderId r)) (refunds d) d)"

definition refund_sum :: "(Refund \<times> SellerOrder) list \<Rightarrow> int" where
  "refund_sum rs = sum_list (map (\<lambda>(r, so). cents (rf_amount r)) rs)"

record MoneyRow =
  mo_gross :: string
  mo_commission :: string
  mo_net :: string
  mo_refunds :: string
  mo_orders :: nat

definition distinct_count :: "'a list \<Rightarrow> nat" where
  "distinct_count xs = length (remdups xs)"

definition money_report :: "stamps \<Rightarrow> time \<Rightarrow> time \<Rightarrow> uuid option \<Rightarrow> database \<Rightarrow> MoneyRow result" where
  "money_report st start till sellerId d =
     (let es = ledger_in st start till sellerId d in
      rbind (numeric12 (ledger_sum gross_sign es)) (\<lambda>gross.
      rbind (numeric12 (ledger_sum commission_sign es)) (\<lambda>commission.
      rbind (numeric12 (ledger_sum net_sign es)) (\<lambda>net.
      rbind (numeric12 (refund_sum (refunds_in start till sellerId d))) (\<lambda>refunded.
      Inr \<lparr>mo_gross = gross, mo_commission = commission, mo_net = net, mo_refunds = refunded,
           mo_orders = distinct_count (filter (\<lambda>x. x \<noteq> None) (map le_sellerOrderId es))\<rparr>)))))"

section \<open>Counts\<close>

definition countSellerOrders :: "time \<Rightarrow> time \<Rightarrow> uuid \<Rightarrow> SellerOrderStatus \<Rightarrow> database \<Rightarrow> nat" where
  "countSellerOrders start till sellerId status d =
     length (filter (\<lambda>so. so_sellerProfileId so = sellerId \<and> so_status so = status \<and> in_period start till (so_createdAt so)) (seller_orders d))"

definition countParentOrders :: "time \<Rightarrow> time \<Rightarrow> database \<Rightarrow> nat" where
  "countParentOrders start till d = length (filter (\<lambda>x. in_period start till (ord_createdAt x)) (orders d))"

definition percentageChange :: "(rat \<Rightarrow> rat) \<Rightarrow> rat \<Rightarrow> rat \<Rightarrow> rat option" where
  "percentageChange fl current previous =
     (if previous = 0 then (if current = 0 then Some 0 else None)
      else Some (js_number fl (toFixed2 (fl (fl (fl (current - previous) / previous) * 100)))))"

definition conversion :: "(rat \<Rightarrow> rat) \<Rightarrow> stamps \<Rightarrow> time \<Rightarrow> time \<Rightarrow> database \<Rightarrow> rat option" where
  "conversion fl st start till d =
     (let successful = length (filter (\<lambda>k. ck_status k = CheckoutIdempotencyStatus.COMPLETED \<and> in_period start till (st_key st (ck_id k))) (checkout_keys d));
          abandoned = distinct_count (concat (map (\<lambda>c. map (\<lambda>ci. cart_id c) (filter (\<lambda>ci. ci_cartId ci = cart_id c) (cart_items d)))
                        (filter (\<lambda>c. in_period start till (st_cart st (cart_id c))) (carts d))))
      in if successful + abandoned = 0 then None
         else Some (js_number fl (toFixed2 (fl (fl (of_nat successful / of_nat (successful + abandoned)) * 100)))))"

section \<open>Rows by day, seller and product\<close>

record DailyRow =
  dy_day :: int
  dy_orders :: nat
  dy_gross :: string
  dy_commission :: string
  dy_net :: string
  dy_refunds :: string

definition daily_row ::
  "int \<Rightarrow> (LedgerEntry \<times> SellerOrder) list \<Rightarrow> (LedgerEntry \<times> SellerOrder \<Rightarrow> uuid) \<Rightarrow> (Refund \<times> SellerOrder) list \<Rightarrow> DailyRow result" where
  "daily_row b ls order_key rs =
     rbind (numeric12 (ledger_sum gross_sign (map fst ls))) (\<lambda>gross.
     rbind (numeric12 (ledger_sum commission_sign (map fst ls))) (\<lambda>commission.
     rbind (numeric12 (ledger_sum net_sign (map fst ls))) (\<lambda>net.
     rbind (numeric12 (refund_sum rs)) (\<lambda>refunded.
     Inr \<lparr>dy_day = b, dy_orders = distinct_count (map order_key ls), dy_gross = gross, dy_commission = commission,
          dy_net = net, dy_refunds = refunded\<rparr>))))"

definition daily ::
  "(time \<Rightarrow> int) \<Rightarrow> stamps \<Rightarrow> time \<Rightarrow> time \<Rightarrow> uuid option \<Rightarrow> database \<Rightarrow> DailyRow list result" where
  "daily day st start till sellerId d =
     (let ls = with_orders le_sellerOrderId (ledger_in st start till sellerId d) d;
          rs = refunds_in start till sellerId d;
          ledger_day = (\<lambda>(le, so). day (st_ledger st (le_id le)));
          refund_day = (\<lambda>(r, so). day (rf_createdAt r));
          order_key = (\<lambda>(le, so). if sellerId = None then so_orderId so else so_id so)
      in rmap (\<lambda>b. daily_row b (filter (\<lambda>x. ledger_day x = b) ls) order_key (filter (\<lambda>x. refund_day x = b) rs))
           (sort (remdups (map ledger_day ls @ map refund_day rs))))"

record BreakdownRow =
  br_sellerId :: uuid
  br_storeName :: string
  br_gross :: string
  br_commission :: string
  br_net :: string

definition breakdown_row :: "LedgerEntry list \<Rightarrow> SellerProfile \<Rightarrow> BreakdownRow result" where
  "breakdown_row es sp =
     (let mine = filter (\<lambda>le. le_sellerProfileId le = sp_id sp) es in
      rbind (numeric12 (ledger_sum gross_sign mine)) (\<lambda>gross.
      rbind (numeric12 (ledger_sum commission_sign mine)) (\<lambda>commission.
      rbind (numeric12 (ledger_sum net_sign mine)) (\<lambda>net.
      Inr \<lparr>br_sellerId = sp_id sp, br_storeName = sp_storeName sp, br_gross = gross, br_commission = commission, br_net = net\<rparr>))))"

definition sellerBreakdown :: "stamps \<Rightarrow> time \<Rightarrow> time \<Rightarrow> database \<Rightarrow> BreakdownRow list result" where
  "sellerBreakdown st start till d =
     (let es = ledger_in st start till None d in
      rbind (rmap (breakdown_row es) (filter (\<lambda>sp. sp_id sp \<in> le_sellerProfileId ` set es) (seller_profiles d))) (\<lambda>found.
      Inr (take 100 (sort_key (\<lambda>x. - cents (br_net x)) found))))"

record TopRow =
  tp_productId :: "uuid option"
  tp_productName :: string
  tp_quantity :: int
  tp_sales :: string

definition refunded_of :: "(Refund \<Rightarrow> int) \<Rightarrow> uuid \<Rightarrow> database \<Rightarrow> int" where
  "refunded_of f itemId d =
     sum_list (map f (filter (\<lambda>r. rf_status r = RefundStatus.COMPLETED \<and> rf_sellerOrderItemId r = itemId) (refunds d)))"

definition top_row :: "database \<Rightarrow> SellerOrderItem list \<Rightarrow> uuid option \<times> string \<Rightarrow> TopRow result" where
  "top_row d its g =
     (let mine = filter (\<lambda>i. (soi_productId i, soi_productName i) = g) its in
      rbind (to_int4 (sum_list (map (\<lambda>i. soi_quantity i - refunded_of rf_quantity (soi_id i) d) mine))) (\<lambda>quantity.
      rbind (numeric12 (sum_list (map (\<lambda>i. cents (soi_lineTotal i) - refunded_of (\<lambda>r. cents (rf_amount r)) (soi_id i) d) mine))) (\<lambda>sales.
      Inr \<lparr>tp_productId = fst g, tp_productName = snd g, tp_quantity = quantity, tp_sales = sales\<rparr>)))"

definition topProducts :: "time \<Rightarrow> time \<Rightarrow> uuid option \<Rightarrow> database \<Rightarrow> TopRow list result" where
  "topProducts start till sellerId d =
     (let its = map fst (filter (\<lambda>(i, so). so_status so = SellerOrderStatus.DELIVERED \<and> in_period start till (so_createdAt so) \<and>
                                 for_seller sellerId (so_sellerProfileId so))
                 (with_orders (\<lambda>i. Some (soi_sellerOrderId i)) (seller_order_items d) d))
      in rbind (rmap (top_row d its) (remdups (map (\<lambda>i. (soi_productId i, soi_productName i)) its))) (\<lambda>found.
         Inr (take 5 (sort_key (\<lambda>x. - cents (tp_sales x)) found))))"

section \<open>The reports and their cache\<close>

text \<open>
  \<open>cached\<close> over a Redis of one kind of report: whether it answers, and its entries with their expiry in
  milliseconds. The prefixes of the keys keep the kinds apart.
\<close>

record ('k, 'v) report_cache =
  rc_up :: bool
  rc_entries :: "'k \<rightharpoonup> 'v \<times> time"

definition CACHE_TTL_SECONDS :: int where "CACHE_TTL_SECONDS = 45"

definition cached_report ::
  "time \<Rightarrow> 'k \<Rightarrow> 'v result \<Rightarrow> ('k, 'v) report_cache \<Rightarrow> 'v result \<times> ('k, 'v) report_cache" where
  "cached_report clock k load c =
     (case (if rc_up c then rc_entries c k else None) of
        Some (v, expiry) \<Rightarrow> if clock < expiry then (Inr v, c) else
          (case load of Inl e \<Rightarrow> (Inl e, c) | Inr w \<Rightarrow> (Inr w, c\<lparr>rc_entries := (rc_entries c)(k \<mapsto> (w, clock + CACHE_TTL_SECONDS * 1000))\<rparr>))
      | None \<Rightarrow>
          (case load of Inl e \<Rightarrow> (Inl e, c)
           | Inr w \<Rightarrow> (Inr w, if rc_up c then c\<lparr>rc_entries := (rc_entries c)(k \<mapsto> (w, clock + CACHE_TTL_SECONDS * 1000))\<rparr> else c)))"

record SellerOverview =
  sv_period :: Period
  sv_money :: MoneyRow
  sv_completedOrders :: nat
  sv_cancelledOrders :: nat
  sv_activeProducts :: nat
  sv_activeAuctions :: nat
  sv_daily :: "DailyRow list"
  sv_topProducts :: "TopRow list"

definition sellerOverview ::
  "time \<Rightarrow> (time \<Rightarrow> int) \<Rightarrow> stamps \<Rightarrow> uuid \<Rightarrow> AnalyticsQuery \<Rightarrow> database \<Rightarrow> (uuid \<times> time \<times> time, SellerOverview) report_cache \<Rightarrow>
   SellerOverview result \<times> (uuid \<times> time \<times> time, SellerOverview) report_cache" where
  "sellerOverview clock day st sellerId query d c =
     (case analytics_period clock query of
        Inl e \<Rightarrow> (Inl e, c)
      | Inr p \<Rightarrow>
          cached_report clock (sellerId, pd_from p, pd_to p)
            (rbind (money_report st (pd_from p) (pd_to p) (Some sellerId) d) (\<lambda>money.
             rbind (daily day st (pd_from p) (pd_to p) (Some sellerId) d) (\<lambda>days.
             rbind (topProducts (pd_from p) (pd_to p) (Some sellerId) d) (\<lambda>tops.
             Inr \<lparr>sv_period = p, sv_money = money,
                  sv_completedOrders = countSellerOrders (pd_from p) (pd_to p) sellerId SellerOrderStatus.DELIVERED d,
                  sv_cancelledOrders = countSellerOrders (pd_from p) (pd_to p) sellerId SellerOrderStatus.CANCELLED d,
                  sv_activeProducts = length (filter (\<lambda>x. pr_sellerProfileId x = sellerId \<and> pr_isPublished x) (products d)),
                  sv_activeAuctions = length (filter (\<lambda>a. au_status a = AuctionStatus.ACTIVE \<and>
                    (\<exists>x \<in> set (products d). pr_id x = au_productId a \<and> pr_sellerProfileId x = sellerId)) (auctions d)),
                  sv_daily = days, sv_topProducts = tops\<rparr>)))) c)"

record AdminReport =
  ar_period :: Period
  ar_money :: MoneyRow
  ar_orders :: nat
  ar_conversionPercent :: "rat option"
  ar_previousPlatformRevenue :: string
  ar_platformRevenueChangePercent :: "rat option"
  ar_previousOrders :: nat
  ar_ordersChangePercent :: "rat option"
  ar_sellerBreakdown :: "BreakdownRow list"
  ar_topSellers :: "BreakdownRow list"
  ar_topProducts :: "TopRow list"
  ar_dailySales :: "DailyRow list"

definition load_report ::
  "(time \<Rightarrow> int) \<Rightarrow> (rat \<Rightarrow> rat) \<Rightarrow> stamps \<Rightarrow> Period \<Rightarrow> database \<Rightarrow> AdminReport result" where
  "load_report day fl st p d =
     (let currentOrders = countParentOrders (pd_from p) (pd_to p) d;
          previousOrders = countParentOrders (pd_previousFrom p) (pd_previousTo p) d
      in rbind (money_report st (pd_from p) (pd_to p) None d) (\<lambda>current.
         rbind (money_report st (pd_previousFrom p) (pd_previousTo p) None d) (\<lambda>previous.
         rbind (daily day st (pd_from p) (pd_to p) None d) (\<lambda>days.
         rbind (sellerBreakdown st (pd_from p) (pd_to p) d) (\<lambda>sellers.
         rbind (topProducts (pd_from p) (pd_to p) None d) (\<lambda>tops.
         Inr \<lparr>ar_period = p, ar_money = current, ar_orders = currentOrders,
              ar_conversionPercent = conversion fl st (pd_from p) (pd_to p) d,
              ar_previousPlatformRevenue = mo_commission previous,
              ar_platformRevenueChangePercent =
                percentageChange fl (js_number fl (mo_commission current)) (js_number fl (mo_commission previous)),
              ar_previousOrders = previousOrders,
              ar_ordersChangePercent = percentageChange fl (of_nat currentOrders) (of_nat previousOrders),
              ar_sellerBreakdown = sellers, ar_topSellers = take 5 sellers, ar_topProducts = tops,
              ar_dailySales = days\<rparr>))))))"

definition adminReport ::
  "time \<Rightarrow> (time \<Rightarrow> int) \<Rightarrow> (rat \<Rightarrow> rat) \<Rightarrow> stamps \<Rightarrow> AnalyticsQuery \<Rightarrow> database \<Rightarrow> (time \<times> time, AdminReport) report_cache \<Rightarrow>
   AdminReport result \<times> (time \<times> time, AdminReport) report_cache" where
  "adminReport clock day fl st query d c =
     (case analytics_period clock query of
        Inl e \<Rightarrow> (Inl e, c)
      | Inr p \<Rightarrow> cached_report clock (pd_from p, pd_to p) (load_report day fl st p d) c)"

text \<open>\<open>day_text\<close> is \<open>TO_CHAR\<close> of a day.\<close>

definition export_header :: "string option list" where
  "export_header = map Some [''date'', ''orders'', ''gross_sales'', ''platform_commission'', ''refunds'', ''effective_seller_net'']"

definition export_row :: "(int \<Rightarrow> string) \<Rightarrow> DailyRow \<Rightarrow> string option list" where
  "export_row day_text x =
     map Some [day_text (dy_day x), show_nat (dy_orders x), dy_gross x, dy_commission x, dy_refunds x, dy_net x]"

definition exportCsv ::
  "(int \<Rightarrow> string) \<Rightarrow> time \<Rightarrow> (time \<Rightarrow> int) \<Rightarrow> (rat \<Rightarrow> rat) \<Rightarrow> stamps \<Rightarrow> AnalyticsQuery \<Rightarrow> database \<Rightarrow>
   (time \<times> time, AdminReport) report_cache \<Rightarrow> string result \<times> (time \<times> time, AdminReport) report_cache" where
  "exportCsv day_text clock day fl st query d c =
     (case adminReport clock day fl st query d c of
        (Inl e, c') \<Rightarrow> (Inl e, c')
      | (Inr report, c') \<Rightarrow> (Inr (csv_text (export_header # map (export_row day_text) (ar_dailySales report))), c'))"

section \<open>Sums by group\<close>

lemma sum_by_group:
  assumes "distinct bs" "f ` set xs \<subseteq> set bs"
  shows "(\<Sum>b\<leftarrow>bs. \<Sum>x\<leftarrow>filter (\<lambda>x. f x = b) xs. (g x :: int)) = (\<Sum>x\<leftarrow>xs. g x)"
  using assms(2)
proof (induction xs)
  case (Cons x xs)
  have "(\<Sum>b\<leftarrow>bs. \<Sum>y\<leftarrow>filter (\<lambda>y. f y = b) (x # xs). g y) =
    (\<Sum>b\<leftarrow>bs. (if b = f x then g x else 0) + (\<Sum>y\<leftarrow>filter (\<lambda>y. f y = b) xs. g y))"
    by (rule arg_cong [where f = sum_list], rule map_cong) auto
  also have "\<dots> = (\<Sum>b\<leftarrow>bs. if b = f x then g x else 0) + (\<Sum>b\<leftarrow>bs. \<Sum>y\<leftarrow>filter (\<lambda>y. f y = b) xs. g y)"
    by (simp add: sum_list_addf)
  also have "(\<Sum>b\<leftarrow>bs. if b = f x then g x else 0) = g x"
    using Cons.prems assms(1) by (simp add: sum_list_distinct_conv_sum_set)
  finally show ?case using Cons by simp
qed simp

lemma numeric12_cents: "numeric12 c = Inr t \<Longrightarrow> cents t = c"
  by (auto simp: numeric12_def split: if_splits)

lemma rmap_Inr_sum:
  "rmap f xs = Inr ys \<Longrightarrow> (\<And>x y. f x = Inr y \<Longrightarrow> h y = (g x :: int)) \<Longrightarrow> (\<Sum>y\<leftarrow>ys. h y) = (\<Sum>x\<leftarrow>xs. g x)"
  by (induction xs arbitrary: ys) (auto simp: rbind_Inr_iff)

lemma net_sum: "ledger_sum net_sign es = ledger_sum gross_sign es - ledger_sum commission_sign es"
proof -
  have "net_sign t = gross_sign t - commission_sign t" for t by (cases t) simp_all
  then have n: "net_sign = (\<lambda>t. gross_sign t - commission_sign t)" by (rule ext)
  show ?thesis unfolding n ledger_sum_def left_diff_distrib sum_list_subtractf ..
qed

lemma ledger_sum_map: "ledger_sum sign (map h xs) = (\<Sum>x\<leftarrow>xs. sign (le_type (h x)) * cents (le_amount (h x)))"
  by (simp add: ledger_sum_def comp_def)

lemma unique_partner:
  assumes "distinct (map so_id sos)" "so \<in> set sos"
  shows "filter (\<lambda>x. so_id so = so_id x) sos = [so]"
  using assms
proof (induction sos)
  case (Cons a sos)
  show ?case
  proof (cases "a = so")
    case True
    then show ?thesis using Cons.prems(1) by (auto simp: filter_empty_conv image_iff)
  next
    case False
    then show ?thesis using Cons by (auto simp: image_iff)
  qed
qed simp

text \<open>Every row whose seller order exists has exactly one partner in the join.\<close>

lemma with_orders_fst:
  assumes "distinct (map so_id (seller_orders d))" "\<And>r. r \<in> set rs \<Longrightarrow> key r \<in> Some ` so_id ` set (seller_orders d)"
  shows "map fst (with_orders key rs d) = rs"
  using assms(2)
proof (induction rs)
  case (Cons r rs)
  obtain so where so: "so \<in> set (seller_orders d)" "key r = Some (so_id so)" using Cons.prems [of r] by auto
  then have "filter (\<lambda>x. key r = Some (so_id x)) (seller_orders d) = [so]"
    using unique_partner [OF assms(1) so(1)] by simp
  then show ?case using Cons by (simp add: with_orders_def)
qed (simp add: with_orders_def)

section \<open>The parts of a report add up\<close>

text \<open>
  The primary and foreign keys the joins use. The column \<open>sellerOrderId\<close> of an entry may be null, but every
  writer sets it.
\<close>

definition report_keys_ok :: "database \<Rightarrow> bool" where
  "report_keys_ok d \<longleftrightarrow>
     distinct (map so_id (seller_orders d)) \<and> distinct (map sp_id (seller_profiles d)) \<and>
     (\<forall>le \<in> set (ledger_entries d). le_sellerOrderId le \<in> Some ` so_id ` set (seller_orders d) \<and>
        le_sellerProfileId le \<in> sp_id ` set (seller_profiles d))"

definition adds_up :: "AdminReport \<Rightarrow> bool" where
  "adds_up x \<longleftrightarrow>
     cents (mo_net (ar_money x)) = cents (mo_gross (ar_money x)) - cents (mo_commission (ar_money x)) \<and>
     (\<Sum>y\<leftarrow>ar_dailySales x. cents (dy_gross y)) = cents (mo_gross (ar_money x)) \<and>
     (\<Sum>y\<leftarrow>ar_dailySales x. cents (dy_commission y)) = cents (mo_commission (ar_money x)) \<and>
     (\<Sum>y\<leftarrow>ar_dailySales x. cents (dy_net y)) = cents (mo_net (ar_money x)) \<and>
     (\<Sum>y\<leftarrow>ar_dailySales x. cents (dy_refunds y)) = cents (mo_refunds (ar_money x)) \<and>
     (length (ar_sellerBreakdown x) < 100 \<longrightarrow>
        (\<Sum>y\<leftarrow>ar_sellerBreakdown x. cents (br_net y)) = cents (mo_net (ar_money x)) \<and>
        (\<Sum>y\<leftarrow>ar_sellerBreakdown x. cents (br_gross y)) = cents (mo_gross (ar_money x)))"

lemma money_report_cents:
  assumes "money_report st start till sid d = Inr m"
  shows "cents (mo_gross m) = ledger_sum gross_sign (ledger_in st start till sid d) \<and>
    cents (mo_commission m) = ledger_sum commission_sign (ledger_in st start till sid d) \<and>
    cents (mo_net m) = ledger_sum net_sign (ledger_in st start till sid d) \<and>
    cents (mo_refunds m) = refund_sum (refunds_in start till sid d)"
  using assms by (auto simp: money_report_def Let_def rbind_Inr_iff dest!: numeric12_cents)

lemma daily_row_cents:
  assumes "daily_row b ls f rs = Inr y"
  shows "cents (dy_gross y) = ledger_sum gross_sign (map fst ls) \<and> cents (dy_commission y) = ledger_sum commission_sign (map fst ls) \<and>
    cents (dy_net y) = ledger_sum net_sign (map fst ls) \<and> cents (dy_refunds y) = refund_sum rs"
  using assms by (auto simp: daily_row_def rbind_Inr_iff dest!: numeric12_cents)

lemma daily_rows:
  assumes "daily day st start till sid d = Inr days"
  obtains bs f h k where "distinct bs"
    "f ` set (with_orders le_sellerOrderId (ledger_in st start till sid d) d) \<subseteq> set bs" "h ` set (refunds_in start till sid d) \<subseteq> set bs"
    "rmap (\<lambda>b. daily_row b (filter (\<lambda>x. f x = b) (with_orders le_sellerOrderId (ledger_in st start till sid d) d)) k
        (filter (\<lambda>x. h x = b) (refunds_in start till sid d))) bs = Inr days"
proof -
  define f where "f = (\<lambda>(le :: LedgerEntry, so :: SellerOrder). day (st_ledger st (le_id le)))"
  define h where "h = (\<lambda>(r :: Refund, so :: SellerOrder). day (rf_createdAt r))"
  let ?bs = "sort (remdups (map f (with_orders le_sellerOrderId (ledger_in st start till sid d) d) @ map h (refunds_in start till sid d)))"
  show thesis
  proof (rule that [of ?bs f h])
    show "rmap (\<lambda>b. daily_row b (filter (\<lambda>x. f x = b) (with_orders le_sellerOrderId (ledger_in st start till sid d) d))
        (\<lambda>(le, so). if sid = None then so_orderId so else so_id so)
        (filter (\<lambda>x. h x = b) (refunds_in start till sid d))) ?bs = Inr days"
      using assms unfolding daily_def Let_def f_def h_def by simp
  qed (auto simp: distinct_sort)
qed

lemma day_sums:
  assumes days: "daily day st start till sid d = Inr days"
    and es: "map fst (with_orders le_sellerOrderId (ledger_in st start till sid d) d) = ledger_in st start till sid d"
    and col: "\<And>b ls f rs y. daily_row b ls f rs = Inr y \<Longrightarrow> cents (col y) = ledger_sum sign (map fst ls)"
  shows "(\<Sum>y\<leftarrow>days. cents (col y)) = ledger_sum sign (ledger_in st start till sid d)"
proof -
  define ls where "ls = with_orders le_sellerOrderId (ledger_in st start till sid d) d"
  obtain bs f h k where b: "distinct bs" "f ` set ls \<subseteq> set bs" and "h ` set (refunds_in start till sid d) \<subseteq> set bs"
    and run: "rmap (\<lambda>b. daily_row b (filter (\<lambda>x. f x = b) ls) k (filter (\<lambda>x. h x = b) (refunds_in start till sid d))) bs = Inr days"
    by (rule daily_rows [OF days, folded ls_def])
  have "(\<Sum>y\<leftarrow>days. cents (col y)) = (\<Sum>b\<leftarrow>bs. \<Sum>x\<leftarrow>filter (\<lambda>x. f x = b) ls. sign (le_type (fst x)) * cents (le_amount (fst x)))"
    by (rule rmap_Inr_sum [OF run]) (simp add: col ledger_sum_map)
  also have "\<dots> = (\<Sum>x\<leftarrow>ls. sign (le_type (fst x)) * cents (le_amount (fst x)))" by (rule sum_by_group [OF b])
  also have "\<dots> = ledger_sum sign (map fst ls)" by (simp add: ledger_sum_map)
  finally show ?thesis using es by (simp add: ls_def)
qed

lemma day_refunds:
  assumes days: "daily day st start till sid d = Inr days"
  shows "(\<Sum>y\<leftarrow>days. cents (dy_refunds y)) = refund_sum (refunds_in start till sid d)"
proof -
  define rs where "rs = refunds_in start till sid d"
  define ls where "ls = with_orders le_sellerOrderId (ledger_in st start till sid d) d"
  obtain bs f h k where b0: "distinct bs" and "f ` set ls \<subseteq> set bs" and b1: "h ` set rs \<subseteq> set bs"
    and run: "rmap (\<lambda>b. daily_row b (filter (\<lambda>x. f x = b) ls) k (filter (\<lambda>x. h x = b) rs)) bs = Inr days"
    by (rule daily_rows [OF days, folded ls_def rs_def])
  have "(\<Sum>y\<leftarrow>days. cents (dy_refunds y)) = (\<Sum>b\<leftarrow>bs. \<Sum>x\<leftarrow>filter (\<lambda>x. h x = b) rs. case x of (r, so) \<Rightarrow> cents (rf_amount r))"
    by (rule rmap_Inr_sum [OF run]) (simp add: daily_row_cents refund_sum_def)
  also have "\<dots> = (\<Sum>x\<leftarrow>rs. case x of (r, so) \<Rightarrow> cents (rf_amount r))" by (rule sum_by_group [OF b0 b1])
  finally show ?thesis by (simp add: refund_sum_def rs_def)
qed

lemma ledger_in_known:
  "report_keys_ok d \<Longrightarrow> map fst (with_orders le_sellerOrderId (ledger_in st start till sid d) d) = ledger_in st start till sid d"
  by (rule with_orders_fst) (auto simp: report_keys_ok_def ledger_in_def)

lemma sum_sorted: "(\<Sum>x\<leftarrow>sort_key k xs. g x :: int) = (\<Sum>x\<leftarrow>xs. g x)"
  by (metis mset_map mset_sort sum_mset_sum_list)

lemma breakdown_row_cents:
  assumes "breakdown_row es sp = Inr y"
  shows "cents (br_gross y) = ledger_sum gross_sign (filter (\<lambda>le. le_sellerProfileId le = sp_id sp) es) \<and>
    cents (br_net y) = ledger_sum net_sign (filter (\<lambda>le. le_sellerProfileId le = sp_id sp) es)"
  using assms by (auto simp: breakdown_row_def Let_def rbind_Inr_iff dest!: numeric12_cents)

lemma seller_sums:
  assumes run: "sellerBreakdown st start till d = Inr out" and keys: "report_keys_ok d" and few: "length out < 100"
    and col: "\<And>es sp y. breakdown_row es sp = Inr y \<Longrightarrow> cents (col y) = ledger_sum sign (filter (\<lambda>le. le_sellerProfileId le = sp_id sp) es)"
  shows "(\<Sum>y\<leftarrow>out. cents (col y)) = ledger_sum sign (ledger_in st start till None d)"
proof -
  define es where "es = ledger_in st start till None d"
  define sps where "sps = filter (\<lambda>sp. sp_id sp \<in> le_sellerProfileId ` set es) (seller_profiles d)"
  obtain found where f: "rmap (breakdown_row es) sps = Inr found" "out = take 100 (sort_key (\<lambda>x. - cents (br_net x)) found)"
    using run by (auto simp: sellerBreakdown_def Let_def rbind_Inr_iff es_def sps_def)
  have "out = sort_key (\<lambda>x. - cents (br_net x)) found" using few f(2) by simp
  then have "(\<Sum>y\<leftarrow>out. cents (col y)) = (\<Sum>y\<leftarrow>found. cents (col y))" by (simp add: sum_sorted)
  also have "\<dots> = (\<Sum>sp\<leftarrow>sps. \<Sum>le\<leftarrow>filter (\<lambda>le. le_sellerProfileId le = sp_id sp) es. sign (le_type le) * cents (le_amount le))"
    by (rule rmap_Inr_sum [OF f(1)]) (simp add: col ledger_sum_def)
  also have "\<dots> = (\<Sum>i\<leftarrow>map sp_id sps. \<Sum>le\<leftarrow>filter (\<lambda>le. le_sellerProfileId le = i) es. sign (le_type le) * cents (le_amount le))"
    by (simp add: comp_def)
  also have "\<dots> = (\<Sum>le\<leftarrow>es. sign (le_type le) * cents (le_amount le))"
  proof (rule sum_by_group)
    show "distinct (map sp_id sps)" using keys by (simp add: report_keys_ok_def sps_def distinct_map_filter)
    show "le_sellerProfileId ` set es \<subseteq> set (map sp_id sps)"
    proof
      fix i
      assume i: "i \<in> le_sellerProfileId ` set es"
      then have "i \<in> sp_id ` set (seller_profiles d)" using keys by (auto simp: report_keys_ok_def es_def ledger_in_def)
      then obtain sp where "sp \<in> set (seller_profiles d)" "sp_id sp = i" by auto
      with i have "sp \<in> set sps" by (simp add: sps_def)
      then show "i \<in> set (map sp_id sps)" using \<open>sp_id sp = i\<close> by auto
    qed
  qed
  finally show ?thesis by (simp add: ledger_sum_def es_def)
qed

lemma load_report_adds_up:
  assumes keys: "report_keys_ok d" and run: "load_report day fl st p d = Inr out"
  shows "adds_up out"
proof -
  obtain m prev days sellers tops where parts: "money_report st (pd_from p) (pd_to p) None d = Inr m"
    "daily day st (pd_from p) (pd_to p) None d = Inr days" "sellerBreakdown st (pd_from p) (pd_to p) d = Inr sellers"
    and out: "ar_money out = m" "ar_dailySales out = days" "ar_sellerBreakdown out = sellers"
    using run by (auto simp: load_report_def Let_def rbind_Inr_iff)
  note m = money_report_cents [OF parts(1)]
  note by_day = day_sums [OF parts(2) ledger_in_known [OF keys]]
  note by_seller = seller_sums [OF parts(3) keys]
  show ?thesis
    unfolding adds_up_def out
    using m net_sum day_refunds [OF parts(2)]
      by_day [where col = dy_gross and sign = gross_sign] by_day [where col = dy_commission and sign = commission_sign]
      by_day [where col = dy_net and sign = net_sign]
      by_seller [where col = br_net and sign = net_sign] by_seller [where col = br_gross and sign = gross_sign]
    by (simp add: daily_row_cents breakdown_row_cents)
qed

section \<open>The report, from the cache or not\<close>

definition sound_cache :: "(time \<times> time, AdminReport) report_cache \<Rightarrow> bool" where
  "sound_cache c \<longleftrightarrow> (\<forall>k v x. rc_entries c k = Some (v, x) \<longrightarrow> adds_up v)"

lemma cached_report_cases:
  assumes "cached_report clock k load c = (r, c')"
  shows "(\<exists>v x. rc_entries c k = Some (v, x) \<and> r = Inr v \<and> c' = c) \<or> (\<exists>err. load = Inl err \<and> r = Inl err \<and> c' = c) \<or>
    (\<exists>w. load = Inr w \<and> r = Inr w \<and> (c' = c \<or> c' = c\<lparr>rc_entries := (rc_entries c)(k \<mapsto> (w, clock + CACHE_TTL_SECONDS * 1000))\<rparr>))"
  using assms by (auto simp: cached_report_def split: option.splits if_splits sum.splits)


section \<open>The report and the books\<close>

lemma ledger_in_all:
  "(\<And>le. le \<in> set (ledger_entries d) \<Longrightarrow> in_period start till (st_ledger st (le_id le))) \<Longrightarrow>
   ledger_in st start till None d = ledger_entries d"
  by (simp add: ledger_in_def for_seller_def)

lemma sum_two_types:
  assumes "\<And>t. sign t = (if t = a then 1 else if t = b then -1 else (0 :: int))" "a \<noteq> b"
  shows "ledger_sum sign (filter (\<lambda>le. le_sellerOrderId le = Some i) es) =
    (\<Sum>le\<leftarrow>filter (\<lambda>x. le_sellerOrderId x = Some i \<and> le_type x = a) es. cents (le_amount le)) -
    (\<Sum>le\<leftarrow>filter (\<lambda>x. le_sellerOrderId x = Some i \<and> le_type x = b) es. cents (le_amount le))"
  by (induction es) (use assms in \<open>auto simp: ledger_sum_def\<close>)

lemma gross_signs: "gross_sign t = (if t = SALE_CREDIT then 1 else if t = SELLER_EARNING_REVERSAL then -1 else 0)"
  by (cases t) simp_all

lemma commission_signs: "commission_sign t = (if t = COMMISSION_DEBIT then 1 else if t = PLATFORM_COMMISSION_REVERSAL then -1 else 0)"
  by (cases t) simp_all

lemma gross_of_order:
  "ledger_sum gross_sign (filter (\<lambda>le. le_sellerOrderId le = Some i) (ledger_entries d)) =
   ledger_total i SALE_CREDIT d - ledger_total i SELLER_EARNING_REVERSAL d"
  unfolding ledger_total_def entries_of_def by (rule sum_two_types [OF gross_signs]) simp

lemma commission_of_order:
  "ledger_sum commission_sign (filter (\<lambda>le. le_sellerOrderId le = Some i) (ledger_entries d)) =
   ledger_total i COMMISSION_DEBIT d - ledger_total i PLATFORM_COMMISSION_REVERSAL d"
  unfolding ledger_total_def entries_of_def by (rule sum_two_types [OF commission_signs]) simp

lemma sum_over_orders:
  assumes "report_keys_ok d"
  shows "ledger_sum sign (ledger_entries d) =
    (\<Sum>so\<leftarrow>seller_orders d. ledger_sum sign (filter (\<lambda>le. le_sellerOrderId le = Some (so_id so)) (ledger_entries d)))"
proof -
  have "(\<Sum>b\<leftarrow>map (\<lambda>so. Some (so_id so)) (seller_orders d). \<Sum>le\<leftarrow>filter (\<lambda>le. le_sellerOrderId le = b) (ledger_entries d).
      sign (le_type le) * cents (le_amount le)) = (\<Sum>le\<leftarrow>ledger_entries d. sign (le_type le) * cents (le_amount le))"
  proof (rule sum_by_group)
    show "distinct (map (\<lambda>so. Some (so_id so)) (seller_orders d))"
      using assms by (simp add: report_keys_ok_def distinct_map inj_on_def)
    show "le_sellerOrderId ` set (ledger_entries d) \<subseteq> set (map (\<lambda>so. Some (so_id so)) (seller_orders d))"
      using assms by (auto simp: report_keys_ok_def image_image)
  qed
  then show ?thesis by (simp add: ledger_sum_def comp_def)
qed

lemma booked_totals:
  assumes "books_ok d" "so \<in> set (seller_orders d)"
  shows "ledger_total (so_id so) SALE_CREDIT d = cents (so_subtotal so) \<and>
    ledger_total (so_id so) COMMISSION_DEBIT d = cents (so_commissionAmount so)"
  using assms by (simp add: books_ok_def sellers_booked_def so_booked_def ledger_total_def)

text \<open>
  Over a period that holds every ledger entry the money figures are those of the books: the gross sales are
  the subtotals of all seller orders less the reversed earnings, the commission is theirs less the reversed
  commission, and the net is the difference.
\<close>
theorem report_matches_books:
  assumes books: "books_ok d" and keys: "report_keys_ok d"
    and all: "\<And>le. le \<in> set (ledger_entries d) \<Longrightarrow> in_period start till (st_ledger st (le_id le))"
    and run: "money_report st start till None d = Inr m"
  shows "cents (mo_gross m) =
           (\<Sum>so\<leftarrow>seller_orders d. cents (so_subtotal so) - ledger_total (so_id so) SELLER_EARNING_REVERSAL d) \<and>
         cents (mo_commission m) =
           (\<Sum>so\<leftarrow>seller_orders d. cents (so_commissionAmount so) - ledger_total (so_id so) PLATFORM_COMMISSION_REVERSAL d) \<and>
         cents (mo_net m) = cents (mo_gross m) - cents (mo_commission m)"
proof -
  have l: "ledger_in st start till None d = ledger_entries d" by (rule ledger_in_all [OF all])
  note m = money_report_cents [OF run, unfolded l]
  have "ledger_sum gross_sign (ledger_entries d) =
      (\<Sum>so\<leftarrow>seller_orders d. cents (so_subtotal so) - ledger_total (so_id so) SELLER_EARNING_REVERSAL d)"
    unfolding sum_over_orders [OF keys] gross_of_order
    by (rule arg_cong [where f = sum_list], rule map_cong) (simp_all add: booked_totals [OF books])
  moreover have "ledger_sum commission_sign (ledger_entries d) =
      (\<Sum>so\<leftarrow>seller_orders d. cents (so_commissionAmount so) - ledger_total (so_id so) PLATFORM_COMMISSION_REVERSAL d)"
    unfolding sum_over_orders [OF keys] commission_of_order
    by (rule arg_cong [where f = sum_list], rule map_cong) (simp_all add: booked_totals [OF books])
  ultimately show ?thesis using m net_sum [of "ledger_entries d"] by simp
qed

section \<open>Percentages\<close>

text \<open>Rounding to the nearest double is monotone and keeps the integers up to 2 to the 53rd.\<close>

definition doubles_ok :: "(rat \<Rightarrow> rat) \<Rightarrow> bool" where
  "doubles_ok fl \<longleftrightarrow> mono fl \<and> (\<forall>n :: int. \<bar>n\<bar> \<le> 2 ^ 53 \<longrightarrow> fl (of_int n) = of_int n)"

lemma doubles_keep:
  assumes "doubles_ok fl" shows "fl 0 = 0" "fl 1 = 1" "fl 100 = 100"
proof -
  have k: "\<bar>n\<bar> \<le> 2 ^ 53 \<Longrightarrow> fl (of_int n) = of_int n" for n using assms by (simp add: doubles_ok_def)
  show "fl 0 = 0" "fl 1 = 1" "fl 100 = 100" using k [of 0] k [of 1] k [of 100] by simp_all
qed

lemma doubles_sign:
  assumes "doubles_ok fl" shows "0 \<le> x \<Longrightarrow> 0 \<le> fl x" "x \<le> 0 \<Longrightarrow> fl x \<le> 0"
  using assms doubles_keep [OF assms] monoD [of fl 0 x] monoD [of fl x 0] by (auto simp: doubles_ok_def)

lemma fixed_sign:
  assumes fl: "doubles_ok fl"
  shows "0 \<le> x \<Longrightarrow> 0 \<le> js_number fl (toFixed2 x)" "x \<le> 0 \<Longrightarrow> js_number fl (toFixed2 x) \<le> 0"
    "0 \<le> x \<Longrightarrow> x \<le> 100 \<Longrightarrow> js_number fl (toFixed2 x) \<le> 100"
proof -
  have up: "0 \<le> math_round y" if "0 \<le> y" for y using that by (simp add: math_round_def)
  show "0 \<le> js_number fl (toFixed2 x)" if "0 \<le> x"
    using up [of "x * 100"] that by (simp add: js_number_def toFixed2_def doubles_sign [OF fl])
  show "js_number fl (toFixed2 x) \<le> 0" if "x \<le> 0"
  proof (cases "x = 0")
    case True
    moreover have "\<lfloor>1 / 2 :: rat\<rfloor> = 0" by (simp add: floor_eq_iff)
    ultimately show ?thesis by (simp add: js_number_def toFixed2_def math_round_def doubles_keep [OF fl])
  next
    case False
    then have "x < 0" using that by simp
    then show ?thesis using up [of "- x * 100"] by (simp add: js_number_def toFixed2_def doubles_sign [OF fl])
  qed
  show "js_number fl (toFixed2 x) \<le> 100" if "0 \<le> x" "x \<le> 100"
  proof -
    have "math_round (x * 100) \<le> 10000"
      unfolding math_round_def using that by (simp add: floor_le_iff)
    then have "(of_int (math_round (x * 100)) :: rat) / 100 \<le> 100" by (simp add: divide_le_eq)
    moreover have "mono fl" using fl by (simp add: doubles_ok_def)
    ultimately have "fl (of_int (math_round (x * 100)) / 100) \<le> fl 100" by (simp add: monoD)
    then show ?thesis using that by (simp add: js_number_def toFixed2_def doubles_keep [OF fl])
  qed
qed

lemma change_sign:
  assumes fl: "doubles_ok fl" and run: "percentageChange fl current previous = Some x" and p: "previous \<noteq> 0"
  shows "0 \<le> (current - previous) / previous \<Longrightarrow> 0 \<le> x" "(current - previous) / previous \<le> 0 \<Longrightarrow> x \<le> 0"
proof -
  let ?q = "fl (current - previous) / previous"
  have x: "x = js_number fl (toFixed2 (fl (fl ?q * 100)))" using run p by (simp add: percentageChange_def)
  note s = doubles_sign [OF fl]
  show "0 \<le> x" if q: "0 \<le> (current - previous) / previous"
  proof -
    have "0 \<le> ?q" using q p s [of "current - previous"] by (auto simp: zero_le_divide_iff)
    then show ?thesis unfolding x by (intro fixed_sign(1) [OF fl] s(1)) (simp add: s)
  qed
  show "x \<le> 0" if q: "(current - previous) / previous \<le> 0"
  proof -
    have "?q \<le> 0" using q p s [of "current - previous"] by (auto simp: divide_le_0_iff)
    then have "fl ?q * 100 \<le> 0" using s(2) [of ?q] by simp
    then show ?thesis unfolding x by (intro fixed_sign(2) [OF fl] s(2))
  qed
qed

lemma conversion_bounds:
  assumes fl: "doubles_ok fl" and run: "conversion fl st start till d = Some x"
  shows "0 \<le> x \<and> x \<le> 100"
proof -
  obtain a b :: nat where ab: "a + b \<noteq> 0" "x = js_number fl (toFixed2 (fl (fl (of_nat a / of_nat (a + b)) * 100)))"
    using run by (auto simp: conversion_def Let_def split: if_splits)
  let ?q = "of_nat a / of_nat (a + b) :: rat"
  have "0 \<le> ?q" "?q \<le> 1" using ab(1) by (simp_all add: divide_le_eq)
  then have "0 \<le> fl ?q" "fl ?q \<le> 1"
    using doubles_sign [OF fl] doubles_keep [OF fl] monoD [of fl ?q 1] fl by (auto simp: doubles_ok_def)
  then have "0 \<le> fl (fl ?q * 100)" "fl (fl ?q * 100) \<le> 100"
    using doubles_sign(1) [OF fl, of "fl ?q * 100"] doubles_keep [OF fl] monoD [of fl "fl ?q * 100" 100] fl by (auto simp: doubles_ok_def)
  then show ?thesis unfolding ab(2) using fixed_sign [OF fl] by simp
qed

text \<open>
  A conversion rate is between 0 and 100 percent. A change against an earlier period is missing exactly
  when that period had nothing and this one has something; against a positive figure it has the sign of the
  difference. Against a negative figure (more commission reversed than earned) the sign is the wrong one: an
  improvement is reported as a loss.
\<close>
theorem percentages_bounded:
  assumes fl: "doubles_ok fl"
  shows "(\<forall>x. conversion fl st start till d = Some x \<longrightarrow> 0 \<le> x \<and> x \<le> 100) \<and>
         (percentageChange fl current previous = None \<longleftrightarrow> previous = 0 \<and> current \<noteq> 0) \<and>
         (\<forall>x. percentageChange fl current previous = Some x \<longrightarrow>
            (0 < previous \<longrightarrow> (previous \<le> current \<longrightarrow> 0 \<le> x) \<and> (current \<le> previous \<longrightarrow> x \<le> 0)) \<and>
            (previous < 0 \<and> previous \<le> current \<longrightarrow> x \<le> 0))"
  using conversion_bounds [OF fl] change_sign [OF fl]
  by (auto simp: percentageChange_def zero_le_divide_iff divide_le_0_iff)

section \<open>The export\<close>

text \<open>
  C35: What \<open>exportCsv\<close> writes can be read back: a reader of quoted CSV gets the header and, for every day of the
  report in its order, the day, the orders and the four amounts as they are in the report, except that a text
  that starts like a formula (a negative amount does) has an apostrophe in front; no cell starts like one.
\<close>
theorem export_reads_back:
  assumes run: "exportCsv day_text clock day fl st query d c = (Inr csv, c')"
  shows "\<exists>out. adminReport clock day fl st query d c = (Inr out, c') \<and>
    read_csv csv = Some (map the export_header # map (\<lambda>x. map (\<lambda>v. guard_formula (the v)) (export_row day_text x)) (ar_dailySales out)) \<and>
    (\<forall>x \<in> set (ar_dailySales out). \<forall>v \<in> set (export_row day_text x). \<not> starts_formula (guard_formula (the v)))"
proof -
  obtain out where out: "adminReport clock day fl st query d c = (Inr out, c')"
    and csv: "csv = csv_text (export_header # map (export_row day_text) (ar_dailySales out))"
    using run by (auto simp: exportCsv_def split: prod.splits sum.splits)
  have guarded: "cell_text (Some t) = guard_formula t" for t by (simp add: cell_text_def)
  have row: "map cell_text (export_row day_text x) = map (\<lambda>v. guard_formula (the v)) (export_row day_text x)" for x
    by (simp add: export_row_def guarded)
  have hdr: "map cell_text export_header = map the export_header"
    by (simp add: export_header_def harmless_cell starts_formula_def)
  have "read_csv csv = Some (map (map cell_text) (export_header # map (export_row day_text) (ar_dailySales out)))"
    unfolding csv by (rule csv_reads_back) (auto simp: export_header_def export_row_def)
  moreover have "\<not> starts_formula (guard_formula t)" for t using no_formula_cell [of "Some t"] by (simp add: guarded)
  ultimately show ?thesis using out by (auto simp: hdr row)
qed

section \<open>Witnesses\<close>

text \<open>Two orders of one seller on two days; of the second a part has been refunded.\<close>

definition report_order :: "uuid \<Rightarrow> time \<Rightarrow> SellerOrder" where
  "report_order i t = \<lparr>so_id = i, so_orderId = i + 10, so_sellerProfileId = 1, so_subtotal = ''10.00'', so_commissionAmount = ''1.00'',
     so_sellerNetAmount = ''9.00'', so_status = SellerOrderStatus.DELIVERED, so_createdAt = t\<rparr>"

definition report_entry :: "uuid \<Rightarrow> LedgerEntryType \<Rightarrow> string \<Rightarrow> uuid \<Rightarrow> LedgerEntry" where
  "report_entry i t amount so = \<lparr>le_id = i, le_sellerProfileId = 1, le_type = t, le_amount = amount, le_sellerOrderId = Some so,
     le_refundId = None, le_correlationId = None\<rparr>"

definition report_item :: "uuid \<Rightarrow> uuid \<Rightarrow> SellerOrderItem" where
  "report_item i so = \<lparr>soi_id = i, soi_sellerOrderId = so, soi_productId = Some 7, soi_productName = ''Lamp'',
     soi_unitPrice = ''5.00'', soi_quantity = 2, soi_lineTotal = ''10.00''\<rparr>"

definition report_parent :: "uuid \<Rightarrow> time \<Rightarrow> Order" where
  "report_parent i t = \<lparr>ord_id = i, ord_buyerId = 3, ord_totalAmount = ''10.00'', ord_status = OrderStatus.COMPLETED,
     ord_shippingAddressLine1 = None, ord_shippingAddressLine2 = None, ord_shippingCity = None,
     ord_shippingPostalCode = None, ord_shippingCountry = None, ord_createdAt = t\<rparr>"

definition report_db :: database where
  "report_db = empty_db\<lparr>next_id := 60,
     seller_profiles := [\<lparr>sp_id = 1, sp_userId = 2, sp_storeName = ''Store'', sp_storeSlug = ''store'', sp_description = None,
       sp_logoUrl = None, sp_commissionRatePercent = ''10.00'', sp_isActive = True\<rparr>],
     orders := [report_parent 21 100, report_parent 22 86400100],
     seller_orders := [report_order 11 100, report_order 12 86400100],
     seller_order_items := [report_item 31 11, report_item 32 12],
     ledger_entries := [report_entry 41 SALE_CREDIT ''10.00'' 11, report_entry 42 COMMISSION_DEBIT ''1.00'' 11,
       report_entry 43 SALE_CREDIT ''10.00'' 12, report_entry 44 COMMISSION_DEBIT ''1.00'' 12,
       report_entry 45 SELLER_EARNING_REVERSAL ''5.00'' 12, report_entry 46 PLATFORM_COMMISSION_REVERSAL ''0.50'' 12],
     refunds := [\<lparr>rf_id = 51, rf_sellerOrderId = 12, rf_sellerOrderItemId = 32, rf_disputeId = None, rf_quantity = 1, rf_amount = ''5.00'',
       rf_commissionAdjustment = ''0.50'', rf_sellerAdjustment = ''4.50'', rf_reason = None, rf_status = RefundStatus.COMPLETED,
       rf_idempotencyKey = ''k'', rf_initiatedBy = 9, rf_correlationId = None, rf_createdAt = 86400200\<rparr>]\<rparr>"

definition report_stamps :: stamps where
  "report_stamps = \<lparr>st_ledger = (\<lambda>i. if i < 43 then 100 else 86400200), st_cart = (\<lambda>i. 0), st_key = (\<lambda>i. 0)\<rparr>"

definition report_query :: AnalyticsQuery where
  "report_query = \<lparr>aq_from = Some 0, aq_to = Some 172800000\<rparr>"

abbreviation "no_reports \<equiv> \<lparr>rc_up = True, rc_entries = Map.empty\<rparr>"

lemma report_texts:
  "cents ''10.00'' = 1000" "cents ''1.00'' = 100" "cents ''5.00'' = 500" "cents ''0.50'' = 50"
  "formatCentsToMoney 1500 = ''15.00''" "formatCentsToMoney 150 = ''1.50''" "formatCentsToMoney 1350 = ''13.50''"
  "formatCentsToMoney 1000 = ''10.00''" "formatCentsToMoney 100 = ''1.00''" "formatCentsToMoney 900 = ''9.00''"
  "formatCentsToMoney 500 = ''5.00''" "formatCentsToMoney 50 = ''0.50''" "formatCentsToMoney 450 = ''4.50''"
  "formatCentsToMoney 0 = ''0.00''"
  by code_simp+

lemmas report_rows = report_db_def empty_db_def report_stamps_def report_order_def report_entry_def in_period_def
  for_seller_def ledger_in_def refunds_in_def with_orders_def ledger_sum_def refund_sum_def distinct_count_def

lemma report_money:
  "money_report report_stamps 0 172800000 None report_db =
     Inr \<lparr>mo_gross = ''15.00'', mo_commission = ''1.50'', mo_net = ''13.50'', mo_refunds = ''5.00'', mo_orders = 2\<rparr>"
  by (simp add: money_report_def report_rows numeric12_def report_texts Let_def)

lemma report_daily:
  "daily (\<lambda>t. if t < 86400000 then 0 else 1) report_stamps 0 172800000 None report_db =
     Inr [\<lparr>dy_day = 0, dy_orders = 1, dy_gross = ''10.00'', dy_commission = ''1.00'', dy_net = ''9.00'', dy_refunds = ''0.00''\<rparr>,
          \<lparr>dy_day = 1, dy_orders = 1, dy_gross = ''5.00'', dy_commission = ''0.50'', dy_net = ''4.50'', dy_refunds = ''5.00''\<rparr>]"
  by (simp add: daily_def daily_row_def report_rows numeric12_def report_texts Let_def)

lemma report_books: "books_ok report_db" by code_simp

lemma report_keys: "report_keys_ok report_db" by code_simp

abbreviation "report_run \<equiv> adminReport 172800000 (\<lambda>t. if t < 86400000 then 0 else 1) id report_stamps report_query report_db no_reports"

lemma report_loads:
  "\<exists>out c'. report_run = (Inr out, c') \<and> ar_money out = \<lparr>mo_gross = ''15.00'', mo_commission = ''1.50'', mo_net = ''13.50'', mo_refunds = ''5.00'', mo_orders = 2\<rparr> \<and>
    length (ar_dailySales out) = 2"
proof -
  have p: "analytics_period 172800000 report_query =
      Inr \<lparr>pd_from = 0, pd_to = 172800000, pd_previousFrom = -172800000, pd_previousTo = 0\<rparr>" by code_simp
  have rest: "\<not> is_error (money_report report_stamps (-172800000) 0 None report_db)"
    "\<not> is_error (sellerBreakdown report_stamps 0 172800000 report_db)" "\<not> is_error (topProducts 0 172800000 None report_db)"
    by code_simp+
  then obtain a b t where "money_report report_stamps (-172800000) 0 None report_db = Inr a"
    "sellerBreakdown report_stamps 0 172800000 report_db = Inr b" "topProducts 0 172800000 None report_db = Inr t"
    unfolding not_is_error_iff by blast
  then show ?thesis
    by (simp add: adminReport_def p cached_report_def load_report_def report_money report_daily Let_def)
qed


theorem report_matches_books_witness:
  "(\<Sum>so\<leftarrow>seller_orders report_db. cents (so_subtotal so) - ledger_total (so_id so) SELLER_EARNING_REVERSAL report_db) = 1500"
proof -
  have "in_period 0 172800000 (st_ledger report_stamps (le_id le))" for le
    by (simp add: in_period_def report_stamps_def)
  note m = report_matches_books [OF report_books report_keys this report_money]
  have "cents ''15.00'' = 1500" by code_simp
  then show ?thesis using m by simp
qed

theorem percentages_bounded_witness:
  "\<forall>x. percentageChange id (- 50) (- 100) = Some x \<longrightarrow> x \<le> 0"
proof -
  have "doubles_ok id" by (simp add: doubles_ok_def mono_def)
  from percentages_bounded [OF this, where current = "- 50" and previous = "- 100"] show ?thesis by auto
qed

theorem export_reads_back_witness:
  "\<exists>csv rows. fst (exportCsv (\<lambda>b. ''day'') 172800000 (\<lambda>t. if t < 86400000 then 0 else 1) id report_stamps report_query report_db no_reports) = Inr csv \<and>
     read_csv csv = Some rows \<and> length rows = 3"
proof -
  obtain out c' where run: "report_run = (Inr out, c')" and two: "length (ar_dailySales out) = 2" using report_loads by auto
  obtain csv where "exportCsv (\<lambda>b. ''day'') 172800000 (\<lambda>t. if t < 86400000 then 0 else 1) id report_stamps report_query report_db no_reports = (Inr csv, c')"
    using run by (simp add: exportCsv_def)
  from export_reads_back [OF this] this run two show ?thesis by auto
qed

end
