(* ===== verification/Routes.thy ===== *)
theory Routes
  imports Accounts
begin

text \<open>
  The edge of the HTTP API: the routes of the controllers with the metadata of their decorators, the three
  global guards in their order (\<open>app.module.ts\<close>), and the filter that turns what was thrown into a response.
  Paths are lists of segments below the API prefix; the router compares the fixed ones without regard to case
  and answers \<open>HEAD\<close> by the handler of \<open>GET\<close>. Whether the rate limiter refuses a request is an input.
\<close>

section \<open>Routes\<close>

datatype http_method = GET | HEAD | POST | PATCH | DELETE

datatype segment = Lit string | Param

record route =
  ro_method :: http_method
  ro_path :: "segment list"
  ro_public :: bool
  ro_roles :: "UserRole list"
  ro_status :: nat

text \<open>
  A handler has its method, its path, whether it is \<open>@Public()\<close>, its \<open>@Roles()\<close> and its status;
  \<open>getAllAndOverride\<close> prefers the metadata of the handler to that of its class.
\<close>

definition controller ::
  "segment list \<Rightarrow> UserRole list option \<Rightarrow> (http_method \<times> segment list \<times> bool \<times> UserRole list option \<times> nat) list \<Rightarrow> route list" where
  "controller base class_roles hs =
     map (\<lambda>(m, p, public, own_roles, status).
       \<lparr>ro_method = m, ro_path = base @ p, ro_public = public,
         ro_roles = (case own_roles of Some rs \<Rightarrow> rs | None \<Rightarrow> (case class_roles of Some rs \<Rightarrow> rs | None \<Rightarrow> [])),
         ro_status = status\<rparr>) hs"

definition HealthController :: "route list" where
  "HealthController = controller [Lit ''health''] None [(GET, [], True, None, 200), (GET, [Lit ''live''], True, None, 200)]"

definition MetricsController :: "route list" where
  "MetricsController = controller [Lit ''metrics''] None [(GET, [], True, None, 200)]"

definition AuthController :: "route list" where
  "AuthController = controller [Lit ''auth''] None
     [(POST, [Lit ''register''], True, None, 201), (POST, [Lit ''login''], True, None, 200),
      (POST, [Lit ''refresh''], True, None, 200), (POST, [Lit ''logout''], True, None, 204),
      (GET, [Lit ''google''], True, None, 200), (GET, [Lit ''google'', Lit ''callback''], True, None, 200)]"

definition UsersController :: "route list" where
  "UsersController = controller [Lit ''users''] None
     [(GET, [Lit ''me''], False, None, 200), (GET, [Param], False, Some [ADMIN], 200)]"

definition SellersController :: "route list" where
  "SellersController = controller [Lit ''sellers''] None [(GET, [Param], False, None, 200)]"

definition SellerApplicationsController :: "route list" where
  "SellerApplicationsController = controller [Lit ''seller-applications''] None
     [(POST, [], False, None, 201), (GET, [Lit ''me''], False, None, 200)]"

definition AdminSellerApplicationsController :: "route list" where
  "AdminSellerApplicationsController = controller [Lit ''admin'', Lit ''seller-applications''] (Some [ADMIN])
     [(GET, [], False, None, 200), (GET, [Param], False, None, 200),
      (PATCH, [Param, Lit ''approve''], False, None, 200), (PATCH, [Param, Lit ''reject''], False, None, 200)]"

definition CategoriesController :: "route list" where
  "CategoriesController = controller [Lit ''categories''] None [(GET, [], True, None, 200), (GET, [Param], True, None, 200)]"

definition AdminCategoriesController :: "route list" where
  "AdminCategoriesController = controller [Lit ''admin'', Lit ''categories''] (Some [ADMIN])
     [(POST, [], False, None, 201), (PATCH, [Param], False, None, 200), (DELETE, [Param], False, None, 204)]"

definition ProductsController :: "route list" where
  "ProductsController = controller [Lit ''products''] None [(GET, [], True, None, 200), (GET, [Param], True, None, 200)]"

definition SellerProductsController :: "route list" where
  "SellerProductsController = controller [Lit ''seller'', Lit ''products''] (Some [SELLER])
     [(GET, [], False, None, 200), (GET, [Param], False, None, 200), (POST, [], False, None, 201),
      (PATCH, [Param], False, None, 200), (DELETE, [Param], False, None, 204)]"

definition CartController :: "route list" where
  "CartController = controller [Lit ''cart''] (Some [CUSTOMER])
     [(GET, [], False, None, 200), (POST, [Lit ''items''], False, None, 201), (PATCH, [Lit ''items'', Param], False, None, 200),
      (DELETE, [Lit ''items'', Param], False, None, 200), (DELETE, [], False, None, 200)]"

definition CheckoutController :: "route list" where
  "CheckoutController = controller [Lit ''cart'', Lit ''checkout''] (Some [CUSTOMER]) [(POST, [], False, None, 201)]"

definition OrdersController :: "route list" where
  "OrdersController = controller [Lit ''orders''] (Some [CUSTOMER]) [(GET, [], False, None, 200), (GET, [Param], False, None, 200)]"

definition SellerOrdersController :: "route list" where
  "SellerOrdersController = controller [Lit ''seller'', Lit ''orders''] (Some [SELLER])
     [(GET, [], False, None, 200), (GET, [Param], False, None, 200),
      (PATCH, [Param, Lit ''status''], False, None, 200), (POST, [Param, Lit ''cancel''], False, None, 201)]"

definition AdminOrdersController :: "route list" where
  "AdminOrdersController = controller [Lit ''admin'', Lit ''orders''] (Some [ADMIN])
     [(GET, [], False, None, 200), (GET, [Param], False, None, 200)]"

definition AdminSellerOrdersController :: "route list" where
  "AdminSellerOrdersController = controller [Lit ''admin'', Lit ''seller-orders''] (Some [ADMIN])
     [(GET, [Param], False, None, 200), (PATCH, [Param, Lit ''status''], False, None, 200), (POST, [Param, Lit ''cancel''], False, None, 201)]"

definition AdminRefundsController :: "route list" where
  "AdminRefundsController = controller [Lit ''admin'', Lit ''seller-orders'', Param, Lit ''refunds''] (Some [ADMIN])
     [(POST, [], False, None, 201), (GET, [], False, None, 200)]"

definition BiddingController :: "route list" where
  "BiddingController = controller [Lit ''auctions''] None
     [(GET, [Param], True, None, 200), (GET, [Param, Lit ''bids''], True, None, 200),
      (GET, [Param, Lit ''winner-state''], False, Some [CUSTOMER], 200), (POST, [Param, Lit ''bids''], False, Some [CUSTOMER], 201),
      (POST, [Param, Lit ''checkout''], False, Some [CUSTOMER], 201)]"

definition SellerAuctionsController :: "route list" where
  "SellerAuctionsController = controller [Lit ''seller'', Lit ''auctions''] (Some [SELLER])
     [(GET, [], False, None, 200), (GET, [Param], False, None, 200), (POST, [], False, None, 201),
      (PATCH, [Param], False, None, 200), (POST, [Param, Lit ''cancel''], False, None, 201)]"

definition AdminAuctionsController :: "route list" where
  "AdminAuctionsController = controller [Lit ''admin'', Lit ''auctions''] (Some [ADMIN])
     [(GET, [], False, None, 200), (GET, [Param], False, None, 200), (POST, [Param, Lit ''cancel''], False, None, 201)]"

definition ProductAuctionsController :: "route list" where
  "ProductAuctionsController = controller [Lit ''products''] None [(GET, [Param, Lit ''auction''], True, None, 200)]"

definition PaymentsLedgerController :: "route list" where
  "PaymentsLedgerController = controller [Lit ''sellers'', Param, Lit ''ledger''] None [(GET, [], False, None, 200)]"

definition SellerAnalyticsController :: "route list" where
  "SellerAnalyticsController = controller [Lit ''seller'', Lit ''analytics''] (Some [SELLER])
     [(GET, [Lit ''overview''], False, None, 200), (GET, [Lit ''sales''], False, None, 200), (GET, [Lit ''top-products''], False, None, 200)]"

definition AdminAnalyticsController :: "route list" where
  "AdminAnalyticsController = controller [Lit ''admin'', Lit ''analytics''] (Some [ADMIN])
     [(GET, [], False, None, 200), (GET, [Lit ''export.json''], False, None, 200), (GET, [Lit ''export.csv''], False, None, 200)]"

definition ReviewsController :: "route list" where
  "ReviewsController = controller [] None
     [(GET, [Lit ''products'', Param, Lit ''reviews''], True, None, 200),
      (GET, [Lit ''products'', Param, Lit ''review-eligibility''], False, Some [CUSTOMER], 200),
      (POST, [Lit ''products'', Param, Lit ''reviews''], False, Some [CUSTOMER], 201),
      (PATCH, [Lit ''reviews'', Param], False, Some [CUSTOMER], 200), (DELETE, [Lit ''reviews'', Param], False, Some [CUSTOMER], 204)]"

definition DisputesController :: "route list" where
  "DisputesController = controller [] (Some [CUSTOMER])
     [(POST, [Lit ''seller-orders'', Param, Lit ''disputes''], False, None, 201),
      (GET, [Lit ''disputes''], False, None, 200), (GET, [Lit ''disputes'', Param], False, None, 200)]"

definition SellerDisputesController :: "route list" where
  "SellerDisputesController = controller [Lit ''seller'', Lit ''disputes''] (Some [SELLER])
     [(GET, [], False, None, 200), (GET, [Param], False, None, 200), (PATCH, [Param, Lit ''response''], False, None, 200)]"

definition AdminDisputesController :: "route list" where
  "AdminDisputesController = controller [Lit ''admin'', Lit ''disputes''] (Some [ADMIN])
     [(GET, [], False, None, 200), (GET, [Param], False, None, 200),
      (PATCH, [Param, Lit ''status''], False, None, 200), (POST, [Param, Lit ''resolve''], False, None, 201)]"

definition routes :: "route list" where
  "routes = HealthController @ MetricsController @ AuthController @ UsersController @ SellersController @
     SellerApplicationsController @ AdminSellerApplicationsController @ CategoriesController @ AdminCategoriesController @
     ProductsController @ SellerProductsController @ CartController @ CheckoutController @ OrdersController @
     SellerOrdersController @ AdminOrdersController @ AdminSellerOrdersController @ AdminRefundsController @
     BiddingController @ SellerAuctionsController @ AdminAuctionsController @ ProductAuctionsController @
     PaymentsLedgerController @ SellerAnalyticsController @ AdminAnalyticsController @ ReviewsController @
     DisputesController @ SellerDisputesController @ AdminDisputesController"

fun segments_match :: "segment list \<Rightarrow> string list \<Rightarrow> bool" where
  "segments_match [] [] \<longleftrightarrow> True"
| "segments_match (Lit l # ps) (s # ss) \<longleftrightarrow> js_lower s = js_lower l \<and> segments_match ps ss"
| "segments_match (Param # ps) (s # ss) \<longleftrightarrow> s \<noteq> [] \<and> segments_match ps ss"
| "segments_match _ _ \<longleftrightarrow> False"

definition route_matches :: "http_method \<Rightarrow> string list \<Rightarrow> route \<Rightarrow> bool" where
  "route_matches m path r \<longleftrightarrow> (ro_method r = m \<or> ro_method r = GET \<and> m = HEAD) \<and> segments_match (ro_path r) path"

section \<open>Guards and the exception filter\<close>

datatype http_error = Thrown app_error | ThrottlerException | CannotMatch

text \<open>The rate limiter, then \<open>JwtAuthGuard\<close>, then \<open>RolesGuard\<close>.\<close>

definition admit ::
  "crypto \<Rightarrow> env \<Rightarrow> bool \<Rightarrow> http_method \<Rightarrow> string list \<Rightarrow> string option \<Rightarrow> http_error + (route \<times> JwtPayload option)" where
  "admit c e throttled m path header =
     (case find (route_matches m path) routes of
        None \<Rightarrow> Inl CannotMatch
      | Some r \<Rightarrow>
          if throttled then Inl ThrottlerException
          else (case request_user c e (ro_public r) (ro_roles r) header of
                  Inl err \<Rightarrow> Inl (Thrown err)
                | Inr user \<Rightarrow> Inr (r, user)))"

record error_body =
  eb_statusCode :: nat
  eb_message :: string
  eb_error :: string

text \<open>
  \<open>AllExceptionsFilter\<close>: an \<open>HttpException\<close> keeps its status, message and name; any other error is a 500 with
  the message of the error. Path, correlation id and time of the body are left out; only the health check throws
  a body of its own.
\<close>

fun http_status :: "http_error \<Rightarrow> nat" where
  "http_status (Thrown (BadRequestException t)) = 400"
| "http_status (Thrown (ConflictException t)) = 409"
| "http_status (Thrown (NotFoundException t)) = 404"
| "http_status (Thrown (ForbiddenException t)) = 403"
| "http_status (Thrown (UnauthorizedException t)) = 401"
| "http_status (Thrown UniqueViolation) = 500"
| "http_status (Thrown (PlainError t)) = 500"
| "http_status ThrottlerException = 429"
| "http_status CannotMatch = 404"

fun error_name :: "http_error \<Rightarrow> string" where
  "error_name (Thrown (BadRequestException t)) = ''BadRequestException''"
| "error_name (Thrown (ConflictException t)) = ''ConflictException''"
| "error_name (Thrown (NotFoundException t)) = ''NotFoundException''"
| "error_name (Thrown (ForbiddenException t)) = ''ForbiddenException''"
| "error_name (Thrown (UnauthorizedException t)) = ''UnauthorizedException''"
| "error_name (Thrown UniqueViolation) = ''InternalServerError''"
| "error_name (Thrown (PlainError t)) = ''InternalServerError''"
| "error_name ThrottlerException = ''ThrottlerException''"
| "error_name CannotMatch = ''NotFoundException''"

fun extractMessage :: "http_error \<Rightarrow> string" where
  "extractMessage (Thrown (BadRequestException t)) = t"
| "extractMessage (Thrown (ConflictException t)) = t"
| "extractMessage (Thrown (NotFoundException t)) = t"
| "extractMessage (Thrown (ForbiddenException t)) = t"
| "extractMessage (Thrown (UnauthorizedException t)) = t"
| "extractMessage (Thrown UniqueViolation) = ''duplicate key value violates unique constraint''"
| "extractMessage (Thrown (PlainError t)) = t"
| "extractMessage ThrottlerException = ''ThrottlerException: Too Many Requests''"
| "extractMessage CannotMatch = ''Cannot match''"

definition catch_exception :: "http_error \<Rightarrow> error_body" where
  "catch_exception err =
     \<lparr>eb_statusCode = http_status err, eb_message = extractMessage err, eb_error = error_name err\<rparr>"

datatype 'a response = Body nat 'a | Failure error_body

text \<open>A request: the guards, then the handler of the route, then the filter.\<close>

definition serve ::
  "crypto \<Rightarrow> env \<Rightarrow> bool \<Rightarrow> http_method \<Rightarrow> string list \<Rightarrow> string option \<Rightarrow>
   (route \<Rightarrow> JwtPayload option \<Rightarrow> sys \<Rightarrow> 'a result \<times> sys) \<Rightarrow> sys \<Rightarrow> 'a response \<times> sys" where
  "serve c e throttled m path header handler s =
     (case admit c e throttled m path header of
        Inl err \<Rightarrow> (Failure (catch_exception err), s)
      | Inr (r, user) \<Rightarrow>
          (case handler r user s of
             (Inl err, s') \<Rightarrow> (Failure (catch_exception (Thrown err)), s')
           | (Inr x, s') \<Rightarrow> (Body (ro_status r) x, s')))"

section \<open>Who gets in\<close>

text \<open>What the tables of the controllers must say; it is checked on every route.\<close>

definition first_is :: "string \<Rightarrow> route \<Rightarrow> bool" where
  "first_is l r \<longleftrightarrow> (case ro_path r of Lit k # ps \<Rightarrow> js_lower k = l | _ \<Rightarrow> False)"

definition route_guarded :: "route \<Rightarrow> bool" where
  "route_guarded r \<longleftrightarrow>
     (case ro_path r of Lit k # ps \<Rightarrow> True | _ \<Rightarrow> False) \<and>
     (first_is ''admin'' r \<longrightarrow> \<not> ro_public r \<and> ro_roles r = [ADMIN]) \<and>
     (first_is ''seller'' r \<longrightarrow> \<not> ro_public r \<and> ro_roles r = [SELLER]) \<and>
     (ro_public r \<longrightarrow> ro_roles r = [] \<and> (ro_method r = GET \<or> first_is ''auth'' r))"

lemma routes_guarded: "list_all route_guarded routes"
  by code_simp

lemma matched_first: "route_guarded r \<Longrightarrow> segments_match (ro_path r) path \<Longrightarrow>
    path \<noteq> [] \<and> (first_is l r \<longleftrightarrow> js_lower (hd path) = l)"
  by (cases "ro_path r"; cases path) (auto simp: route_guarded_def first_is_def split: segment.splits)

lemma first_is_unique: "first_is k r \<Longrightarrow> first_is l r \<Longrightarrow> k = l"
  by (simp add: first_is_def split: list.splits segment.splits)

lemma admitted_route:
  assumes "admit c e throttled m path header = Inr (r, user)"
  shows "route_guarded r \<and> path \<noteq> [] \<and> (\<forall>l. first_is l r \<longleftrightarrow> js_lower (hd path) = l) \<and>
    (ro_method r = m \<or> ro_method r = GET \<and> m = HEAD) \<and> request_user c e (ro_public r) (ro_roles r) header = Inr user"
proof -
  have r: "find (route_matches m path) routes = Some r" and u: "request_user c e (ro_public r) (ro_roles r) header = Inr user"
    using assms by (auto simp: admit_def split: option.splits if_splits sum.splits)
  have mem: "r \<in> set routes" "route_matches m path r" using find_SomeD [OF r] by auto
  then have g: "route_guarded r" using routes_guarded by (simp add: list_all_iff)
  show ?thesis using g u mem(2) matched_first [OF g] by (auto simp: route_matches_def)
qed

lemma request_user_token:
  assumes "request_user c e isPublic roles header = Inr user"
  shows "(isPublic \<longrightarrow> user = None) \<and>
    (\<not> isPublic \<longrightarrow> (\<exists>token p. extractToken header = Some token \<and> verifyAsync c (now e) token = Some p \<and> user = Some p \<and>
       (roles = [] \<or> jwt_role p \<in> set roles)))"
  using assms by (auto simp: request_user_def jwt_canActivate_def roles_canActivate_def rbind_Inr_iff split: option.splits if_splits)

lemma refused_answer: "admit c e throttled m path header = Inl err \<Longrightarrow> http_status err \<in> {401, 403, 404, 429}"
  by (auto simp: admit_def request_user_def jwt_canActivate_def roles_canActivate_def rbind_def
      split: option.splits if_splits sum.splits)


section \<open>The ledger of a seller\<close>

text \<open>\<open>PaymentsLedgerService\<close>, behind its route; \<open>uuid_of\<close> is \<open>ParseUUIDPipe\<close>.\<close>

definition findBySellerProfileId :: "uuid \<Rightarrow> database \<Rightarrow> LedgerEntry list" where
  "findBySellerProfileId sellerProfileId d = rev (filter (\<lambda>le. le_sellerProfileId le = sellerProfileId) (ledger_entries d))"

definition ledger_handler ::
  "(string \<Rightarrow> uuid option) \<Rightarrow> string \<Rightarrow> route \<Rightarrow> JwtPayload option \<Rightarrow> sys \<Rightarrow> LedgerEntry list result \<times> sys" where
  "ledger_handler uuid_of sellerProfileId r user s =
     (case uuid_of sellerProfileId of
        None \<Rightarrow> (Inl (BadRequestException ''Validation failed (uuid is expected)''), s)
      | Some i \<Rightarrow> (Inr (findBySellerProfileId i (db s)), s))"

lemma lower_words:
  "js_lower ''sellers'' = ''sellers''" "js_lower ''ledger'' = ''ledger''"
  by code_simp+

definition ledger_route :: route where
  "ledger_route = \<lparr>ro_method = GET, ro_path = [Lit ''sellers'', Param, Lit ''ledger''], ro_public = False, ro_roles = [], ro_status = 200\<rparr>"

lemma only_ledger_route:
  "list_all (\<lambda>r. first_is ''sellers'' r \<and> length (ro_path r) = 3 \<longrightarrow> r = ledger_route) routes" "ledger_route \<in> set routes"
  by code_simp+

lemma segments_match_length: "segments_match ps ss \<Longrightarrow> length ps = length ss"
  by (induction ps ss rule: segments_match.induct) simp_all

lemma find_ledger_route:
  assumes "i \<noteq> []"
  shows "find (route_matches GET [''sellers'', i, ''ledger'']) routes = Some ledger_route"
proof -
  let ?P = "route_matches GET [''sellers'', i, ''ledger'']"
  have m: "?P ledger_route" using assms by (simp add: route_matches_def ledger_route_def)
  obtain r where r: "find ?P routes = Some r"
    using m only_ledger_route(2) by (metis find_None_iff not_Some_eq)
  then have mem: "r \<in> set routes" "?P r" using find_SomeD by fast+
  have g: "route_guarded r" using mem(1) routes_guarded by (simp add: list_all_iff)
  have sm: "segments_match (ro_path r) [''sellers'', i, ''ledger'']" using mem(2) by (simp add: route_matches_def)
  have "first_is ''sellers'' r" using matched_first [OF g sm] by (simp add: lower_words)
  moreover have "length (ro_path r) = 3" using segments_match_length [OF sm] by simp
  ultimately show ?thesis using r only_ledger_route(1) mem(1) by (auto simp: list_all_iff)
qed

text \<open>
  C38: The ledger of any seller is readable with any account. Whoever holds a valid access token, of whatever
  role, and names a seller, is answered with all ledger entries of that seller, newest first; nothing is asked
  but the token. Without one the answer is 401.
\<close>
theorem any_account_reads_any_ledger:
  assumes seller: "segment \<noteq> []" "uuid_of segment = Some i"
  shows "serve c e False GET [''sellers'', segment, ''ledger''] header (ledger_handler uuid_of segment) s =
    (case extractToken header of
       None \<Rightarrow> (Failure (catch_exception (Thrown (UnauthorizedException ''Missing access token''))), s)
     | Some token \<Rightarrow>
         (case verifyAsync c (now e) token of
            None \<Rightarrow> (Failure (catch_exception (Thrown (UnauthorizedException ''Invalid or expired access token''))), s)
          | Some anyone \<Rightarrow> (Body 200 (rev (filter (\<lambda>le. le_sellerProfileId le = i) (ledger_entries (db s)))), s)))"
  using find_ledger_route [OF seller(1)] seller(2)
  by (auto simp: serve_def admit_def ledger_route_def request_user_def jwt_canActivate_def roles_canActivate_def
      ledger_handler_def findBySellerProfileId_def split: option.split)

section \<open>Witnesses\<close>

definition shopper_crypto :: crypto where
  "shopper_crypto = plain_crypto\<lparr>verifyAsync := (\<lambda>t token. if token = ''shopper'' then
     Some \<lparr>jwt_sub = 9, jwt_email = ''s@x'', jwt_role = CUSTOMER\<rparr> else None)\<rparr>"

definition ledger_sys :: sys where
  "ledger_sys = session_sys\<lparr>db := empty_db\<lparr>ledger_entries :=
     [\<lparr>le_id = 1, le_sellerProfileId = 4, le_type = SALE_CREDIT, le_amount = ''10.00'', le_sellerOrderId = Some 2,
        le_refundId = None, le_correlationId = None\<rparr>]\<rparr>\<rparr>"

definition edge_env :: env where
  "edge_env = \<lparr>now = 0, numeric2 = id, purchaseWindowMinutes = 30\<rparr>"

theorem any_account_reads_any_ledger_witness:
  "fst (serve shopper_crypto edge_env False GET [''sellers'', ''4'', ''ledger''] (Some ''Bearer shopper'')
     (ledger_handler (\<lambda>x. Some 4) ''4'') ledger_sys) = Body 200 (ledger_entries (db ledger_sys))"
proof -
  have "extractToken (Some ''Bearer shopper'') = Some ''shopper''" by code_simp
  then show ?thesis
    using any_account_reads_any_ledger [where segment = "''4''" and uuid_of = "\<lambda>x. Some 4" and i = 4
        and c = shopper_crypto and e = edge_env and header = "Some ''Bearer shopper''" and s = ledger_sys]
    by (simp add: shopper_crypto_def ledger_sys_def)
qed


end
