(* ===== verification/Auth_Controller.thy ===== *)
theory Auth_Controller
  imports Accounts
begin

text \<open>
  The authentication endpoints (\<open>modules/auth/auth.controller.ts\<close>) and the cookie that carries the refresh
  token. A handler gives its answer, what it does to the cookie, and the state. A browser keeps the cookie
  until its \<open>maxAge\<close> is over; it is not readable by scripts, and whether it is sent only over TLS is left out, as is
  \<open>createdAt\<close> in the answers.
\<close>

section \<open>Answers and the cookie\<close>

record UserResponseDto =
  ur_id :: uuid
  ur_email :: string
  ur_firstName :: string
  ur_lastName :: string
  ur_role :: UserRole
  ur_isEmailVerified :: bool

definition user_fromEntity :: "User \<Rightarrow> UserResponseDto" where
  "user_fromEntity user =
     \<lparr>ur_id = us_id user, ur_email = us_email user, ur_firstName = us_firstName user, ur_lastName = us_lastName user,
       ur_role = us_role user, ur_isEmailVerified = us_isEmailVerified user\<rparr>"

record AuthResponseDto =
  ad_accessToken :: string
  ad_user :: UserResponseDto

datatype cookie_change = KeepCookie | SetCookie string int | ClearCookie

text \<open>The browser's cookie with the instant it expires, and what a request then carries.\<close>

fun browser_cookie :: "time \<Rightarrow> cookie_change \<Rightarrow> (string \<times> time) option \<Rightarrow> (string \<times> time) option" where
  "browser_cookie t KeepCookie jar = jar"
| "browser_cookie t (SetCookie token maxAge) jar = (if maxAge \<le> 0 then None else Some (token, t + maxAge))"
| "browser_cookie t ClearCookie jar = None"

definition sent_cookie :: "time \<Rightarrow> (string \<times> time) option \<Rightarrow> string option" where
  "sent_cookie t jar = (case jar of None \<Rightarrow> None | Some (token, expires) \<Rightarrow> if t < expires then Some token else None)"

section \<open>The handlers\<close>

text \<open>\<open>setRefreshCookie\<close> computes the age of the cookie, which may throw after the account was written.\<close>

definition signed_in ::
  "crypto \<Rightarrow> (User \<times> IssuedTokens) result \<times> sys \<Rightarrow> AuthResponseDto result \<times> cookie_change \<times> sys" where
  "signed_in c run =
     (case run of
        (Inl err, s) \<Rightarrow> (Inl err, KeepCookie, s)
      | (Inr (user, tokens), s) \<Rightarrow>
          (case getRefreshCookieMaxAgeMs c of
             Inl err \<Rightarrow> (Inl err, KeepCookie, s)
           | Inr age \<Rightarrow>
               (Inr \<lparr>ad_accessToken = it_accessToken tokens, ad_user = user_fromEntity user\<rparr>,
                SetCookie (it_refreshToken tokens) age, s)))"

definition post_register ::
  "crypto \<Rightarrow> env \<Rightarrow> (sys \<Rightarrow> sys) \<Rightarrow> string \<Rightarrow> RegisterDto \<Rightarrow> RequestMeta \<Rightarrow> sys \<Rightarrow> AuthResponseDto result \<times> cookie_change \<times> sys" where
  "post_register c e meanwhile plain dto meta s = signed_in c (register c e meanwhile plain dto meta s)"

definition post_login ::
  "crypto \<Rightarrow> env \<Rightarrow> string \<Rightarrow> string \<Rightarrow> string \<Rightarrow> RequestMeta \<Rightarrow> sys \<Rightarrow> AuthResponseDto result \<times> cookie_change \<times> sys" where
  "post_login c e plain email password meta s = signed_in c (login c e plain email password meta s)"

definition post_refresh ::
  "crypto \<Rightarrow> env \<Rightarrow> string \<Rightarrow> string option \<Rightarrow> RequestMeta \<Rightarrow> sys \<Rightarrow> AuthResponseDto result \<times> cookie_change \<times> sys" where
  "post_refresh c e plain cookie meta s =
     (case cookie of
        None \<Rightarrow> (Inl (UnauthorizedException ''Missing refresh token''), KeepCookie, s)
      | Some token \<Rightarrow>
          if token = [] then (Inl (UnauthorizedException ''Missing refresh token''), KeepCookie, s)
          else signed_in c (refresh c e token plain meta s))"

definition post_logout :: "crypto \<Rightarrow> env \<Rightarrow> string option \<Rightarrow> sys \<Rightarrow> cookie_change \<times> sys" where
  "post_logout c e cookie s =
     (ClearCookie,
      (case cookie of None \<Rightarrow> s | Some token \<Rightarrow> if token = [] then s else logout c e token s))"

text \<open>
  The Google callback runs in a full page: every failure of it becomes a redirect to the login page. What it had
  written before the failure stays.
\<close>

definition google_session ::
  "crypto \<Rightarrow> env \<Rightarrow> string \<Rightarrow> GoogleProfileInput \<Rightarrow> RequestMeta \<Rightarrow> sys \<Rightarrow> AuthResponseDto result \<times> cookie_change \<times> sys" where
  "google_session c e plain profile meta s =
     (case findOrCreateFromGoogleProfile profile s of
        (Inl err, s1) \<Rightarrow> (Inl err, KeepCookie, s1)
      | (Inr user, s1) \<Rightarrow> signed_in c (with_tokens c e plain meta user s1))"

definition googleCallback ::
  "crypto \<Rightarrow> env \<Rightarrow> bool \<Rightarrow> string \<Rightarrow> string option \<Rightarrow> GoogleProfileInput \<Rightarrow> RequestMeta \<Rightarrow> sys \<Rightarrow>
   string result \<times> cookie_change \<times> sys" where
  "googleCallback c e configured plain FRONTEND_URL profile meta s =
     (let frontendUrl = (case FRONTEND_URL of None \<Rightarrow> ''http://localhost:5173'' | Some u \<Rightarrow> u)
      in if \<not> configured then (Inl (BadRequestException ''Google OAuth is not configured on this server.''), KeepCookie, s)
         else (case google_session c e plain profile meta s of
                 (Inl err, cookie, s1) \<Rightarrow> (Inr (frontendUrl @ ''/login?error=google_oauth_failed''), cookie, s1)
               | (Inr answer, cookie, s1) \<Rightarrow> (Inr (frontendUrl @ ''/auth/callback''), cookie, s1)))"

definition googleLogin :: "bool \<Rightarrow> unit result" where
  "googleLogin configured =
     (if configured then Inr ()
      else Inl (BadRequestException ''Google OAuth is not configured on this server. Set GOOGLE_OAUTH_CLIENT_ID/SECRET to enable it.''))"

section \<open>Sessions\<close>

lemma signed_in_Inr:
  assumes "signed_in c run = (Inr answer, cookie, s')"
  shows "\<exists>user tokens age. run = (Inr (user, tokens), s') \<and> parseDurationToMs (refreshExpiresIn c) = Inr age \<and>
    cookie = SetCookie (it_refreshToken tokens) age \<and> ad_user answer = user_fromEntity user"
  using assms by (auto simp: signed_in_def getRefreshCookieMaxAgeMs_def split: prod.splits sum.splits)

lemma sign_in_kept: "sessions_kept s (snd run) \<Longrightarrow> sessions_kept s (snd (snd (signed_in c run)))"
  by (auto simp: signed_in_def split: prod.splits sum.splits)

text \<open>What a sign-in leaves behind: the last row of the table is the token in the cookie.\<close>

lemma with_tokens_session:
  assumes "with_tokens c e plain meta u s = (Inr (user, tokens), s')"
  shows "user = u \<and> it_refreshToken tokens = plain \<and> users (db s') = users (db s) \<and>
    (\<exists>ms. parseDurationToMs (refreshExpiresIn c) = Inr ms \<and>
       find_token c plain (db s') = Some (new_token c plain (now e + ms) u meta (next_id (db s))))"
  using assms
  by (auto simp: with_tokens_def issueTokens_def find_token_def find_append find_None_iff new_token_def frame
      dest!: find_SomeD split: sum.splits if_splits option.splits prod.splits)

lemma fresh_refresh:
  assumes row: "find_token c token (db s) = Some t" "rt_revokedAt t = None" "now e \<le> rt_expiresAt t"
    and user: "by_id us_id (rt_userId t) (users (db s)) = Some u"
    and plain: "find_token c plain (db s) = None" and dur: "parseDurationToMs (refreshExpiresIn c) = Inr ms"
  shows "\<exists>tokens s'. refresh c e token plain meta s = (Inr (u, tokens), s') \<and> it_refreshToken tokens = plain"
proof -
  have "\<not> no_longer_valid e t" using row by (simp add: no_longer_valid_def)
  moreover have "\<not> (\<exists>x \<in> set (refresh_tokens (revoke e P (db s))). rt_tokenHash x = sha256_hex c plain)" for P
    using plain by (auto simp: find_token_def find_None_iff revoke_rows)
  ultimately have "\<exists>tokens s'. runRefresh c e token plain meta s = (Inr (u, tokens), s') \<and> it_refreshToken tokens = plain"
    using row(1) user dur by (simp add: runRefresh_def with_tokens_def issueTokens_def)
  then show ?thesis by (auto simp: refresh_def transaction_Inr)
qed

lemma login_session:
  assumes "login c e plain email password meta s = (Inr (user, tokens), s')"
  shows "user \<in> set (users (db s)) \<and> with_tokens c e plain meta user s = (Inr (user, tokens), s')"
proof -
  obtain u where u: "findByEmail email (db s) = Some u" "with_tokens c e plain meta u s = (Inr (user, tokens), s')"
    using assms by (auto simp: login_def split: option.splits if_splits)
  have "u \<in> set (users (db s))" using u(1) by (auto simp: findByEmail_def dest: find_SomeD)
  moreover have "user = u" using with_tokens_session [OF u(2)] by simp
  ultimately show ?thesis using u(2) by simp
qed

lemma after_logout:
  assumes ok: "accounts_ok (db s)" and row: "find_token c token (db s) = Some t"
    and later: "account_step\<^sup>*\<^sup>* (logout c e token s) s''"
  shows "refresh c e' token plain' meta' s'' = (Inl (UnauthorizedException ''Refresh token is no longer valid''), s'')"
proof -
  let ?s = "logout c e token s"
  have mem: "t \<in> set (refresh_tokens (db s))" "rt_tokenHash t = sha256_hex c token"
    using find_SomeD [OF row [unfolded find_token_def]] by auto
  have ok1: "accounts_ok (db ?s)" using ok revoke_kept [of s e] by (simp add: logout_def sessions_kept_def)
  have t1: "t\<lparr>rt_revokedAt := Some (now e)\<rparr> \<in> set (refresh_tokens (db ?s))"
    using mem by (force simp: logout_def revoke_rows frame)
  note kept = account_steps_kept [OF later]
  have "accounts_ok (db s'')" using ok1 kept by (simp add: sessions_kept_def)
  from find_token_kept [OF ok1 this kept t1, of c token] mem(2)
  obtain t'' where "find_token c token (db s'') = Some t''" "rt_revokedAt t'' \<noteq> None" by auto
  then show ?thesis by (rule revoked_refused)
qed

text \<open>
  The life of a session. After a sign-in, as long as the browser still sends the cookie, a reload (which
  posts to \<open>/auth/refresh\<close>) is answered for the same account: the cookie never outlives the token it carries.
  Signing out deletes the cookie and ends the session for good: without the cookie, and also with a copy of it,
  after whatever other requests, a refresh is answered with 401.
\<close>
theorem session_lives_until_sign_out:
  assumes ok: "accounts_ok (db s)" and run: "post_login c e plain email password meta s = (Inr answer, cookie, s1)"
    and jar: "jar = browser_cookie (now e) cookie None" and some: "plain \<noteq> []"
  shows "(\<forall>e' plain' meta'. sent_cookie (now e') jar \<noteq> None \<and> find_token c plain' (db s1) = None \<longrightarrow>
            (\<exists>answer' cookie' s2. post_refresh c e' plain' (sent_cookie (now e') jar) meta' s1 = (Inr answer', cookie', s2) \<and>
               ad_user answer' = ad_user answer)) \<and>
         (\<forall>e2 s2 s''. post_logout c e2 (Some plain) s1 = (ClearCookie, s2) \<and> account_step\<^sup>*\<^sup>* s2 s'' \<longrightarrow>
            (\<forall>e' plain' meta' held. held = sent_cookie (now e') (browser_cookie (now e2) ClearCookie jar) \<or> held = Some plain \<longrightarrow>
               (\<exists>err. post_refresh c e' plain' held meta' s'' = (Inl (UnauthorizedException err), KeepCookie, s''))))"
proof -
  obtain user tokens age where l: "login c e plain email password meta s = (Inr (user, tokens), s1)"
    and age: "parseDurationToMs (refreshExpiresIn c) = Inr age" and cookie: "cookie = SetCookie (it_refreshToken tokens) age"
    and ans: "ad_user answer = user_fromEntity user"
    using signed_in_Inr [OF run [unfolded post_login_def]] by blast
  note lo = login_session [OF l]
  note w = with_tokens_session [OF conjunct2 [OF lo]]
  have row: "find_token c plain (db s1) = Some (new_token c plain (now e + age) user meta (next_id (db s)))"
    using w age by auto
  have us: "users (db s1) = users (db s)" and plain: "it_refreshToken tokens = plain" using w by auto
  have user: "by_id us_id (us_id user) (users (db s1)) = Some user"
    unfolding us by (rule by_id_unique) (use ok lo in \<open>auto simp: accounts_ok_def\<close>)
  have ok1: "accounts_ok (db s1)"
    using login_kept [of s c e plain email password meta] ok l by (simp add: sessions_kept_def)
  have reload: "\<exists>answer' cookie' s2. post_refresh c e' plain' (sent_cookie (now e') jar) meta' s1 = (Inr answer', cookie', s2) \<and>
      ad_user answer' = ad_user answer"
    if sent: "sent_cookie (now e') jar \<noteq> None" and new: "find_token c plain' (db s1) = None" for e' plain' meta'
  proof -
    have held: "sent_cookie (now e') jar = Some plain" "now e' < now e + age"
      using sent by (auto simp: jar cookie plain sent_cookie_def split: if_splits)
    obtain tokens' s2 where "refresh c e' plain plain' meta' s1 = (Inr (user, tokens'), s2)"
      using fresh_refresh [OF row _ _ _ new age, of e' user meta'] held(2) user by (auto simp: new_token_def)
    then show ?thesis using some ans by (simp add: post_refresh_def held(1) signed_in_def getRefreshCookieMaxAgeMs_def age)
  qed
  moreover have ended: "\<exists>err. post_refresh c e' plain' held meta' s'' = (Inl (UnauthorizedException err), KeepCookie, s'')"
    if out: "post_logout c e2 (Some plain) s1 = (ClearCookie, s2)" "account_step\<^sup>*\<^sup>* s2 s''"
      and held: "held = sent_cookie (now e') (browser_cookie (now e2) ClearCookie jar) \<or> held = Some plain" for e2 s2 s'' e' plain' meta' held
  proof -
    have "account_step\<^sup>*\<^sup>* (logout c e2 plain s1) s''" using out some by (simp add: post_logout_def)
    from after_logout [OF ok1 row this] have "refresh c e' plain plain' meta' s'' = (Inl (UnauthorizedException ''Refresh token is no longer valid''), s'')" .
    with held show ?thesis by (auto simp: post_refresh_def sent_cookie_def signed_in_def some)
  qed
  ultimately show ?thesis by blast
qed

section \<open>Witness\<close>

definition jane_login :: "AuthResponseDto result \<times> cookie_change \<times> sys" where
  "jane_login = post_login plain_crypto (sample_env 5) ''c'' ''jane@example.com'' ''pw'' no_meta session_sys"

theorem session_lives_until_sign_out_witness:
  "\<exists>answer cookie s1 answer' cookie' s2. jane_login = (Inr answer, cookie, s1) \<and>
     post_refresh plain_crypto (sample_env 600) ''d'' (Some ''c'') no_meta s1 = (Inr answer', cookie', s2) \<and>
     ur_email (ad_user answer') = ur_email (ad_user answer)"
proof -
  have "\<not> is_error (fst jane_login)" by code_simp
  then obtain answer where "fst jane_login = Inr answer" unfolding not_is_error_iff by blast
  moreover have "fst (snd jane_login) = SetCookie ''c'' 604800000" by code_simp
  moreover define s1 where "s1 = snd (snd jane_login)"
  ultimately have run: "jane_login = (Inr answer, SetCookie ''c'' 604800000, s1)" by (simp add: prod_eq_iff)
  have new: "find_token plain_crypto ''d'' (db s1) = None" unfolding s1_def by code_simp
  define jar where "jar = browser_cookie (now (sample_env 5)) (SetCookie ''c'' 604800000) None"
  have sent: "sent_cookie (now (sample_env 600)) jar = Some ''c''" unfolding jar_def by code_simp
  note all = session_lives_until_sign_out [OF session_sys_ok run [unfolded jane_login_def] jar_def, simplified]
  have "\<exists>answer' cookie' s2. post_refresh plain_crypto (sample_env 600) ''d'' (Some ''c'') no_meta s1 = (Inr answer', cookie', s2) \<and>
      ad_user answer' = ad_user answer"
    using all sent new by (metis option.distinct(1))
  then obtain answer' cookie' s2 where again: "post_refresh plain_crypto (sample_env 600) ''d'' (Some ''c'') no_meta s1 = (Inr answer', cookie', s2)"
    and same: "ad_user answer' = ad_user answer" by blast
  show ?thesis by (intro exI conjI, rule run, rule again) (simp add: same)
qed

end
