(* ===== verification/Search_Engine.thy ===== *)
theory Search_Engine
  imports Search_Sync
begin

text \<open>
  The search engine behind its port: the request the catalogue sends (\<open>meilisearch-catalog-search.service.ts\<close>),
  and the client that waits for tasks (\<open>search/meilisearch.service.ts\<close>). The engine itself is a parameter; of its
  filter language the documented meaning of the clauses the code builds is used. A filter is the list of its
  clauses instead of their text.
\<close>

section \<open>The request of a search\<close>

datatype filter_clause =
    CategoryIs uuid | SellerIs uuid | TypeIs ProductType | AvailableIs bool
  | PriceAtLeast int | PriceAtMost int | RatingAtLeast int

definition buildFilter :: "CatalogSearchQuery \<Rightarrow> filter_clause list" where
  "buildFilter q =
     (case cq_categoryId q of None \<Rightarrow> [] | Some i \<Rightarrow> [CategoryIs i]) @
     (case cq_sellerId q of None \<Rightarrow> [] | Some i \<Rightarrow> [SellerIs i]) @
     (case cq_type q of None \<Rightarrow> [] | Some t \<Rightarrow> [TypeIs t]) @
     (case cq_available q of None \<Rightarrow> [] | Some b \<Rightarrow> [AvailableIs b]) @
     (case cq_minPrice q of None \<Rightarrow> [] | Some n \<Rightarrow> [PriceAtLeast n]) @
     (case cq_maxPrice q of None \<Rightarrow> [] | Some n \<Rightarrow> [PriceAtMost n]) @
     (case cq_minRating q of None \<Rightarrow> [] | Some n \<Rightarrow> [RatingAtLeast n])"

record SearchOptions =
  op_limit :: nat
  op_offset :: nat
  op_filter :: "filter_clause list option"
  op_sort :: "(SortField \<times> bool) option"

text \<open>The engine answers with hits and an estimate of their number, or not in time (\<open>None\<close>).\<close>

definition engine_search ::
  "(string \<Rightarrow> SearchOptions \<Rightarrow> (ProductSearchDocument list \<times> nat) option) \<Rightarrow> CatalogSearchQuery \<Rightarrow> CatalogSearchResult option" where
  "engine_search engine q =
     (let clauses = buildFilter q in
      case engine (case cq_search q of None \<Rightarrow> [] | Some t \<Rightarrow> t)
             \<lparr>op_limit = cq_pageSize q, op_offset = (cq_page q - 1) * cq_pageSize q,
              op_filter = (if clauses \<noteq> [] then Some clauses else None), op_sort = cq_sort q\<rparr> of
        None \<Rightarrow> None
      | Some (hits, estimatedTotalHits) \<Rightarrow>
          Some \<lparr>cs_data = hits, cs_page = cq_page q, cs_pageSize = cq_pageSize q, cs_total = estimatedTotalHits,
                cs_totalPages = totalPages estimatedTotalHits (cq_pageSize q)\<rparr>)"

section \<open>Tasks of the engine\<close>

datatype task_status = Succeeded | Failed string | Canceled

text \<open>\<open>None\<close> is a task that is not finished in time, or an engine that cannot be reached.\<close>

definition waitAndVerify :: "task_status option \<Rightarrow> string list \<Rightarrow> unit result" where
  "waitAndVerify task ignoreErrorCodes =
     (case task of
        None \<Rightarrow> Inl (PlainError ''timed out'')
      | Some (Failed errcode) \<Rightarrow> if errcode \<in> set ignoreErrorCodes then Inr () else Inl (PlainError ''failed'')
      | Some _ \<Rightarrow> Inr ())"

definition indexDocument :: "task_status option \<Rightarrow> ProductSearchDocument \<Rightarrow> sys \<Rightarrow> unit result \<times> sys" where
  "indexDocument task document s =
     (waitAndVerify task [], if task = Some Succeeded then emit (SearchIndexDocument document) s else s)"

definition deleteDocument :: "task_status option \<Rightarrow> uuid \<Rightarrow> sys \<Rightarrow> unit result \<times> sys" where
  "deleteDocument task documentId s =
     (waitAndVerify task [], if task = Some Succeeded then emit (SearchDeleteDocument documentId) s else s)"

text \<open>The index is created unless it exists, then the settings are changed; the first failure is the answer.\<close>

definition configureIndex :: "task_status option \<Rightarrow> task_status option list \<Rightarrow> unit result" where
  "configureIndex created updates =
     rbind (waitAndVerify created [''index_already_exists'']) (\<lambda>_.
     rbind (rmap (\<lambda>task. waitAndVerify task []) updates) (\<lambda>_. Inr ()))"

text \<open>
  The flag \<open>up\<close> of the consumer in Search\_Sync is that the task succeeded. A task that was cancelled is the
  exception: it counts as success and changes nothing.
\<close>

lemma index_task:
  assumes "task \<noteq> Some Canceled"
  shows "indexDocument task doc s = (if task = Some Succeeded then (Inr (), emit (SearchIndexDocument doc) s) else (fst (indexDocument task doc s), s))"
    "is_error (fst (indexDocument task doc s)) \<longleftrightarrow> task \<noteq> Some Succeeded"
  using assms by (auto simp: indexDocument_def waitAndVerify_def split: option.splits task_status.splits)

lemma canceled_task_is_lost: "indexDocument (Some Canceled) doc s = (Inr (), s)"
  by (simp add: indexDocument_def waitAndVerify_def)

section \<open>Engine and fallback filter alike\<close>

text \<open>The documented meaning of a clause on a document; a comparison with a missing price does not hold.\<close>

fun clause_holds :: "ProductSearchDocument \<Rightarrow> filter_clause \<Rightarrow> bool" where
  "clause_holds doc (CategoryIs i) \<longleftrightarrow> sd_categoryId doc = i"
| "clause_holds doc (SellerIs i) \<longleftrightarrow> sd_sellerId doc = i"
| "clause_holds doc (TypeIs t) \<longleftrightarrow> sd_productType doc = t"
| "clause_holds doc (AvailableIs b) \<longleftrightarrow> sd_available doc = b"
| "clause_holds doc (PriceAtLeast n) \<longleftrightarrow> (\<exists>c \<in> set_option (sd_price doc). cents c \<ge> 100 * n)"
| "clause_holds doc (PriceAtMost n) \<longleftrightarrow> (\<exists>c \<in> set_option (sd_price doc). cents c \<le> 100 * n)"
| "clause_holds doc (RatingAtLeast n) \<longleftrightarrow> cents (sd_rating doc) \<ge> 100 * n"

definition engine_finds :: "CatalogSearchQuery \<Rightarrow> ProductSearchDocument \<Rightarrow> bool" where
  "engine_finds q doc \<longleftrightarrow> (\<forall>cl \<in> set (buildFilter q). clause_holds doc cl)"

definition price_asked :: "CatalogSearchQuery \<Rightarrow> bool" where
  "price_asked q \<longleftrightarrow> cq_minPrice q \<noteq> None \<or> cq_maxPrice q \<noteq> None"

lemma optional_clause: "(\<forall>cl \<in> set (case x of None \<Rightarrow> [] | Some i \<Rightarrow> [f i]). P cl) \<longleftrightarrow> (\<forall>i. x = Some i \<longrightarrow> P (f i))"
  by (cases x) simp_all

lemma optional_condition: "(case x of None \<Rightarrow> True | Some i \<Rightarrow> P i) \<longleftrightarrow> (\<forall>i. x = Some i \<longrightarrow> P i)"
  by (cases x) simp_all

lemma engine_finds_iff:
  "engine_finds q doc \<longleftrightarrow>
     (\<forall>i. cq_categoryId q = Some i \<longrightarrow> sd_categoryId doc = i) \<and> (\<forall>i. cq_sellerId q = Some i \<longrightarrow> sd_sellerId doc = i) \<and>
     (\<forall>t. cq_type q = Some t \<longrightarrow> sd_productType doc = t) \<and> (\<forall>b. cq_available q = Some b \<longrightarrow> sd_available doc = b) \<and>
     (\<forall>n. cq_minPrice q = Some n \<longrightarrow> clause_holds doc (PriceAtLeast n)) \<and>
     (\<forall>n. cq_maxPrice q = Some n \<longrightarrow> clause_holds doc (PriceAtMost n)) \<and>
     (\<forall>n. cq_minRating q = Some n \<longrightarrow> cents (sd_rating doc) \<ge> 100 * n)"
  unfolding engine_finds_def buildFilter_def set_append ball_Un optional_clause by simp

text \<open>One product, as the index shows it when it has caught up.\<close>

lemma product_found_alike:
  assumes doc: "doc = buildProductSearchDocument seller category auction p"
    and ids: "sp_id seller = pr_sellerProfileId p" "ca_id category = pr_categoryId p"
    and stock: "0 \<le> pr_stockQuantity p" and pub: "pr_isPublished p"
    and no_text: "cq_search q = None \<or> cq_search q = Some []" and price: "price_asked q \<longrightarrow> auction = None"
  shows "engine_finds q doc \<longleftrightarrow> matches_query ilike q p"
proof -
  have "(sd_available doc = b) \<longleftrightarrow> (if b then pr_stockQuantity p > 0 else pr_stockQuantity p = 0)" for b
    using stock by (auto simp: doc buildProductSearchDocument_def)
  moreover have "sd_price doc = pr_price p" if "price_asked q" using price that by (simp add: doc buildProductSearchDocument_def)
  ultimately show ?thesis
    using no_text pub ids unfolding engine_finds_iff matches_query_def optional_condition
    by (auto simp: price_asked_def doc buildProductSearchDocument_def)
qed

text \<open>An index that has caught up shows every published product, as the tables have it now.\<close>

definition caught_up :: "(uuid \<rightharpoonup> ProductSearchDocument) \<Rightarrow> database \<Rightarrow> bool" where
  "caught_up idx d \<longleftrightarrow> (\<forall>i. loadSearchDocument i d = Inr (idx i))"

lemma caught_up_doc:
  assumes up: "caught_up idx d" and doc: "idx i = Some doc"
  shows "\<exists>p seller category. by_id pr_id i (products d) = Some p \<and> pr_isPublished p \<and>
    by_id sp_id (pr_sellerProfileId p) (seller_profiles d) = Some seller \<and> by_id ca_id (pr_categoryId p) (categories d) = Some category \<and>
    doc = buildProductSearchDocument seller category (product_auction i d) p"
proof -
  have "loadSearchDocument i d = Inr (Some doc)" using up doc by (simp add: caught_up_def)
  then show ?thesis by (auto simp: loadSearchDocument_def split: option.splits if_splits)
qed

lemma caught_up_published:
  assumes up: "caught_up idx d" and p: "by_id pr_id i (products d) = Some p" "pr_isPublished p"
  shows "\<exists>seller category. by_id sp_id (pr_sellerProfileId p) (seller_profiles d) = Some seller \<and>
    by_id ca_id (pr_categoryId p) (categories d) = Some category \<and>
    idx i = Some (buildProductSearchDocument seller category (product_auction i d) p)"
proof -
  have "loadSearchDocument i d = Inr (idx i)" using up by (simp add: caught_up_def)
  then show ?thesis using p by (auto simp: loadSearchDocument_def split: option.splits)
qed

lemma found_products:
  assumes up: "caught_up idx d" and dist: "distinct (map pr_id (products d))"
    and stock: "\<forall>p \<in> set (products d). 0 \<le> pr_stockQuantity p"
    and no_text: "cq_search q = None \<or> cq_search q = Some []"
    and price: "price_asked q \<longrightarrow> (\<forall>p \<in> set (products d). product_auction (pr_id p) d = None)"
  shows "{i. \<exists>doc. idx i = Some doc \<and> engine_finds q doc} = pr_id ` {p \<in> set (products d). matches_query ilike q p \<and> joined d p}"
    (is "?found = pr_id ` ?rows")
proof (intro set_eqI iffI)
  fix i
  assume "i \<in> ?found"
  then obtain doc where doc: "idx i = Some doc" "engine_finds q doc" by blast
  obtain p seller category where p: "by_id pr_id i (products d) = Some p" "pr_isPublished p"
    "by_id sp_id (pr_sellerProfileId p) (seller_profiles d) = Some seller" "by_id ca_id (pr_categoryId p) (categories d) = Some category"
    "doc = buildProductSearchDocument seller category (product_auction i d) p"
    using caught_up_doc [OF up doc(1)] by blast
  have mem: "p \<in> set (products d)" "pr_id p = i" using by_id_SomeD [OF p(1)] by auto
  have "engine_finds q doc \<longleftrightarrow> matches_query ilike q p"
    by (rule product_found_alike [OF p(5)]) (use by_id_SomeD [OF p(3)] by_id_SomeD [OF p(4)] mem stock p(2) no_text price in auto)
  then show "i \<in> pr_id ` ?rows" using mem p(3,4) doc(2) by (auto simp: joined_def)
next
  fix i
  assume "i \<in> pr_id ` ?rows"
  then obtain p where p: "p \<in> set (products d)" "pr_id p = i" "matches_query ilike q p" by blast
  have b: "by_id pr_id i (products d) = Some p" using by_id_unique [OF dist p(1)] p(2) by simp
  have pub: "pr_isPublished p" using p(3) by (simp add: matches_query_def)
  obtain seller category where s: "by_id sp_id (pr_sellerProfileId p) (seller_profiles d) = Some seller"
    "by_id ca_id (pr_categoryId p) (categories d) = Some category"
    and doc: "idx i = Some (buildProductSearchDocument seller category (product_auction i d) p)"
    using caught_up_published [OF up b pub] by blast
  have "engine_finds q (buildProductSearchDocument seller category (product_auction i d) p) \<longleftrightarrow> matches_query ilike q p"
    by (rule product_found_alike [OF refl]) (use by_id_SomeD [OF s(1)] by_id_SomeD [OF s(2)] p(1,2) stock pub no_text price in auto)
  then show "i \<in> ?found" using doc p(3) by blast
qed


section \<open>Witness\<close>

definition shelf_product :: "uuid \<Rightarrow> string \<Rightarrow> int \<Rightarrow> Product" where
  "shelf_product i price stock = \<lparr>pr_id = i, pr_sellerProfileId = 1, pr_categoryId = 2, pr_name = ''Lamp'', pr_slug = ''lamp'',
     pr_description = None, pr_type = FIXED_PRICE, pr_price = Some price, pr_stockQuantity = stock, pr_imageUrls = [],
     pr_isPublished = True, pr_ratingAverage = ''0.00'', pr_ratingCount = 0\<rparr>"

definition shelf_db :: database where
  "shelf_db = empty_db\<lparr>
     seller_profiles := [\<lparr>sp_id = 1, sp_userId = 9, sp_storeName = ''Store'', sp_storeSlug = ''store'', sp_description = None,
       sp_logoUrl = None, sp_commissionRatePercent = ''10.00'', sp_isActive = True\<rparr>],
     categories := [\<lparr>ca_id = 2, ca_name = ''Light'', ca_slug = ''light'', ca_parentId = None, ca_iconUrl = None, ca_sortOrder = 0, ca_isActive = True\<rparr>],
     products := [shelf_product 5 ''10.00'' 3, shelf_product 6 ''30.00'' 3, shelf_product 7 ''10.00'' 0]\<rparr>"

definition cheap_in_stock :: CatalogSearchQuery where
  "cheap_in_stock = \<lparr>cq_search = None, cq_categoryId = Some 2, cq_sellerId = None, cq_minPrice = None, cq_maxPrice = Some 20,
     cq_minRating = None, cq_available = Some True, cq_type = None, cq_page = 1, cq_pageSize = 20, cq_sort = None\<rparr>"


end
