(* ===== verification/Seller_Api.thy ===== *)
theory Seller_Api
  imports Routes Sellers Seller_Orders Order_Views Seller_Auctions Catalog Disputes
begin

text \<open>
  The endpoints of sellers that change something: the controllers look up the store of the account in the token
  and call the service with its id, never with one from the request.
\<close>

section \<open>The handlers\<close>

text \<open>\<open>sellersService.findProfileByUserId(user.id)\<close>; the guards have set the user.\<close>

definition my_store :: "JwtPayload option \<Rightarrow> database \<Rightarrow> SellerProfile result" where
  "my_store user d = (case user of None \<Rightarrow> Inl (PlainError ''TypeError'') | Some u \<Rightarrow> findProfileByUserId (jwt_sub u) d)"

definition as_seller ::
  "JwtPayload option \<Rightarrow> (uuid \<Rightarrow> sys \<Rightarrow> 'a result \<times> sys) \<Rightarrow> sys \<Rightarrow> 'a result \<times> sys" where
  "as_seller user act s =
     (case my_store user (db s) of Inl err \<Rightarrow> (Inl err, s) | Inr profile \<Rightarrow> act (sp_id profile) s)"

definition patch_order_status ::
  "JwtPayload option \<Rightarrow> uuid \<Rightarrow> SellerOrderStatus \<Rightarrow> uuid \<Rightarrow> sys \<Rightarrow> SellerOrderDetailView result \<times> sys" where
  "patch_order_status user i status correlationId = as_seller user (\<lambda>k s.
     case updateStatus (BySeller k) i status correlationId s of
       (Inl err, s1) \<Rightarrow> (Inl err, s1) | (Inr _, s1) \<Rightarrow> (seller_findMineById k i (db s1), s1))"

definition post_order_cancel ::
  "JwtPayload option \<Rightarrow> uuid \<Rightarrow> uuid \<Rightarrow> sys \<Rightarrow> SellerOrderDetailView result \<times> sys" where
  "post_order_cancel user i correlationId = as_seller user (\<lambda>k s.
     case cancel_seller_order (BySeller k) i correlationId s of
       (Inl err, s1) \<Rightarrow> (Inl err, s1) | (Inr _, s1) \<Rightarrow> (seller_findMineById k i (db s1), s1))"

definition post_auction :: "env \<Rightarrow> JwtPayload option \<Rightarrow> CreateAuctionDto \<Rightarrow> uuid \<Rightarrow> sys \<Rightarrow> AuctionSellerView result \<times> sys" where
  "post_auction e user dto correlationId = as_seller user (\<lambda>k. create_auction e k dto correlationId)"

definition patch_auction ::
  "(sys \<Rightarrow> sys) \<Rightarrow> env \<Rightarrow> JwtPayload option \<Rightarrow> uuid \<Rightarrow> UpdateAuctionDto \<Rightarrow> uuid \<Rightarrow> sys \<Rightarrow> AuctionSellerView result \<times> sys" where
  "patch_auction meanwhile e user i dto correlationId = as_seller user (\<lambda>k. update_auction meanwhile e i k dto correlationId)"

definition post_auction_cancel :: "env \<Rightarrow> JwtPayload option \<Rightarrow> uuid \<Rightarrow> uuid \<Rightarrow> sys \<Rightarrow> AuctionSellerView result \<times> sys" where
  "post_auction_cancel e user i correlationId = as_seller user (\<lambda>k. seller_cancel_auction e i k correlationId)"

definition post_product ::
  "env \<Rightarrow> (nat \<Rightarrow> sys \<Rightarrow> sys) \<Rightarrow> JwtPayload option \<Rightarrow> CreateProductDto \<Rightarrow> uuid \<Rightarrow> sys \<Rightarrow> Product result \<times> sys" where
  "post_product e meanwhile user dto correlationId = as_seller user (\<lambda>k. createForSeller e meanwhile k dto correlationId)"

definition patch_product ::
  "env \<Rightarrow> (sys \<Rightarrow> sys) \<Rightarrow> JwtPayload option \<Rightarrow> uuid \<Rightarrow> UpdateProductDto \<Rightarrow> uuid \<Rightarrow> sys \<Rightarrow> Product result \<times> sys" where
  "patch_product e meanwhile user i dto correlationId = as_seller user (\<lambda>k. updateOwned e meanwhile i k dto correlationId)"

definition delete_product :: "JwtPayload option \<Rightarrow> uuid \<Rightarrow> uuid \<Rightarrow> sys \<Rightarrow> unit result \<times> sys" where
  "delete_product user i correlationId = as_seller user (\<lambda>k. deleteOwned i k correlationId)"

definition patch_dispute_response :: "JwtPayload option \<Rightarrow> uuid \<Rightarrow> string \<Rightarrow> uuid \<Rightarrow> sys \<Rightarrow> DisputeView result \<times> sys" where
  "patch_dispute_response user i response correlationId = as_seller user (\<lambda>k. sellerRespond k i response correlationId)"

section \<open>Sellers act on their own\<close>

datatype seller_request =
    SetOrderStatus uuid SellerOrderStatus | CancelOrder uuid | OfferAuction CreateAuctionDto
  | EditAuction uuid UpdateAuctionDto | WithdrawAuction uuid | EditProduct uuid UpdateProductDto
  | RemoveProduct uuid | RespondToDispute uuid string

text \<open>The handler of a request, with only success or failure of its answer.\<close>

definition only_error :: "'a result \<times> sys \<Rightarrow> unit result \<times> sys" where
  "only_error r = (case r of (Inl err, s) \<Rightarrow> (Inl err, s) | (Inr _, s) \<Rightarrow> (Inr (), s))"

fun seller_action ::
  "env \<Rightarrow> (sys \<Rightarrow> sys) \<Rightarrow> seller_request \<Rightarrow> uuid \<Rightarrow> route \<Rightarrow> JwtPayload option \<Rightarrow> sys \<Rightarrow> unit result \<times> sys" where
  "seller_action e m (SetOrderStatus i st) c r user s = only_error (patch_order_status user i st c s)"
| "seller_action e m (CancelOrder i) c r user s = only_error (post_order_cancel user i c s)"
| "seller_action e m (OfferAuction dto) c r user s = only_error (post_auction e user dto c s)"
| "seller_action e m (EditAuction i dto) c r user s = only_error (patch_auction m e user i dto c s)"
| "seller_action e m (WithdrawAuction i) c r user s = only_error (post_auction_cancel e user i c s)"
| "seller_action e m (EditProduct i dto) c r user s = only_error (patch_product e m user i dto c s)"
| "seller_action e m (RemoveProduct i) c r user s = only_error (delete_product user i c s)"
| "seller_action e m (RespondToDispute i t) c r user s = only_error (patch_dispute_response user i t c s)"

text \<open>The store the object of a request belongs to.\<close>

definition product_owner :: "uuid \<Rightarrow> database \<Rightarrow> uuid option" where
  "product_owner i d = map_option pr_sellerProfileId (by_id pr_id i (products d))"

fun owner_of :: "seller_request \<Rightarrow> database \<Rightarrow> uuid option" where
  "owner_of (SetOrderStatus i st) d = map_option so_sellerProfileId (by_id so_id i (seller_orders d))"
| "owner_of (CancelOrder i) d = map_option so_sellerProfileId (by_id so_id i (seller_orders d))"
| "owner_of (OfferAuction dto) d = product_owner (ca'_productId dto) d"
| "owner_of (EditAuction i dto) d = (case by_id au_id i (auctions d) of None \<Rightarrow> None | Some a \<Rightarrow> product_owner (au_productId a) d)"
| "owner_of (WithdrawAuction i) d = (case by_id au_id i (auctions d) of None \<Rightarrow> None | Some a \<Rightarrow> product_owner (au_productId a) d)"
| "owner_of (EditProduct i dto) d = product_owner i d"
| "owner_of (RemoveProduct i) d = product_owner i d"
| "owner_of (RespondToDispute i t) d = map_option dp_sellerProfileId (by_id dp_id i (disputes d))"

definition api_keys_ok :: "database \<Rightarrow> bool" where
  "api_keys_ok d \<longleftrightarrow> distinct (map so_id (seller_orders d)) \<and> distinct (map pr_id (products d)) \<and> distinct (map dp_id (disputes d))"

lemma find_owned_other:
  assumes "distinct (map key t)" "map_option owner (by_id key i t) \<noteq> Some k"
  shows "find (\<lambda>x. key x = i \<and> owner x = k) t = None"
proof -
  have False if x: "x \<in> set t" "key x = i" "owner x = k" for x
    using by_id_unique [OF assms(1) x(1)] x(2,3) assms(2) by simp
  then show ?thesis by (auto simp: find_None_iff)
qed

lemma order_of_another: "distinct (map so_id (seller_orders d)) \<Longrightarrow> map_option so_sellerProfileId (by_id so_id i (seller_orders d)) \<noteq> Some k \<Longrightarrow>
   lockOwnedSellerOrder (BySeller k) i d = Inl (NotFoundException ''Seller order not found'')"
  using find_owned_other [of so_id "seller_orders d" so_sellerProfileId i k] by (simp add: lockOwnedSellerOrder_def)

lemma product_of_another: "distinct (map pr_id (products d)) \<Longrightarrow> product_owner i d \<noteq> Some k \<Longrightarrow>
   find (\<lambda>p. pr_id p = i \<and> pr_sellerProfileId p = k) (products d) = None"
  unfolding product_owner_def by (rule find_owned_other)

lemma auction_of_another:
  assumes "(case by_id au_id i (auctions d) of None \<Rightarrow> None | Some a \<Rightarrow> product_owner (au_productId a) d) \<noteq> Some k"
  shows "findOwned i k d = Inl (NotFoundException ''Auction not found'')"
  using assms by (auto simp: findOwned_def product_owner_def split: option.splits)

lemma auction_lock_of_another:
  assumes dist: "distinct (map pr_id (products d))"
    and other: "(case by_id au_id i (auctions d) of None \<Rightarrow> None | Some a \<Rightarrow> product_owner (au_productId a) d) \<noteq> Some k"
  shows "lockOwnedAuction (SellerActor k) i d = Inl (NotFoundException ''Auction not found'')"
proof (cases "by_id au_id i (auctions d)")
  case None
  then show ?thesis by (simp add: lockOwnedAuction_def)
next
  case (Some a)
  have "find (\<lambda>p. pr_id p = au_productId a \<and> pr_sellerProfileId p = k) (products d) = None"
    by (rule product_of_another [OF dist]) (use other Some in simp)
  then have "\<not> (\<exists>p \<in> set (products d). pr_id p = au_productId a \<and> pr_sellerProfileId p = k)"
    by (auto simp: find_None_iff)
  then show ?thesis using Some by (simp add: lockOwnedAuction_def)
qed

lemma dispute_of_another: "distinct (map dp_id (disputes d)) \<Longrightarrow> map_option dp_sellerProfileId (by_id dp_id i (disputes d)) \<noteq> Some k \<Longrightarrow>
   find (\<lambda>r. dp_id r = i \<and> dp_sellerProfileId r = k) (disputes d) = None"
  by (rule find_owned_other)

lemma refused_action:
  assumes store: "my_store user (db s) = Inr profile" and keys: "api_keys_ok (db s)"
    and foreign: "owner_of rq (db s) \<noteq> Some (sp_id profile)"
  shows "\<exists>m. seller_action e meanwhile rq c r user s = (Inl (NotFoundException m), s)"
proof (cases rq)
  case (SetOrderStatus i st)
  then show ?thesis using store order_of_another [where d = "db s" and k = "sp_id profile" and i = i] keys foreign
    by (simp add: api_keys_ok_def only_error_def patch_order_status_def as_seller_def updateStatus_def transaction_def runUpdateStatus_def)
next
  case (CancelOrder i)
  then show ?thesis using store order_of_another [where d = "db s" and k = "sp_id profile" and i = i] keys foreign
    by (simp add: api_keys_ok_def only_error_def post_order_cancel_def as_seller_def cancel_seller_order_def transaction_def runCancelSellerOrder_def)
next
  case (OfferAuction dto)
  then show ?thesis using store product_of_another [where d = "db s" and k = "sp_id profile" and i = "ca'_productId dto"] keys foreign
    by (simp add: api_keys_ok_def only_error_def post_auction_def as_seller_def create_auction_def check_new_auction_def)
next
  case (EditAuction i dto)
  then show ?thesis using store auction_of_another [where d = "db s" and k = "sp_id profile" and i = i] foreign
    by (simp add: only_error_def patch_auction_def as_seller_def update_auction_def check_edit_def)
next
  case (WithdrawAuction i)
  then show ?thesis using store auction_lock_of_another [where d = "db s" and k = "sp_id profile" and i = i] keys foreign
    by (simp add: api_keys_ok_def only_error_def post_auction_cancel_def as_seller_def seller_cancel_auction_def cancel_auction_def
        transaction_def runCancelTransaction_def)
next
  case (EditProduct i dto)
  then show ?thesis using store product_of_another [where d = "db s" and k = "sp_id profile" and i = i] keys foreign
    by (simp add: api_keys_ok_def only_error_def patch_product_def as_seller_def updateOwned_def findOwnedById_def)
next
  case (RemoveProduct i)
  then show ?thesis using store product_of_another [where d = "db s" and k = "sp_id profile" and i = i] keys foreign
    by (simp add: api_keys_ok_def only_error_def delete_product_def as_seller_def deleteOwned_def findOwnedById_def)
next
  case (RespondToDispute i t)
  then show ?thesis using store dispute_of_another [where d = "db s" and k = "sp_id profile" and i = i] keys foreign
    by (simp add: api_keys_ok_def only_error_def patch_dispute_response_def as_seller_def sellerRespond_def transaction_def runSellerRespond_def)
qed

lemma no_store: "my_store user (db s) = Inl err \<Longrightarrow> seller_action e meanwhile rq c r user s = (Inl err, s)"
  by (cases rq) (simp_all add: only_error_def patch_order_status_def post_order_cancel_def post_auction_def patch_auction_def
      post_auction_cancel_def patch_product_def delete_product_def patch_dispute_response_def as_seller_def)


section \<open>Witness\<close>

definition seller_crypto :: crypto where
  "seller_crypto = plain_crypto\<lparr>verifyAsync := (\<lambda>t token. if token = ''seller'' then
     Some \<lparr>jwt_sub = 9, jwt_email = ''s@x'', jwt_role = UserRole.SELLER\<rparr> else None)\<rparr>"

definition stall_product :: "uuid \<Rightarrow> uuid \<Rightarrow> Product" where
  "stall_product i k = \<lparr>pr_id = i, pr_sellerProfileId = k, pr_categoryId = 2, pr_name = ''Lamp'', pr_slug = ''lamp'',
     pr_description = None, pr_type = FIXED_PRICE, pr_price = Some ''10.00'', pr_stockQuantity = 1, pr_imageUrls = [],
     pr_isPublished = True, pr_ratingAverage = ''0.00'', pr_ratingCount = 0\<rparr>"

definition stall_sys :: sys where
  "stall_sys = session_sys\<lparr>db := empty_db\<lparr>
     seller_profiles := [\<lparr>sp_id = 1, sp_userId = 9, sp_storeName = ''Store'', sp_storeSlug = ''store'', sp_description = None,
       sp_logoUrl = None, sp_commissionRatePercent = ''10.00'', sp_isActive = True\<rparr>],
     products := [stall_product 5 1, stall_product 6 4]\<rparr>\<rparr>"

abbreviation "delete_stall i \<equiv> serve seller_crypto edge_env False DELETE [''seller'', ''products'', ''x''] (Some ''Bearer seller'')
  (seller_action edge_env (\<lambda>t. t) (RemoveProduct i) 0) stall_sys"


end
