(* ===== verification/Spec2Isabelle.thy ===== *)
theory Spec2Isabelle
  imports Prelude Money Store Order_Domain Auction_Domain Bidding Auction_Lifecycle Order_Rows Checkout
    Auction_Checkout Consumers Seller_Orders Refunds Order_Views Disputes Cart Seller_Auctions
    Outbox Dead_Letters Slug Accounts Catalog Reviews Sellers Search_Sync Notifications Realtime
    Web_Cart Web_Client Catalog_Cache Doubles Analytics_Csv Analytics
    Routes Auth_Controller Search_Engine Seller_Api
begin

text \<open>
  A model of the vendor marketplace and proofs of what makes it correct: the backend (\<open>src/backend/src\<close>, NestJS
  with TypeORM on Postgres, Redis, BullMQ and Meilisearch) and those parts of the web client (\<open>src/frontend/src\<close>)
  that decide something. Sellers offer products at a fixed price or by auction; customers buy from a cart or by
  winning an auction; an order is split into one seller order per seller, whose money is booked in a ledger; seller
  orders are shipped, cancelled, refunded, disputed and reviewed. Every change writes an event into an outbox
  table; a relay puts the events on queues, whose consumers keep the search index, tell the parties and update
  open pages.

  The state. Theory Store has one record per TypeORM entity and one list of rows per table, in the order the rows
  were inserted; \<open>sys\<close> adds the metric counters and the commands sent to Redis, BullMQ, the search index and the
  sockets (\<open>effects\<close>). A handler is a function from \<open>sys\<close> to a result and a new \<open>sys\<close>; a throw is \<open>Inl\<close> of an
  \<open>app_error\<close>. \<open>transaction\<close> undoes the rows, not the counters or commands, when its body throws. The services
  that decide inside a transaction lock the row they decide on or write through a unique index, so that concurrency
  is the interleaving of whole transactions; the services that read, then write without a transaction take an
  argument \<open>meanwhile\<close>, what other requests do in between. Unique indexes and foreign keys are tests in the insert
  functions.

  The interfaces. Prelude has the locale \<open>repository\<close> (load a row by id, change it, save it), interpreted for the
  tables that are saved that way, and the locale \<open>status_machine\<close>, interpreted for the policies of auctions, seller
  orders and disputes; Order\_Rows has \<open>claim_ledger\<close> (keys that are claimed once), Consumers has
  \<open>dedup_consumer\<close>, the contract of every consumer of events, interpreted for the start of processing, the
  notifications and the live updates.

  Which theory models what:
  \<^item> Money: \<open>common/utils/money.ts\<close>, exact integer cents; JavaScript's bigint is \<open>int\<close>. Doubles: the places where
    the code computes with JavaScript numbers instead.
  \<^item> Order\_Domain, Auction\_Domain: the policies and views in \<open>modules/orders/domain\<close> and \<open>modules/bidding/domain\<close>.
  \<^item> Bidding: \<open>bid-placement.service.ts\<close>, \<open>bidding.service.ts\<close>. Auction\_Lifecycle: finalization, expiry, cancellation,
    the job consumer and the sweep, with an inductive relation of every operation on auctions. Seller\_Auctions:
    auctions as sellers and admins manage them. Auction\_Checkout: the winner's purchase.
  \<^item> Cart, Order\_Rows, Checkout: the cart, the rows of a purchase and what makes its books consistent, the checkout.
  \<^item> Seller\_Orders, Refunds, Disputes: \<open>seller-order-lifecycle.service.ts\<close>, \<open>refunds.service.ts\<close>, \<open>modules/disputes\<close>.
    Refunds and Disputes close with the step relation of everything that can happen to a seller order.
    Order\_Views: the lists and details of orders for customers, sellers and admins.
  \<^item> Slug, Catalog, Reviews, Sellers: categories and products, reviews and their aggregate on the product,
    applications and stores. Catalog\_Cache: the cache in front of public reads.
  \<^item> Outbox, Dead\_Letters: the relay, and the jobs that used up their attempts. Search\_Sync, Search\_Engine: the
    documents of the index, their consumer, the request to the engine, the fallback in Postgres. Notifications: who is
    told about an event. Realtime: rooms, sockets and broadcasts (\<open>websocket\<close>).
  \<^item> Accounts, Auth\_Controller: accounts, tokens and sessions. Routes: every route of the API with its guards, and the
    exception filter. Seller\_Api: the endpoints of sellers.
  \<^item> Analytics, Analytics\_Csv: the reports, their SQL as functions of the rows, and the CSV export.
  \<^item> Web\_Cart, Web\_Client: the optimistic cart of the page (\<open>features/cart/hooks.ts\<close>), the renewal of its access
    token (\<open>api/client.ts\<close>, \<open>features/auth\<close>) and the policies it repeats.

  What the lemmas show. Every operation that writes has a lemma that gives the rows after each of its branches (named
  after the operation, with \<open>_Inr\<close>, \<open>_run\<close> or \<open>_cases\<close>), and one that it keeps the invariant of its tables:
  \<open>bidding_inv\<close> (bids against the auction's price and winner), \<open>books_ok\<close> (orders, seller orders, items and ledger
  agree to the cent), \<open>refunds_ok\<close>, \<open>disputes_ok\<close>, \<open>cart_ok\<close>, \<open>accounts_ok\<close> and those of the catalogue, the reviews
  and the sellers. The properties then state, for a whole handler, what it writes and answers, that a failure
  leaves no row behind and that a retry with the same key writes nothing; over all interleavings, that statuses
  only move along the policies and the invariants hold; for the pipeline of events, that the relay is a mailbox that
  delivers at least once and that the index catches up with the tables; at the edge, who gets past the guards, and
  that sellers reach only what is theirs. Some properties and some lemmas (\<open>first_invalidation_is_lost\<close>,
  \<open>percentages_bounded\<close>) record behaviour that contradicts a comment or looks unintended; they state what the code
  does.

  Choices and bounds. There is no fuel of the model's own: recursion is structural or has a measure, and the only
  counters are the attempts the code counts itself (the slug of a product, a retry after a lost race). Uuids are
  natural numbers, fresh from a counter. A handler reads the clock once. Money columns hold decimal text; what a
  \<open>numeric(12,2)\<close> column returns for a written text is a parameter (\<open>numeric2\<close>), and the properties that depend on
  it assume the documented canonical form (\<open>numeric_ok\<close>). Error messages keep their fixed part. \<open>ORDER BY createdAt
  DESC\<close> is the reverse of insertion order.

  Parameters for what is not in the repository: hashing, signing and verification of tokens (\<open>crypto\<close>), the drawn
  tokens and slug suffixes, \<open>AVG\<close> with its rounding, \<open>ILIKE\<close>, whether Redis, a queue or the search engine answers and
  what, \<open>DATE_TRUNC\<close> in the session's time zone, and the rounding \<open>fl\<close> of doubles, of which \<open>ieee\<close> and \<open>doubles_ok\<close>
  state the documented behaviour.

  Not modelled: rendering, routing and forms of the web client and its product pictures; request DTO decorators (the
  handlers take typed arguments), framework modules and configuration; migrations (the indexes and keys the
  services rely on are in the insert functions); scripts and demo data; the Redis adapter of the sockets; logging,
  duration histograms and the text of \<open>/metrics\<close>; \<open>updatedAt\<close> columns and the description text of ledger entries.
  The handlers of customers' and admins' controllers only pass their arguments to the services and are not repeated.
\<close>

end
